(* ===== verification/Prelude.thy ===== *)
theory Prelude
  imports Main "HOL-Library.Word"
begin

text \<open>
  Shared vocabulary of the development: the result type of fallible operations and its
  sequencing operator, the integer types of the source at their widths, instants of time,
  and the lemma collections and generic lemmas on lists and integers the component
  theories rely on.

  Go's \<^verbatim>\<open>(T, error)\<close> returns and panics become values of \<open>error + 'a\<close>: a
  returned error or a panic aborts the enclosing message or block step, exactly as the
  transaction runner of the chain discards the state of a failing message.
\<close>

section \<open>Results\<close>

text \<open>
  \<open>ErrNotFound\<close> is \<^verbatim>\<open>collections.ErrNotFound\<close>, which the code tests for with
  \<^verbatim>\<open>errors.Is\<close>; \<open>ErrPanic\<close> is a Go panic; \<open>Err s\<close> is every other error, \<open>s\<close> the
  sentinel's name or the message of the source.
\<close>

datatype error = ErrNotFound | ErrPanic | Err string

type_synonym 'a result = "error + 'a"

definition bindR :: "'a result \<Rightarrow> ('a \<Rightarrow> 'b result) \<Rightarrow> 'b result" where
  "bindR m f = (case m of Inl e \<Rightarrow> Inl e | Inr x \<Rightarrow> f x)"

definition guardR :: "bool \<Rightarrow> error \<Rightarrow> unit result" where
  "guardR b e = (if b then Inr () else Inl e)"

text \<open>A lookup that fails with \<open>ErrNotFound\<close>, the behaviour of \<^verbatim>\<open>Get\<close> on a collection.\<close>

definition getR :: "'a option \<Rightarrow> 'a result" where
  "getR x = (case x of None \<Rightarrow> Inl ErrNotFound | Some y \<Rightarrow> Inr y)"

text \<open>Threading a state through a list of steps, stopping at the first error (a Go
  \<^verbatim>\<open>for\<close> loop with an early return).\<close>

fun foldR :: "('a \<Rightarrow> 's \<Rightarrow> 's result) \<Rightarrow> 'a list \<Rightarrow> 's \<Rightarrow> 's result" where
  "foldR f [] s = Inr s"
| "foldR f (x # xs) s = bindR (f x s) (foldR f xs)"

named_theorems result_simps "rewriting of results"

lemma bindR_simps [simp, result_simps]:
  "bindR (Inl e) f = Inl e"
  "bindR (Inr x) f = f x"
  by (simp_all add: bindR_def)

lemma bindR_eq_Inr [simp, result_simps]:
  "bindR m f = Inr y \<longleftrightarrow> (\<exists>x. m = Inr x \<and> f x = Inr y)"
  by (cases m) simp_all

lemma bindR_eq_Inl [result_simps]:
  "bindR m f = Inl e \<longleftrightarrow> m = Inl e \<or> (\<exists>x. m = Inr x \<and> f x = Inl e)"
  by (cases m) simp_all

lemma bindR_assoc: "bindR (bindR m f) g = bindR m (\<lambda>x. bindR (f x) g)"
  by (cases m) simp_all

lemma bindR_cong [fundef_cong]:
  "m = m' \<Longrightarrow> (\<And>x. m' = Inr x \<Longrightarrow> f x = f' x) \<Longrightarrow> bindR m f = bindR m' f'"
  by (cases m') simp_all

lemma guardR_eq_Inr [simp, result_simps]: "guardR b e = Inr u \<longleftrightarrow> b"
  by (simp add: guardR_def)

lemma guardR_simps [simp, result_simps]:
  "guardR True e = Inr ()" "guardR False e = Inl e"
  by (simp_all add: guardR_def)

lemma guardR_eq_Inl [simp, result_simps]: "guardR b e = Inl e' \<longleftrightarrow> \<not> b \<and> e' = e"
  by (auto simp: guardR_def)

lemma getR_simps [simp, result_simps]:
  "getR None = Inl ErrNotFound" "getR (Some x) = Inr x"
  by (simp_all add: getR_def)

lemma getR_eq_Inr [simp, result_simps]: "getR m = Inr x \<longleftrightarrow> m = Some x"
  by (cases m) simp_all

lemma getR_eq_Inl [simp, result_simps]: "getR m = Inl e \<longleftrightarrow> m = None \<and> e = ErrNotFound"
  by (cases m) auto

lemma foldR_append: "foldR f (xs @ ys) s = bindR (foldR f xs s) (foldR f ys)"
  by (induction xs arbitrary: s) (auto simp: bindR_assoc intro!: bindR_cong)

text \<open>The invariant rule of the loop: a property every successful step keeps holds at the
  end of a successful run.\<close>

lemma foldR_invariant:
  assumes "foldR f xs s = Inr s'" and "I s"
    and "\<And>x s s'. x \<in> set xs \<Longrightarrow> I s \<Longrightarrow> f x s = Inr s' \<Longrightarrow> I s'"
  shows "I s'"
  using assms
proof (induction xs arbitrary: s)
  case Nil
  then show ?case by simp
next
  case (Cons x xs)
  from Cons.prems(1) obtain t where t: "f x s = Inr t" "foldR f xs t = Inr s'" by auto
  have "I t" using Cons.prems(2,3) t(1) by (meson list.set_intros(1))
  then show ?case using Cons.IH [OF t(2)] Cons.prems(3) by (meson list.set_intros(2))
qed

text \<open>An error wrapped in one with another message; a panic stays a panic.\<close>

definition wrapR :: "string \<Rightarrow> 'a result \<Rightarrow> 'a result" where
  "wrapR msg m = (case m of Inl ErrPanic \<Rightarrow> Inl ErrPanic | Inl _ \<Rightarrow> Inl (Err msg) | Inr x \<Rightarrow> Inr x)"

lemma wrapR_Inr [simp]: "wrapR msg m = Inr x \<longleftrightarrow> m = Inr x"
  by (auto simp: wrapR_def split: sum.splits error.splits)

section \<open>Integers\<close>

text \<open>
  \<^verbatim>\<open>uint64\<close> is a 64-bit word: its arithmetic wraps. \<^verbatim>\<open>int64\<close> values are kept as
  integers with the wrap-around written out by \<open>i64\<close>. \<^verbatim>\<open>math.Int\<close> is an integer:
  the code's amounts stay far below the 256 bits at which that type panics.
\<close>

type_synonym u64 = "64 word"

definition i64 :: "int \<Rightarrow> int" where
  "i64 x = (x + 2 ^ 63) mod 2 ^ 64 - 2 ^ 63"

lemma i64_id: "- (2 ^ 63) \<le> x \<Longrightarrow> x < 2 ^ 63 \<Longrightarrow> i64 x = x"
  by (simp add: i64_def)

lemma i64_bounds: "- (2 ^ 63) \<le> i64 x \<and> i64 x < 2 ^ 63"
proof -
  have "0 \<le> (x + 2 ^ 63) mod 2 ^ 64" and "(x + 2 ^ 63) mod 2 ^ 64 < (2 ^ 64 :: int)"
    by simp_all
  then show ?thesis by (simp add: i64_def)
qed

text \<open>Go's integer division, also that of \<^verbatim>\<open>math.Int.Quo\<close>, truncates towards zero.\<close>

definition quoT :: "int \<Rightarrow> int \<Rightarrow> int" where
  "quoT a b = sgn a * sgn b * (\<bar>a\<bar> div \<bar>b\<bar>)"

lemma quoT_nonneg: "0 \<le> a \<Longrightarrow> 0 < b \<Longrightarrow> quoT a b = a div b"
  by (cases "a = 0") (simp_all add: quoT_def)

lemma quoT_bounds:
  assumes "0 \<le> a" and "0 < b"
  shows "0 \<le> quoT a b \<and> quoT a b \<le> a"
proof -
  have "a div b \<le> a"
  proof -
    have "a div b \<le> a div 1" using assms by (intro zdiv_mono2) simp_all
    then show ?thesis by simp
  qed
  then show ?thesis using assms by (simp add: quoT_nonneg pos_imp_zdiv_nonneg_iff)
qed

lemma quoT_mult: "0 < b \<Longrightarrow> quoT (n * b) b = n"
  by (simp add: quoT_def sgn_mult abs_mult sgn_mult_abs)

text \<open>\<^verbatim>\<open>math.Int.Uint64()\<close> panics outside the range of \<^verbatim>\<open>uint64\<close>.\<close>

definition Uint64 :: "int \<Rightarrow> u64 result" where
  "Uint64 x = (if 0 \<le> x \<and> x < 2 ^ 64 then Inr (word_of_int x) else Inl ErrPanic)"

lemma Uint64_Inr: "Uint64 x = Inr w \<longleftrightarrow> 0 \<le> x \<and> x < 2 ^ 64 \<and> w = word_of_int x"
  by (auto simp: Uint64_def)

lemma Uint64_uint: "Uint64 x = Inr w \<Longrightarrow> uint w = x"
  by (auto simp: Uint64_def uint_word_of_int split: if_splits)

lemma uint_u64_bounds: "0 \<le> uint (w :: u64) \<and> uint w < 2 ^ 64"
  using uint_range_size [of w] by (simp add: word_size)

lemma i64_uint: "uint (w :: u64) < 2 ^ 63 \<Longrightarrow> i64 (uint w) = uint w"
  using uint_u64_bounds [of w] by (intro i64_id) linarith+

lemma uint_add_no_overflow:
  "uint (a :: u64) + uint b < 2 ^ 64 \<Longrightarrow> uint (a + b) = uint a + uint b"
  by (simp add: uint_word_ariths)

lemma u64_less_succ:
  assumes "(k :: u64) + 1 \<noteq> 0"
  shows "k < k + 1" and "uint (k + 1) = uint k + 1"
proof -
  have u: "uint (k + 1) = (uint k + 1) mod 2 ^ 64" by (simp add: uint_word_ariths)
  have "uint (k + 1) \<noteq> 0" using assms by (simp add: uint_0_iff)
  then have "uint k + 1 \<noteq> 2 ^ 64" using u by auto
  then have "uint k + 1 < 2 ^ 64" using uint_u64_bounds [of k] by linarith
  then show e: "uint (k + 1) = uint k + 1" using u uint_u64_bounds [of k] by (simp add: mod_pos_pos_trivial)
  show "k < k + 1" by (simp add: word_less_def e)
qed

lemma uint_sub_no_underflow:
  "uint (b :: u64) \<le> uint a \<Longrightarrow> uint (a - b) = uint a - uint b"
  by (simp add: uint_sub_lem [symmetric])

section \<open>Bytes, addresses, time\<close>

text \<open>
  Byte strings (\<^verbatim>\<open>[]byte\<close>, \<^verbatim>\<open>string\<close>) are lists of characters, a character being a
  byte. An account address (\<^verbatim>\<open>sdk.AccAddress\<close>) is its bytes. A token holder as the bank
  sees it is an account or a module account, named as in the source.
\<close>

type_synonym bytes = string

type_synonym addr = bytes

type_synonym denom = string

datatype holder = User addr | Module string

text \<open>An instant is its number of nanoseconds since the Unix epoch; durations are
  nanoseconds. \<open>zero_time\<close> is Go's zero value of \<^verbatim>\<open>time.Time\<close>, 1 January of year 1.\<close>

type_synonym time = int

definition zero_time :: time where
  "zero_time = - 62135596800 * 1000000000"

abbreviation hour :: int where
  "hour \<equiv> 3600 * 1000000000"

text \<open>The block the code runs in: \<^verbatim>\<open>ctx.BlockTime()\<close> and \<^verbatim>\<open>ctx.BlockHeight()\<close>.\<close>

record ctx =
  BlockTime :: time
  BlockHeight :: int

text \<open>\<^verbatim>\<open>strings.ToLower\<close> and \<^verbatim>\<open>strings.EqualFold\<close> on the ASCII strings the chain uses
  for addresses, query types and value types.\<close>

definition lower_char :: "char \<Rightarrow> char" where
  "lower_char c = (let n = (of_char c :: nat) in if 65 \<le> n \<and> n \<le> 90 then char_of (n + 32) else c)"

definition toLower :: "string \<Rightarrow> string" where
  "toLower s = map lower_char s"

definition equalFold :: "string \<Rightarrow> string \<Rightarrow> bool" where
  "equalFold a b = (toLower a = toLower b)"

lemma of_char_lt_256: "(of_char (c :: char) :: nat) < 256"
  using of_char_mod_256 [of c, where 'a = nat] by (metis mod_less_divisor zero_less_numeral)

lemma of_lower_char:
  "(of_char (lower_char c) :: nat) =
     (let n = of_char c in if 65 \<le> n \<and> n \<le> 90 then n + 32 else n)"
  by (simp add: lower_char_def Let_def)

lemma lower_char_idem [simp]: "lower_char (lower_char c) = lower_char c"
proof -
  have "(of_char (lower_char (lower_char c)) :: nat) = of_char (lower_char c)"
    by (simp add: of_lower_char [of "lower_char c"] of_lower_char [of c] Let_def)
  then show ?thesis by (simp only: of_char_eq_iff)
qed

lemma toLower_idem [simp]: "toLower (toLower s) = toLower s"
  by (simp add: toLower_def o_def)

definition BondDenom :: denom where
  "BondDenom = ''loya''"

definition PowerReduction :: int where
  "PowerReduction = 1000000"

definition OneTrb :: int where
  "OneTrb = 1000000"

definition OnePercent :: int where
  "OnePercent = 10000"

section \<open>Sums over lists\<close>

lemma sum_list_map_add:
  "sum_list (map (\<lambda>x. f x + g x) xs) = sum_list (map f xs) + sum_list (map g xs :: int list)"
  by (induction xs) simp_all

lemma sum_list_map_le:
  "(\<And>x. x \<in> set xs \<Longrightarrow> f x \<le> (g x :: int)) \<Longrightarrow> sum_list (map f xs) \<le> sum_list (map g xs)"
  by (induction xs) (auto intro: add_mono)

lemma sum_list_map_mult:
  "sum_list (map (\<lambda>x. f x * c) xs) = sum_list (map f xs) * (c :: int)"
  by (induction xs) (simp_all add: distrib_right)

lemma mult_div_floor: "0 < (d :: int) \<Longrightarrow> d * (a div d) \<le> a"
  by (simp add: minus_mod_eq_mult_div [symmetric])

text \<open>Integer division never hands out more than it divides: the shares of a list of
  claims sum to at most the pot when the claims sum to at most the divisor.\<close>

lemma sum_list_div_le:
  assumes "0 < (d :: int)"
  shows "sum_list (map (\<lambda>x. f x div d) xs) \<le> sum_list (map f xs) div d"
proof (induction xs)
  case Nil
  then show ?case by simp
next
  case (Cons x xs)
  have "f x div d + sum_list (map f xs) div d \<le> (f x + sum_list (map f xs)) div d"
  proof -
    have "d * (f x div d) \<le> f x" and "d * (sum_list (map f xs) div d) \<le> sum_list (map f xs)"
      using assms by (simp_all add: mult_div_floor)
    then have "d * (f x div d + sum_list (map f xs) div d) \<le> f x + sum_list (map f xs)"
      by (simp add: distrib_left)
    then show ?thesis using assms
      by (metis mult.commute nonzero_mult_div_cancel_left order_less_irrefl zdiv_mono1)
  qed
  then show ?case using Cons.IH by simp
qed

lemma share_sum_le_pot:
  assumes "0 < (d :: int)" and "0 \<le> pot"
    and "sum_list (map f xs) \<le> d"
  shows "sum_list (map (\<lambda>x. f x * pot div d) xs) \<le> pot"
proof -
  have "sum_list (map (\<lambda>x. f x * pot div d) xs) \<le> sum_list (map (\<lambda>x. f x * pot) xs) div d"
    by (rule sum_list_div_le [OF assms(1)])
  also have "\<dots> = (sum_list (map f xs) * pot) div d"
    by (simp add: sum_list_map_mult)
  also have "\<dots> \<le> (d * pot) div d"
    using assms by (intro zdiv_mono1 mult_right_mono) simp_all
  finally show ?thesis using assms(1) by simp
qed

end
