(* ===== verification/Bank.thy ===== *)
theory Bank
  imports Prelude
begin

text \<open>
  The bank keeper, code of the SDK: a record of operations over the state \<open>'w\<close> of the
  rest of the chain, a parameter of every definition that moves tokens. The three
  \<^verbatim>\<open>SendCoinsFrom\<dots>To\<dots>\<close> methods are one operation over holders. Each operation takes
  the denomination and amount of the one coin the callers build with
  \<^verbatim>\<open>sdk.NewCoins(sdk.NewCoin(denom, amount))\<close>, so that the panic of \<^verbatim>\<open>NewCoin\<close> on a
  negative amount is an error of the operation. \<open>bank_laws\<close> states the documented
  effects on balances.
\<close>

record 'w bank_keeper =
  bkGetBalance :: "'w \<Rightarrow> holder \<Rightarrow> denom \<Rightarrow> int"
  bkMintCoins :: "string \<Rightarrow> denom \<Rightarrow> int \<Rightarrow> 'w \<Rightarrow> 'w result"
  bkBurnCoins :: "string \<Rightarrow> denom \<Rightarrow> int \<Rightarrow> 'w \<Rightarrow> 'w result"
  bkSendCoins :: "holder \<Rightarrow> holder \<Rightarrow> denom \<Rightarrow> int \<Rightarrow> 'w \<Rightarrow> 'w result"
  bkInputOutputCoins :: "holder \<Rightarrow> denom \<Rightarrow> int \<Rightarrow> (holder \<times> int) list \<Rightarrow> 'w \<Rightarrow> 'w result"

text \<open>The change of the balance of \<open>h\<close> in \<open>d\<close> by a transfer of \<open>n\<close> of \<open>d'\<close> from
  \<open>a\<close> to \<open>b\<close>.\<close>

definition moved :: "holder \<Rightarrow> holder \<Rightarrow> denom \<Rightarrow> int \<Rightarrow> holder \<Rightarrow> denom \<Rightarrow> int" where
  "moved a b d' n h d = (if d = d' then (if h = b then n else 0) - (if h = a then n else 0) else 0)"

definition outputs_to :: "(holder \<times> int) list \<Rightarrow> holder \<Rightarrow> int" where
  "outputs_to outs h = sum_list (map snd (filter (\<lambda>o'. fst o' = h) outs))"

definition send_law :: "'w bank_keeper \<Rightarrow> bool" where
  "send_law B \<longleftrightarrow> (\<forall>a b d n w w'. bkSendCoins B a b d n w = Inr w' \<longrightarrow>
     0 \<le> n \<and> n \<le> bkGetBalance B w a d \<and>
     (\<forall>h e. bkGetBalance B w' h e = bkGetBalance B w h e + moved a b d n h e))"

definition mint_law :: "'w bank_keeper \<Rightarrow> bool" where
  "mint_law B \<longleftrightarrow> (\<forall>m d n w w'. bkMintCoins B m d n w = Inr w' \<longrightarrow>
     0 \<le> n \<and> (\<forall>h e. bkGetBalance B w' h e =
       bkGetBalance B w h e + (if h = Module m \<and> e = d then n else 0)))"

definition burn_law :: "'w bank_keeper \<Rightarrow> bool" where
  "burn_law B \<longleftrightarrow> (\<forall>m d n w w'. bkBurnCoins B m d n w = Inr w' \<longrightarrow>
     0 \<le> n \<and> n \<le> bkGetBalance B w (Module m) d \<and> (\<forall>h e. bkGetBalance B w' h e =
       bkGetBalance B w h e - (if h = Module m \<and> e = d then n else 0)))"

definition input_output_law :: "'w bank_keeper \<Rightarrow> bool" where
  "input_output_law B \<longleftrightarrow> (\<forall>a d n outs w w'. bkInputOutputCoins B a d n outs w = Inr w' \<longrightarrow>
     n = sum_list (map snd outs) \<and> n \<le> bkGetBalance B w a d \<and> (\<forall>h e. bkGetBalance B w' h e =
       bkGetBalance B w h e + (if e = d then outputs_to outs h - (if h = a then n else 0) else 0)))"

definition bank_laws :: "'w bank_keeper \<Rightarrow> bool" where
  "bank_laws B \<longleftrightarrow> send_law B \<and> mint_law B \<and> burn_law B \<and> input_output_law B"

named_theorems bank_effects "effects of successful bank calls on balances"

lemma bank_send [bank_effects]:
  assumes "bank_laws B" and "bkSendCoins B a b d n w = Inr w'"
  shows "bkGetBalance B w' h e = bkGetBalance B w h e + moved a b d n h e"
  using assms unfolding bank_laws_def send_law_def by metis

lemma bank_send_amount:
  assumes "bank_laws B" and "bkSendCoins B a b d n w = Inr w'"
  shows "0 \<le> n \<and> n \<le> bkGetBalance B w a d"
  using assms unfolding bank_laws_def send_law_def by metis

lemma bank_mint [bank_effects]:
  assumes "bank_laws B" and "bkMintCoins B m d n w = Inr w'"
  shows "bkGetBalance B w' h e = bkGetBalance B w h e + (if h = Module m \<and> e = d then n else 0)"
  using assms unfolding bank_laws_def mint_law_def by metis

lemma bank_burn [bank_effects]:
  assumes "bank_laws B" and "bkBurnCoins B m d n w = Inr w'"
  shows "bkGetBalance B w' h e = bkGetBalance B w h e - (if h = Module m \<and> e = d then n else 0)"
  using assms unfolding bank_laws_def burn_law_def by metis

lemma bank_burn_amount:
  assumes "bank_laws B" and "bkBurnCoins B m d n w = Inr w'"
  shows "0 \<le> n \<and> n \<le> bkGetBalance B w (Module m) d"
  using assms unfolding bank_laws_def burn_law_def by metis

lemma bank_input_output [bank_effects]:
  assumes "bank_laws B" and "bkInputOutputCoins B a d n outs w = Inr w'"
  shows "bkGetBalance B w' h e =
    bkGetBalance B w h e + (if e = d then outputs_to outs h - (if h = a then n else 0) else 0)"
  using assms unfolding bank_laws_def input_output_law_def by metis

section \<open>A bank inside a larger state\<close>

text \<open>A module that holds the state of another one, with the bank inside it, calls the same
  operations on the part.\<close>

definition liftW :: "('s \<Rightarrow> 'w) \<Rightarrow> ('w \<Rightarrow> 's \<Rightarrow> 's) \<Rightarrow> ('w \<Rightarrow> 'w result) \<Rightarrow> 's \<Rightarrow> 's result" where
  "liftW get put f s = bindR (f (get s)) (\<lambda>w. Inr (put w s))"

definition lift_bank :: "('s \<Rightarrow> 'w) \<Rightarrow> ('w \<Rightarrow> 's \<Rightarrow> 's) \<Rightarrow> 'w bank_keeper \<Rightarrow> 's bank_keeper" where
  "lift_bank get put B = \<lparr>
     bkGetBalance = (\<lambda>s. bkGetBalance B (get s)),
     bkMintCoins = (\<lambda>m d n. liftW get put (bkMintCoins B m d n)),
     bkBurnCoins = (\<lambda>m d n. liftW get put (bkBurnCoins B m d n)),
     bkSendCoins = (\<lambda>a b d n. liftW get put (bkSendCoins B a b d n)),
     bkInputOutputCoins = (\<lambda>a d n outs. liftW get put (bkInputOutputCoins B a d n outs))\<rparr>"

lemma liftW_Inr: "liftW get put f s = Inr s' \<longleftrightarrow> (\<exists>w. f (get s) = Inr w \<and> s' = put w s)"
  by (auto simp: liftW_def)

lemma lift_bank_laws:
  assumes "bank_laws B" and "\<And>w s. get (put w s) = w"
  shows "bank_laws (lift_bank get put B)"
  using assms(1)
  by (auto simp: bank_laws_def send_law_def mint_law_def burn_law_def input_output_law_def lift_bank_def liftW_Inr assms(2))

section \<open>A reference ledger\<close>

text \<open>Balances as a function of holder and denomination: an instance of the laws, for
  concrete evaluations.\<close>

type_synonym ledger = "holder \<Rightarrow> denom \<Rightarrow> int"

definition ledger_bank :: "ledger bank_keeper" where
  "ledger_bank = \<lparr>
     bkGetBalance = (\<lambda>w h d. w h d),
     bkMintCoins = (\<lambda>m d n w. if n < 0 then Inl ErrPanic
        else Inr (\<lambda>h e. w h e + (if h = Module m \<and> e = d then n else 0))),
     bkBurnCoins = (\<lambda>m d n w. if n < 0 then Inl ErrPanic
        else if w (Module m) d < n then Inl (Err ''insufficient funds'')
        else Inr (\<lambda>h e. w h e - (if h = Module m \<and> e = d then n else 0))),
     bkSendCoins = (\<lambda>a b d n w. if n < 0 then Inl ErrPanic
        else if w a d < n then Inl (Err ''insufficient funds'')
        else Inr (\<lambda>h e. w h e + moved a b d n h e)),
     bkInputOutputCoins = (\<lambda>a d n outs w.
        if n \<noteq> sum_list (map snd outs) then Inl (Err ''input output mismatch'')
        else if w a d < n then Inl (Err ''insufficient funds'')
        else Inr (\<lambda>h e. w h e + (if e = d then outputs_to outs h - (if h = a then n else 0) else 0)))\<rparr>"

lemma ledger_bank_laws: "bank_laws ledger_bank"
  by (auto simp: bank_laws_def send_law_def mint_law_def burn_law_def input_output_law_def ledger_bank_def split: if_splits)

end
