(* ===== verification/Mint.thy ===== *)
theory Mint
  imports Bank
begin

text \<open>
  The mint module (\<^verbatim>\<open>x/mint\<close>): time-based rewards. Its state is the minter item and the
  extra-reward parameters; every block mints \<open>DailyMintRate\<close> pro rata to the milliseconds
  since the previous block and splits them three quarters to one quarter between the
  time-based-rewards account and the fee collector, and pays extra rewards in the same
  proportion out of a pool. Elapsed time and amounts are \<^verbatim>\<open>int64\<close>: the products wrap, and
  the theorems state the range in which they do not.
\<close>

section \<open>State and parameters\<close>

record minter =
  mPreviousBlockTime :: "time option"
  mBondDenom :: denom
  mInitialized :: bool

record extra_reward_params =
  erDailyExtraRewards :: int
  erPreviousBlockTime :: "time option"
  erBondDenom :: denom

record 'w mint_state =
  Minter :: "minter option"
  ExtraRewardParams :: "extra_reward_params option"
  mintWorld :: 'w

definition DailyMintRate :: int where
  "DailyMintRate = 146940000"

definition DefaultBondDenom :: denom where
  "DefaultBondDenom = ''loya''"

definition MillisecondsInDay :: int where
  "MillisecondsInDay = 24 * 60 * 60 * 1000"

abbreviation mintModule :: holder where
  "mintModule \<equiv> Module ''mint''"

abbreviation tbrPool :: holder where
  "tbrPool \<equiv> Module ''time_based_rewards''"

abbreviation extraPool :: holder where
  "extraPool \<equiv> Module ''extra_rewards_pool''"

abbreviation feeCollector :: holder where
  "feeCollector \<equiv> Module ''fee_collector''"

text \<open>\<^verbatim>\<open>time.Time.Sub\<close> saturates at the range of \<^verbatim>\<open>int64\<close> nanoseconds and
  \<^verbatim>\<open>Duration.Milliseconds\<close> truncates.\<close>

definition timeSub :: "time \<Rightarrow> time \<Rightarrow> int" where
  "timeSub a b = max (- (2 ^ 63)) (min (2 ^ 63 - 1) (a - b))"

definition milliseconds :: "int \<Rightarrow> int" where
  "milliseconds d = quoT d 1000000"

section \<open>Operations\<close>

definition NewMinter :: "denom \<Rightarrow> minter" where
  "NewMinter d = \<lparr>mPreviousBlockTime = None, mBondDenom = d, mInitialized = False\<rparr>"

definition DefaultMinter :: minter where
  "DefaultMinter = NewMinter DefaultBondDenom"

definition validateMinter :: "minter \<Rightarrow> unit result" where
  "validateMinter m =
     (if mPreviousBlockTime m = None then Inl (Err ''previous block time cannot be nil'')
      else if mBondDenom m = '''' then Inl (Err ''bond denom should not be empty string'')
      else Inr ())"

text \<open>The coin to mint, as denomination and amount; \<^verbatim>\<open>sdk.NewCoin\<close> panics on a negative
  amount.\<close>

definition CalculateBlockProvision :: "minter \<Rightarrow> time \<Rightarrow> time \<Rightarrow> (denom \<times> int) result" where
  "CalculateBlockProvision m current previous =
     (if current < previous then Inl (Err ''current time cannot be before previous time'')
      else let timeElapsed = milliseconds (timeSub current previous);
               mintAmount = quoT (i64 (DailyMintRate * timeElapsed)) MillisecondsInDay
           in if mintAmount < 0 then Inl ErrPanic else Inr (mBondDenom m, mintAmount))"

text \<open>\<^verbatim>\<open>sdk.NewCoins\<close> drops a zero coin, so \<open>Empty\<close> is \<open>amount = 0\<close>.\<close>

definition MintCoins :: "'w bank_keeper \<Rightarrow> denom \<times> int \<Rightarrow> 'w mint_state \<Rightarrow> 'w mint_state result" where
  "MintCoins B c st =
     (if snd c = 0 then Inr st
      else bindR (bkMintCoins B ''mint'' (fst c) (snd c) (mintWorld st)) (\<lambda>w.
        Inr (st\<lparr>mintWorld := w\<rparr>)))"

definition SendInflationaryRewards ::
  "'w bank_keeper \<Rightarrow> denom \<times> int \<Rightarrow> 'w mint_state \<Rightarrow> 'w mint_state result" where
  "SendInflationaryRewards B c st =
     (if snd c = 0 then Inr st
      else let coinsAmt = (if fst c = BondDenom then snd c else 0)
      in if coinsAmt = 0 then Inr st
      else let quarter = quoT coinsAmt 4; threequarters = coinsAmt - quarter
      in bindR (bkInputOutputCoins B mintModule BondDenom (threequarters + quarter)
                  [(tbrPool, threequarters), (feeCollector, quarter)] (mintWorld st)) (\<lambda>w.
         Inr (st\<lparr>mintWorld := w\<rparr>)))"

definition GetExtraRewardRateParams :: "'w mint_state \<Rightarrow> extra_reward_params" where
  "GetExtraRewardRateParams st = (case ExtraRewardParams st of
      None \<Rightarrow> \<lparr>erDailyExtraRewards = 0, erPreviousBlockTime = None, erBondDenom = DefaultBondDenom\<rparr>
    | Some p \<Rightarrow> p)"

definition GetEffectiveExtraRewardsRate :: "'w mint_state \<Rightarrow> int" where
  "GetEffectiveExtraRewardsRate st =
     (let params = GetExtraRewardRateParams st
      in if erDailyExtraRewards params = 0 then DailyMintRate else erDailyExtraRewards params)"

text \<open>
  \<open>BeginBlocker\<close> ignores the error \<^verbatim>\<open>SendExtraRewards\<close> returns but not the state it has
  written, so a returned error is a component of the value; the panic of \<^verbatim>\<open>sdk.NewCoin\<close>
  on a negative amount is an \<open>Inl\<close>, which nothing recovers.
\<close>

definition SendExtraRewards ::
  "'w bank_keeper \<Rightarrow> time \<Rightarrow> 'w mint_state \<Rightarrow> ('w mint_state \<times> error option) result" where
  "SendExtraRewards B currentTime st =
     (let rewardParams = GetExtraRewardRateParams st;
          previousBlockTime = erPreviousBlockTime rewardParams;
          st1 = st\<lparr>ExtraRewardParams := Some (rewardParams\<lparr>erPreviousBlockTime := Some currentTime\<rparr>)\<rparr>;
          d = erBondDenom rewardParams
      in case previousBlockTime of None \<Rightarrow> Inr (st1, None)
       | Some prev \<Rightarrow>
         let balance = bkGetBalance B (mintWorld st1) extraPool d
         in if balance = 0 then Inr (st1, None)
         else let dailyExtraRewardRate = GetEffectiveExtraRewardsRate st1;
                  timeElapsed = milliseconds (timeSub currentTime prev)
         in if timeElapsed < 0 then Inr (st1, None)
         else let rewardAmount = quoT (i64 (dailyExtraRewardRate * timeElapsed)) MillisecondsInDay
         in if rewardAmount = 0 \<or> balance < rewardAmount then Inr (st1, None)
         else let quarter = quoT rewardAmount 4; threequarters = rewardAmount - quarter
         in if rewardAmount < 0 then Inl ErrPanic
         else (case bkInputOutputCoins B extraPool d (threequarters + quarter)
                      [(tbrPool, threequarters), (feeCollector, quarter)] (mintWorld st1) of
                 Inl e \<Rightarrow> Inr (st1, Some e)
               | Inr w \<Rightarrow> Inr (st1\<lparr>mintWorld := w\<rparr>, None)))"

definition MintBlockProvision ::
  "'w bank_keeper \<Rightarrow> time \<Rightarrow> minter \<Rightarrow> 'w mint_state \<Rightarrow> 'w mint_state result" where
  "MintBlockProvision B currentTime m st =
     (case mPreviousBlockTime m of None \<Rightarrow> Inr st
      | Some previous \<Rightarrow>
        bindR (CalculateBlockProvision m currentTime previous) (\<lambda>toMintCoin.
        bindR (MintCoins B toMintCoin st) (\<lambda>st1.
        SendInflationaryRewards B toMintCoin st1)))"

definition SetPreviousBlockTime :: "time \<Rightarrow> 'w mint_state \<Rightarrow> 'w mint_state result" where
  "SetPreviousBlockTime blockTime st =
     bindR (getR (Minter st)) (\<lambda>m.
     Inr (st\<lparr>Minter := Some (m\<lparr>mPreviousBlockTime := Some blockTime\<rparr>)\<rparr>))"

definition mintBeginBlocker :: "'w bank_keeper \<Rightarrow> time \<Rightarrow> 'w mint_state \<Rightarrow> 'w mint_state result" where
  "mintBeginBlocker B currentTime st =
     bindR (SendExtraRewards B currentTime st) (\<lambda>(st1, _).
     bindR (getR (Minter st1)) (\<lambda>m.
     if \<not> mInitialized m then Inr st1
     else if currentTime = zero_time then Inr st1
     else bindR (MintBlockProvision B currentTime m st1) (\<lambda>st2.
          SetPreviousBlockTime currentTime st2)))"

definition mintInit :: "string \<Rightarrow> string \<Rightarrow> 'w mint_state \<Rightarrow> 'w mint_state result" where
  "mintInit authority msgAuthority st =
     (if authority \<noteq> msgAuthority then Inl (Err ''ErrInvalidSigner'')
      else bindR (getR (Minter st)) (\<lambda>m.
        if mInitialized m then Inl (Err ''ErrAlreadyInitialized'')
        else Inr (st\<lparr>Minter := Some (m\<lparr>mInitialized := True\<rparr>)\<rparr>)))"

definition UpdateExtraRewardRate ::
  "string \<Rightarrow> string \<Rightarrow> int \<Rightarrow> 'w mint_state \<Rightarrow> 'w mint_state result" where
  "UpdateExtraRewardRate authority msgAuthority rate st =
     (if authority \<noteq> msgAuthority then Inl (Err ''ErrInvalidSigner'')
      else bindR (getR (ExtraRewardParams st)) (\<lambda>p.
        if rate \<le> 0 then Inl (Err ''ErrInvalidRequest'')
        else Inr (st\<lparr>ExtraRewardParams := Some (p\<lparr>erDailyExtraRewards := rate\<rparr>)\<rparr>)))"

definition mintInitGenesis ::
  "denom \<Rightarrow> bool \<Rightarrow> time option \<Rightarrow> 'w mint_state \<Rightarrow> 'w mint_state" where
  "mintInitGenesis bondDenom initialized prev st =
     st\<lparr>Minter := Some (DefaultMinter\<lparr>mBondDenom := bondDenom, mInitialized := initialized,
                                     mPreviousBlockTime := prev\<rparr>)\<rparr>"

definition mintExportGenesis :: "'w mint_state \<Rightarrow> (denom \<times> bool \<times> time option) result" where
  "mintExportGenesis st = (case Minter st of None \<Rightarrow> Inl ErrPanic
     | Some m \<Rightarrow> Inr (mBondDenom m, mInitialized m, mPreviousBlockTime m))"

section \<open>Elapsed time and amounts\<close>

text \<open>726 days in nanoseconds: the largest whole number of days whose provision fits
  \<^verbatim>\<open>int64\<close>.\<close>

abbreviation max_gap :: int where
  "max_gap \<equiv> 726 * 24 * hour"

lemma milliseconds_gap:
  assumes "p \<le> c" and "c - p \<le> max_gap"
  shows "milliseconds (timeSub c p) = (c - p) div 1000000"
    and "0 \<le> milliseconds (timeSub c p)" and "milliseconds (timeSub c p) \<le> 726 * MillisecondsInDay"
proof -
  have s: "timeSub c p = c - p" using assms by (simp add: timeSub_def)
  show 1: "milliseconds (timeSub c p) = (c - p) div 1000000"
    using assms by (simp add: s milliseconds_def quoT_nonneg)
  show "0 \<le> milliseconds (timeSub c p)" "milliseconds (timeSub c p) \<le> 726 * MillisecondsInDay"
    using assms by (simp_all add: 1 MillisecondsInDay_def)
qed

lemma CalculateBlockProvision_in_range:
  assumes "p \<le> c" and "c - p \<le> max_gap"
  shows "CalculateBlockProvision m c p =
    Inr (mBondDenom m, DailyMintRate * ((c - p) div 1000000) div MillisecondsInDay)"
proof -
  let ?t = "milliseconds (timeSub c p)"
  note t = milliseconds_gap [OF assms]
  have "i64 (DailyMintRate * ?t) = DailyMintRate * ?t"
    using t(2,3) by (intro i64_id) (simp_all add: DailyMintRate_def MillisecondsInDay_def)
  then have "quoT (i64 (DailyMintRate * ?t)) MillisecondsInDay = DailyMintRate * ?t div MillisecondsInDay"
    using t(2) by (simp add: quoT_nonneg DailyMintRate_def MillisecondsInDay_def)
  moreover have "0 \<le> DailyMintRate * ?t div MillisecondsInDay"
    using t(2) by (simp add: DailyMintRate_def MillisecondsInDay_def)
  ultimately show ?thesis
    using assms(1) t(1) by (simp add: CalculateBlockProvision_def Let_def)
qed

text \<open>What the blocks at the given successive times mint after one at \<open>p\<close>.\<close>

fun minted_over :: "minter \<Rightarrow> time \<Rightarrow> time list \<Rightarrow> int" where
  "minted_over m p [] = 0"
| "minted_over m p (c # cs) =
     (case CalculateBlockProvision m c p of Inl _ \<Rightarrow> 0 | Inr coin \<Rightarrow> snd coin) + minted_over m c cs"

lemma div_add_le: "0 < (d :: int) \<Longrightarrow> a div d + b div d \<le> (a + b) div d"
  using sum_list_div_le [of d "\<lambda>x. x" "[a, b]"] by simp

lemma minted_over_bound:
  assumes "sorted (p # cs)" and "\<forall>c \<in> set cs. c - p \<le> max_gap"
  shows "minted_over m p cs \<le> DailyMintRate * ((last (p # cs) - p) div 1000000) div MillisecondsInDay"
  using assms
proof (induction cs arbitrary: p)
  case Nil
  then show ?case by simp
next
  case (Cons c cs)
  let ?e = "\<lambda>x. DailyMintRate * (x div 1000000)"
  have gap: "p \<le> c" "c - p \<le> max_gap" using Cons.prems by auto
  have IH: "minted_over m c cs \<le> ?e (last (c # cs) - c) div MillisecondsInDay"
    using Cons.prems gap by (intro Cons.IH) (simp, fastforce)
  have "minted_over m p (c # cs) \<le>
      ?e (c - p) div MillisecondsInDay + ?e (last (c # cs) - c) div MillisecondsInDay"
    using IH by (simp add: CalculateBlockProvision_in_range [OF gap])
  also have "\<dots> \<le> (?e (c - p) + ?e (last (c # cs) - c)) div MillisecondsInDay"
    by (rule div_add_le) (simp add: MillisecondsInDay_def)
  also have "\<dots> \<le> ?e ((c - p) + (last (c # cs) - c)) div MillisecondsInDay"
  proof (rule zdiv_mono1)
    have "(c - p) div 1000000 + (last (c # cs) - c) div 1000000
        \<le> ((c - p) + (last (c # cs) - c)) div 1000000" by (rule div_add_le) simp
    then show "?e (c - p) + ?e (last (c # cs) - c) \<le> ?e ((c - p) + (last (c # cs) - c))"
      by (simp add: DailyMintRate_def)
  qed (simp add: MillisecondsInDay_def)
  finally show ?case by simp
qed

section \<open>The block step\<close>

lemma quarter_split: "0 \<le> n \<Longrightarrow> quoT n 4 + (n - quoT n 4) = n \<and> 0 \<le> quoT n 4 \<and> quoT n 4 \<le> n"
  using quoT_bounds [of n 4] by simp

definition mint_wf :: "'w mint_state \<Rightarrow> bool" where
  "mint_wf st \<longleftrightarrow> (\<exists>m. Minter st = Some m \<and> mBondDenom m = BondDenom)
     \<and> (case ExtraRewardParams st of None \<Rightarrow> True
        | Some p \<Rightarrow> erBondDenom p = BondDenom \<and> 0 \<le> erDailyExtraRewards p)"

text \<open>The payment out of one account, as both reward paths make it.\<close>

lemma reward_payment:
  assumes "bank_laws B" and "src \<noteq> tbrPool" and "src \<noteq> feeCollector"
    and "bkInputOutputCoins B src d (n - q + q) [(tbrPool, n - q), (feeCollector, q)] w = Inr w'"
  shows "bkGetBalance B w' src d = bkGetBalance B w src d - n"
    and "bkGetBalance B w' tbrPool d = bkGetBalance B w tbrPool d + (n - q)"
    and "bkGetBalance B w' feeCollector d = bkGetBalance B w feeCollector d + q"
    and "h \<noteq> src \<Longrightarrow> h \<noteq> tbrPool \<Longrightarrow> h \<noteq> feeCollector \<Longrightarrow>
      bkGetBalance B w' h d = bkGetBalance B w h d"
  using bank_input_output [OF assms(1,4)] assms(2,3) by (simp_all add: outputs_to_def)

lemma MintBlockProvision_effect:
  assumes B: "bank_laws B" and m: "mPreviousBlockTime m = Some p" "mBondDenom m = BondDenom"
    and gap: "p \<le> c" "c - p \<le> max_gap"
    and run: "MintBlockProvision B c m st = Inr st'"
    and n: "n = DailyMintRate * ((c - p) div 1000000) div MillisecondsInDay"
  shows "Minter st' = Minter st \<and> ExtraRewardParams st' = ExtraRewardParams st
    \<and> bkGetBalance B (mintWorld st') mintModule BondDenom = bkGetBalance B (mintWorld st) mintModule BondDenom
    \<and> bkGetBalance B (mintWorld st') tbrPool BondDenom = bkGetBalance B (mintWorld st) tbrPool BondDenom + (n - n div 4)
    \<and> bkGetBalance B (mintWorld st') feeCollector BondDenom = bkGetBalance B (mintWorld st) feeCollector BondDenom + n div 4"
proof (cases "n = 0")
  case True
  then show ?thesis using run
    by (simp add: MintBlockProvision_def m CalculateBlockProvision_in_range [OF gap]
        n [symmetric] MintCoins_def SendInflationaryRewards_def)
next
  case False
  have n0: "0 \<le> n" using gap
    by (simp add: n DailyMintRate_def MillisecondsInDay_def pos_imp_zdiv_nonneg_iff)
  from run False obtain w1 w2 where w1: "bkMintCoins B ''mint'' BondDenom n (mintWorld st) = Inr w1"
    and w2: "bkInputOutputCoins B mintModule BondDenom (n - n div 4 + n div 4)
       [(tbrPool, n - n div 4), (feeCollector, n div 4)] w1 = Inr w2"
    and st': "st' = st\<lparr>mintWorld := w2\<rparr>"
    by (auto simp: MintBlockProvision_def m CalculateBlockProvision_in_range [OF gap] n [symmetric]
        MintCoins_def SendInflationaryRewards_def Let_def quoT_nonneg n0)
  show ?thesis
    using bank_mint [OF B w1] reward_payment [OF B _ _ w2] by (simp add: st')
qed

lemma SendExtraRewards_frame:
  "SendExtraRewards B c st = Inr (st1, e) \<Longrightarrow> Minter st1 = Minter st"
  by (auto simp: SendExtraRewards_def Let_def split: option.splits if_splits sum.splits)

text \<open>What one block pays out of the extra-rewards pool: an amount \<open>x\<close> the pool holds,
  split like a provision.\<close>

lemma SendExtraRewards_effect:
  assumes B: "bank_laws B" and wf: "mint_wf st" and bal: "0 \<le> bkGetBalance B (mintWorld st) extraPool BondDenom"
    and run: "SendExtraRewards B c st = Inr (st1, e)"
  obtains x where "0 \<le> x" and "x \<le> bkGetBalance B (mintWorld st) extraPool BondDenom"
    and "bkGetBalance B (mintWorld st1) extraPool BondDenom = bkGetBalance B (mintWorld st) extraPool BondDenom - x"
    and "bkGetBalance B (mintWorld st1) tbrPool BondDenom = bkGetBalance B (mintWorld st) tbrPool BondDenom + (x - x div 4)"
    and "bkGetBalance B (mintWorld st1) feeCollector BondDenom = bkGetBalance B (mintWorld st) feeCollector BondDenom + x div 4"
    and "bkGetBalance B (mintWorld st1) mintModule BondDenom = bkGetBalance B (mintWorld st) mintModule BondDenom"
proof (cases "mintWorld st1 = mintWorld st")
  case True
  then show thesis using that [of 0] bal by simp
next
  case False
  have d: "erBondDenom (GetExtraRewardRateParams st) = BondDenom"
    using wf by (auto simp: mint_wf_def GetExtraRewardRateParams_def DefaultBondDenom_def
        BondDenom_def split: option.splits)
  from run False obtain x where x: "0 \<le> x" "x \<le> bkGetBalance B (mintWorld st) extraPool BondDenom"
    and io: "bkInputOutputCoins B extraPool BondDenom (x - quoT x 4 + quoT x 4)
       [(tbrPool, x - quoT x 4), (feeCollector, quoT x 4)] (mintWorld st) = Inr (mintWorld st1)"
    by (auto simp: SendExtraRewards_def Let_def d not_less split: option.splits if_splits sum.splits)
  show thesis
    using that [OF x] reward_payment [OF B _ _ io] x(1) by (simp add: quoT_nonneg)
qed

text \<open>
  C22: one block of an initialized minter at most 726 days after the previous one mints
  exactly the pro-rata provision \<open>n\<close> of the elapsed milliseconds, pays an amount \<open>x\<close> the
  extra-rewards pool holds, credits three quarters of each (rounded up) to the
  time-based-rewards account and one quarter to the fee collector, leaves the mint account
  unchanged and records the block time.
\<close>

theorem mint_block_conservation:
  assumes B: "bank_laws B" and wf: "mint_wf st" and m: "Minter st = Some m" "mInitialized m"
    and p: "mPreviousBlockTime m = Some p" "p \<le> c" "c - p \<le> max_gap" "c \<noteq> zero_time"
    and bal: "0 \<le> bkGetBalance B (mintWorld st) extraPool BondDenom"
    and run: "mintBeginBlocker B c st = Inr st'"
    and n: "n = DailyMintRate * ((c - p) div 1000000) div MillisecondsInDay"
  shows "\<exists>x. 0 \<le> x \<and> x \<le> bkGetBalance B (mintWorld st) extraPool BondDenom
    \<and> bkGetBalance B (mintWorld st') tbrPool BondDenom
        = bkGetBalance B (mintWorld st) tbrPool BondDenom + (n - n div 4) + (x - x div 4)
    \<and> bkGetBalance B (mintWorld st') feeCollector BondDenom
        = bkGetBalance B (mintWorld st) feeCollector BondDenom + n div 4 + x div 4
    \<and> bkGetBalance B (mintWorld st') mintModule BondDenom = bkGetBalance B (mintWorld st) mintModule BondDenom
    \<and> Minter st' = Some (m\<lparr>mPreviousBlockTime := Some c\<rparr>)"
proof -
  from run obtain st1 e where st1: "SendExtraRewards B c st = Inr (st1, e)"
    and rest: "mintBeginBlocker B c st =
      bindR (getR (Minter st1)) (\<lambda>m. if \<not> mInitialized m then Inr st1
        else if c = zero_time then Inr st1
        else bindR (MintBlockProvision B c m st1) (SetPreviousBlockTime c))"
    by (auto simp: mintBeginBlocker_def)
  have m1: "Minter st1 = Some m" using SendExtraRewards_frame [OF st1] m(1) by simp
  from run rest m1 m(2) p(4) obtain st2 where st2: "MintBlockProvision B c m st1 = Inr st2"
    and st': "SetPreviousBlockTime c st2 = Inr st'" by auto
  have d: "mBondDenom m = BondDenom" using wf m(1) by (simp add: mint_wf_def)
  note eff = MintBlockProvision_effect [OF B p(1) d p(2,3) st2 n]
  have w': "mintWorld st' = mintWorld st2" "Minter st' = Some (m\<lparr>mPreviousBlockTime := Some c\<rparr>)"
    using st' eff m1 by (auto simp: SetPreviousBlockTime_def)
  obtain x where "0 \<le> x" "x \<le> bkGetBalance B (mintWorld st) extraPool BondDenom"
    "bkGetBalance B (mintWorld st1) tbrPool BondDenom = bkGetBalance B (mintWorld st) tbrPool BondDenom + (x - x div 4)"
    "bkGetBalance B (mintWorld st1) feeCollector BondDenom = bkGetBalance B (mintWorld st) feeCollector BondDenom + x div 4"
    "bkGetBalance B (mintWorld st1) mintModule BondDenom = bkGetBalance B (mintWorld st) mintModule BondDenom"
    using SendExtraRewards_effect [OF B wf bal st1] by metis
  then show ?thesis using eff unfolding w' by (intro exI [of _ x]) simp
qed

theorem mint_block_conservation_witness:
  "\<exists>st'. mintBeginBlocker ledger_bank 86400000000000
      \<lparr>Minter = Some \<lparr>mPreviousBlockTime = Some 0, mBondDenom = ''loya'', mInitialized = True\<rparr>,
       ExtraRewardParams = None, mintWorld = (\<lambda>_ _. 0)\<rparr> = Inr st'
    \<and> mintWorld st' tbrPool BondDenom = 110205000 \<and> mintWorld st' feeCollector BondDenom = 36735000"
proof -
  let ?m = "\<lparr>mPreviousBlockTime = Some 0, mBondDenom = ''loya'', mInitialized = True\<rparr>"
  let ?st = "\<lparr>Minter = Some ?m, ExtraRewardParams = None, mintWorld = (\<lambda>_ _. 0)\<rparr>"
  obtain st' where st': "mintBeginBlocker ledger_bank 86400000000000 ?st = Inr st'"
    by (simp add: mintBeginBlocker_def SendExtraRewards_def GetExtraRewardRateParams_def
        zero_time_def MintBlockProvision_def CalculateBlockProvision_in_range MintCoins_def
        DailyMintRate_def MillisecondsInDay_def SendInflationaryRewards_def BondDenom_def
        ledger_bank_def SetPreviousBlockTime_def quoT_def Let_def)
  show ?thesis
    using mint_block_conservation [OF ledger_bank_laws, of ?st ?m 0 86400000000000 st' 146940000] st'
    by (auto simp: mint_wf_def BondDenom_def zero_time_def DailyMintRate_def MillisecondsInDay_def
        ledger_bank_def)
qed

text \<open>
  Over any run of blocks within 726 days the minter never mints more than
  \<open>DailyMintRate\<close> pro rata to the whole time elapsed, however the time is cut into blocks.
\<close>

theorem mint_rate_bound:
  assumes "sorted (p # cs)" and "\<forall>c \<in> set cs. c - p \<le> max_gap"
  shows "minted_over m p cs \<le> DailyMintRate * ((last (p # cs) - p) div 1000000) div MillisecondsInDay"
  using assms by (rule minted_over_bound)

theorem mint_rate_bound_witness:
  "minted_over DefaultMinter 0 [1500000000, 3000000000] \<le> 5102"
  using mint_rate_bound [of 0 "[1500000000, 3000000000]" DefaultMinter]
  by (simp add: DailyMintRate_def MillisecondsInDay_def)

text \<open>
  Exporting the genesis state and importing it again restores the minter and nothing
  else: the extra-reward parameters the store held are not part of the export.
\<close>

theorem mint_genesis_roundtrip:
  assumes "mintExportGenesis st = Inr (d, i, p)"
  shows "Minter (mintInitGenesis d i p st0) = Minter st
    \<and> ExtraRewardParams (mintInitGenesis d i p st0) = ExtraRewardParams st0"
  using assms
  by (auto simp: mintExportGenesis_def mintInitGenesis_def DefaultMinter_def NewMinter_def
      split: option.splits)

theorem mint_genesis_roundtrip_witness:
  "Minter (mintInitGenesis ''loya'' False None
     \<lparr>Minter = None, ExtraRewardParams = None, mintWorld = ()\<rparr>) = Some DefaultMinter"
  using mint_genesis_roundtrip [of "\<lparr>Minter = Some DefaultMinter, ExtraRewardParams = None, mintWorld = ()\<rparr>"
      "''loya''" False None "\<lparr>Minter = None, ExtraRewardParams = None, mintWorld = ()\<rparr>"]
  by (simp add: mintExportGenesis_def DefaultMinter_def NewMinter_def DefaultBondDenom_def)

end
