(* ===== verification/KVStore.thy ===== *)
theory KVStore
  imports Prelude "HOL-Library.Char_ord" "HOL-Library.List_Lexorder" "HOL-Library.Product_Lexorder"
begin

text \<open>
  The key-value collections of the keepers (\<^verbatim>\<open>collections.Map\<close>, \<^verbatim>\<open>IndexedMap\<close>) as
  association lists in ascending key order. \<^verbatim>\<open>Get\<close>, \<^verbatim>\<open>Set\<close>, \<^verbatim>\<open>Has\<close> and
  \<^verbatim>\<open>Remove\<close> are \<open>kv_get\<close>, \<open>kv_set\<close>, \<open>kv_has\<close> and \<open>kv_del\<close>; an iterator walks
  the list, a descending one walks it backwards, and a secondary index is the list of keys
  whose value satisfies the index function. The locale \<open>kv_map\<close> states the laws the
  keepers rely on and proves what follows from them once; it is interpreted on the four
  operations.
\<close>

type_synonym ('k, 'v) kv = "('k \<times> 'v) list"

definition kv_get :: "('k, 'v) kv \<Rightarrow> 'k \<Rightarrow> 'v option" where
  "kv_get m k = map_of m k"

definition kv_has :: "('k, 'v) kv \<Rightarrow> 'k \<Rightarrow> bool" where
  "kv_has m k = (kv_get m k \<noteq> None)"

fun kv_set :: "'k :: linorder \<Rightarrow> 'v \<Rightarrow> ('k, 'v) kv \<Rightarrow> ('k, 'v) kv" where
  "kv_set k v [] = [(k, v)]"
| "kv_set k v ((k', v') # m) =
     (if k < k' then (k, v) # (k', v') # m
      else if k = k' then (k, v) # m
      else (k', v') # kv_set k v m)"

definition kv_del :: "'k \<Rightarrow> ('k, 'v) kv \<Rightarrow> ('k, 'v) kv" where
  "kv_del k m = filter (\<lambda>e. fst e \<noteq> k) m"

text \<open>The keys of the entries an index selects, in iteration order.\<close>

definition kv_index :: "('v \<Rightarrow> bool) \<Rightarrow> ('k, 'v) kv \<Rightarrow> 'k list" where
  "kv_index P m = map fst (filter (\<lambda>e. P (snd e)) m)"

text \<open>The greatest key, what a descending iterator returns first.\<close>

definition kv_last_key :: "('k, 'v) kv \<Rightarrow> 'k option" where
  "kv_last_key m = (if m = [] then None else Some (fst (last m)))"

definition kv_ok :: "('k :: linorder, 'v) kv \<Rightarrow> bool" where
  "kv_ok m = sorted_wrt (<) (map fst m)"

section \<open>Laws of the operations\<close>

lemma kv_get_Nil [simp]: "kv_get [] k = None"
  by (simp add: kv_get_def)

lemma kv_get_set [simp]: "kv_get (kv_set k v m) k' = (if k' = k then Some v else kv_get m k')"
  by (induction k v m rule: kv_set.induct) (auto simp: kv_get_def)

lemma kv_get_del [simp]: "kv_get (kv_del k m) k' = (if k' = k then None else kv_get m k')"
  by (induction m) (auto simp: kv_get_def kv_del_def)

lemma kv_has_set [simp]: "kv_has (kv_set k v m) k' \<longleftrightarrow> k' = k \<or> kv_has m k'"
  by (simp add: kv_has_def)

lemma keys_kv_set: "fst ` set (kv_set k v m) = insert k (fst ` set m)"
  by (induction k v m rule: kv_set.induct) auto

lemma kv_ok_Nil [simp]: "kv_ok []"
  by (simp add: kv_ok_def)

lemma kv_ok_set [intro, simp]: "kv_ok m \<Longrightarrow> kv_ok (kv_set k v m)"
proof (induction k v m rule: kv_set.induct)
  case (1 k v)
  then show ?case by (simp add: kv_ok_def)
next
  case (2 k v k' v' m)
  have keys: "set (map fst (kv_set k v m)) = insert k (set (map fst m))"
    using keys_kv_set [of k v m] by simp
  from 2 show ?case using keys by (auto simp: kv_ok_def intro: order.strict_trans)
qed

lemma kv_ok_del [intro, simp]: "kv_ok m \<Longrightarrow> kv_ok (kv_del k m)"
  by (induction m) (auto simp: kv_ok_def kv_del_def)

lemma kv_ok_distinct: "kv_ok m \<Longrightarrow> distinct (map fst m)"
  by (induction m) (auto simp: kv_ok_def)

lemma kv_get_mem: "kv_ok m \<Longrightarrow> kv_get m k = Some v \<longleftrightarrow> (k, v) \<in> set m"
  by (simp add: kv_get_def kv_ok_distinct)

lemma kv_index_mem:
  assumes "kv_ok m"
  shows "k \<in> set (kv_index P m) \<longleftrightarrow> (\<exists>v. kv_get m k = Some v \<and> P v)"
  by (auto simp: kv_index_def kv_get_mem [OF assms] image_iff)

lemma kv_last_key_greatest:
  assumes "kv_ok m" and "kv_last_key m = Some k" and "kv_get m k' = Some v"
  shows "k' \<le> k"
proof -
  define m' e where "m' = butlast m" and "e = last m"
  with assms(2) have m: "m = m' @ [e]" and k: "k = fst e"
    by (simp_all add: kv_last_key_def split: if_splits)
  have "\<forall>x \<in> set (map fst m'). x < k"
    using assms(1) by (auto simp: kv_ok_def m k sorted_wrt_append)
  moreover have "k' \<in> set (map fst m)"
    using kv_get_mem [OF assms(1)] assms(3) by force
  ultimately show ?thesis by (auto simp: m k)
qed

lemma kv_set_keys_same:
  assumes "kv_ok m" and "kv_get m k \<noteq> None"
  shows "map fst (kv_set k v m) = map fst m"
  using assms
proof (induction k v m rule: kv_set.induct)
  case (1 k v)
  then show ?case by simp
next
  case (2 k v k' v' m)
  have "k \<in> set (map fst ((k', v') # m))" using 2(3) by (metis kv_get_def map_of_eq_None_iff list.set_map)
  moreover have "\<forall>x \<in> set (map fst m). k' < x" using 2(2) by (simp add: kv_ok_def)
  ultimately have "\<not> k < k'" by (metis insert_iff list.simps(15) list.map(2) fst_conv order.asym order.irrefl)
  then show ?case using 2 by (auto simp: kv_ok_def kv_get_def)
qed

lemma kv_set_set: "kv_set k v (kv_set k u m) = kv_set k v m"
  by (induction k u m rule: kv_set.induct) auto

lemma kv_last_key_alt: "kv_last_key m = (if map fst m = [] then None else Some (last (map fst m)))"
  by (cases "m = []") (simp_all add: kv_last_key_def last_map)

lemma kv_last_key_set_same:
  "kv_ok m \<Longrightarrow> kv_get m k \<noteq> None \<Longrightarrow> kv_last_key (kv_set k v m) = kv_last_key m"
  by (simp add: kv_last_key_alt kv_set_keys_same del: map_is_Nil_conv)

section \<open>The collection interface\<close>

text \<open>
  What a keeper relies on: reading back a write or a removal, that \<open>entries\<close> lists the
  contents without duplicates, and that the operations keep well-formedness.
\<close>

locale kv_map =
  fixes get :: "'m \<Rightarrow> 'k \<Rightarrow> 'v option"
    and set_at :: "'k \<Rightarrow> 'v \<Rightarrow> 'm \<Rightarrow> 'm"
    and del_at :: "'k \<Rightarrow> 'm \<Rightarrow> 'm"
    and entries :: "'m \<Rightarrow> ('k \<times> 'v) list"
    and ok :: "'m \<Rightarrow> bool"
  assumes get_set: "get (set_at k v m) k' = (if k' = k then Some v else get m k')"
    and get_del: "get (del_at k m) k' = (if k' = k then None else get m k')"
    and entries_get: "ok m \<Longrightarrow> (k, v) \<in> set (entries m) \<longleftrightarrow> get m k = Some v"
    and entries_distinct: "ok m \<Longrightarrow> distinct (map fst (entries m))"
    and ok_set: "ok m \<Longrightarrow> ok (set_at k v m)"
    and ok_del: "ok m \<Longrightarrow> ok (del_at k m)"
begin

definition total :: "('k \<times> 'v \<Rightarrow> int) \<Rightarrow> 'm \<Rightarrow> int" where
  "total f m = sum_list (map f (entries m))"

lemma distinct_entries: "ok m \<Longrightarrow> distinct (entries m)"
  using entries_distinct distinct_map by blast

lemma total_sum:
  assumes "ok m"
  shows "total f m = (\<Sum>e \<in> set (entries m). f e)"
  by (simp add: total_def sum_list_distinct_conv_sum_set distinct_entries [OF assms])

lemma entries_split:
  assumes "ok m"
  shows "set (entries m) =
    {e \<in> set (entries m). fst e \<noteq> k} \<union> (case get m k of None \<Rightarrow> {} | Some v \<Rightarrow> {(k, v)})"
  using entries_get [OF assms] by (fastforce split: option.splits)

lemma total_split:
  assumes "ok m"
  shows "total f m = (\<Sum>e \<in> {e \<in> set (entries m). fst e \<noteq> k}. f e)
    + (case get m k of None \<Rightarrow> 0 | Some v \<Rightarrow> f (k, v))"
proof -
  let ?A = "{e \<in> set (entries m). fst e \<noteq> k}"
  let ?B = "case get m k of None \<Rightarrow> {} | Some v \<Rightarrow> {(k, v)}"
  have fin: "finite ?A" "finite ?B" by (auto split: option.splits)
  have dis: "?A \<inter> ?B = {}" by (auto split: option.splits)
  have "total f m = (\<Sum>e \<in> ?A \<union> ?B. f e)"
    unfolding total_sum [OF assms] using entries_split [OF assms, of k]
    by (intro arg_cong2 [where f = sum]) auto
  also have "\<dots> = (\<Sum>e \<in> ?A. f e) + (\<Sum>e \<in> ?B. f e)"
    by (rule sum.union_disjoint [OF fin dis])
  also have "(\<Sum>e \<in> ?B. f e) = (case get m k of None \<Rightarrow> 0 | Some v \<Rightarrow> f (k, v))"
    by (simp split: option.splits)
  finally show ?thesis .
qed

lemma other_entries_set:
  assumes "ok m"
  shows "{e \<in> set (entries (set_at k v m)). fst e \<noteq> k} = {e \<in> set (entries m). fst e \<noteq> k}"
  using entries_get [OF assms] entries_get [OF ok_set [OF assms], of _ _ k v]
  by (auto simp: get_set)

lemma other_entries_del:
  assumes "ok m"
  shows "{e \<in> set (entries (del_at k m)). fst e \<noteq> k} = {e \<in> set (entries m). fst e \<noteq> k}"
  using entries_get [OF assms] entries_get [OF ok_del [OF assms], of _ _ k]
  by (auto simp: get_del)

lemma total_set:
  assumes "ok m"
  shows "total f (set_at k v m) = total f m + f (k, v) - (case get m k of None \<Rightarrow> 0 | Some u \<Rightarrow> f (k, u))"
  using total_split [OF assms, of f k] total_split [OF ok_set [OF assms, of k v], of f k]
  by (simp add: other_entries_set [OF assms] get_set)

lemma total_del:
  assumes "ok m"
  shows "total f (del_at k m) = total f m - (case get m k of None \<Rightarrow> 0 | Some u \<Rightarrow> f (k, u))"
  using total_split [OF assms, of f k] total_split [OF ok_del [OF assms, of k], of f k]
  by (simp add: other_entries_del [OF assms] get_del)

lemma get_le_total:
  assumes "ok m" and "get m k = Some v" and "\<And>k v. get m k = Some v \<Longrightarrow> 0 \<le> f (k, v)"
  shows "f (k, v) \<le> total f m"
proof -
  have "0 \<le> (\<Sum>e \<in> {e \<in> set (entries m). fst e \<noteq> k}. f e)"
    using assms(3) entries_get [OF assms(1)] by (intro sum_nonneg) auto
  then show ?thesis using total_split [OF assms(1), of f k] assms(2) by simp
qed

end

interpretation kvs: kv_map kv_get "kv_set :: 'k :: linorder \<Rightarrow> 'v \<Rightarrow> _" kv_del "\<lambda>m. m" kv_ok
  by unfold_locales (auto simp: kv_get_mem kv_ok_distinct)

text \<open>The sum of a weight over all entries, as the interpretation provides it.\<close>

definition kv_total :: "('k \<times> 'v \<Rightarrow> int) \<Rightarrow> ('k, 'v) kv \<Rightarrow> int" where
  "kv_total f m = sum_list (map f m)"

lemma kv_total_Nil [simp]: "kv_total f [] = 0"
  by (simp add: kv_total_def)

lemma kv_total_kvs: "kv_total f m = kvs.total f m"
  by (simp add: kv_total_def kvs.total_def)

lemma kv_total_set:
  "kv_ok m \<Longrightarrow>
   kv_total f (kv_set k v m) = kv_total f m + f (k, v) - (case kv_get m k of None \<Rightarrow> 0 | Some u \<Rightarrow> f (k, u))"
  unfolding kv_total_kvs by (rule kvs.total_set)

lemma kv_total_del:
  "kv_ok m \<Longrightarrow>
   kv_total f (kv_del k m) = kv_total f m - (case kv_get m k of None \<Rightarrow> 0 | Some u \<Rightarrow> f (k, u))"
  unfolding kv_total_kvs by (rule kvs.total_del)

section \<open>Checked removal, defaults and prefixes\<close>

text \<open>\<^verbatim>\<open>Remove\<close> on an indexed map reads the entry to find its index keys, so it fails on a
  missing key, unlike \<^verbatim>\<open>Remove\<close> on a plain map.\<close>

definition kv_remove :: "'k \<Rightarrow> ('k, 'v) kv \<Rightarrow> ('k, 'v) kv result" where
  "kv_remove k m = (if kv_has m k then Inr (kv_del k m) else Inl ErrNotFound)"

definition kv_get_or :: "'v \<Rightarrow> ('k, 'v) kv \<Rightarrow> 'k \<Rightarrow> 'v" where
  "kv_get_or d m k = (case kv_get m k of None \<Rightarrow> d | Some v \<Rightarrow> v)"

text \<open>The entries of a two-part key under one first part, in order: a prefixed range.\<close>

definition kv_prefix :: "'a \<Rightarrow> ('a \<times> 'b, 'v) kv \<Rightarrow> ('b \<times> 'v) list" where
  "kv_prefix a m = map (\<lambda>((a', b), v). (b, v)) (filter (\<lambda>((a', b), v). a' = a) m)"

text \<open>The loop that imports the entries of a genesis file.\<close>

definition setAll :: "('k :: linorder \<times> 'v) list \<Rightarrow> ('k, 'v) kv \<Rightarrow> ('k, 'v) kv" where
  "setAll entries m = fold (\<lambda>(k, v). kv_set k v) entries m"

lemma setAll_get: "kv_get (setAll xs m) k = (case map_of (rev xs) k of None \<Rightarrow> kv_get m k | Some v \<Rightarrow> Some v)"
proof (induction xs arbitrary: m)
  case (Cons x xs)
  then show ?case by (cases x) (auto simp: setAll_def map_add_def split: option.splits)
qed (simp add: setAll_def)

text \<open>Entries that agree with a map give the part of the map they cover.\<close>

lemma setAll_agrees:
  assumes "\<And>k v. (k, v) \<in> set xs \<Longrightarrow> f k = Some v"
  shows "kv_get (setAll xs []) k = (if k \<in> fst ` set xs then f k else None)"
proof (cases "map_of (rev xs) k")
  case None
  then have "k \<notin> fst ` set xs" by (simp add: map_of_eq_None_iff)
  then show ?thesis by (subst setAll_get) (simp add: None kv_get_def)
next
  case (Some v)
  then have "(k, v) \<in> set xs" by (metis map_of_SomeD set_rev)
  then show ?thesis using assms by (subst setAll_get) (force simp: Some)
qed

lemma kv_remove_Inr [simp]: "kv_remove k m = Inr m' \<longleftrightarrow> kv_has m k \<and> m' = kv_del k m"
  by (auto simp: kv_remove_def)

lemma kv_prefix_mem: "(b, v) \<in> set (kv_prefix a m) \<longleftrightarrow> ((a, b), v) \<in> set m"
  by (force simp: kv_prefix_def image_iff)

lemma kv_prefix_ok:
  assumes "kv_ok (m :: ('a :: linorder \<times> 'b :: linorder, 'v) kv)"
  shows "kv_ok (kv_prefix a m)"
  using assms unfolding kv_ok_def kv_prefix_def
  by (induction m) (auto simp: image_iff less_prod_def')

lemma kv_prefix_get:
  assumes "kv_ok (m :: ('a :: linorder \<times> 'b :: linorder, 'v) kv)"
  shows "kv_get (kv_prefix a m) b = kv_get m (a, b)"
proof (cases "kv_get m (a, b)")
  case (Some v)
  then show ?thesis using kv_get_mem [OF assms, of "(a, b)" v]
      kv_get_mem [OF kv_prefix_ok [OF assms, of a], of b v] by (simp add: kv_prefix_mem)
next
  case None
  have "kv_get (kv_prefix a m) b \<noteq> Some v" for v
    using None kv_get_mem [OF assms, of "(a, b)" v] kv_get_mem [OF kv_prefix_ok [OF assms, of a], of b v]
    by (simp add: kv_prefix_mem)
  then show ?thesis using None by (metis not_None_eq)
qed

text \<open>Well-formed collections with the same contents are the same.\<close>

lemma kv_entries_of_keys: "kv_ok m \<Longrightarrow> m = map (\<lambda>k. (k, the (kv_get m k))) (map fst m)"
  by (auto simp: o_def kv_get_mem [symmetric] intro!: map_idI [symmetric])

lemma kv_list_eqI:
  assumes "kv_ok m" and "kv_ok m'" and "\<And>k. kv_get m k = kv_get m' k"
  shows "m = m'"
proof -
  have "set m = set m'" using assms kv_get_mem by (metis subrelI subset_antisym)
  then have "set (map fst m) = set (map fst m')" by simp
  moreover have "sorted (map fst m)" "distinct (map fst m)" "sorted (map fst m')" "distinct (map fst m')"
    using assms(1,2) kv_ok_distinct by (auto simp: kv_ok_def strict_sorted_iff)
  ultimately have "map fst m = map fst m'" by (intro sorted_distinct_set_unique)
  then show ?thesis
    using kv_entries_of_keys [OF assms(1)] kv_entries_of_keys [OF assms(2)] assms(3) by simp
qed

text \<open>A write under one first part is a write in its range and leaves other ranges alone.\<close>

lemma kv_prefix_set:
  assumes "kv_ok (m :: ('a :: linorder \<times> 'b :: linorder, 'v) kv)"
  shows "kv_prefix a (kv_set (a', b) v m) = (if a' = a then kv_set b v (kv_prefix a m) else kv_prefix a m)"
proof (rule kv_list_eqI)
  show "kv_ok (kv_prefix a (kv_set (a', b) v m))" using assms by (intro kv_prefix_ok kv_ok_set)
  show "kv_ok (if a' = a then kv_set b v (kv_prefix a m) else kv_prefix a m)"
    using kv_prefix_ok [OF assms] by auto
  show "kv_get (kv_prefix a (kv_set (a', b) v m)) k =
      kv_get (if a' = a then kv_set b v (kv_prefix a m) else kv_prefix a m) k" for k
    by (auto simp: kv_prefix_get assms kv_ok_set)
qed

text \<open>The entries up to a key end with that key after a write, and those below are kept.\<close>

lemma kv_set_upto:
  "kv_ok m \<Longrightarrow> filter (\<lambda>e. fst e \<le> k) (kv_set k v m) = filter (\<lambda>e. fst e < k) m @ [(k, v)]"
proof (induction k v m rule: kv_set.induct)
  case (1 k v)
  then show ?case by simp
next
  case (2 k v k' v' m)
  have m: "kv_ok m" "\<forall>x \<in> set m. k' < fst x" using 2(2) by (auto simp: kv_ok_def)
  have none: "filter (\<lambda>e. fst e \<le> k) m = []" "filter (\<lambda>e. fst e < k) m = []" if "k \<le> k'"
    using m(2) that by (auto simp: filter_empty_conv not_le not_less dest: order.strict_trans2 intro: less_imp_le)
  consider "k < k'" | "k = k'" | "k' < k" by (metis linorder_neqE)
  then show ?case
  proof cases
    case 1
    then have "\<not> k' < k" "k' \<noteq> k" "k \<le> k'" by auto
    then show ?thesis using 1 none by (simp add: not_le)
  next
    case 2
    then show ?thesis using none by simp
  next
    case 3
    then show ?thesis using 2(1) m(1) by (auto simp: not_less less_imp_le)
  qed
qed

lemma kv_set_below: "b < k \<Longrightarrow> filter (\<lambda>e. fst e \<le> b) (kv_set k v m) = filter (\<lambda>e. fst e \<le> b) m"
  by (induction k v m rule: kv_set.induct) (auto simp: not_le)

lemma kv_set_snoc: "\<forall>x \<in> set m. fst x < k \<Longrightarrow> kv_set k v m = m @ [(k, v)]"
  by (induction m) auto

text \<open>The first entry of a walk.\<close>

definition firstOf :: "'a list \<Rightarrow> 'a option" where
  "firstOf xs = (case xs of [] \<Rightarrow> None | x # _ \<Rightarrow> Some x)"

lemma firstOf_rev: "firstOf (rev m) = (if m = [] then None else Some (last m))"
  by (cases m rule: rev_cases) (simp_all add: firstOf_def)

end
