(* ===== verification/Utils.thy ===== *)
theory Utils
  imports Prelude
begin

text \<open>
  Query identifiers (\<^verbatim>\<open>utils/queryid.go\<close>): hexadecimal strings with an optional
  \<^verbatim>\<open>0x\<close> prefix and the bytes they stand for. \<^verbatim>\<open>hex.DecodeString\<close> and
  \<^verbatim>\<open>hex.EncodeToString\<close> of the standard library are \<open>hexDecode\<close> and \<open>hexEncode\<close>; the
  Keccak hash is a parameter.
\<close>

section \<open>Hexadecimal strings\<close>

definition hex_digit :: "char \<Rightarrow> nat option" where
  "hex_digit c = (let n = (of_char c :: nat) in
     if 48 \<le> n \<and> n \<le> 57 then Some (n - 48)
     else if 97 \<le> n \<and> n \<le> 102 then Some (n - 87)
     else if 65 \<le> n \<and> n \<le> 70 then Some (n - 55)
     else None)"

fun hexDecode :: "string \<Rightarrow> bytes result" where
  "hexDecode [] = Inr []"
| "hexDecode [c] = (if hex_digit c = None then Inl (Err ''hex.InvalidByteError'') else Inl (Err ''hex.ErrLength''))"
| "hexDecode (a # b # s) = (case (hex_digit a, hex_digit b) of
     (Some x, Some y) \<Rightarrow> bindR (hexDecode s) (\<lambda>r. Inr (char_of (16 * x + y) # r))
   | _ \<Rightarrow> Inl (Err ''hex.InvalidByteError''))"

definition hex_char :: "nat \<Rightarrow> char" where
  "hex_char n = (if n < 10 then char_of (n + 48) else char_of (n + 87))"

fun hexEncode :: "bytes \<Rightarrow> string" where
  "hexEncode [] = []"
| "hexEncode (c # s) =
     hex_char ((of_char c :: nat) div 16) # hex_char ((of_char c :: nat) mod 16) # hexEncode s"

section \<open>Operations\<close>

definition has0xPrefix :: "string \<Rightarrow> bool" where
  "has0xPrefix s = (2 \<le> length s \<and> s ! 0 = CHR ''0'' \<and> (s ! 1 = CHR ''x'' \<or> s ! 1 = CHR ''X''))"

definition Remove0xPrefix :: "string \<Rightarrow> string" where
  "Remove0xPrefix s = toLower (if has0xPrefix s then drop 2 s else s)"

definition QueryBytesFromString :: "string \<Rightarrow> bytes result" where
  "QueryBytesFromString query = hexDecode (Remove0xPrefix query)"

definition QueryIDFromData :: "(bytes \<Rightarrow> bytes) \<Rightarrow> bytes \<Rightarrow> bytes" where
  "QueryIDFromData keccak256 queryData = keccak256 queryData"

definition QueryIDFromDataString :: "(bytes \<Rightarrow> bytes) \<Rightarrow> string \<Rightarrow> bytes result" where
  "QueryIDFromDataString keccak256 queryData =
     bindR (QueryBytesFromString queryData) (\<lambda>bz. Inr (QueryIDFromData keccak256 bz))"

text \<open>The padding loop of \<^verbatim>\<open>FormatUint256\<close>.\<close>

function pad64 :: "string \<Rightarrow> string" where
  "pad64 s = (if length s < 64 then pad64 (CHR ''0'' # s) else s)"
  by pat_completeness auto
termination
  by (relation "measure (\<lambda>s. 64 - length s)") auto

declare pad64.simps [simp del]

definition FormatUint256 :: "string \<Rightarrow> string result" where
  "FormatUint256 hexStr =
     (let h = (if has0xPrefix hexStr then drop 2 hexStr else hexStr)
      in if 64 < length h then Inl (Err ''hex string is too long'') else Inr (pad64 h))"

section \<open>Round trips\<close>

lemma hex_char_code: "n < 16 \<Longrightarrow> (of_char (hex_char n) :: nat) = (if n < 10 then n + 48 else n + 87)"
  by (simp add: hex_char_def)

lemma hex_digit_char [simp]: "n < 16 \<Longrightarrow> hex_digit (hex_char n) = Some n"
  by (simp add: hex_digit_def hex_char_code Let_def)

lemma lower_hex_char: "n < 16 \<Longrightarrow> lower_char (hex_char n) = hex_char n"
  by (simp add: lower_char_def hex_char_code Let_def)

lemma high_nibble: "(of_char (c :: char) :: nat) div 16 < 16"
  using of_char_lt_256 [of c] by (intro less_mult_imp_div_less) simp

lemma hexDecode_encode: "hexDecode (hexEncode b) = Inr b"
proof (induction b)
  case Nil
  then show ?case by simp
next
  case (Cons c b)
  show ?case using Cons.IH high_nibble [of c] by simp
qed

lemma lower_hexEncode: "toLower (hexEncode b) = hexEncode b"
proof (induction b)
  case Nil
  then show ?case by (simp add: toLower_def)
next
  case (Cons c b)
  show ?case using Cons.IH high_nibble [of c] by (simp add: toLower_def lower_hex_char)
qed

lemma hexEncode_no_prefix: "\<not> has0xPrefix (hexEncode b)"
proof (cases b)
  case Nil
  then show ?thesis by (simp add: has0xPrefix_def)
next
  case (Cons c b')
  have "hex_digit (CHR ''x'') = None" "hex_digit (CHR ''X'') = None"
    by (simp_all add: hex_digit_def)
  then have "hex_char n \<noteq> CHR ''x'' \<and> hex_char n \<noteq> CHR ''X''" if "n < 16" for n
    using hex_digit_char [OF that] by force
  then show ?thesis by (simp add: Cons has0xPrefix_def)
qed

lemma pad64_eq: "pad64 s = replicate (64 - length s) (CHR ''0'') @ s"
proof (induction s rule: pad64.induct)
  case (1 s)
  show ?case
  proof (cases "length s < 64")
    case True
    then have "64 - length s = Suc (64 - length (CHR ''0'' # s))" by simp
    then show ?thesis using 1 True
      by (simp add: pad64.simps [of s] replicate_append_same del: replicate.simps)
        (simp add: replicate_append_same [symmetric])
  next
    case False
    then show ?thesis by (simp add: pad64.simps [of s])
  qed
qed

text \<open>
  Decoding a query identifier inverts its hexadecimal printing, with or without the
  \<^verbatim>\<open>0x\<close> prefix, so every byte string is the identifier of its printed form.
\<close>

theorem query_bytes_roundtrip:
  "QueryBytesFromString (hexEncode b) = Inr b
   \<and> QueryBytesFromString (''0x'' @ hexEncode b) = Inr b"
  by (simp add: QueryBytesFromString_def Remove0xPrefix_def hexEncode_no_prefix lower_hexEncode
      hexDecode_encode) (simp add: has0xPrefix_def lower_hexEncode hexDecode_encode)

end
