(* ===== verification/ReportTypes.thy ===== *)
theory ReportTypes
  imports Prelude
begin

text \<open>
  Stored types that several modules exchange: a reporter's submission
  (\<^verbatim>\<open>oracle/micro_report.proto\<close>), which the oracle stores and a dispute quotes as evidence,
  and a selector's choice of reporter (\<^verbatim>\<open>reporter/selection.proto\<close>); and the conversions
  between instants and the millisecond timestamps the stores are keyed by.
\<close>

record micro_report =
  mrReporter :: string
  mrPower :: u64
  mrQueryType :: string
  mrQueryId :: bytes
  mrAggregateMethod :: string
  mrValue :: string
  mrTimestamp :: time
  mrCyclelist :: bool
  mrBlockNumber :: u64
  mrMetaId :: u64

record selection =
  selReporter :: addr
  selLockedUntilTime :: time
  selDelegationsCount :: u64

text \<open>Where the tokens behind a reporter are staked.\<close>

record token_origin_info =
  DelegatorAddress :: addr
  ValidatorAddress :: addr
  toAmount :: int

text \<open>\<^verbatim>\<open>Time.UnixMilli\<close>, and \<^verbatim>\<open>time.UnixMilli\<close> on a stored timestamp. A conversion
  \<^verbatim>\<open>uint64(x)\<close> keeps the low 64 bits.\<close>

definition unixMilli :: "time \<Rightarrow> int" where
  "unixMilli t = t div 1000000"

definition toU64 :: "int \<Rightarrow> u64" where
  "toU64 x = word_of_int x"

definition timeOfMilli :: "u64 \<Rightarrow> time" where
  "timeOfMilli m = i64 (uint m) * 1000000"

lemma uint_toU64: "0 \<le> x \<Longrightarrow> x < 2 ^ 64 \<Longrightarrow> uint (toU64 x) = x"
  by (simp add: toU64_def uint_word_of_int)

lemma toU64_milli_roundtrip: "uint m < 2 ^ 63 \<Longrightarrow> toU64 (unixMilli (timeOfMilli m)) = m"
  by (simp add: toU64_def unixMilli_def timeOfMilli_def i64_uint)

end
