(* ===== verification/Registry.thy ===== *)
theory Registry
  imports KVStore Utils ReportTypes
begin

text \<open>
  The registry module (\<^verbatim>\<open>x/registry\<close>): the data specifications of the query types, the
  decoding of query data and values against them, and the messages that register, update
  and remove specifications. The ABI codec of \<^verbatim>\<open>go-ethereum\<close> is a parameter: building the
  types of a list of arguments (\<^verbatim>\<open>abi.NewType\<close>) and unpacking bytes as these arguments
  is one function of the arguments and the bytes.
\<close>

section \<open>ABI arguments and values\<close>

datatype abi_arg = AbiArg (argName: string) (argType: string) (argComponents: "abi_arg list")

datatype abi_value = AbiString string | AbiBytes bytes | AbiBool bool | AbiUint int | AbiAddress bytes | AbiOther string

text \<open>\<^verbatim>\<open>Unpack\<close> on the arguments, the error of an unknown type or of malformed bytes
  included.\<close>

type_synonym abi_unpack = "abi_arg list \<Rightarrow> bytes \<Rightarrow> abi_value list result"

section \<open>Data specifications\<close>

datatype abi_component = ABIComponent (compName: string) (FieldType: string) (NestedComponent: "abi_component list")

record data_spec =
  DocumentHash :: string
  ResponseValueType :: string
  AbiComponents :: "abi_component list"
  AggregationMethod :: string
  Registrar :: string
  ReportBlockWindow :: u64
  dsQueryType :: string

definition SupportedValueTypes :: "string list" where
  "SupportedValueTypes = [
     ''int8'', ''int16'', ''int32'', ''int64'', ''int128'', ''int256'',
     ''int[]'', ''int8[]'', ''int16[]'', ''int32[]'', ''int64[]'', ''int128[]'', ''int256[]'',
     ''uint8'', ''uint16'', ''uint32'', ''uint64'', ''uint128'', ''uint256'',
     ''uint[]'', ''uint8[]'', ''uint16[]'', ''uint32[]'', ''uint64[]'', ''uint128[]'', ''uint256[]'',
     ''bytes'', ''string'', ''bool'', ''address'', ''bytes[]'', ''string[]'', ''bool[]'', ''address[]'']"

definition SupportedType :: "string \<Rightarrow> bool" where
  "SupportedType dataType = (dataType \<in> set SupportedValueTypes)"

definition WeightedMedian :: string where
  "WeightedMedian = ''weighted-median''"

definition WeightedMode :: string where
  "WeightedMode = ''weighted-mode''"

definition SupportedAggregationMethod :: "string \<Rightarrow> bool" where
  "SupportedAggregationMethod m = (m \<in> {WeightedMedian, WeightedMode})"

definition Tuplenoarray :: string where
  "Tuplenoarray = ''tuple''"

definition Tuplearray :: string where
  "Tuplearray = ''tuple[]''"

definition GenesisDataSpec :: "data_spec list" where
  "GenesisDataSpec = [
     \<lparr>DocumentHash = '''', ResponseValueType = ''uint256'',
      AbiComponents = [ABIComponent ''asset'' ''string'' [], ABIComponent ''currency'' ''string'' []],
      AggregationMethod = ''weighted-median'', Registrar = ''genesis'',
      ReportBlockWindow = 2, dsQueryType = ''spotprice''\<rparr>,
     \<lparr>DocumentHash = '''', ResponseValueType = ''address, string, uint256, uint256'',
      AbiComponents = [ABIComponent ''toLayer'' ''bool'' [], ABIComponent ''depositId'' ''uint256'' []],
      AggregationMethod = ''weighted-mode'', Registrar = ''genesis'',
      ReportBlockWindow = 2000, dsQueryType = ''trbbridge''\<rparr>]"

section \<open>Decoding\<close>

text \<open>The prefix removal of the registry keeps the case of the digits, unlike that of
  \<^verbatim>\<open>utils\<close>.\<close>

definition regRemove0xPrefix :: "string \<Rightarrow> string" where
  "regRemove0xPrefix s = (if has0xPrefix s then drop 2 s else s)"

definition hasSuffix :: "string \<Rightarrow> string \<Rightarrow> bool" where
  "hasSuffix s t = (length t \<le> length s \<and> drop (length s - length t) s = t)"

text \<open>\<^verbatim>\<open>strings.Trim(s, "()")\<close> and \<^verbatim>\<open>strings.Split(s, ",")\<close>.\<close>

definition trimParens :: "string \<Rightarrow> string" where
  "trimParens s = (let p = (\<lambda>c. c = CHR ''('' \<or> c = CHR '')'')
     in rev (dropWhile p (rev (dropWhile p s))))"

fun splitComma :: "string \<Rightarrow> string list" where
  "splitComma [] = [[]]"
| "splitComma (c # s) = (if c = CHR '','' then [] # splitComma s
     else (case splitComma s of [] \<Rightarrow> [[c]] | t # ts \<Rightarrow> (c # t) # ts))"

fun showNat :: "nat \<Rightarrow> string" where
  "showNat n = (if n < 10 then [char_of (48 + n)] else showNat (n div 10) @ [char_of (48 + n mod 10)])"

declare showNat.simps [simp del]

text \<open>The arguments \<^verbatim>\<open>DecodeValue\<close> builds for a value type: one tuple for a parenthesised
  type, the type itself otherwise.\<close>

definition valueArguments :: "string \<Rightarrow> abi_arg list" where
  "valueArguments datatype' =
     (if CHR ''('' \<in> set datatype' \<and> CHR '')'' \<in> set datatype'
      then let (dt, untrimmed) =
             (if hasSuffix datatype' ''[]''
              then (Tuplearray, take (length datatype' - 2) datatype')
              else (Tuplenoarray, datatype'));
             types = splitComma (trimParens untrimmed)
           in [AbiArg ''Main'' dt
                (map (\<lambda>(i, element). AbiArg (''Value'' @ showNat i) element []) (enumerate 0 types))]
      else [AbiArg '''' datatype' []])"

definition DecodeValue :: "abi_unpack \<Rightarrow> string \<Rightarrow> string \<Rightarrow> abi_value list result" where
  "DecodeValue unpack v datatype' =
     bindR (hexDecode (regRemove0xPrefix v)) (\<lambda>valueBytes. unpack (valueArguments datatype') valueBytes)"

definition IsValueDecodable :: "abi_unpack \<Rightarrow> string \<Rightarrow> string \<Rightarrow> unit result" where
  "IsValueDecodable unpack v datatype' =
     (case DecodeValue unpack v datatype' of Inl e \<Rightarrow> Inl (Err ''failed to unpack value'') | Inr _ \<Rightarrow> Inr ())"

definition ValidateValue :: "abi_unpack \<Rightarrow> data_spec \<Rightarrow> string \<Rightarrow> unit result" where
  "ValidateValue unpack d v = IsValueDecodable unpack v (ResponseValueType d)"

text \<open>The type assertions \<^verbatim>\<open>result[0].(string)\<close> and \<^verbatim>\<open>result[1].([]byte)\<close> panic on another
  shape.\<close>

definition DecodeQueryType :: "abi_unpack \<Rightarrow> bytes \<Rightarrow> (string \<times> bytes) result" where
  "DecodeQueryType unpack d =
     (case unpack [AbiArg '''' ''string'' [], AbiArg '''' ''bytes'' []] d of
        Inl e \<Rightarrow> Inl (Err ''failed to unpack query type'')
      | Inr (AbiString qt # AbiBytes args # _) \<Rightarrow> Inr (qt, args)
      | Inr _ \<Rightarrow> Inl ErrPanic)"

fun convertToArgumentMarshaling :: "abi_component \<Rightarrow> abi_arg" where
  "convertToArgumentMarshaling (ABIComponent n t nested) =
     AbiArg n t (map convertToArgumentMarshaling nested)"

text \<open>The fields of query data, before their printing as JSON.\<close>

definition DecodeParamtypes :: "abi_unpack \<Rightarrow> bytes \<Rightarrow> abi_component list \<Rightarrow> abi_value list result" where
  "DecodeParamtypes unpack d component =
     (case unpack (map convertToArgumentMarshaling component) d of
        Inl e \<Rightarrow> Inl (Err ''failed to unpack query data into its fields'')
      | Inr result \<Rightarrow> Inr result)"

section \<open>The keeper\<close>

text \<open>\<open>rgWorld\<close> is the state of the modules the hooks of the keeper reach.\<close>

record 'w registry_state =
  MaxReportBufferWindow :: "u64 option"
  SpecRegistry :: "(string, data_spec) kv"
  rgWorld :: 'w

record 'w registry_env =
  rgAuthority :: string
  rgAccAddressFromBech32 :: "string \<Rightarrow> addr result"
  rgHooks :: "(string \<Rightarrow> data_spec \<Rightarrow> 'w \<Rightarrow> 'w result) list"

definition SetDataSpec :: "string \<Rightarrow> data_spec \<Rightarrow> 'w registry_state \<Rightarrow> 'w registry_state result" where
  "SetDataSpec querytype dataspec st =
     (let querytype = toLower querytype in
      bindR (getR (MaxReportBufferWindow st)) (\<lambda>maxWindow.
      bindR (guardR (ReportBlockWindow dataspec \<le> maxWindow)
              (Err ''report buffer window exceeds max allowed value'')) (\<lambda>_.
      bindR (guardR (toLower (dsQueryType dataspec) = querytype)
              (Err ''query type in dataspec does not match the query type provided'')) (\<lambda>_.
      Inr (st\<lparr>SpecRegistry := kv_set querytype dataspec (SpecRegistry st)\<rparr>)))))"

definition GetSpec :: "'w registry_state \<Rightarrow> string \<Rightarrow> data_spec result" where
  "GetSpec st querytype = getR (kv_get (SpecRegistry st) (toLower querytype))"

definition HasSpec :: "'w registry_state \<Rightarrow> string \<Rightarrow> bool" where
  "HasSpec st querytype = kv_has (SpecRegistry st) (toLower querytype)"

definition GetAllDataSpecs :: "'w registry_state \<Rightarrow> data_spec list" where
  "GetAllDataSpecs st = map snd (SpecRegistry st)"

record msg_register_spec =
  mrsRegistrar :: string
  mrsQueryType :: string
  mrsSpec :: data_spec

record msg_update_data_spec =
  mudAuthority :: string
  mudQueryType :: string
  mudSpec :: data_spec

definition validateRegisterSpec :: "'w registry_env \<Rightarrow> msg_register_spec \<Rightarrow> unit result" where
  "validateRegisterSpec env msg =
     (case rgAccAddressFromBech32 env (mrsRegistrar msg) of
        Inl _ \<Rightarrow> Inl (Err ''invalid creator address'')
      | Inr _ \<Rightarrow>
        if mrsQueryType msg = '''' then Inl (Err ''query type must be a non-empty string'')
        else if AbiComponents (mrsSpec msg) = [] then Inl (Err ''spec abi components should not be empty'')
        else if AggregationMethod (mrsSpec msg) = '''' then Inl (Err ''spec aggregation method should not be empty'')
        else if Registrar (mrsSpec msg) = '''' then Inl (Err ''spec registrar should not be empty'')
        else if ResponseValueType (mrsSpec msg) = '''' then Inl (Err ''spec response value type should not be empty'')
        else Inr ())"

definition RegisterSpec ::
  "'w registry_env \<Rightarrow> msg_register_spec \<Rightarrow> 'w registry_state \<Rightarrow> 'w registry_state result" where
  "RegisterSpec env msg st =
     bindR (validateRegisterSpec env msg) (\<lambda>_.
     bindR (guardR (\<not> HasSpec st (mrsQueryType msg)) (Err ''data spec previously registered'')) (\<lambda>_.
     let spec = (mrsSpec msg)\<lparr>ResponseValueType := toLower (ResponseValueType (mrsSpec msg)),
                  AggregationMethod := toLower (AggregationMethod (mrsSpec msg)),
                  Registrar := mrsRegistrar msg\<rparr> in
     bindR (guardR (SupportedType (ResponseValueType spec)) (Err ''value type not supported'')) (\<lambda>_.
     bindR (guardR (SupportedAggregationMethod (AggregationMethod spec)) (Err ''aggregation method not supported'')) (\<lambda>_.
     SetDataSpec (mrsQueryType msg) spec st))))"

text \<open>\<^verbatim>\<open>MultiRegistryHooks\<close>: the hooks run in order until one fails.\<close>

definition AfterDataSpecUpdated ::
  "'w registry_env \<Rightarrow> string \<Rightarrow> data_spec \<Rightarrow> 'w \<Rightarrow> 'w result" where
  "AfterDataSpecUpdated env querytype dataspec w =
     foldR (\<lambda>h w. h querytype dataspec w) (rgHooks env) w"

definition UpdateDataSpec ::
  "'w registry_env \<Rightarrow> msg_update_data_spec \<Rightarrow> 'w registry_state \<Rightarrow> 'w registry_state result" where
  "UpdateDataSpec env req st =
     bindR (guardR (rgAuthority env = mudAuthority req) (Err ''ErrInvalidSigner'')) (\<lambda>_.
     let qt = toLower (mudQueryType req) in
     bindR (guardR (HasSpec st qt) (Err ''ErrInvalidSpec'')) (\<lambda>_.
     let spec = (mudSpec req)\<lparr>ResponseValueType := toLower (ResponseValueType (mudSpec req)),
                  AggregationMethod := toLower (AggregationMethod (mudSpec req))\<rparr> in
     bindR (guardR (SupportedType (ResponseValueType spec)) (Err ''value type not supported'')) (\<lambda>_.
     bindR (guardR (SupportedAggregationMethod (AggregationMethod spec)) (Err ''aggregation method not supported'')) (\<lambda>_.
     bindR (SetDataSpec qt spec st) (\<lambda>st.
     bindR (AfterDataSpecUpdated env qt spec (rgWorld st)) (\<lambda>w.
     Inr (st\<lparr>rgWorld := w\<rparr>)))))))"

definition removeSpec :: "string \<Rightarrow> 'w registry_state \<Rightarrow> 'w registry_state result" where
  "removeSpec t st =
     (let specType = toLower t in
      bindR (guardR (HasSpec st specType) (Err ''ErrSpecDoesNotExist'')) (\<lambda>_.
      Inr (st\<lparr>SpecRegistry := kv_del specType (SpecRegistry st)\<rparr>)))"

definition RemoveDataSpecs ::
  "'w registry_env \<Rightarrow> string \<Rightarrow> string list \<Rightarrow> 'w registry_state \<Rightarrow> 'w registry_state result" where
  "RemoveDataSpecs env authority dataSpecTypes st =
     bindR (guardR (rgAuthority env = authority) (Err ''ErrInvalidSigner'')) (\<lambda>_.
     foldR removeSpec dataSpecTypes st)"

definition validateSpecGenesis :: "data_spec \<Rightarrow> unit result" where
  "validateSpecGenesis d =
     (if dsQueryType d = '''' then Inl (Err ''query type is empty'')
      else if AbiComponents d = [] then Inl (Err ''abi components is empty'')
      else if ResponseValueType d = '''' then Inl (Err ''response value type is empty'')
      else if ReportBlockWindow d = 0 then Inl (Err ''report block window is 0'')
      else if Registrar d = '''' then Inl (Err ''registrar is empty'')
      else if AggregationMethod d = '''' then Inl (Err ''aggregation method is empty'')
      else Inr ())"

record registry_genesis =
  gsMaxReportBufferWindow :: u64
  gsDataspec :: "data_spec list"

definition validateRegistryGenesis :: "registry_genesis \<Rightarrow> unit result" where
  "validateRegistryGenesis gs =
     bindR (foldR (\<lambda>d _. validateSpecGenesis d) (gsDataspec gs) ()) (\<lambda>_.
     guardR (0 < gsMaxReportBufferWindow gs) (Err ''max report buffer window must be greater than zero''))"

text \<open>An error of \<^verbatim>\<open>InitGenesis\<close> is a panic.\<close>

definition registryInitGenesis :: "registry_genesis \<Rightarrow> 'w registry_state \<Rightarrow> 'w registry_state result" where
  "registryInitGenesis gs st =
     (case foldR (\<lambda>d. SetDataSpec (dsQueryType d) d) (gsDataspec gs)
             (st\<lparr>MaxReportBufferWindow := Some (gsMaxReportBufferWindow gs)\<rparr>) of
        Inl _ \<Rightarrow> Inl ErrPanic | Inr st' \<Rightarrow> Inr st')"

definition registryExportGenesis :: "'w registry_state \<Rightarrow> registry_genesis result" where
  "registryExportGenesis st =
     (case MaxReportBufferWindow st of
        None \<Rightarrow> Inl ErrPanic
      | Some w \<Rightarrow> Inr \<lparr>gsMaxReportBufferWindow = w, gsDataspec = GetAllDataSpecs st\<rparr>)"

definition registryDefaultGenesis :: registry_genesis where
  "registryDefaultGenesis = \<lparr>gsMaxReportBufferWindow = 700000, gsDataspec = GenesisDataSpec\<rparr>"

section \<open>The invariant of the registry\<close>

text \<open>Every specification is stored under the lower-case form of its own query type and
  within the allowed window.\<close>

definition registry_ok :: "'w registry_state \<Rightarrow> bool" where
  "registry_ok st \<longleftrightarrow> kv_ok (SpecRegistry st) \<and>
     (\<forall>(k, d) \<in> set (SpecRegistry st).
        k = toLower (dsQueryType d) \<and> (\<exists>w. MaxReportBufferWindow st = Some w \<and> ReportBlockWindow d \<le> w))"

definition spec_supported :: "data_spec \<Rightarrow> bool" where
  "spec_supported d \<longleftrightarrow> SupportedType (ResponseValueType d) \<and> SupportedAggregationMethod (AggregationMethod d)"

lemma set_kv_set: "kv_ok m \<Longrightarrow> set (kv_set k v m) = insert (k, v) {e \<in> set m. fst e \<noteq> k}"
  using kvs.entries_get [OF kv_ok_set [of m k v]] kvs.entries_get [of m] by (auto split: if_splits)

lemma SetDataSpec_Inr:
  "SetDataSpec qt d st = Inr st' \<longleftrightarrow>
     (\<exists>w. MaxReportBufferWindow st = Some w \<and> ReportBlockWindow d \<le> w) \<and> toLower (dsQueryType d) = toLower qt
     \<and> st' = st\<lparr>SpecRegistry := kv_set (toLower qt) d (SpecRegistry st)\<rparr>"
  by (auto simp: SetDataSpec_def Let_def)

lemma SetDataSpec_ok:
  assumes "SetDataSpec qt d st = Inr st'" and "registry_ok st"
  shows "registry_ok st'" and "rgWorld st' = rgWorld st"
proof -
  have "kv_ok (SpecRegistry st)" using assms(2) by (simp add: registry_ok_def)
  then show "registry_ok st'" using assms by (auto simp: SetDataSpec_Inr registry_ok_def set_kv_set)
  show "rgWorld st' = rgWorld st" using assms(1) by (auto simp: SetDataSpec_Inr)
qed

lemma RegisterSpec_Inr:
  assumes "RegisterSpec env msg st = Inr st'"
  obtains spec where "spec = (mrsSpec msg)\<lparr>ResponseValueType := toLower (ResponseValueType (mrsSpec msg)),
        AggregationMethod := toLower (AggregationMethod (mrsSpec msg)), Registrar := mrsRegistrar msg\<rparr>"
    and "spec_supported spec" and "\<not> HasSpec st (mrsQueryType msg)"
    and "SetDataSpec (mrsQueryType msg) spec st = Inr st'"
  using assms by (auto simp: RegisterSpec_def Let_def spec_supported_def)

lemma UpdateDataSpec_Inr:
  assumes "UpdateDataSpec env req st = Inr st'"
  obtains spec s w where "spec_supported spec" and "rgAuthority env = mudAuthority req"
    and "HasSpec st (mudQueryType req)"
    and "SetDataSpec (mudQueryType req) spec st = Inr s" and "st' = s\<lparr>rgWorld := w\<rparr>"
proof -
  let ?spec = "(mudSpec req)\<lparr>ResponseValueType := toLower (ResponseValueType (mudSpec req)),
     AggregationMethod := toLower (AggregationMethod (mudSpec req))\<rparr>"
  obtain s w where "spec_supported ?spec" "rgAuthority env = mudAuthority req"
    "HasSpec st (toLower (mudQueryType req))" "SetDataSpec (toLower (mudQueryType req)) ?spec st = Inr s"
    "st' = s\<lparr>rgWorld := w\<rparr>"
    using assms by (auto simp: UpdateDataSpec_def Let_def spec_supported_def)
  then show ?thesis using that [of ?spec s w] by (simp add: SetDataSpec_def HasSpec_def)
qed

lemma removeSpec_ok: "removeSpec t st = Inr st' \<Longrightarrow> registry_ok st \<Longrightarrow> registry_ok st'"
  by (auto simp: removeSpec_def Let_def registry_ok_def kv_del_def kv_ok_del [unfolded kv_del_def])

lemma RemoveDataSpecs_invariant:
  assumes "RemoveDataSpecs env a ts st = Inr st'" and "I st"
    and "\<And>t s s'. I s \<Longrightarrow> removeSpec t s = Inr s' \<Longrightarrow> I s'"
  shows "I st'"
proof -
  have "foldR removeSpec ts st = Inr st'" using assms(1) by (simp add: RemoveDataSpecs_def)
  then show ?thesis by (rule foldR_invariant [where I = I]) (use assms in blast)+
qed

section \<open>Reachable registries\<close>

inductive registry_step :: "'w registry_env \<Rightarrow> 'w registry_state \<Rightarrow> 'w registry_state \<Rightarrow> bool"
  for env where
  "RegisterSpec env msg st = Inr st' \<Longrightarrow> registry_step env st st'"
| "UpdateDataSpec env req st = Inr st' \<Longrightarrow> registry_step env st st'"
| "RemoveDataSpecs env a ts st = Inr st' \<Longrightarrow> registry_step env st st'"

inductive registry_reachable :: "'w registry_env \<Rightarrow> registry_genesis \<Rightarrow> 'w registry_state \<Rightarrow> bool"
  for env gs where
  "SpecRegistry st = [] \<Longrightarrow> registryInitGenesis gs st = Inr st' \<Longrightarrow> registry_reachable env gs st'"
| "registry_reachable env gs st \<Longrightarrow> registry_step env st st' \<Longrightarrow> registry_reachable env gs st'"

definition specs_from :: "registry_genesis \<Rightarrow> 'w registry_state \<Rightarrow> bool" where
  "specs_from gs st \<longleftrightarrow> registry_ok st \<and>
     (\<forall>(k, d) \<in> set (SpecRegistry st). d \<in> set (gsDataspec gs) \<or> spec_supported d)"

lemma specs_from_set:
  assumes "SetDataSpec qt d st = Inr st'" and "specs_from gs st" and "d \<in> set (gsDataspec gs) \<or> spec_supported d"
  shows "specs_from gs st'"
proof -
  have "kv_ok (SpecRegistry st)" using assms(2) by (simp add: specs_from_def registry_ok_def)
  moreover have "registry_ok st'" using assms SetDataSpec_ok by (auto simp: specs_from_def)
  ultimately show ?thesis using assms by (auto simp: specs_from_def SetDataSpec_Inr set_kv_set)
qed

lemma specs_from_step:
  assumes "registry_step env st st'" and "specs_from gs st"
  shows "specs_from gs st'"
  using assms
proof (cases rule: registry_step.cases)
  case (1 msg)
  then show ?thesis using assms(2) by (elim RegisterSpec_Inr) (auto intro: specs_from_set)
next
  case (2 req)
  then obtain spec s w where "spec_supported spec" "SetDataSpec (mudQueryType req) spec st = Inr s"
    and st': "st' = s\<lparr>rgWorld := w\<rparr>" by (elim UpdateDataSpec_Inr)
  then have "specs_from gs s" using assms(2) by (auto intro: specs_from_set)
  then show ?thesis by (simp add: st' specs_from_def registry_ok_def)
next
  case (3 a ts)
  have "specs_from gs s'" if "specs_from gs s" "removeSpec t s = Inr s'" for t s s'
    using that removeSpec_ok by (auto simp: specs_from_def removeSpec_def Let_def kv_del_def)
  then show ?thesis by (rule RemoveDataSpecs_invariant [where I = "specs_from gs", OF 3 assms(2)])
qed

lemma specs_from_genesis:
  assumes "SpecRegistry st = []" and "registryInitGenesis gs st = Inr st'"
  shows "specs_from gs st'"
proof -
  have "foldR (\<lambda>d. SetDataSpec (dsQueryType d) d) (gsDataspec gs)
      (st\<lparr>MaxReportBufferWindow := Some (gsMaxReportBufferWindow gs)\<rparr>) = Inr st'"
    using assms(2) by (auto simp: registryInitGenesis_def split: sum.splits)
  then show ?thesis
  proof (rule foldR_invariant)
    show "specs_from gs (st\<lparr>MaxReportBufferWindow := Some (gsMaxReportBufferWindow gs)\<rparr>)"
      by (simp add: specs_from_def registry_ok_def assms(1))
  next
    fix d s s'
    assume "d \<in> set (gsDataspec gs)" "specs_from gs s" "SetDataSpec (dsQueryType d) d s = Inr s'"
    then show "specs_from gs s'" by (intro specs_from_set [of _ d s s' gs]) auto
  qed
qed


definition ex_registry_env :: "unit registry_env" where
  "ex_registry_env = \<lparr>rgAuthority = ''gov'', rgAccAddressFromBech32 = Inr, rgHooks = []\<rparr>"

definition ex_registry :: "unit registry_state" where
  "ex_registry = \<lparr>MaxReportBufferWindow = Some 700000,
     SpecRegistry = map (\<lambda>d. (dsQueryType d, d)) GenesisDataSpec, rgWorld = ()\<rparr>"

definition ex_register :: msg_register_spec where
  "ex_register = \<lparr>mrsRegistrar = ''alice'', mrsQueryType = ''EvmCall'',
     mrsSpec = \<lparr>DocumentHash = ''hash'', ResponseValueType = ''BYTES'',
       AbiComponents = [ABIComponent ''chainId'' ''uint256'' []], AggregationMethod = ''Weighted-Mode'',
       Registrar = ''alice'', ReportBlockWindow = 100, dsQueryType = ''EVMCall''\<rparr>\<rparr>"

lemma ex_registry_reachable: "registry_reachable ex_registry_env registryDefaultGenesis ex_registry"
  by (rule registry_reachable.intros(1)
      [of "\<lparr>MaxReportBufferWindow = None, SpecRegistry = [], rgWorld = ()\<rparr>"]) (simp, code_simp)


text \<open>
  A successful registration stores the specification, with its value type and
  aggregation method in lower case and the sender as registrar, where every spelling of the
  query type finds it; it leaves every other query type untouched, replaces nothing, and a
  second registration of any spelling is refused.
\<close>

theorem register_then_get:
  assumes "RegisterSpec env msg st = Inr st'"
  shows "(\<forall>qt. GetSpec st' qt =
      (if equalFold qt (mrsQueryType msg)
       then Inr ((mrsSpec msg)\<lparr>ResponseValueType := toLower (ResponseValueType (mrsSpec msg)),
                 AggregationMethod := toLower (AggregationMethod (mrsSpec msg)), Registrar := mrsRegistrar msg\<rparr>)
       else GetSpec st qt))
    \<and> GetSpec st (mrsQueryType msg) = Inl ErrNotFound
    \<and> (\<forall>msg2. equalFold (mrsQueryType msg2) (mrsQueryType msg) \<longrightarrow> (\<exists>e. RegisterSpec env msg2 st' = Inl e))"
proof (intro conjI allI impI)
  obtain spec where spec: "spec = (mrsSpec msg)\<lparr>ResponseValueType := toLower (ResponseValueType (mrsSpec msg)),
        AggregationMethod := toLower (AggregationMethod (mrsSpec msg)), Registrar := mrsRegistrar msg\<rparr>"
    and no: "\<not> HasSpec st (mrsQueryType msg)"
    and set: "SetDataSpec (mrsQueryType msg) spec st = Inr st'"
    by (rule RegisterSpec_Inr [OF assms])
  show "GetSpec st' qt =
      (if equalFold qt (mrsQueryType msg)
       then Inr ((mrsSpec msg)\<lparr>ResponseValueType := toLower (ResponseValueType (mrsSpec msg)),
                 AggregationMethod := toLower (AggregationMethod (mrsSpec msg)), Registrar := mrsRegistrar msg\<rparr>)
       else GetSpec st qt)" for qt
    using set by (auto simp: SetDataSpec_Inr GetSpec_def equalFold_def spec)
  show "GetSpec st (mrsQueryType msg) = Inl ErrNotFound"
    using no by (simp add: HasSpec_def kv_has_def GetSpec_def)
  fix msg2 :: msg_register_spec
  assume fold: "equalFold (mrsQueryType msg2) (mrsQueryType msg)"
  have "HasSpec st' (mrsQueryType msg2)"
    using set fold by (auto simp: SetDataSpec_Inr HasSpec_def equalFold_def kv_has_def)
  then show "\<exists>e. RegisterSpec env msg2 st' = Inl e"
    by (cases "RegisterSpec env msg2 st'") (auto elim: RegisterSpec_Inr)
qed

theorem register_then_get_witness:
  "\<exists>st'. RegisterSpec ex_registry_env ex_register ex_registry = Inr st'
     \<and> ResponseValueType (projr (GetSpec st' ''evmcall'')) = ''bytes''
     \<and> (\<exists>e. RegisterSpec ex_registry_env ex_register st' = Inl e)"
proof -
  have "\<not> isl (RegisterSpec ex_registry_env ex_register ex_registry)" by code_simp
  then obtain st' where run: "RegisterSpec ex_registry_env ex_register ex_registry = Inr st'"
    by (cases "RegisterSpec ex_registry_env ex_register ex_registry") auto
  have "equalFold ''evmcall'' (mrsQueryType ex_register)" by code_simp
  moreover have "toLower (ResponseValueType (mrsSpec ex_register)) = ''bytes''" by code_simp
  ultimately have "ResponseValueType (projr (GetSpec st' ''evmcall'')) = ''bytes''"
    using register_then_get [OF run] by simp
  moreover have "\<exists>e. RegisterSpec ex_registry_env ex_register st' = Inl e"
    using register_then_get [OF run] by (simp add: equalFold_def)
  ultimately show ?thesis using run by blast
qed

section \<open>Genesis\<close>

lemma foldR_SetDataSpec:
  assumes "sorted_wrt (<) (map (\<lambda>d. toLower (dsQueryType d)) (ds @ xs))"
    and "\<forall>d \<in> set xs. ReportBlockWindow d \<le> w" and "MaxReportBufferWindow st = Some w"
    and "SpecRegistry st = map (\<lambda>d. (toLower (dsQueryType d), d)) ds"
  shows "foldR (\<lambda>d. SetDataSpec (dsQueryType d) d) xs st =
    Inr (st\<lparr>SpecRegistry := map (\<lambda>d. (toLower (dsQueryType d), d)) (ds @ xs)\<rparr>)"
  using assms
proof (induction xs arbitrary: ds st)
  case Nil
  then show ?case by simp
next
  case (Cons x xs)
  let ?st = "st\<lparr>SpecRegistry := map (\<lambda>d. (toLower (dsQueryType d), d)) (ds @ [x])\<rparr>"
  have "\<forall>e \<in> set (SpecRegistry st). fst e < toLower (dsQueryType x)"
    using Cons.prems(1,4) by (auto simp: sorted_wrt_append)
  then have "SetDataSpec (dsQueryType x) x st = Inr ?st"
    using Cons.prems by (auto simp: SetDataSpec_Inr kv_set_snoc)
  then show ?case using Cons.IH [of "ds @ [x]" ?st] Cons.prems by simp
qed

lemma registry_ok_entries:
  assumes "registry_ok st"
  shows "SpecRegistry st = map (\<lambda>d. (toLower (dsQueryType d), d)) (GetAllDataSpecs st)"
  using assms unfolding registry_ok_def GetAllDataSpecs_def
  by (auto simp: o_def intro!: map_idI [symmetric])

text \<open>
  Exporting the registry and initialising an empty one from the export gives back the
  same specifications and parameters.
\<close>

theorem registry_genesis_roundtrip:
  assumes "registry_ok st" and "MaxReportBufferWindow st = Some w"
    and "SpecRegistry st0 = []" and "rgWorld st0 = rgWorld st"
  shows "\<exists>gs. registryExportGenesis st = Inr gs \<and> registryInitGenesis gs st0 = Inr st"
proof -
  let ?gs = "\<lparr>gsMaxReportBufferWindow = w, gsDataspec = GetAllDataSpecs st\<rparr>"
  let ?st0 = "st0\<lparr>MaxReportBufferWindow := Some w\<rparr>"
  note entries = registry_ok_entries [OF assms(1)]
  have "sorted_wrt (<) (map fst (SpecRegistry st))" using assms(1) by (simp add: registry_ok_def kv_ok_def)
  then have sorted: "sorted_wrt (<) (map (\<lambda>d. toLower (dsQueryType d)) ([] @ GetAllDataSpecs st))"
    unfolding entries by (simp add: o_def)
  have "\<forall>d \<in> set (GetAllDataSpecs st). ReportBlockWindow d \<le> w"
    using assms(1,2) by (auto simp: registry_ok_def GetAllDataSpecs_def)
  from foldR_SetDataSpec [OF sorted this, of ?st0] assms(3)
  have "registryInitGenesis ?gs st0 = Inr (?st0\<lparr>SpecRegistry := SpecRegistry st\<rparr>)"
    by (simp add: registryInitGenesis_def entries [symmetric])
  moreover have "?st0\<lparr>SpecRegistry := SpecRegistry st\<rparr> = st" using assms(2,4) by simp
  ultimately show ?thesis using assms(2) by (simp add: registryExportGenesis_def)
qed

theorem registry_genesis_roundtrip_witness:
  "\<exists>gs. registryExportGenesis ex_registry = Inr gs
     \<and> registryInitGenesis gs \<lparr>MaxReportBufferWindow = None, SpecRegistry = [], rgWorld = ()\<rparr> = Inr ex_registry"
proof (rule registry_genesis_roundtrip [where w = 700000])
  show "registry_ok ex_registry"
    by (simp add: registry_ok_def ex_registry_def GenesisDataSpec_def) code_simp
qed (simp_all add: ex_registry_def)

end
