(* ===== verification/Decimal.thy ===== *)
theory Decimal
  imports Prelude
begin

text \<open>
  Fixed-point decimals. \<^verbatim>\<open>math.LegacyDec\<close> holds a number as an integer count of
  \<open>10\<^sup>-\<^sup>18\<close>: conversion from an integer, addition, comparison and truncation are exact
  on that count. Its rounding operations \<^verbatim>\<open>Mul\<close> and \<^verbatim>\<open>Quo\<close> belong to the SDK and
  are parameters (a record \<open>dec_ops\<close>) of every definition that uses them; \<open>dec_laws\<close>
  states what the code relies on: a product is within half a unit and a quotient within
  one unit of the exact value. From these laws the theory derives the facts that carry the
  fee, tally and reward proofs: products with whole numbers are exact, and truncating a
  quotient of whole numbers is integer division as long as the divisor is below \<open>10\<^sup>18\<close>.
\<close>

type_synonym dec = int

definition dec_one :: int where
  "dec_one = 10 ^ 18"

lemma dec_one_code [code]: "dec_one = 1000000000000000000"
  by (simp add: dec_one_def)

record dec_ops =
  dmul :: "dec \<Rightarrow> dec \<Rightarrow> dec"
  dquo :: "dec \<Rightarrow> dec \<Rightarrow> dec"

definition dec_of :: "int \<Rightarrow> dec" where
  "dec_of n = n * dec_one"

definition TruncateInt :: "dec \<Rightarrow> int" where
  "TruncateInt d = quoT d dec_one"

text \<open>\<^verbatim>\<open>Quo\<close> panics on a zero divisor.\<close>

definition decQuo :: "dec_ops \<Rightarrow> dec \<Rightarrow> dec \<Rightarrow> dec result" where
  "decQuo D a b = (if b = 0 then Inl ErrPanic else Inr (dquo D a b))"

definition dec_laws :: "dec_ops \<Rightarrow> bool" where
  "dec_laws D \<longleftrightarrow>
     (\<forall>a b. 2 * \<bar>dmul D a b * dec_one - a * b\<bar> \<le> dec_one) \<and>
     (\<forall>a b. b \<noteq> 0 \<longrightarrow> \<bar>dquo D a b * b - a * dec_one\<bar> < \<bar>b\<bar>)"

section \<open>Consequences of the rounding laws\<close>

lemma dec_one_pos [simp]: "0 < dec_one"
  by (simp add: dec_one_def)

lemma dec_one_nonzero [simp]: "dec_one \<noteq> 0"
  by (simp add: dec_one_def)

lemma dec_of_0 [simp]: "dec_of 0 = 0"
  by (simp add: dec_of_def)

lemma dec_of_eq_0 [simp]: "dec_of n = 0 \<longleftrightarrow> n = 0"
  by (simp add: dec_of_def)

lemma dec_of_mono [simp]: "dec_of a \<le> dec_of b \<longleftrightarrow> a \<le> b"
  by (simp add: dec_of_def)

lemma dec_of_sign [simp]: "0 \<le> dec_of n \<longleftrightarrow> 0 \<le> n" "0 < dec_of n \<longleftrightarrow> 0 < n"
  by (simp_all add: dec_of_def dec_one_def zero_le_mult_iff zero_less_mult_iff)

lemma dec_of_add: "dec_of (a + b) = dec_of a + dec_of b"
  by (simp add: dec_of_def distrib_right)

lemma TruncateInt_nonneg: "0 \<le> d \<Longrightarrow> TruncateInt d = d div dec_one"
  by (simp add: TruncateInt_def quoT_nonneg)

lemma TruncateInt_of [simp]: "TruncateInt (dec_of n) = n"
  by (simp add: TruncateInt_def dec_of_def quoT_mult)

lemma dmul_of:
  assumes "dec_laws D"
  shows "dmul D x (dec_of n) = x * n"
proof -
  let ?e = "dmul D x (dec_of n) - x * n"
  have "2 * \<bar>dmul D x (dec_of n) * dec_one - x * dec_of n\<bar> \<le> dec_one"
    using assms by (simp add: dec_laws_def)
  moreover have "dmul D x (dec_of n) * dec_one - x * dec_of n = ?e * dec_one"
    by (simp add: dec_of_def algebra_simps)
  ultimately have "(2 * \<bar>?e\<bar>) * dec_one \<le> 1 * dec_one"
    by (simp only: abs_mult abs_of_pos [OF dec_one_pos] mult.assoc mult_1)
  then have "2 * \<bar>?e\<bar> \<le> 1" by (rule mult_right_le_imp_le) simp
  then have "?e = 0" by arith
  then show ?thesis by simp
qed

lemma dmul_of_of: "dec_laws D \<Longrightarrow> dmul D (dec_of a) (dec_of b) = dec_of (a * b)"
  by (simp add: dmul_of) (simp add: dec_of_def)

lemma dquo_bounds:
  assumes "dec_laws D" and "0 < b"
  shows "a * dec_one - b < dquo D a b * b \<and> dquo D a b * b < a * dec_one + b"
proof -
  have "\<bar>dquo D a b * b - a * dec_one\<bar> < \<bar>b\<bar>"
    using assms unfolding dec_laws_def by (metis less_irrefl)
  then show ?thesis using assms(2) by linarith
qed

lemma dquo_nonneg:
  assumes "dec_laws D" and "0 \<le> a" and "0 < b"
  shows "0 \<le> dquo D a b"
proof -
  have "0 \<le> a * dec_one" using assms(2) by (simp add: dec_one_def)
  with dquo_bounds [OF assms(1,3), of a] have "(- 1) * b < dquo D a b * b" by linarith
  then have "- 1 < dquo D a b" by (rule mult_right_less_imp_less) (simp add: assms(3) less_imp_le)
  then show ?thesis by simp
qed

lemma dquo_0:
  assumes "dec_laws D" and "0 < b"
  shows "dquo D 0 b = 0"
proof -
  have "dquo D 0 b * b < 1 * b" using dquo_bounds [OF assms, of 0] by simp
  then have "dquo D 0 b < 1" by (rule mult_right_less_imp_less) (simp add: assms(2) less_imp_le)
  then show ?thesis using dquo_nonneg [OF assms(1) _ assms(2), of 0] by simp
qed

lemma dquo_of_bounds:
  assumes "dec_laws D" and "0 < m"
  shows "n * dec_one - m < dquo D (dec_of n) (dec_of m) * m
    \<and> dquo D (dec_of n) (dec_of m) * m < n * dec_one + m"
proof -
  let ?r = "dquo D (dec_of n) (dec_of m)"
  have "0 < dec_of m" using assms(2) by (simp add: dec_of_def)
  from dquo_bounds [OF assms(1) this, of "dec_of n"]
  have "(n * dec_one - m) * dec_one < (?r * m) * dec_one"
    and "(?r * m) * dec_one < (n * dec_one + m) * dec_one"
    by (simp_all add: dec_of_def algebra_simps)
  then show ?thesis by (auto dest: mult_right_less_imp_less simp: less_imp_le)
qed

text \<open>Truncating the quotient of two whole numbers is integer division: the rounding
  error of the quotient never reaches the next whole number.\<close>

lemma trunc_dquo_of:
  assumes D: "dec_laws D" and n: "0 \<le> n" and m: "0 < m" "m \<le> dec_one"
  shows "TruncateInt (dquo D (dec_of n) (dec_of m)) = n div m"
proof -
  let ?r = "dquo D (dec_of n) (dec_of m)"
  let ?q = "n div m"
  have r: "n * dec_one - m < ?r * m" "?r * m < n * dec_one + m"
    using dquo_of_bounds [OF D m(1), of n] by simp_all
  have q: "?q * m \<le> n" "n \<le> (?q + 1) * m - 1"
    using pos_mod_bound [OF m(1), of n] pos_mod_sign [OF m(1), of n] div_mult_mod_eq [of n m]
    unfolding distrib_right by linarith+
  have "(?q * dec_one - 1) * m \<le> n * dec_one - m"
    using mult_right_mono [OF q(1), of dec_one] dec_one_pos by (simp add: algebra_simps)
  with r(1) have "(?q * dec_one - 1) * m < ?r * m" by linarith
  then have "?q * dec_one - 1 < ?r"
    by (rule mult_right_less_imp_less) (simp add: m(1) less_imp_le)
  then have lo: "?q * dec_one \<le> ?r" by simp
  have "n * dec_one \<le> ((?q + 1) * m - 1) * dec_one"
    using mult_right_mono [OF q(2), of dec_one] dec_one_pos by simp
  with r(2) m(2) have "?r * m < ((?q + 1) * dec_one) * m" by (simp add: algebra_simps)
  then have hi: "?r < (?q + 1) * dec_one" by (rule mult_right_less_imp_less) (simp add: m(1) less_imp_le)
  have "0 \<le> ?q" using n m(1) by (simp add: pos_imp_zdiv_nonneg_iff)
  then have r0: "0 \<le> ?r" using lo by (meson dec_one_pos less_le_not_le mult_nonneg_nonneg order_trans)
  have "?r div dec_one = ?q"
    by (rule int_div_pos_eq [where r = "?r - ?q * dec_one"]) (use lo hi in \<open>simp_all add: algebra_simps\<close>)
  then show ?thesis by (simp add: TruncateInt_nonneg [OF r0])
qed

text \<open>Dividing a whole number first by \<open>m\<close> and then by the scale \<open>k\<close> it was multiplied
  with: both roundings together stay below the next whole number.\<close>

lemma trunc_dquo_scaled:
  assumes D: "dec_laws D" and n: "0 \<le> n" and m: "0 < m" "2 * m \<le> dec_one" and k: "0 < k"
  shows "TruncateInt (dquo D (dquo D (dec_of (n * k)) (dec_of m)) (dec_of k)) = n div m"
proof -
  let ?r = "dquo D (dec_of (n * k)) (dec_of m)"
  let ?q = "dquo D ?r (dec_of k)"
  let ?y = "n div m"
  have r: "n * k * dec_one - m < ?r * m" "?r * m < n * k * dec_one + m"
    using dquo_of_bounds [OF D m(1), of "n * k"] by simp_all
  have "0 < dec_of k" using k by simp
  from dquo_bounds [OF D this, of ?r]
  have "(?r - k) * dec_one < (?q * k) * dec_one" "(?q * k) * dec_one < (?r + k) * dec_one"
    by (simp_all add: dec_of_def algebra_simps)
  then have q: "?r - k < ?q * k" "?q * k < ?r + k" by (auto dest: mult_right_less_imp_less simp: less_imp_le)
  have y: "?y * m \<le> n" "n \<le> (?y + 1) * m - 1"
    using pos_mod_bound [OF m(1), of n] pos_mod_sign [OF m(1), of n] div_mult_mod_eq [of n m]
    unfolding distrib_right by linarith+
  have ko: "0 \<le> k * dec_one" using k by (simp add: less_imp_le)
  have "(?y * (k * dec_one) - 1) * m \<le> n * (k * dec_one) - m"
    using mult_right_mono [OF y(1) ko] by (simp add: algebra_simps)
  with r(1) have "(?y * (k * dec_one) - 1) * m < ?r * m" by (simp add: mult.assoc)
  then have "?y * (k * dec_one) - 1 < ?r" by (rule mult_right_less_imp_less) (simp add: m(1) less_imp_le)
  with q(1) have "(?y * dec_one - 1) * k < ?q * k" by (simp add: algebra_simps)
  then have "?y * dec_one - 1 < ?q" by (rule mult_right_less_imp_less) (simp add: k less_imp_le)
  then have lo: "?y * dec_one \<le> ?q" by simp
  have km: "(k + 1) * m \<le> k * dec_one"
  proof -
    have "(k + 1) * m \<le> 2 * k * m" using k m(1) by (intro mult_right_mono) simp_all
    also have "\<dots> = k * (2 * m)" by simp
    also have "\<dots> \<le> k * dec_one" using m(2) k by (intro mult_left_mono) simp_all
    finally show ?thesis .
  qed
  have "n * (k * dec_one) \<le> ((?y + 1) * m - 1) * (k * dec_one)" by (rule mult_right_mono [OF y(2) ko])
  then have "?r * m + k * m < ((?y + 1) * dec_one * k) * m"
    using r(2) km by (simp add: algebra_simps)
  moreover have "?q * k * m < (?r + k) * m" using q(2) m(1) by simp
  ultimately have "?q * k * m < ((?y + 1) * dec_one * k) * m" by (simp add: distrib_right)
  then have "?q * k < ((?y + 1) * dec_one) * k" by (rule mult_right_less_imp_less) (simp add: m(1) less_imp_le)
  then have hi: "?q < (?y + 1) * dec_one" by (rule mult_right_less_imp_less) (simp add: k less_imp_le)
  have "0 \<le> ?y" using n m(1) by (simp add: pos_imp_zdiv_nonneg_iff)
  then have q0: "0 \<le> ?q" using lo by (meson dec_one_pos less_le_not_le mult_nonneg_nonneg order_trans)
  have "?q div dec_one = ?y"
    by (rule int_div_pos_eq [where r = "?q - ?y * dec_one"]) (use lo hi in \<open>simp_all add: algebra_simps\<close>)
  then show ?thesis by (simp add: TruncateInt_nonneg [OF q0])
qed

text \<open>A product with a rate between nought and one keeps the sign and does not grow.\<close>

lemma dmul_bounds:
  assumes "dec_laws D"
  shows "2 * (a * b) - dec_one \<le> 2 * (dmul D a b * dec_one)" and "2 * (dmul D a b * dec_one) \<le> 2 * (a * b) + dec_one"
proof -
  have "2 * \<bar>dmul D a b * dec_one - a * b\<bar> \<le> dec_one" using assms by (simp add: dec_laws_def)
  then show "2 * (a * b) - dec_one \<le> 2 * (dmul D a b * dec_one)" "2 * (dmul D a b * dec_one) \<le> 2 * (a * b) + dec_one"
    by (simp_all add: abs_if split: if_splits)
qed

lemma dmul_nonneg:
  assumes "dec_laws D" and "0 \<le> a" and "0 \<le> b"
  shows "0 \<le> dmul D a b"
proof -
  have "0 \<le> a * b" using assms(2,3) by simp
  then have "(- 1) * dec_one < dmul D a b * dec_one"
    using dmul_bounds(1) [OF assms(1), of a b] dec_one_pos by linarith
  then have "- 1 < dmul D a b" by (rule mult_right_less_imp_less) (simp add: less_imp_le)
  then show ?thesis by simp
qed

lemma dmul_le:
  assumes "dec_laws D" and "0 \<le> a" and "b \<le> dec_one"
  shows "dmul D a b \<le> a"
proof -
  have "a * b \<le> a * dec_one" using assms(2,3) by (intro mult_left_mono) simp_all
  then have "dmul D a b * dec_one < (a + 1) * dec_one"
    using dmul_bounds(2) [OF assms(1), of a b] dec_one_pos unfolding distrib_right by linarith
  then have "dmul D a b < a + 1" by (rule mult_right_less_imp_less) (simp add: less_imp_le)
  then show ?thesis by simp
qed

section \<open>A reference instance\<close>

text \<open>Rounding to the nearest count, halves to even: an instance of the laws, for concrete
  evaluations.\<close>

definition half_even :: "int \<Rightarrow> int" where
  "half_even x = (let q = x div dec_one; r = x mod dec_one
     in if 2 * r < dec_one then q else if dec_one < 2 * r then q + 1
        else if even q then q else q + 1)"

definition ref_dec :: dec_ops where
  "ref_dec = \<lparr>dmul = (\<lambda>a b. half_even (a * b)),
              dquo = (\<lambda>a b. half_even (quoT (a * dec_one * dec_one) b))\<rparr>"

lemma half_even_error: "2 * \<bar>half_even x * dec_one - x\<bar> \<le> dec_one"
proof -
  have x: "x div dec_one * dec_one = x - x mod dec_one" by (simp add: minus_mod_eq_div_mult)
  have r: "0 \<le> x mod dec_one" "x mod dec_one < dec_one" by simp_all
  have "2 * \<bar>dec_one - x mod dec_one\<bar> \<le> dec_one" if "dec_one \<le> 2 * (x mod dec_one)"
    using that r(2) by (simp add: abs_of_pos)
  then show ?thesis by (simp add: half_even_def Let_def distrib_right x)
qed

lemma quoT_error:
  assumes "b \<noteq> 0"
  shows "\<bar>quoT a b * b - a\<bar> < \<bar>b\<bar>"
proof -
  have "quoT a b * b - a = sgn a * ((\<bar>a\<bar> div \<bar>b\<bar>) * \<bar>b\<bar> - \<bar>a\<bar>)"
    by (simp add: quoT_def sgn_if algebra_simps abs_if)
  also have "\<dots> = - sgn a * (\<bar>a\<bar> mod \<bar>b\<bar>)"
    by (simp add: minus_div_mult_eq_mod [symmetric] algebra_simps)
  finally have "\<bar>quoT a b * b - a\<bar> \<le> \<bar>a\<bar> mod \<bar>b\<bar>"
    using assms by (simp add: abs_mult abs_sgn_eq)
  moreover have "\<bar>a\<bar> mod \<bar>b\<bar> < \<bar>b\<bar>" using assms by (intro pos_mod_bound) simp
  ultimately show ?thesis by simp
qed

lemma ref_dec_laws: "dec_laws ref_dec"
proof -
  have "\<bar>dquo ref_dec a b * b - a * dec_one\<bar> < \<bar>b\<bar>" if b: "b \<noteq> 0" for a b
  proof -
    let ?t = "quoT (a * dec_one * dec_one) b"
    let ?h = "half_even ?t"
    have "2 * \<bar>?h * dec_one - ?t\<bar> * \<bar>b\<bar> \<le> dec_one * \<bar>b\<bar>"
      using half_even_error by (intro mult_right_mono) simp_all
    moreover have "\<bar>?t * b - a * dec_one * dec_one\<bar> < \<bar>b\<bar>" by (rule quoT_error [OF b])
    moreover have "\<bar>(?h * b - a * dec_one) * dec_one\<bar> \<le>
        \<bar>?h * dec_one - ?t\<bar> * \<bar>b\<bar> + \<bar>?t * b - a * dec_one * dec_one\<bar>"
      using abs_triangle_ineq [of "(?h * dec_one - ?t) * b" "?t * b - a * dec_one * dec_one"]
      by (simp add: abs_mult [symmetric] algebra_simps)
    ultimately have "2 * (\<bar>?h * b - a * dec_one\<bar> * dec_one) < dec_one * \<bar>b\<bar> + 2 * \<bar>b\<bar>"
      unfolding abs_mult abs_of_pos [OF dec_one_pos] by linarith
    also have "\<dots> \<le> 2 * (\<bar>b\<bar> * dec_one)" by (simp add: dec_one_def)
    finally have "\<bar>?h * b - a * dec_one\<bar> * dec_one < \<bar>b\<bar> * dec_one" by simp
    then have "\<bar>?h * b - a * dec_one\<bar> < \<bar>b\<bar>"
      by (rule mult_right_less_imp_less) (simp add: less_imp_le)
    then show ?thesis by (simp add: ref_dec_def)
  qed
  then show ?thesis using half_even_error by (simp add: dec_laws_def ref_dec_def)
qed

end
