(* ===== verification/DisputeTypes.thy ===== *)
theory DisputeTypes
  imports KVStore Decimal Bank Utils ReportTypes
begin

text \<open>
  Data of the dispute module (\<^verbatim>\<open>x/dispute\<close>): the messages and stored types of its protobuf
  files, the keeper's collections, and the interfaces of the oracle and reporter keepers it
  is built against (\<^verbatim>\<open>types/expected_keepers.go\<close>). The interfaces are records of functions
  over the state \<open>'w\<close> of the rest of the chain, as the Go keeper holds interface values.
\<close>

section \<open>Disputes and votes\<close>

datatype DisputeCategory = Unspecified | Warning | Minor | Major

datatype DisputeStatus = Prevote | Voting | Resolved | Unresolved | Failed

datatype VoteEnum = VOTE_INVALID | VOTE_SUPPORT | VOTE_AGAINST

datatype VoteResult = NO_TALLY | SUPPORT | AGAINST | INVALID
  | NO_QUORUM_MAJORITY_SUPPORT | NO_QUORUM_MAJORITY_AGAINST | NO_QUORUM_MAJORITY_INVALID

record dispute =
  HashId :: bytes
  DisputeId :: u64
  dCategory :: DisputeCategory
  DisputeFee :: int
  dStatus :: DisputeStatus
  DisputeStartTime :: time
  DisputeEndTime :: time
  DisputeStartBlock :: u64
  DisputeRound :: u64
  SlashAmount :: int
  BurnAmount :: int
  InitialEvidence :: micro_report
  FeeTotal :: int
  PrevDisputeIds :: "u64 list"
  dBlockNumber :: u64
  Open :: bool
  AdditionalEvidence :: "micro_report list"
  VoterReward :: int
  PendingExecution :: bool

record vote =
  voteId :: u64
  VoteStart :: time
  VoteEnd :: time
  voteResult :: VoteResult
  Executed :: bool

record voter =
  vVote :: VoteEnum
  VoterPower :: int
  ReporterPower :: int
  RewardClaimed :: bool

record vote_counts =
  vcSupport :: u64
  vcAgainst :: u64
  vcInvalid :: u64

record stakeholder_vote_counts =
  svUsers :: vote_counts
  svReporters :: vote_counts
  svTeam :: vote_counts

record payer_info =
  piAmount :: int
  piFromBond :: bool

record block_info =
  TotalReporterPower :: int
  TotalUserTips :: int

definition zero_counts :: vote_counts where
  "zero_counts = \<lparr>vcSupport = 0, vcAgainst = 0, vcInvalid = 0\<rparr>"

definition zero_group_counts :: stakeholder_vote_counts where
  "zero_group_counts = \<lparr>svUsers = zero_counts, svReporters = zero_counts, svTeam = zero_counts\<rparr>"

text \<open>The sum of the three buckets of one group, as a number.\<close>

definition counts_sum :: "vote_counts \<Rightarrow> int" where
  "counts_sum c = uint (vcSupport c) + uint (vcAgainst c) + uint (vcInvalid c)"

fun bucket :: "VoteEnum \<Rightarrow> vote_counts \<Rightarrow> u64" where
  "bucket VOTE_SUPPORT c = vcSupport c"
| "bucket VOTE_AGAINST c = vcAgainst c"
| "bucket VOTE_INVALID c = vcInvalid c"

section \<open>The keeper's state\<close>

record 'w dispute_state =
  TeamAddress :: "addr option"
  Disputes :: "(u64, dispute) kv"
  Votes :: "(u64, vote) kv"
  Voter :: "(u64 \<times> addr, voter) kv"
  ReportersWithDelegatorsVotedBefore :: "(addr \<times> u64, int) kv"
  BlockInfo :: "(bytes, block_info) kv"
  DisputeFeePayer :: "(u64 \<times> addr, payer_info) kv"
  Dust :: "int option"
  VoteCountsByGroup :: "(u64, stakeholder_vote_counts) kv"
  disWorld :: 'w

definition ONE_DAY :: int where "ONE_DAY = 24 * hour"

definition TWO_DAYS :: int where "TWO_DAYS = 2 * 24 * hour"

definition THREE_DAYS :: int where "THREE_DAYS = 3 * 24 * hour"

section \<open>Interfaces\<close>

record 'w oracle_iface =
  okGetTotalTips :: "'w \<Rightarrow> int result"
  okGetTipsAtBlockForTipper :: "'w \<Rightarrow> u64 \<Rightarrow> addr \<Rightarrow> int result"
  okFlagAggregateReport :: "ctx \<Rightarrow> micro_report \<Rightarrow> 'w \<Rightarrow> 'w result"
  okValidateMicroReportExists :: "'w \<Rightarrow> addr \<Rightarrow> u64 \<Rightarrow> bytes \<Rightarrow> micro_report option result"

record 'w reporter_iface =
  rkEscrowReporterStake :: "ctx \<Rightarrow> addr \<Rightarrow> u64 \<Rightarrow> u64 \<Rightarrow> int \<Rightarrow> bytes \<Rightarrow> bytes \<Rightarrow> 'w \<Rightarrow> 'w result"
  rkJailReporter :: "ctx \<Rightarrow> addr \<Rightarrow> u64 \<Rightarrow> 'w \<Rightarrow> 'w result"
  rkTotalReporterPower :: "'w \<Rightarrow> int result"
  rkFeefromReporterStake :: "ctx \<Rightarrow> addr \<Rightarrow> int \<Rightarrow> bytes \<Rightarrow> bool \<Rightarrow> 'w \<Rightarrow> 'w result"
  rkReturnSlashedTokens :: "ctx \<Rightarrow> int \<Rightarrow> bytes \<Rightarrow> 'w \<Rightarrow> (string \<times> 'w) result"
  rkAddAmountToStake :: "ctx \<Rightarrow> addr \<Rightarrow> int \<Rightarrow> 'w \<Rightarrow> 'w result"
  rkDelegation :: "'w \<Rightarrow> addr \<Rightarrow> selection result"
  rkGetReporterTokensAtBlock :: "'w \<Rightarrow> addr \<Rightarrow> u64 \<Rightarrow> int result"
  rkGetDelegatorTokensAtBlock :: "'w \<Rightarrow> addr \<Rightarrow> u64 \<Rightarrow> int result"
  rkFeeRefund :: "ctx \<Rightarrow> bytes \<Rightarrow> int \<Rightarrow> 'w \<Rightarrow> 'w result"
  rkUpdateJailedUntilOnFailedDispute :: "ctx \<Rightarrow> addr \<Rightarrow> 'w \<Rightarrow> 'w result"
  rkGetSelector :: "'w \<Rightarrow> addr \<Rightarrow> selection result"

text \<open>
  What the keeper is built with: the other keepers, the decimal arithmetic, the address
  codec \<^verbatim>\<open>sdk.AccAddressFromBech32\<close> and the hash of a report and category (\<^verbatim>\<open>sha256\<close> of the protobuf encoding).
\<close>

record 'w dispute_env =
  deBank :: "'w bank_keeper"
  deOracle :: "'w oracle_iface"
  deReporter :: "'w reporter_iface"
  deDec :: dec_ops
  deAccAddressFromBech32 :: "string \<Rightarrow> addr result"
  deHashId :: "micro_report \<Rightarrow> DisputeCategory \<Rightarrow> bytes"

section \<open>Well-formed stores\<close>

definition stores_ok :: "'w dispute_state \<Rightarrow> bool" where
  "stores_ok st \<longleftrightarrow> kv_ok (Disputes st) \<and> kv_ok (Votes st) \<and> kv_ok (Voter st)
     \<and> kv_ok (ReportersWithDelegatorsVotedBefore st) \<and> kv_ok (BlockInfo st)
     \<and> kv_ok (DisputeFeePayer st) \<and> kv_ok (VoteCountsByGroup st)"

end
