(* ===== verification/DisputeVote.thy ===== *)
theory DisputeVote
  imports DisputeTypes
begin

text \<open>
  Voting on disputes (\<^verbatim>\<open>keeper/vote.go\<close>, \<^verbatim>\<open>keeper/tally.go\<close>,
  \<^verbatim>\<open>keeper/msg_server_vote.go\<close>): recording a vote of the team, of a tipper and of a
  reporter or one of its selectors in the vote counts of the dispute, and tallying the
  counts into a result. Vote counts are \<^verbatim>\<open>uint64\<close> and wrap.
\<close>

section \<open>Recording votes\<close>

definition getCounts :: "u64 \<Rightarrow> 'w dispute_state \<Rightarrow> stakeholder_vote_counts" where
  "getCounts did st = (case kv_get (VoteCountsByGroup st) did of
     None \<Rightarrow> zero_group_counts | Some c \<Rightarrow> c)"

definition setCounts :: "u64 \<Rightarrow> stakeholder_vote_counts \<Rightarrow> 'w dispute_state \<Rightarrow> 'w dispute_state" where
  "setCounts did c st = st\<lparr>VoteCountsByGroup := kv_set did c (VoteCountsByGroup st)\<rparr>"

definition SetStartVote :: "ctx \<Rightarrow> u64 \<Rightarrow> 'w dispute_state \<Rightarrow> 'w dispute_state" where
  "SetStartVote c did st = st\<lparr>Votes := kv_set did
     \<lparr>voteId = did, VoteStart = BlockTime c, VoteEnd = BlockTime c + TWO_DAYS,
      voteResult = NO_TALLY, Executed = False\<rparr> (Votes st)\<rparr>"

definition GetTeamAddress :: "'w dispute_state \<Rightarrow> addr result" where
  "GetTeamAddress st = getR (TeamAddress st)"

text \<open>The two switches every group applies to its counts: add to the bucket of the choice;
  on a changed vote, take from the bucket of the old one.\<close>

fun add_choice :: "VoteEnum \<Rightarrow> u64 \<Rightarrow> vote_counts \<Rightarrow> vote_counts" where
  "add_choice VOTE_SUPPORT n c = c\<lparr>vcSupport := vcSupport c + n\<rparr>"
| "add_choice VOTE_AGAINST n c = c\<lparr>vcAgainst := vcAgainst c + n\<rparr>"
| "add_choice VOTE_INVALID n c = c\<lparr>vcInvalid := vcInvalid c + n\<rparr>"

fun sub_choice :: "VoteEnum \<Rightarrow> u64 \<Rightarrow> vote_counts \<Rightarrow> vote_counts" where
  "sub_choice VOTE_SUPPORT n c = c\<lparr>vcSupport := vcSupport c - n\<rparr>"
| "sub_choice VOTE_AGAINST n c = c\<lparr>vcAgainst := vcAgainst c - n\<rparr>"
| "sub_choice VOTE_INVALID n c = c\<lparr>vcInvalid := vcInvalid c - n\<rparr>"

definition record_choice :: "VoteEnum \<Rightarrow> voter option \<Rightarrow> u64 \<Rightarrow> vote_counts \<Rightarrow> vote_counts" where
  "record_choice choice oldVote n c =
     (let c1 = add_choice choice n c in
      case oldVote of None \<Rightarrow> c1
      | Some old \<Rightarrow> if vVote old \<noteq> choice then sub_choice (vVote old) n c1 else c1)"

fun set_team_choice :: "VoteEnum \<Rightarrow> u64 \<Rightarrow> vote_counts \<Rightarrow> vote_counts" where
  "set_team_choice VOTE_SUPPORT n c = c\<lparr>vcSupport := n\<rparr>"
| "set_team_choice VOTE_AGAINST n c = c\<lparr>vcAgainst := n\<rparr>"
| "set_team_choice VOTE_INVALID n c = c\<lparr>vcInvalid := n\<rparr>"

definition SetTeamVote ::
  "u64 \<Rightarrow> addr \<Rightarrow> VoteEnum \<Rightarrow> voter option \<Rightarrow> 'w dispute_state \<Rightarrow> (int \<times> 'w dispute_state) result" where
  "SetTeamVote did voter choice oldVote st =
     bindR (GetTeamAddress st) (\<lambda>teamAddr.
     if voter = teamAddr then
       let vc = getCounts did st;
           t1 = set_team_choice choice 1 (svTeam vc);
           t2 = (case oldVote of None \<Rightarrow> t1
                 | Some old \<Rightarrow> if vVote old \<noteq> choice then set_team_choice (vVote old) 0 t1 else t1)
       in Inr (quoT 100000000 3, setCounts did (vc\<lparr>svTeam := t2\<rparr>) st)
     else Inr (0, st))"

definition GetUserTotalTips :: "'w dispute_env \<Rightarrow> addr \<Rightarrow> u64 \<Rightarrow> 'w dispute_state \<Rightarrow> int result" where
  "GetUserTotalTips E voter blockNumber st =
     (case okGetTipsAtBlockForTipper (deOracle E) (disWorld st) blockNumber voter of
        Inl e \<Rightarrow> if e \<noteq> ErrNotFound then Inl e else Inr 0
      | Inr tips \<Rightarrow> Inr tips)"

definition SetVoterTips :: "'w dispute_env \<Rightarrow> u64 \<Rightarrow> addr \<Rightarrow> u64 \<Rightarrow> VoteEnum \<Rightarrow> voter option \<Rightarrow>
    'w dispute_state \<Rightarrow> (int \<times> 'w dispute_state) result" where
  "SetVoterTips E did voter blockNumber choice oldVote st =
     bindR (GetUserTotalTips E voter blockNumber st) (\<lambda>tips.
     if tips \<noteq> 0 then
       bindR (Uint64 tips) (\<lambda>n.
       let vc = getCounts did st
       in Inr (tips, setCounts did (vc\<lparr>svUsers := record_choice choice oldVote n (svUsers vc)\<rparr>) st))
     else Inr (0, st))"

definition AddReporterVoteCount ::
  "u64 \<Rightarrow> u64 \<Rightarrow> VoteEnum \<Rightarrow> voter option \<Rightarrow> 'w dispute_state \<Rightarrow> 'w dispute_state" where
  "AddReporterVoteCount did amount choice oldVote st =
     (let vc = getCounts did st
      in setCounts did (vc\<lparr>svReporters := record_choice choice oldVote amount (svReporters vc)\<rparr>) st)"

definition SubtractReporterVoteCount ::
  "u64 \<Rightarrow> u64 \<Rightarrow> VoteEnum \<Rightarrow> 'w dispute_state \<Rightarrow> 'w dispute_state result" where
  "SubtractReporterVoteCount did amount choice st =
     bindR (getR (kv_get (VoteCountsByGroup st) did)) (\<lambda>vc.
     Inr (setCounts did (vc\<lparr>svReporters := sub_choice choice amount (svReporters vc)\<rparr>) st))"

definition votedBefore :: "addr \<Rightarrow> u64 \<Rightarrow> 'w dispute_state \<Rightarrow> int" where
  "votedBefore reporter did st =
     (case kv_get (ReportersWithDelegatorsVotedBefore st) (reporter, did) of None \<Rightarrow> 0 | Some n \<Rightarrow> n)"

text \<open>The branch of \<^verbatim>\<open>SetVoterReporterStake\<close> for a voter that is the reporter itself.\<close>

definition reporterVotes :: "'w dispute_env \<Rightarrow> u64 \<Rightarrow> addr \<Rightarrow> u64 \<Rightarrow> VoteEnum \<Rightarrow> voter option \<Rightarrow>
    'w dispute_state \<Rightarrow> (int \<times> 'w dispute_state) result" where
  "reporterVotes E did reporter blockNumber choice oldVote st =
     bindR (rkGetReporterTokensAtBlock (deReporter E) (disWorld st) reporter blockNumber) (\<lambda>tokens.
     let reporterTokens = tokens - votedBefore reporter did st
     in bindR (Uint64 reporterTokens) (\<lambda>n.
        Inr (reporterTokens, AddReporterVoteCount did n choice oldVote st)))"

text \<open>The branch for a selector: its tokens are taken out of the reporter's vote if that has
  been cast and are remembered for the reporter's vote otherwise.\<close>

definition selectorVotes :: "'w dispute_env \<Rightarrow> u64 \<Rightarrow> addr \<Rightarrow> addr \<Rightarrow> u64 \<Rightarrow> VoteEnum \<Rightarrow> voter option \<Rightarrow>
    'w dispute_state \<Rightarrow> (int \<times> 'w dispute_state) result" where
  "selectorVotes E did voter reporter blockNumber choice oldVote st =
     bindR (rkGetDelegatorTokensAtBlock (deReporter E) (disWorld st) voter blockNumber) (\<lambda>selectorTokens.
     case kv_get (Voter st) (did, reporter) of
       Some reporterVote \<Rightarrow>
         bindR (Uint64 selectorTokens) (\<lambda>n.
         bindR (SubtractReporterVoteCount did n (vVote reporterVote) st) (\<lambda>st1.
         let st2 = st1\<lparr>Voter := kv_set (did, reporter)
               (reporterVote\<lparr>ReporterPower := ReporterPower reporterVote - selectorTokens,
                             VoterPower := VoterPower reporterVote - selectorTokens\<rparr>) (Voter st1)\<rparr>
         in Inr (selectorTokens, AddReporterVoteCount did n choice oldVote st2)))
     | None \<Rightarrow>
         let st1 = st\<lparr>ReportersWithDelegatorsVotedBefore :=
               kv_set (reporter, did) (votedBefore reporter did st + selectorTokens)
                 (ReportersWithDelegatorsVotedBefore st)\<rparr>
         in bindR (Uint64 selectorTokens) (\<lambda>n.
            Inr (selectorTokens, AddReporterVoteCount did n choice oldVote st1)))"

definition SetVoterReporterStake :: "'w dispute_env \<Rightarrow> ctx \<Rightarrow> u64 \<Rightarrow> addr \<Rightarrow> u64 \<Rightarrow> VoteEnum \<Rightarrow>
    voter option \<Rightarrow> 'w dispute_state \<Rightarrow> (int \<times> 'w dispute_state) result" where
  "SetVoterReporterStake E c did voter blockNumber choice oldVote st =
     (case rkDelegation (deReporter E) (disWorld st) voter of
        Inl e \<Rightarrow> if e = ErrNotFound then Inr (0, st) else Inl e
      | Inr delegation \<Rightarrow>
        let reporter = selReporter delegation
        in if voter = reporter then reporterVotes E did reporter blockNumber choice oldVote st
        else (case rkGetSelector (deReporter E) (disWorld st) voter of
            Inl e \<Rightarrow> if e \<noteq> ErrNotFound then Inl e else Inr (0, st)
          | Inr selector \<Rightarrow>
            if BlockTime c < selLockedUntilTime selector then Inr (0, st)
            else selectorVotes E did voter reporter blockNumber choice oldVote st))"

section \<open>Tallying\<close>

definition ErrNoQuorumStillVoting :: error where
  "ErrNoQuorumStillVoting = Err ''vote period not ended and quorum not reached''"

definition Ratio :: "dec_ops \<Rightarrow> dec \<Rightarrow> dec \<Rightarrow> dec" where
  "Ratio D tot part =
     (if tot = 0 then 0
      else dmul D (dquo D (dmul D part (dec_of PowerReduction)) (dmul D tot (dec_of 3))) (dec_of 100))"

definition GetVotersExist :: "u64 \<Rightarrow> 'w dispute_state \<Rightarrow> bool" where
  "GetVotersExist did st = list_ex (\<lambda>e. fst (fst e) = did) (Voter st)"

text \<open>The winning option of three scaled sums; a tie counts as invalid.\<close>

definition vote_outcome :: "int \<Rightarrow> int \<Rightarrow> int \<Rightarrow> bool \<Rightarrow> VoteResult" where
  "vote_outcome scaledSupport scaledAgainst scaledInvalid quorum =
     (if scaledAgainst < scaledSupport \<and> scaledInvalid < scaledSupport then
        (if quorum then SUPPORT else NO_QUORUM_MAJORITY_SUPPORT)
      else if scaledSupport < scaledAgainst \<and> scaledInvalid < scaledAgainst then
        (if quorum then AGAINST else NO_QUORUM_MAJORITY_AGAINST)
      else if scaledSupport < scaledInvalid \<and> scaledAgainst < scaledInvalid then
        (if quorum then INVALID else NO_QUORUM_MAJORITY_INVALID)
      else (if quorum then INVALID else NO_QUORUM_MAJORITY_INVALID))"

definition UpdateDispute :: "ctx \<Rightarrow> u64 \<Rightarrow> dispute \<Rightarrow> vote \<Rightarrow> int \<Rightarrow> int \<Rightarrow> int \<Rightarrow> bool \<Rightarrow>
    'w dispute_state \<Rightarrow> 'w dispute_state" where
  "UpdateDispute c did dispute vote scaledSupport scaledAgainst scaledInvalid quorum st =
     st\<lparr>Disputes := kv_set did dispute (Disputes st),
        Votes := kv_set did (vote\<lparr>voteResult := vote_outcome scaledSupport scaledAgainst scaledInvalid quorum,
                                 VoteEnd := BlockTime c\<rparr>) (Votes st)\<rparr>"

text \<open>One group's share of the three sums: votes over the group's total, scaled to
  \<open>PowerReduction\<close>. The division panics for a group without total.\<close>

definition group_share :: "dec_ops \<Rightarrow> dec \<Rightarrow> u64 \<Rightarrow> dec result" where
  "group_share D tot votes = decQuo D (dmul D (dec_of (uint votes)) (dec_of PowerReduction)) tot"

record scaled_sums =
  totalRatio :: dec
  sumSupport :: dec
  sumAgainst :: dec
  sumInvalid :: dec

definition add_group :: "dec_ops \<Rightarrow> dec \<Rightarrow> vote_counts \<Rightarrow> scaled_sums \<Rightarrow> scaled_sums result" where
  "add_group D tot vc s =
     bindR (group_share D tot (vcSupport vc)) (\<lambda>f.
     bindR (group_share D tot (vcAgainst vc)) (\<lambda>a.
     bindR (group_share D tot (vcInvalid vc)) (\<lambda>i.
     Inr (s\<lparr>sumSupport := sumSupport s + f, sumAgainst := sumAgainst s + a, sumInvalid := sumInvalid s + i\<rparr>))))"

definition team_sums :: "dec_ops \<Rightarrow> VoteEnum option \<Rightarrow> scaled_sums" where
  "team_sums D teamVote = (case teamVote of
      None \<Rightarrow> \<lparr>totalRatio = 0, sumSupport = 0, sumAgainst = 0, sumInvalid = 0\<rparr>
    | Some v \<Rightarrow> \<lparr>totalRatio = dquo D (dmul D (dec_of 100) (dec_of PowerReduction)) (dec_of 3),
        sumSupport = (if v = VOTE_SUPPORT then dec_of PowerReduction else 0),
        sumAgainst = (if v = VOTE_AGAINST then dec_of PowerReduction else 0),
        sumInvalid = (if v = VOTE_INVALID then dec_of PowerReduction else 0)\<rparr>)"

definition tally_sums :: "dec_ops \<Rightarrow> VoteEnum option \<Rightarrow> stakeholder_vote_counts \<Rightarrow> block_info \<Rightarrow>
    scaled_sums result" where
  "tally_sums D teamVote vc info =
     (let s0 = team_sums D teamVote;
          userVoteSum = counts_sum (svUsers vc);
          tips = dec_of (TotalUserTips info)
      in bindR (if 0 < userVoteSum
                then add_group D tips (svUsers vc)
                       (s0\<lparr>totalRatio := totalRatio s0 + Ratio D tips (dec_of userVoteSum)\<rparr>)
                else Inr s0) (\<lambda>s1.
         let reporterVoteSum = counts_sum (svReporters vc);
             power = dec_of (TotalReporterPower info);
             s2 = s1\<lparr>totalRatio := totalRatio s1 + Ratio D power (dec_of reporterVoteSum)\<rparr>
         in if 0 < reporterVoteSum then add_group D power (svReporters vc) s2 else Inr s2))"

definition majorityThreshold :: int where
  "majorityThreshold = 1500000"

definition quorumRatio :: "dec_ops \<Rightarrow> dec" where
  "quorumRatio D = dmul D (dec_of 51) (dec_of PowerReduction)"

text \<open>The decision of a tally from the scaled sums: quorum with a majority resolves the
  dispute, otherwise the end of the voting period does, or leaves it open for a round.\<close>

definition quorumReached :: "dec_ops \<Rightarrow> dispute \<Rightarrow> scaled_sums \<Rightarrow> bool" where
  "quorumReached D dispute s \<longleftrightarrow> quorumRatio D \<le> totalRatio s \<and>
     (Open dispute \<longrightarrow> majorityThreshold < TruncateInt (sumSupport s)
        \<or> majorityThreshold < TruncateInt (sumAgainst s) \<or> majorityThreshold < TruncateInt (sumInvalid s))"

definition decideTally :: "'w dispute_env \<Rightarrow> ctx \<Rightarrow> u64 \<Rightarrow> vote \<Rightarrow> dispute \<Rightarrow> scaled_sums \<Rightarrow>
    'w dispute_state \<Rightarrow> 'w dispute_state result" where
  "decideTally E c did vote dispute s st =
     (let scaledSupport = TruncateInt (sumSupport s);
          scaledAgainst = TruncateInt (sumAgainst s);
          scaledInvalid = TruncateInt (sumInvalid s);
          resolved = dispute\<lparr>dStatus := Resolved, Open := False, PendingExecution := True\<rparr>
      in if quorumReached (deDec E) dispute s
         then Inr (UpdateDispute c did resolved vote scaledSupport scaledAgainst scaledInvalid True st)
         else if VoteEnd vote < BlockTime c then
           let expired = (DisputeEndTime dispute < BlockTime c \<or> DisputeRound dispute = 5);
               dispute' = (if expired then resolved
                           else dispute\<lparr>dStatus := Unresolved, PendingExecution := True\<rparr>)
           in if \<not> GetVotersExist did st then
                Inr (st\<lparr>Disputes := kv_set did dispute' (Disputes st),
                        Votes := kv_set did (vote\<lparr>voteResult := NO_QUORUM_MAJORITY_INVALID,
                                                 VoteEnd := BlockTime c\<rparr>) (Votes st)\<rparr>)
              else Inr (UpdateDispute c did dispute' vote scaledSupport scaledAgainst scaledInvalid False st)
         else Inl ErrNoQuorumStillVoting)"

definition TallyVote :: "'w dispute_env \<Rightarrow> ctx \<Rightarrow> u64 \<Rightarrow> 'w dispute_state \<Rightarrow> 'w dispute_state result" where
  "TallyVote E c did st =
     bindR (getR (kv_get (Votes st) did)) (\<lambda>vote.
     if voteResult vote \<noteq> NO_TALLY then Inl (Err ''vote already tallied'')
     else bindR (getR (kv_get (Disputes st) did)) (\<lambda>dispute.
     bindR (getR (kv_get (BlockInfo st) (HashId dispute))) (\<lambda>info.
     bindR (GetTeamAddress st) (\<lambda>teamAddr.
     bindR (tally_sums (deDec E) (map_option vVote (kv_get (Voter st) (did, teamAddr)))
              (getCounts did st) info) (\<lambda>s.
     decideTally E c did vote dispute s st)))))"

section \<open>The vote message\<close>

text \<open>The powers of the three groups recorded, the voter's entry stored, and the tally
  tried; a tally that needs more votes is not an error.\<close>

definition castVote :: "'w dispute_env \<Rightarrow> ctx \<Rightarrow> u64 \<Rightarrow> addr \<Rightarrow> VoteEnum \<Rightarrow> u64 \<Rightarrow> vote \<Rightarrow> voter option \<Rightarrow>
    'w dispute_state \<Rightarrow> 'w dispute_state result" where
  "castVote E c did voterAcc choice blockNumber vote oldVote st =
     bindR (SetTeamVote did voterAcc choice oldVote st) (\<lambda>(teampower, st1).
     bindR (SetVoterTips E did voterAcc blockNumber choice oldVote st1) (\<lambda>(upower, st2).
     bindR (SetVoterReporterStake E c did voterAcc blockNumber choice oldVote st2) (\<lambda>(repP, st3).
     let voterPower = teampower + upower + repP
     in if voterPower = 0 then Inl (Err ''voter power is zero'')
     else let st4 = st3\<lparr>Voter := kv_set (voteId vote, voterAcc)
               \<lparr>vVote = choice, VoterPower = voterPower, ReporterPower = repP, RewardClaimed = False\<rparr>
               (Voter st3)\<rparr>
          in case TallyVote E c did st4 of
               Inl e \<Rightarrow> if e = ErrNoQuorumStillVoting then Inr st4 else Inl e
             | Inr st5 \<Rightarrow> Inr st5)))"

definition msgVote :: "'w dispute_env \<Rightarrow> ctx \<Rightarrow> string \<Rightarrow> u64 \<Rightarrow> VoteEnum \<Rightarrow> 'w dispute_state \<Rightarrow>
    'w dispute_state result" where
  "msgVote E c voterStr did choice st =
     bindR (deAccAddressFromBech32 E voterStr) (\<lambda>voterAcc.
     bindR (getR (kv_get (Disputes st) did)) (\<lambda>dispute.
     if dStatus dispute \<noteq> Voting then Inl (Err ''ErrDisputeNotInVotingState'')
     else case kv_get (Votes st) did of None \<Rightarrow> Inl (Err ''ErrVoteDoesNotExist'')
     | Some vote \<Rightarrow>
       let oldVote = kv_get (Voter st) (did, voterAcc)
       in if (case oldVote of None \<Rightarrow> False | Some old \<Rightarrow> vVote old = choice)
          then Inl (Err ''ErrVoterHasAlreadyVoted'')
       else if VoteEnd vote < BlockTime c then Inl (Err ''ErrVotingPeriodEnded'')
       else castVote E c did voterAcc choice (dBlockNumber dispute) vote oldVote st))"

end
