(* ===== verification/DisputeExample.thy ===== *)
theory DisputeExample
  imports DisputeTypes
begin

text \<open>
  A small chain on which the dispute module's operations are evaluated: the reference
  ledger and decimals, a team \<^verbatim>\<open>t\<close>, a tipper \<^verbatim>\<open>u\<close> with half of the tips, a reporter
  \<^verbatim>\<open>r\<close> with all of the reporter power of 100, of which its selector \<^verbatim>\<open>s\<close> holds 60.
\<close>

definition ex_report :: micro_report where
  "ex_report = \<lparr>mrReporter = ''r'', mrPower = 100, mrQueryType = ''SpotPrice'', mrQueryId = ''q'',
     mrAggregateMethod = ''weighted-median'', mrValue = ''1'', mrTimestamp = 0, mrCyclelist = True,
     mrBlockNumber = 1, mrMetaId = 1\<rparr>"

definition ex_oracle :: "ledger oracle_iface" where
  "ex_oracle = \<lparr>
     okGetTotalTips = (\<lambda>w. Inr 100),
     okGetTipsAtBlockForTipper = (\<lambda>w b a. if a = ''u'' then Inr 50 else Inl ErrNotFound),
     okFlagAggregateReport = (\<lambda>c r w. Inr w),
     okValidateMicroReportExists = (\<lambda>w a m q. Inr (Some ex_report))\<rparr>"

definition ex_selection :: "addr \<Rightarrow> selection result" where
  "ex_selection a = (if a = ''r'' \<or> a = ''s''
     then Inr \<lparr>selReporter = ''r'', selLockedUntilTime = 0, selDelegationsCount = 1\<rparr>
     else Inl ErrNotFound)"

definition ex_bonded :: holder where
  "ex_bonded = Module ''bonded_tokens_pool''"

definition ex_reporter :: "ledger reporter_iface" where
  "ex_reporter = \<lparr>
     rkEscrowReporterStake = (\<lambda>c a p b n q h w.
        bkSendCoins ledger_bank ex_bonded (Module ''dispute'') BondDenom n w),
     rkJailReporter = (\<lambda>c a d w. Inr w),
     rkTotalReporterPower = (\<lambda>w. Inr 100),
     rkFeefromReporterStake = (\<lambda>c a n h f w.
        bkSendCoins ledger_bank ex_bonded (Module ''dispute'') BondDenom n w),
     rkReturnSlashedTokens = (\<lambda>c n h w. Inr (''bonded_tokens_pool'', w)),
     rkAddAmountToStake = (\<lambda>c a n w. Inr w),
     rkDelegation = (\<lambda>w. ex_selection),
     rkGetReporterTokensAtBlock = (\<lambda>w a b. Inr (if a = ''r'' then 100 else 0)),
     rkGetDelegatorTokensAtBlock = (\<lambda>w a b. Inr (if a = ''s'' then 60 else if a = ''r'' then 40 else 0)),
     rkFeeRefund = (\<lambda>c h n w. Inr w),
     rkUpdateJailedUntilOnFailedDispute = (\<lambda>c a w. Inr w),
     rkGetSelector = (\<lambda>w. ex_selection)\<rparr>"

definition ex_env :: "ledger dispute_env" where
  "ex_env = \<lparr>deBank = ledger_bank, deOracle = ex_oracle, deReporter = ex_reporter, deDec = ref_dec,
     deAccAddressFromBech32 = Inr, deHashId = (\<lambda>r cat. ''h'')\<rparr>"

text \<open>Time in seconds after the start, at a block height.\<close>

definition ex_ctx :: "int \<Rightarrow> int \<Rightarrow> ctx" where
  "ex_ctx t h = \<lparr>BlockTime = t * 1000000000, BlockHeight = h\<rparr>"

text \<open>A dispute over one percent of the stake, fully paid, and its vote.\<close>

definition ex_dispute :: dispute where
  "ex_dispute = \<lparr>HashId = ''h'', DisputeId = 1, dCategory = Warning, DisputeFee = 1000000,
     dStatus = Voting, DisputeStartTime = 0, DisputeEndTime = THREE_DAYS, DisputeStartBlock = 2,
     DisputeRound = 1, SlashAmount = 1000000, BurnAmount = 50000, InitialEvidence = ex_report,
     FeeTotal = 1000000, PrevDisputeIds = [1], dBlockNumber = 2, Open = True,
     AdditionalEvidence = [], VoterReward = 0, PendingExecution = False\<rparr>"

definition ex_state :: "ledger dispute_state" where
  "ex_state = \<lparr>TeamAddress = Some ''t'', Disputes = [(1, ex_dispute)],
     Votes = [(1, \<lparr>voteId = 1, VoteStart = 0, VoteEnd = TWO_DAYS, voteResult = NO_TALLY, Executed = False\<rparr>)],
     Voter = [], ReportersWithDelegatorsVotedBefore = [],
     BlockInfo = [(''h'', \<lparr>TotalReporterPower = 100, TotalUserTips = 100\<rparr>)],
     DisputeFeePayer = [((1, ''p''), \<lparr>piAmount = 1000000, piFromBond = False\<rparr>)], Dust = Some 0,
     VoteCountsByGroup = [],
     disWorld = (\<lambda>h d. if h = Module ''dispute'' \<and> d = BondDenom then 2000000 else 0)\<rparr>"

lemmas ex_defs = ex_env_def ex_oracle_def ex_reporter_def ex_ctx_def ex_state_def ex_dispute_def ex_report_def
  ex_selection_def

end
