(* ===== verification/DisputeScenarios.thy ===== *)
theory DisputeScenarios
  imports DisputeVote DisputeExample
begin

text \<open>
  Whole messages of the dispute module evaluated on the example chain: runs in which the
  unsigned vote counts wrap.
\<close>

text \<open>
  A reporter's changed vote can wrap the counts and decide the dispute. The reporter
  votes support with its 100 tokens, its selector takes 60 of them to against, and the
  reporter then changes to invalid: the code takes 100 from the 40 left in the support
  bucket, which becomes \<open>2\<^sup>6\<^sup>4 - 60\<close>, and the tally of that very message resolves the
  dispute as supported although nobody's vote is support.
\<close>

theorem reporter_revote_wraps:
  "case bindR (msgVote ex_env (ex_ctx 10 3) ''r'' 1 VOTE_SUPPORT ex_state) (\<lambda>st1.
        bindR (msgVote ex_env (ex_ctx 11 4) ''s'' 1 VOTE_AGAINST st1)
          (msgVote ex_env (ex_ctx 12 5) ''r'' 1 VOTE_INVALID)) of
     Inl _ \<Rightarrow> False
   | Inr st \<Rightarrow> vcSupport (svReporters (getCounts 1 st)) = - 60
       \<and> map (\<lambda>(k, v). (snd k, vVote v)) (Voter st) = [(''r'', VOTE_INVALID), (''s'', VOTE_AGAINST)]
       \<and> map_option voteResult (kv_get (Votes st) 1) = Some SUPPORT
       \<and> map_option dStatus (kv_get (Disputes st) 1) = Some Resolved"
  by code_simp

end
