(* ===== verification/DisputeTally.thy ===== *)
theory DisputeTally
  imports DisputeVote DisputeExample
begin

text \<open>
  Correctness of vote counting and tallying: the counts of a group change by exactly the
  vote recorded while no \<^verbatim>\<open>uint64\<close> bound is crossed, a tally needs two voter classes for
  its quorum and names at most one majority, and a vote is tallied once. The last section
  is about selectors that change their vote.
\<close>

section \<open>Vote counts\<close>

lemma uint_bucket_bounds: "0 \<le> uint (bucket v c) \<and> uint (bucket v c) < 2 ^ 64"
  using uint_u64_bounds by blast

lemma add_choice_sum:
  assumes "uint (bucket v c) + uint n < 2 ^ 64"
  shows "counts_sum (add_choice v n c) = counts_sum c + uint n"
    and "uint (bucket v (add_choice v n c)) = uint (bucket v c) + uint n"
    and "u \<noteq> v \<Longrightarrow> bucket u (add_choice v n c) = bucket u c"
proof -
  show "counts_sum (add_choice v n c) = counts_sum c + uint n"
    using assms by (cases v) (simp_all add: counts_sum_def uint_add_no_overflow)
  show "uint (bucket v (add_choice v n c)) = uint (bucket v c) + uint n"
    using assms by (cases v) (simp_all add: uint_add_no_overflow)
  show "bucket u (add_choice v n c) = bucket u c" if "u \<noteq> v"
    using that by (cases u; cases v) simp_all
qed

lemma sub_choice_sum:
  assumes "uint n \<le> uint (bucket v c)"
  shows "counts_sum (sub_choice v n c) = counts_sum c - uint n"
    and "uint (bucket v (sub_choice v n c)) = uint (bucket v c) - uint n"
    and "u \<noteq> v \<Longrightarrow> bucket u (sub_choice v n c) = bucket u c"
proof -
  show "counts_sum (sub_choice v n c) = counts_sum c - uint n"
    using assms by (cases v) (simp_all add: counts_sum_def uint_sub_no_underflow)
  show "uint (bucket v (sub_choice v n c)) = uint (bucket v c) - uint n"
    using assms by (cases v) (simp_all add: uint_sub_no_underflow)
  show "bucket u (sub_choice v n c) = bucket u c" if "u \<noteq> v"
    using that by (cases u; cases v) simp_all
qed

lemma getCounts_setCounts [simp]:
  "getCounts i (setCounts j c st) = (if i = j then c else getCounts i st)"
  by (simp add: getCounts_def setCounts_def)

lemma getCounts_AddReporterVoteCount:
  "getCounts i (AddReporterVoteCount did n v old st) =
    (if i = did then (getCounts did st)\<lparr>svReporters := record_choice v old n (svReporters (getCounts did st))\<rparr>
     else getCounts i st)"
  by (simp add: AddReporterVoteCount_def Let_def)

text \<open>
  Recording a reporter-group vote of \<open>n\<close> tokens changes the group's counts of that
  dispute only. A first vote adds \<open>n\<close> to the bucket of the choice and to the sum; a changed
  vote moves \<open>n\<close> from the old bucket to the new one and keeps the sum. Both hold while the
  new bucket stays below \<open>2\<^sup>6\<^sup>4\<close> and the old one holds at least \<open>n\<close>.
\<close>

theorem reporter_vote_count_conservation:
  assumes "r = svReporters (getCounts did st)"
    and "r' = svReporters (getCounts did (AddReporterVoteCount did n v old st))"
    and "uint (bucket v r) + uint n < 2 ^ 64"
    and "\<And>o'. old = Some o' \<Longrightarrow> vVote o' \<noteq> v \<and> uint n \<le> uint (bucket (vVote o') r)"
  shows "uint (bucket v r') = uint (bucket v r) + uint n
    \<and> counts_sum r' = counts_sum r + (if old = None then uint n else 0)
    \<and> (\<forall>o'. old = Some o' \<longrightarrow> uint (bucket (vVote o') r') = uint (bucket (vVote o') r) - uint n)
    \<and> (\<forall>j. j \<noteq> did \<longrightarrow> getCounts j (AddReporterVoteCount did n v old st) = getCounts j st)"
proof (cases old)
  case None
  then show ?thesis
    using add_choice_sum [OF assms(3)] assms(1,2)
    by (simp add: getCounts_AddReporterVoteCount record_choice_def)
next
  case (Some o')
  have ne: "vVote o' \<noteq> v" and le: "uint n \<le> uint (bucket (vVote o') r)" using assms(4) Some by auto
  let ?c1 = "add_choice v n r"
  have b: "bucket (vVote o') ?c1 = bucket (vVote o') r" using add_choice_sum(3) [OF assms(3) ne] .
  note s = sub_choice_sum [of n "vVote o'" ?c1, unfolded b, OF le]
  have r': "r' = sub_choice (vVote o') n ?c1"
    using assms(1,2) Some ne by (simp add: getCounts_AddReporterVoteCount record_choice_def Let_def)
  show ?thesis
    using s add_choice_sum [OF assms(3)] ne Some
    by (simp add: r' getCounts_AddReporterVoteCount)
qed

section \<open>Ratios and shares\<close>

lemma Ratio_bounds:
  assumes D: "dec_laws D" and T: "0 < T" and p: "0 \<le> p" "p \<le> T"
  shows "0 \<le> Ratio D (dec_of T) (dec_of p)"
    and "Ratio D (dec_of T) (dec_of p) \<le> 34 * PowerReduction * dec_one"
    and "p = T \<Longrightarrow> 33 * PowerReduction * dec_one \<le> Ratio D (dec_of T) (dec_of p)"
proof -
  let ?r = "dquo D (dec_of (p * PowerReduction)) (dec_of (T * 3))"
  have R: "Ratio D (dec_of T) (dec_of p) = ?r * 100"
    using T unfolding Ratio_def dmul_of_of [OF D] by (simp add: dmul_of [OF D])
  have T3: "0 < T * 3" using T by simp
  have nn: "0 \<le> dec_of (p * PowerReduction)" "0 < dec_of (T * 3)"
    using p T by (simp_all add: PowerReduction_def)
  show "0 \<le> Ratio D (dec_of T) (dec_of p)"
    using dquo_nonneg [OF D nn] by (simp add: R)
  note q = dquo_of_bounds [OF D T3, of "p * PowerReduction"]
  have "p * (PowerReduction * dec_one) \<le> T * (PowerReduction * dec_one)"
    using p by (intro mult_right_mono) (simp_all add: PowerReduction_def dec_one_def)
  with q have "?r * (T * 3) < T * (PowerReduction * dec_one) + T * 3"
    by (simp add: mult.assoc)
  then have "(?r * 3) * T < (PowerReduction * dec_one + 3) * T" by (simp add: algebra_simps)
  then have "?r * 3 < PowerReduction * dec_one + 3"
    by (rule mult_right_less_imp_less) (use T in simp)
  then show "Ratio D (dec_of T) (dec_of p) \<le> 34 * PowerReduction * dec_one"
    by (simp add: R PowerReduction_def dec_one_def)
  show "33 * PowerReduction * dec_one \<le> Ratio D (dec_of T) (dec_of p)" if "p = T"
  proof -
    have "(PowerReduction * dec_one - 3) * T < (?r * 3) * T"
      using q that by (simp add: algebra_simps)
    then have "PowerReduction * dec_one - 3 < ?r * 3"
      by (rule mult_right_less_imp_less) (use T in simp)
    then show ?thesis by (simp add: R PowerReduction_def dec_one_def)
  qed
qed

lemma team_ratio_bounds:
  assumes D: "dec_laws D"
  shows "33 * PowerReduction * dec_one \<le> totalRatio (team_sums D (Some v))"
    and "totalRatio (team_sums D (Some v)) \<le> 34 * PowerReduction * dec_one"
proof -
  let ?r = "dquo D (dec_of (100 * PowerReduction)) (dec_of 3)"
  have R: "totalRatio (team_sums D (Some v)) = ?r"
    by (simp add: team_sums_def dmul_of_of [OF D])
  have "100 * PowerReduction * dec_one - 3 < ?r * 3" "?r * 3 < 100 * PowerReduction * dec_one + 3"
    using dquo_of_bounds [OF D, of 3 "100 * PowerReduction"] by simp_all
  then show "33 * PowerReduction * dec_one \<le> totalRatio (team_sums D (Some v))"
    and "totalRatio (team_sums D (Some v)) \<le> 34 * PowerReduction * dec_one"
    by (simp_all add: R PowerReduction_def dec_one_def)
qed

lemma quorumRatio_eq: "dec_laws D \<Longrightarrow> quorumRatio D = 51 * PowerReduction * dec_one"
  by (simp add: quorumRatio_def dmul_of) (simp add: dec_of_def)

lemma add_group_ratio: "add_group D tot vc s = Inr s' \<Longrightarrow> totalRatio s' = totalRatio s"
  by (auto simp: add_group_def)

text \<open>The turnout of a tally is the sum of the turnouts of the three classes.\<close>

definition class_ratio :: "dec_ops \<Rightarrow> int \<Rightarrow> vote_counts \<Rightarrow> dec" where
  "class_ratio D T vc = Ratio D (dec_of T) (dec_of (counts_sum vc))"

lemma counts_sum_nonneg: "0 \<le> counts_sum c"
  by (simp add: counts_sum_def)

lemma Ratio_0 [simp]:
  assumes D: "dec_laws D" and T: "0 \<le> T"
  shows "Ratio D (dec_of T) 0 = 0"
proof -
  have z: "dmul D 0 (dec_of n) = 0" for n by (simp add: dmul_of [OF D])
  have "dquo D 0 (dec_of (T * 3)) = 0" if "T \<noteq> 0"
    using that T by (intro dquo_0 [OF D]) (simp add: dec_of_def)
  then show ?thesis by (simp add: Ratio_def dmul_of_of [OF D] z)
qed

lemma tally_sums_ratio:
  assumes D: "dec_laws D" and "0 \<le> TotalUserTips info"
    and "tally_sums D tv vc info = Inr s"
  shows "totalRatio s = totalRatio (team_sums D tv)
    + class_ratio D (TotalUserTips info) (svUsers vc)
    + class_ratio D (TotalReporterPower info) (svReporters vc)"
proof (cases "0 < counts_sum (svUsers vc)")
  case True
  with assms(3) show ?thesis
    by (auto simp: tally_sums_def Let_def class_ratio_def dest!: add_group_ratio split: if_splits)
next
  case False
  then have "counts_sum (svUsers vc) = 0" using counts_sum_nonneg [of "svUsers vc"] by simp
  with assms show ?thesis
    by (auto simp: tally_sums_def Let_def class_ratio_def dest!: add_group_ratio split: if_splits)
qed

text \<open>
  The votes of one class alone, at any turnout, never make a quorum, and two classes
  that vote in full always do, for any rounding of the decimal arithmetic within its laws
  and group counts that do not exceed the group's total.
\<close>

theorem quorum_needs_two_classes:
  assumes D: "dec_laws D" and run: "tally_sums D tv vc info = Inr s"
    and U: "0 < TotalUserTips info" "counts_sum (svUsers vc) \<le> TotalUserTips info"
    and R: "0 < TotalReporterPower info" "counts_sum (svReporters vc) \<le> TotalReporterPower info"
  shows "(counts_sum (svUsers vc) = 0 \<and> counts_sum (svReporters vc) = 0
          \<or> tv = None \<and> counts_sum (svUsers vc) = 0
          \<or> tv = None \<and> counts_sum (svReporters vc) = 0 \<longrightarrow> totalRatio s < quorumRatio D)
    \<and> (tv \<noteq> None \<and> counts_sum (svUsers vc) = TotalUserTips info
          \<or> tv \<noteq> None \<and> counts_sum (svReporters vc) = TotalReporterPower info
          \<or> counts_sum (svUsers vc) = TotalUserTips info
             \<and> counts_sum (svReporters vc) = TotalReporterPower info \<longrightarrow> quorumRatio D \<le> totalRatio s)"
proof -
  note ratio = tally_sums_ratio [OF D less_imp_le [OF U(1)] run]
  note u = Ratio_bounds [OF D U(1) counts_sum_nonneg U(2), folded class_ratio_def]
  note r = Ratio_bounds [OF D R(1) counts_sum_nonneg R(2), folded class_ratio_def]
  have u0: "class_ratio D (TotalUserTips info) (svUsers vc) = 0" if "counts_sum (svUsers vc) = 0"
    using that U D by (simp add: class_ratio_def)
  have r0: "class_ratio D (TotalReporterPower info) (svReporters vc) = 0" if "counts_sum (svReporters vc) = 0"
    using that R D by (simp add: class_ratio_def)
  have t0: "totalRatio (team_sums D None) = 0" by (simp add: team_sums_def)
  have t: "33 * PowerReduction * dec_one \<le> totalRatio (team_sums D tv)" if "tv \<noteq> None"
    using that team_ratio_bounds(1) [OF D] by auto
  have t1: "0 \<le> totalRatio (team_sums D tv)" "totalRatio (team_sums D tv) \<le> 34 * PowerReduction * dec_one"
    using team_ratio_bounds [OF D, of "the tv"] t0
    by (cases tv; simp add: PowerReduction_def dec_one_def)+
  have one: "totalRatio s < quorumRatio D"
    if "counts_sum (svUsers vc) = 0 \<and> counts_sum (svReporters vc) = 0
          \<or> tv = None \<and> counts_sum (svUsers vc) = 0 \<or> tv = None \<and> counts_sum (svReporters vc) = 0"
    using that u(2) r(2) t1(2) u0 r0 t0 unfolding ratio quorumRatio_eq [OF D]
    by (auto simp: PowerReduction_def dec_one_def)
  have two: "quorumRatio D \<le> totalRatio s"
    if "tv \<noteq> None \<and> counts_sum (svUsers vc) = TotalUserTips info
          \<or> tv \<noteq> None \<and> counts_sum (svReporters vc) = TotalReporterPower info
          \<or> counts_sum (svUsers vc) = TotalUserTips info
             \<and> counts_sum (svReporters vc) = TotalReporterPower info"
    using that u(1,3) r(1,3) t1(1) t unfolding ratio quorumRatio_eq [OF D]
    by (auto simp: PowerReduction_def dec_one_def)
  show ?thesis using one two by blast
qed

theorem quorum_needs_two_classes_witness:
  "\<exists>s. tally_sums ref_dec (Some VOTE_SUPPORT) zero_group_counts
      \<lparr>TotalReporterPower = 100, TotalUserTips = 100\<rparr> = Inr s \<and> totalRatio s < quorumRatio ref_dec"
proof -
  let ?i = "\<lparr>TotalReporterPower = 100, TotalUserTips = 100\<rparr>"
  have z: "counts_sum zero_counts = 0" by (simp add: counts_sum_def zero_counts_def)
  obtain s where s: "tally_sums ref_dec (Some VOTE_SUPPORT) zero_group_counts ?i = Inr s"
    by (simp add: tally_sums_def zero_group_counts_def z Let_def)
  then show ?thesis
    using quorum_needs_two_classes [OF ref_dec_laws s] by (simp add: zero_group_counts_def z)
qed

theorem reporter_vote_count_conservation_witness:
  "counts_sum (svReporters (getCounts 1 (AddReporterVoteCount 1 40 VOTE_AGAINST None
     \<lparr>TeamAddress = None, Disputes = [], Votes = [], Voter = [], ReportersWithDelegatorsVotedBefore = [],
      BlockInfo = [], DisputeFeePayer = [], Dust = None, VoteCountsByGroup = [], disWorld = ()\<rparr>))) = 40"
proof -
  let ?st = "\<lparr>TeamAddress = None, Disputes = [], Votes = [], Voter = [],
      ReportersWithDelegatorsVotedBefore = [], BlockInfo = [], DisputeFeePayer = [], Dust = None,
      VoteCountsByGroup = [], disWorld = ()\<rparr>"
  have "svReporters (getCounts 1 ?st) = zero_counts"
    by (simp add: getCounts_def zero_group_counts_def)
  then show ?thesis
    using reporter_vote_count_conservation [of zero_counts 1 ?st _ 40 VOTE_AGAINST None]
    by (simp add: zero_counts_def counts_sum_def)
qed

section \<open>Majorities\<close>

lemma share_bounds:
  assumes D: "dec_laws D" and T: "0 < T"
  shows "0 \<le> dquo D (dmul D (dec_of (uint v)) (dec_of PowerReduction)) (dec_of T)"
    and "dquo D (dmul D (dec_of (uint v)) (dec_of PowerReduction)) (dec_of T) * T
      < uint v * (PowerReduction * dec_one) + T"
proof -
  have n: "0 \<le> uint v * PowerReduction" by (simp add: PowerReduction_def)
  show "0 \<le> dquo D (dmul D (dec_of (uint v)) (dec_of PowerReduction)) (dec_of T)"
    unfolding dmul_of_of [OF D] using n T by (intro dquo_nonneg [OF D]) simp_all
  show "dquo D (dmul D (dec_of (uint v)) (dec_of PowerReduction)) (dec_of T) * T
      < uint v * (PowerReduction * dec_one) + T"
    using dquo_of_bounds [OF D T, of "uint v * PowerReduction"]
    by (simp add: dmul_of_of [OF D] mult.assoc)
qed

definition options_sum :: "scaled_sums \<Rightarrow> dec" where
  "options_sum s = sumSupport s + sumAgainst s + sumInvalid s"

definition sums_nonneg :: "scaled_sums \<Rightarrow> bool" where
  "sums_nonneg s \<longleftrightarrow> 0 \<le> sumSupport s \<and> 0 \<le> sumAgainst s \<and> 0 \<le> sumInvalid s"

lemma add_group_sum:
  assumes D: "dec_laws D" and T: "0 < T" and le: "counts_sum vc \<le> T"
    and run: "add_group D (dec_of T) vc s = Inr s'" and nn: "sums_nonneg s"
  shows "sums_nonneg s' \<and> options_sum s' < options_sum s + PowerReduction * dec_one + 3"
proof -
  let ?q = "\<lambda>v. dquo D (dmul D (dec_of (uint v)) (dec_of PowerReduction)) (dec_of T)"
  have s': "s' = s\<lparr>sumSupport := sumSupport s + ?q (vcSupport vc),
      sumAgainst := sumAgainst s + ?q (vcAgainst vc), sumInvalid := sumInvalid s + ?q (vcInvalid vc)\<rparr>"
    using run T by (simp add: add_group_def group_share_def decQuo_def)
  note b = share_bounds [OF D T]
  let ?S = "?q (vcSupport vc) + ?q (vcAgainst vc) + ?q (vcInvalid vc)"
  have "?S * T < counts_sum vc * (PowerReduction * dec_one) + 3 * T"
    using b(2) [of "vcSupport vc"] b(2) [of "vcAgainst vc"] b(2) [of "vcInvalid vc"]
    unfolding counts_sum_def distrib_right by linarith
  also have "\<dots> \<le> (PowerReduction * dec_one + 3) * T"
    using mult_right_mono [OF le, of "PowerReduction * dec_one"]
    by (simp add: PowerReduction_def dec_one_def algebra_simps)
  finally have "?S < PowerReduction * dec_one + 3"
    by (rule mult_right_less_imp_less) (use T in simp)
  then show ?thesis
    using b(1) [of "vcSupport vc"] b(1) [of "vcAgainst vc"] b(1) [of "vcInvalid vc"] nn
    by (simp add: s' sums_nonneg_def options_sum_def)
qed

lemma team_sums_sum:
  "sums_nonneg (team_sums D tv) \<and> options_sum (team_sums D tv) \<le> PowerReduction * dec_one"
  by (cases tv; cases "the tv")
    (simp_all add: team_sums_def sums_nonneg_def options_sum_def PowerReduction_def dec_of_def dec_one_def)

lemma sums_ratio_irrelevant [simp]:
  "sums_nonneg (s\<lparr>totalRatio := x\<rparr>) = sums_nonneg s" "options_sum (s\<lparr>totalRatio := x\<rparr>) = options_sum s"
  by (simp_all add: sums_nonneg_def options_sum_def)

lemma tally_sums_sum:
  assumes D: "dec_laws D" and run: "tally_sums D tv vc info = Inr s"
    and U: "0 < TotalUserTips info" "counts_sum (svUsers vc) \<le> TotalUserTips info"
    and R: "0 < TotalReporterPower info" "counts_sum (svReporters vc) \<le> TotalReporterPower info"
  shows "sums_nonneg s \<and> options_sum s < 3 * (PowerReduction * dec_one) + 6"
proof -
  have pos: "0 < PowerReduction * dec_one" by (simp add: PowerReduction_def)
  from run obtain s1 where s1: "(if 0 < counts_sum (svUsers vc)
        then add_group D (dec_of (TotalUserTips info)) (svUsers vc)
          ((team_sums D tv)\<lparr>totalRatio := totalRatio (team_sums D tv)
             + Ratio D (dec_of (TotalUserTips info)) (dec_of (counts_sum (svUsers vc)))\<rparr>)
        else Inr (team_sums D tv)) = Inr s1"
    and s: "(let s2 = s1\<lparr>totalRatio := totalRatio s1
             + Ratio D (dec_of (TotalReporterPower info)) (dec_of (counts_sum (svReporters vc)))\<rparr>
         in if 0 < counts_sum (svReporters vc)
            then add_group D (dec_of (TotalReporterPower info)) (svReporters vc) s2 else Inr s2) = Inr s"
    by (auto simp: tally_sums_def Let_def)
  have 1: "sums_nonneg s1 \<and> options_sum s1 < 2 * (PowerReduction * dec_one) + 3"
    using s1 team_sums_sum [of D tv] pos
    by (auto split: if_splits dest!: add_group_sum [OF D U])
  show ?thesis
    using s 1 pos by (auto simp: Let_def split: if_splits dest!: add_group_sum [OF D R])
qed

text \<open>The outcome announced with quorum is the option holding a majority, if one does.\<close>

lemma vote_outcome_majority:
  assumes "0 \<le> a" "0 \<le> b" "0 \<le> i" and sum: "a + b + i < 3000000 * dec_one + 6"
  shows "majorityThreshold < a div dec_one \<Longrightarrow>
      vote_outcome (a div dec_one) (b div dec_one) (i div dec_one) True = SUPPORT"
    and "majorityThreshold < b div dec_one \<Longrightarrow>
      vote_outcome (a div dec_one) (b div dec_one) (i div dec_one) True = AGAINST"
    and "majorityThreshold < i div dec_one \<Longrightarrow>
      vote_outcome (a div dec_one) (b div dec_one) (i div dec_one) True = INVALID"
proof -
  have excl: "y div dec_one < x div dec_one"
    if "majorityThreshold < x div dec_one" "0 \<le> y" "x + y < 3000000 * dec_one + 6" for x y :: int
    using that by (simp add: majorityThreshold_def dec_one_def)
  show "majorityThreshold < a div dec_one \<Longrightarrow>
      vote_outcome (a div dec_one) (b div dec_one) (i div dec_one) True = SUPPORT"
    using excl [of a b] excl [of a i] assms by (simp add: vote_outcome_def)
  show "majorityThreshold < b div dec_one \<Longrightarrow>
      vote_outcome (a div dec_one) (b div dec_one) (i div dec_one) True = AGAINST"
    using excl [of b a] excl [of b i] assms by (simp add: vote_outcome_def)
  show "majorityThreshold < i div dec_one \<Longrightarrow>
      vote_outcome (a div dec_one) (b div dec_one) (i div dec_one) True = INVALID"
    using excl [of i a] excl [of i b] assms by (simp add: vote_outcome_def)
qed



section \<open>One tally per vote\<close>

lemma vote_outcome_tallied [simp]: "vote_outcome a b i q \<noteq> NO_TALLY" "NO_TALLY \<noteq> vote_outcome a b i q"
  by (simp_all add: vote_outcome_def)

text \<open>What a tally that writes \<open>d'\<close> and result \<open>r\<close> leaves behind.\<close>

definition tallied :: "ctx \<Rightarrow> u64 \<Rightarrow> vote \<Rightarrow> dispute \<Rightarrow> VoteResult \<Rightarrow> 'w dispute_state \<Rightarrow> 'w dispute_state" where
  "tallied c did v d' r st = st\<lparr>Disputes := kv_set did d' (Disputes st),
     Votes := kv_set did (v\<lparr>voteResult := r, VoteEnd := BlockTime c\<rparr>) (Votes st)\<rparr>"

lemma UpdateDispute_tallied: "UpdateDispute c did d v a b i q st = tallied c did v d (vote_outcome a b i q) st"
  by (simp add: UpdateDispute_def tallied_def)

lemma decideTally_cases:
  assumes "decideTally E c did v d s st = Inr st'"
  obtains d' r where "st' = tallied c did v d' r st" "r \<noteq> NO_TALLY"
    and "d' = d\<lparr>dStatus := Resolved, Open := False, PendingExecution := True\<rparr>
      \<or> VoteEnd v < BlockTime c \<and> BlockTime c \<le> DisputeEndTime d \<and> DisputeRound d \<noteq> 5
        \<and> d' = d\<lparr>dStatus := Unresolved, PendingExecution := True\<rparr>"
proof -
  let ?expired = "DisputeEndTime d < BlockTime c \<or> DisputeRound d = 5"
  let ?resolved = "d\<lparr>dStatus := Resolved, Open := False, PendingExecution := True\<rparr>"
  let ?outcome = "vote_outcome (TruncateInt (sumSupport s)) (TruncateInt (sumAgainst s)) (TruncateInt (sumInvalid s))"
  show thesis
  proof (cases "quorumReached (deDec E) d s")
    case True
    then have "st' = tallied c did v ?resolved (?outcome True) st"
      using assms by (simp add: decideTally_def Let_def UpdateDispute_tallied)
    then show thesis by (rule that) simp_all
  next
    case False
    let ?d = "if ?expired then ?resolved else d\<lparr>dStatus := Unresolved, PendingExecution := True\<rparr>"
    let ?r = "if GetVotersExist did st then ?outcome False else NO_QUORUM_MAJORITY_INVALID"
    have e: "VoteEnd v < BlockTime c"
      using assms False by (simp add: decideTally_def Let_def split: if_splits)
    then have "st' = tallied c did v ?d ?r st"
      using assms False
      by (cases "GetVotersExist did st"; cases ?expired)
        (simp_all add: decideTally_def Let_def UpdateDispute_tallied tallied_def)
    then show thesis by (rule that) (use e in auto)
  qed
qed

lemma TallyVote_cases:
  assumes "TallyVote E c did st = Inr st'"
  obtains v d d' r where "kv_get (Votes st) did = Some v" "voteResult v = NO_TALLY"
    and "kv_get (Disputes st) did = Some d"
    and "st' = tallied c did v d' r st" "r \<noteq> NO_TALLY"
    and "d' = d\<lparr>dStatus := Resolved, Open := False, PendingExecution := True\<rparr>
      \<or> VoteEnd v < BlockTime c \<and> BlockTime c \<le> DisputeEndTime d \<and> DisputeRound d \<noteq> 5
        \<and> d' = d\<lparr>dStatus := Unresolved, PendingExecution := True\<rparr>"
proof -
  from assms obtain v d s where "kv_get (Votes st) did = Some v" "voteResult v = NO_TALLY"
    "kv_get (Disputes st) did = Some d" and run: "decideTally E c did v d s st = Inr st'"
    by (auto simp: TallyVote_def split: if_splits)
  with decideTally_cases [OF run] show thesis by (metis that)
qed


text \<open>
  Once its voting period is over a vote can always be tallied: if the dispute, the
  snapshot of its block and the team address are stored and the snapshot's totals are
  positive, the tally succeeds whatever the votes are.
\<close>

theorem tally_after_period:
  assumes v: "kv_get (Votes st) did = Some v" "voteResult v = NO_TALLY" "VoteEnd v < BlockTime c"
    and d: "kv_get (Disputes st) did = Some d" and i: "kv_get (BlockInfo st) (HashId d) = Some info"
    and team: "TeamAddress st = Some team"
    and tot: "0 < TotalUserTips info" "0 < TotalReporterPower info"
  shows "\<exists>st'. TallyVote E c did st = Inr st'"
proof -
  have "\<exists>s. tally_sums (deDec E) (map_option vVote (kv_get (Voter st) (did, team))) (getCounts did st) info = Inr s"
    using tot by (simp add: tally_sums_def add_group_def group_share_def decQuo_def Let_def)
  then obtain s where s: "tally_sums (deDec E) (map_option vVote (kv_get (Voter st) (did, team)))
      (getCounts did st) info = Inr s" ..
  have "\<exists>st'. decideTally E c did v d s st = Inr st'"
    using v(3) by (simp add: decideTally_def Let_def)
  then show ?thesis using v d i team s by (simp add: TallyVote_def GetTeamAddress_def)
qed


theorem tally_after_period_witness:
  "\<exists>st'. TallyVote ex_env (ex_ctx 200000 9) 1 ex_state = Inr st'"
  by (rule tally_after_period [where d = ex_dispute and team = "''t''"
        and info = "\<lparr>TotalReporterPower = 100, TotalUserTips = 100\<rparr>"
        and v = "\<lparr>voteId = 1, VoteStart = 0, VoteEnd = TWO_DAYS, voteResult = NO_TALLY, Executed = False\<rparr>"])
    (simp_all add: ex_defs kv_get_def TWO_DAYS_def)

section \<open>Changed votes\<close>

lemma selectorVotes_before_reporter:
  assumes "rkGetDelegatorTokensAtBlock (deReporter E) (disWorld st) s b = Inr t" "0 \<le> t" "t < 2 ^ 64"
    and "kv_get (Voter st) (did, r) = None"
  shows "\<exists>st'. selectorVotes E did s r b choice old st = Inr (t, st')
    \<and> disWorld st' = disWorld st \<and> Voter st' = Voter st \<and> votedBefore r did st' = votedBefore r did st + t"
  using assms
  by (auto simp: selectorVotes_def Let_def Uint64_def AddReporterVoteCount_def setCounts_def votedBefore_def)

text \<open>
  A selector that votes before its reporter and then changes its vote is counted twice
  against the reporter. If it holds more than half of the reporter's tokens, the reporter
  can no longer vote on the dispute: computing its power panics.
\<close>

theorem selector_revote_blocks_reporter:
  assumes t: "rkGetDelegatorTokensAtBlock (deReporter E) (disWorld st) s b = Inr t" "t < 2 ^ 64"
    and r: "rkGetReporterTokensAtBlock (deReporter E) (disWorld st) r b = Inr tokens" "0 \<le> t" "tokens < 2 * t"
    and none: "kv_get (Voter st) (did, r) = None" "0 \<le> votedBefore r did st"
    and one: "selectorVotes E did s r b choice None st = Inr (p1, st1)"
    and two: "selectorVotes E did s r b choice' (Some old) (st1\<lparr>Voter := kv_set (did, s) old (Voter st1)\<rparr>) = Inr (p2, st2)"
    and "s \<noteq> r"
  shows "reporterVotes E did r b any None st2 = Inl ErrPanic"
proof -
  let ?st1 = "st1\<lparr>Voter := kv_set (did, s) old (Voter st1)\<rparr>"
  have 1: "disWorld st1 = disWorld st" "Voter st1 = Voter st" "votedBefore r did st1 = votedBefore r did st + t"
    using selectorVotes_before_reporter [OF t(1) r(2) t(2) none(1), of choice None] one by simp_all
  have 2: "disWorld st2 = disWorld st" "votedBefore r did st2 = votedBefore r did st + 2 * t"
    using selectorVotes_before_reporter [of E ?st1 s b t did r choice' "Some old"] two t r(2) none 1 \<open>s \<noteq> r\<close>
    by (simp_all add: votedBefore_def)
  then show ?thesis using r none(2) by (simp add: reporterVotes_def Uint64_def)
qed

theorem selector_revote_blocks_reporter_witness:
  "\<exists>st1 st2 old. selectorVotes ex_env 1 ''s'' ''r'' 2 VOTE_SUPPORT None ex_state = Inr (60, st1)
    \<and> selectorVotes ex_env 1 ''s'' ''r'' 2 VOTE_AGAINST (Some old) (st1\<lparr>Voter := kv_set (1, ''s'') old (Voter st1)\<rparr>)
        = Inr (60, st2)
    \<and> reporterVotes ex_env 1 ''r'' 2 VOTE_SUPPORT None st2 = Inl ErrPanic"
proof -
  define old where "old = \<lparr>vVote = VOTE_SUPPORT, VoterPower = 60, ReporterPower = 60, RewardClaimed = False\<rparr>"
  have tok: "rkGetDelegatorTokensAtBlock (deReporter ex_env) w ''s'' 2 = Inr 60"
    "rkGetReporterTokensAtBlock (deReporter ex_env) w ''r'' 2 = Inr 100" for w by (simp_all add: ex_defs)
  have none: "kv_get (Voter ex_state) (1, ''r'') = None" "votedBefore ''r'' 1 ex_state = 0"
    by (simp_all add: ex_defs votedBefore_def)
  obtain st1 where 1: "selectorVotes ex_env 1 ''s'' ''r'' 2 VOTE_SUPPORT None ex_state = Inr (60, st1)"
    and v: "Voter st1 = Voter ex_state"
    using selectorVotes_before_reporter [OF tok(1) _ _ none(1)] by fastforce
  let ?st1 = "st1\<lparr>Voter := kv_set (1, ''s'') old (Voter st1)\<rparr>"
  have "kv_get (Voter ?st1) (1, ''r'') = None" using none v by simp
  from selectorVotes_before_reporter [OF tok(1) _ _ this]
  obtain st2 where 2: "selectorVotes ex_env 1 ''s'' ''r'' 2 VOTE_AGAINST (Some old) ?st1 = Inr (60, st2)"
    by fastforce
  have "reporterVotes ex_env 1 ''r'' 2 VOTE_SUPPORT None st2 = Inl ErrPanic"
    using none(2) by (intro selector_revote_blocks_reporter [OF tok(1) _ tok(2) _ _ none(1) _ 1 2]) simp_all
  then show ?thesis using 1 2 by blast
qed

end
