(* ===== verification/DisputeFunding.thy ===== *)
theory DisputeFunding
  imports DisputeVote
begin

text \<open>
  Opening and funding disputes (\<^verbatim>\<open>keeper/dispute.go\<close>, \<^verbatim>\<open>keeper/dispute_fee.go\<close>,
  \<^verbatim>\<open>msg_server_propose_dispute.go\<close>, \<^verbatim>\<open>msg_server_add_fee_to_dispute.go\<close>,
  \<^verbatim>\<open>msg_server_add_evidence.go\<close>): the fee of a category, paying it from an account or from
  stake, escrowing the disputed stake once the fee is met, and further rounds of an
  unresolved dispute.
\<close>

section \<open>Identifiers\<close>

definition NextDisputeId :: "'w dispute_state \<Rightarrow> u64" where
  "NextDisputeId st = (case kv_last_key (Disputes st) of None \<Rightarrow> 1 | Some currentId \<Rightarrow> currentId + 1)"

text \<open>The index \<^verbatim>\<open>DisputeByReporter\<close> prints reporter and hash into one key; equal keys are
  equal pairs, since the hash is printed at fixed length after the last colon.\<close>

definition GetDisputeByReporter ::
  "'w dispute_env \<Rightarrow> micro_report \<Rightarrow> DisputeCategory \<Rightarrow> 'w dispute_state \<Rightarrow> dispute result" where
  "GetDisputeByReporter E r cat st =
     (let h = deHashId E r cat;
          ids = kv_index (\<lambda>d. mrReporter (InitialEvidence d) = mrReporter r \<and> HashId d = h) (Disputes st)
      in if ids = [] then Inl ErrNotFound else getR (kv_get (Disputes st) (last ids)))"

section \<open>Fees and slashing\<close>

fun GetSlashPercentageAndJailDuration :: "DisputeCategory \<Rightarrow> (int \<times> u64) result" where
  "GetSlashPercentageAndJailDuration Warning = Inr (quoT PowerReduction 100, 0)"
| "GetSlashPercentageAndJailDuration Minor = Inr (quoT PowerReduction 20, 600)"
| "GetSlashPercentageAndJailDuration Major = Inr (PowerReduction, 9223372036854775807)"
| "GetSlashPercentageAndJailDuration Unspecified = Inl (Err ''ErrInvalidDisputeCategory'')"

definition GetDisputeFee :: "dec_ops \<Rightarrow> micro_report \<Rightarrow> DisputeCategory \<Rightarrow> int result" where
  "GetDisputeFee D rep cat =
     (let stake = PowerReduction * i64 (uint (mrPower rep)) in
      case cat of
        Warning \<Rightarrow> Inr (TruncateInt (dquo D (dmul D (dec_of stake) (dec_of 1)) (dec_of 100)))
      | Minor \<Rightarrow> Inr (TruncateInt (dquo D (dmul D (dec_of stake) (dec_of 5)) (dec_of 100)))
      | Major \<Rightarrow> Inr stake
      | Unspecified \<Rightarrow> Inl (Err ''ErrInvalidDisputeCategory''))"

definition fivePercentOf :: "dec_ops \<Rightarrow> int \<Rightarrow> int" where
  "fivePercentOf D amt = TruncateInt (dquo D (dmul D (dec_of amt) (dec_of 1)) (dec_of 20))"

text \<open>\<^verbatim>\<open>HasBalance\<close> compares the balance with the coin.\<close>

definition PayFromAccount ::
  "'w dispute_env \<Rightarrow> addr \<Rightarrow> int \<Rightarrow> 'w dispute_state \<Rightarrow> 'w dispute_state result" where
  "PayFromAccount E a fee st =
     (if bkGetBalance (deBank E) (disWorld st) (User a) BondDenom < fee
      then Inl (Err ''INSUFFICIENT_BALANCE'')
      else bindR (bkSendCoins (deBank E) (User a) (Module ''dispute'') BondDenom fee (disWorld st)) (\<lambda>w.
           Inr (st\<lparr>disWorld := w\<rparr>)))"

definition PayFromBond :: "'w dispute_env \<Rightarrow> ctx \<Rightarrow> addr \<Rightarrow> int \<Rightarrow> bytes \<Rightarrow> bool \<Rightarrow>
    'w dispute_state \<Rightarrow> 'w dispute_state result" where
  "PayFromBond E c a fee hashId isFirstRound st =
     bindR (rkFeefromReporterStake (deReporter E) c a fee hashId isFirstRound (disWorld st)) (\<lambda>w.
     Inr (st\<lparr>disWorld := w\<rparr>))"

definition PayDisputeFee :: "'w dispute_env \<Rightarrow> ctx \<Rightarrow> addr \<Rightarrow> int \<Rightarrow> bool \<Rightarrow> bytes \<Rightarrow> bool \<Rightarrow>
    'w dispute_state \<Rightarrow> 'w dispute_state result" where
  "PayDisputeFee E c proposer fee fromBond hashId isFirstRound st =
     (if fromBond then PayFromBond E c proposer fee hashId isFirstRound st
      else PayFromAccount E proposer fee st)"

definition disJailReporter :: "'w dispute_env \<Rightarrow> ctx \<Rightarrow> addr \<Rightarrow> u64 \<Rightarrow> 'w dispute_state \<Rightarrow> 'w dispute_state result" where
  "disJailReporter E c repAddr jailDuration st =
     bindR (rkJailReporter (deReporter E) c repAddr jailDuration (disWorld st)) (\<lambda>w.
     Inr (st\<lparr>disWorld := w\<rparr>))"

definition slashAmountOf :: "dec_ops \<Rightarrow> u64 \<Rightarrow> int \<Rightarrow> int" where
  "slashAmountOf D pow percentage =
     (let reportPower = i64 (uint pow) * PowerReduction
      in TruncateInt (dquo D (dmul D (dec_of reportPower) (dec_of percentage)) (dec_of PowerReduction)))"

text \<open>\<^verbatim>\<open>MustAccAddressFromBech32\<close> panics on a malformed address.\<close>

definition mustAddr :: "'w dispute_env \<Rightarrow> string \<Rightarrow> addr result" where
  "mustAddr E s = (case deAccAddressFromBech32 E s of Inl _ \<Rightarrow> Inl ErrPanic | Inr a \<Rightarrow> Inr a)"

definition SlashAndJailReporter :: "'w dispute_env \<Rightarrow> ctx \<Rightarrow> micro_report \<Rightarrow> DisputeCategory \<Rightarrow> bytes \<Rightarrow>
    'w dispute_state \<Rightarrow> 'w dispute_state result" where
  "SlashAndJailReporter E c report cat hashId st =
     bindR (okFlagAggregateReport (deOracle E) c report (disWorld st)) (\<lambda>w1.
     bindR (mustAddr E (mrReporter report)) (\<lambda>reporterAddr.
     bindR (GetSlashPercentageAndJailDuration cat) (\<lambda>(percentage, jailDuration).
     bindR (rkEscrowReporterStake (deReporter E) c reporterAddr (mrPower report) (mrBlockNumber report)
              (slashAmountOf (deDec E) (mrPower report) percentage) (mrQueryId report) hashId w1) (\<lambda>w2.
     disJailReporter E c reporterAddr jailDuration (st\<lparr>disWorld := w2\<rparr>)))))"

section \<open>Opening a dispute\<close>

definition new_dispute :: "ctx \<Rightarrow> bytes \<Rightarrow> u64 \<Rightarrow> DisputeCategory \<Rightarrow> int \<Rightarrow> int \<Rightarrow> micro_report \<Rightarrow> int \<Rightarrow> dispute" where
  "new_dispute c hashId disputeId cat disputeFee fivePercent report paid =
     \<lparr>HashId = hashId, DisputeId = disputeId, dCategory = cat, DisputeFee = disputeFee,
      dStatus = Prevote, DisputeStartTime = BlockTime c, DisputeEndTime = BlockTime c + ONE_DAY,
      DisputeStartBlock = word_of_int (BlockHeight c), DisputeRound = 1, SlashAmount = disputeFee,
      BurnAmount = fivePercent, InitialEvidence = report, FeeTotal = paid,
      PrevDisputeIds = [disputeId], dBlockNumber = word_of_int (BlockHeight c), Open = True,
      AdditionalEvidence = [], VoterReward = 0, PendingExecution = False\<rparr>"

text \<open>What happens when the fee is met: escrow and jail, then voting opens for the dispute.\<close>

definition start_voting :: "'w dispute_env \<Rightarrow> ctx \<Rightarrow> dispute \<Rightarrow> 'w dispute_state \<Rightarrow>
    (dispute \<times> 'w dispute_state) result" where
  "start_voting E c d st =
     (if FeeTotal d = SlashAmount d then
        bindR (SlashAndJailReporter E c (InitialEvidence d) (dCategory d) (HashId d) st) (\<lambda>st1.
        Inr (d\<lparr>DisputeEndTime := BlockTime c + THREE_DAYS, dStatus := Voting\<rparr>,
             SetStartVote c (DisputeId d) st1))
      else Inr (d, st))"

record propose_msg =
  pmCreator :: string
  pmDisputedReporter :: string
  pmReportMetaId :: u64
  pmReportQueryId :: string
  pmCategory :: DisputeCategory
  pmFeeDenom :: denom
  pmFee :: int
  pmPayFromBond :: bool

definition SetNewDispute :: "'w dispute_env \<Rightarrow> ctx \<Rightarrow> addr \<Rightarrow> propose_msg \<Rightarrow> micro_report \<Rightarrow>
    'w dispute_state \<Rightarrow> 'w dispute_state result" where
  "SetNewDispute E c sender msg report st =
     (let disputeId = NextDisputeId st;
          hashId = deHashId E report (pmCategory msg)
      in bindR (GetDisputeFee (deDec E) report (pmCategory msg)) (\<lambda>disputeFee.
         let paid = (if disputeFee < pmFee msg then disputeFee else pmFee msg);
             d = new_dispute c hashId disputeId (pmCategory msg) disputeFee
                   (fivePercentOf (deDec E) disputeFee) report paid;
             st1 = st\<lparr>DisputeFeePayer := kv_set (disputeId, sender)
                       \<lparr>piAmount = paid, piFromBond = pmPayFromBond msg\<rparr> (DisputeFeePayer st)\<rparr>
         in bindR (PayDisputeFee E c sender paid (pmPayFromBond msg) hashId True st1) (\<lambda>st2.
            bindR (start_voting E c d st2) (\<lambda>(d', st3).
            Inr (st3\<lparr>Disputes := kv_set disputeId d' (Disputes st3)\<rparr>)))))"

definition CloseDispute :: "u64 \<Rightarrow> 'w dispute_state \<Rightarrow> 'w dispute_state result" where
  "CloseDispute did st =
     bindR (getR (kv_get (Disputes st) did)) (\<lambda>d.
     Inr (st\<lparr>Disputes := kv_set did (d\<lparr>Open := False, PendingExecution := False\<rparr>) (Disputes st)\<rparr>))"

text \<open>The fee of the next round, five percent of the slash amount doubled per round and
  capped by it.\<close>

definition roundFee :: "dec_ops \<Rightarrow> dispute \<Rightarrow> int" where
  "roundFee D d = min (SlashAmount d) (fivePercentOf D (SlashAmount d) * 2 ^ nat (i64 (uint (DisputeRound d))))"

definition next_round :: "dec_ops \<Rightarrow> ctx \<Rightarrow> u64 \<Rightarrow> int \<Rightarrow> dispute \<Rightarrow> dispute" where
  "next_round D c disputeId fee d =
     d\<lparr>BurnAmount := BurnAmount d + fivePercentOf D (SlashAmount d),
       FeeTotal := FeeTotal d + fee,
       DisputeId := disputeId, dStatus := Voting,
       DisputeStartTime := BlockTime c, DisputeEndTime := BlockTime c + THREE_DAYS,
       DisputeStartBlock := word_of_int (BlockHeight c),
       DisputeRound := DisputeRound d + 1,
       PrevDisputeIds := PrevDisputeIds d @ [disputeId]\<rparr>"

definition AddDisputeRound :: "'w dispute_env \<Rightarrow> ctx \<Rightarrow> addr \<Rightarrow> dispute \<Rightarrow> propose_msg \<Rightarrow>
    'w dispute_state \<Rightarrow> 'w dispute_state result" where
  "AddDisputeRound E c sender d msg st =
     (if dStatus d \<noteq> Unresolved then Inl (Err ''can't start a new round: dispute status'')
      else if \<not> Open d then Inl (Err ''can't start a new round: dispute closed'')
      else if DisputeEndTime d < BlockTime c then Inl (Err ''this dispute is expired, can't start new round'')
      else if DisputeRound d = 5 then Inl (Err ''max dispute rounds has been reached'')
      else if pmFee msg < roundFee (deDec E) d then Inl (Err ''fee amount is less than amount required'')
      else let fee = roundFee (deDec E) d
      in bindR (PayDisputeFee E c sender fee (pmPayFromBond msg) (HashId d) True st) (\<lambda>st1.
         bindR (CloseDispute (DisputeId d) st1) (\<lambda>st2.
         let disputeId = NextDisputeId st2;
             d' = next_round (deDec E) c disputeId fee d
         in Inr (SetStartVote c disputeId
                  (st2\<lparr>Disputes := kv_set disputeId d' (Disputes st2)\<rparr>)))))"

definition validateProposeDispute :: "'w dispute_env \<Rightarrow> propose_msg \<Rightarrow> (addr \<times> addr) result" where
  "validateProposeDispute E msg =
     (case deAccAddressFromBech32 E (pmCreator msg) of
        Inl _ \<Rightarrow> Inl (Err ''ErrInvalidAddress: creator'')
      | Inr creator \<Rightarrow> (case deAccAddressFromBech32 E (pmDisputedReporter msg) of
          Inl _ \<Rightarrow> Inl (Err ''ErrInvalidAddress: disputed reporter'')
        | Inr disputed_reporter \<Rightarrow>
          if pmFeeDenom msg \<noteq> BondDenom \<or> pmFee msg \<le> 0 then Inl (Err ''ErrInvalidCoins'')
          else if pmReportQueryId msg = '''' then Inl (Err ''query id should not be nil'')
          else if pmCategory msg = Unspecified then Inl (Err ''ErrInvalidRequest: dispute category'')
          else Inr (creator, disputed_reporter)))"

text \<open>A report disputed for the first time opens a dispute, a further proposal a round.\<close>

definition openDispute :: "'w dispute_env \<Rightarrow> ctx \<Rightarrow> addr \<Rightarrow> propose_msg \<Rightarrow> micro_report \<Rightarrow>
    'w dispute_state \<Rightarrow> 'w dispute_state result" where
  "openDispute E c sender msg report st =
     (case GetDisputeByReporter E report (pmCategory msg) st of
        Inl e \<Rightarrow> if e = ErrNotFound then SetNewDispute E c sender msg report st else Inl e
      | Inr d \<Rightarrow> AddDisputeRound E c sender d msg st)"

definition ProposeDispute :: "'w dispute_env \<Rightarrow> ctx \<Rightarrow> propose_msg \<Rightarrow> 'w dispute_state \<Rightarrow>
    'w dispute_state result" where
  "ProposeDispute E c msg st =
     bindR (validateProposeDispute E msg) (\<lambda>(sender, disputed_reporter).
     bindR (QueryBytesFromString (pmReportQueryId msg)) (\<lambda>qId.
     case okValidateMicroReportExists (deOracle E) (disWorld st) disputed_reporter (pmReportMetaId msg) qId of
       Inl _ \<Rightarrow> Inl (Err ''ErrDisputedReportDoesNotExist'')
     | Inr None \<Rightarrow> Inl (Err ''ErrDisputedReportDoesNotExist'')
     | Inr (Some report) \<Rightarrow>
       if mrTimestamp report < BlockTime c - 21 * 24 * hour
       then Inl (Err ''disputed report must be less than 21 days old'')
       else if pmFee msg < OnePercent then Inl (Err ''ErrMinimumTRBrequired'')
       else if pmPayFromBond msg \<and> equalFold (pmCreator msg) (pmDisputedReporter msg)
       then Inl (Err ''ErrSelfDisputeFromBond'')
       else openDispute E c sender msg report st))"

section \<open>Contributing to the fee\<close>

record add_fee_msg =
  afCreator :: string
  afDisputeId :: u64
  afDenom :: denom
  afAmount :: int
  afPayFromBond :: bool

text \<open>A payer's entry after a further payment; the origin of the money may not change.\<close>

definition mergePayer :: "payer_info option \<Rightarrow> int \<Rightarrow> bool \<Rightarrow> payer_info result" where
  "mergePayer existing amount fromBond = (case existing of
     None \<Rightarrow> Inr \<lparr>piAmount = amount, piFromBond = fromBond\<rparr>
   | Some p \<Rightarrow> if piFromBond p \<noteq> fromBond then Inl (Err ''PayFromBond must match previously paid fee origin'')
       else Inr (p\<lparr>piAmount := piAmount p + amount\<rparr>))"

definition recordFee :: "'w dispute_env \<Rightarrow> ctx \<Rightarrow> addr \<Rightarrow> dispute \<Rightarrow> int \<Rightarrow> bool \<Rightarrow> 'w dispute_state \<Rightarrow>
    'w dispute_state result" where
  "recordFee E c sender d amount fromBond st =
     bindR (mergePayer (kv_get (DisputeFeePayer st) (DisputeId d, sender)) amount fromBond) (\<lambda>payer.
     let st1 = st\<lparr>DisputeFeePayer := kv_set (DisputeId d, sender) payer (DisputeFeePayer st)\<rparr>
     in bindR (start_voting E c (d\<lparr>FeeTotal := FeeTotal d + amount\<rparr>) st1) (\<lambda>(d', st2).
        Inr (st2\<lparr>Disputes := kv_set (DisputeId d) d' (Disputes st2)\<rparr>)))"

definition AddFeeToDispute :: "'w dispute_env \<Rightarrow> ctx \<Rightarrow> add_fee_msg \<Rightarrow> 'w dispute_state \<Rightarrow>
    'w dispute_state result" where
  "AddFeeToDispute E c msg st =
     bindR (deAccAddressFromBech32 E (afCreator msg)) (\<lambda>sender.
     if afDenom msg \<noteq> BondDenom then Inl (Err ''fee must be paid in loya'')
     else if afAmount msg \<le> 0 then Inl (Err ''fee must be a positive amount'')
     else bindR (getR (kv_get (Disputes st) (afDisputeId msg))) (\<lambda>d.
     bindR (mustAddr E (mrReporter (InitialEvidence d))) (\<lambda>disputed.
     if sender = disputed \<and> afPayFromBond msg then Inl (Err ''disputed reporter can't add fee from bond'')
     else if DisputeEndTime d < BlockTime c then Inl (Err ''ErrDisputeTimeExpired'')
     else if SlashAmount d \<le> FeeTotal d then Inl (Err ''ErrDisputeFeeAlreadyMet'')
     else let amount = (if SlashAmount d < FeeTotal d + afAmount msg then SlashAmount d - FeeTotal d
                        else afAmount msg);
              fee = SlashAmount d - FeeTotal d
     in bindR (PayDisputeFee E c sender amount (afPayFromBond msg) (HashId d) True st)
          (recordFee E c sender d (if fee < amount then fee else amount) (afPayFromBond msg)))))"

section \<open>Evidence and snapshots\<close>

text \<open>The flagging loop: a missing aggregate is not an error.\<close>

definition flagReport :: "'w dispute_env \<Rightarrow> ctx \<Rightarrow> micro_report \<Rightarrow> 'w \<Rightarrow> 'w result" where
  "flagReport E c r w = (case okFlagAggregateReport (deOracle E) c r w of
     Inl e \<Rightarrow> if e \<noteq> ErrNotFound then Inl e else Inr w | Inr w' \<Rightarrow> Inr w')"

definition AddEvidence :: "'w dispute_env \<Rightarrow> ctx \<Rightarrow> u64 \<Rightarrow> micro_report list \<Rightarrow> 'w dispute_state \<Rightarrow>
    'w dispute_state result" where
  "AddEvidence E c did reports st =
     bindR (getR (kv_get (Disputes st) did)) (\<lambda>d.
     if \<not> Open d then Inl (Err ''dispute is not open'')
     else if \<not> list_all (\<lambda>r. equalFold (mrReporter r) (mrReporter (InitialEvidence d))) reports
     then Inl (Err ''reporter in additional evidence must be the same as the reporter in the dispute'')
     else if \<not> list_all (\<lambda>r. BlockTime c - 21 * 24 * hour \<le> mrTimestamp r) reports
     then Inl (Err ''additional evidence must be less than 21 days old'')
     else let st1 = st\<lparr>Disputes := kv_set did
                (d\<lparr>AdditionalEvidence := AdditionalEvidence d @ reports\<rparr>) (Disputes st)\<rparr>
     in bindR (foldR (flagReport E c) reports (disWorld st1)) (\<lambda>w.
        Inr (st1\<lparr>disWorld := w\<rparr>)))"

definition SetBlockInfo :: "'w dispute_env \<Rightarrow> bytes \<Rightarrow> 'w dispute_state \<Rightarrow> 'w dispute_state result" where
  "SetBlockInfo E hashId st =
     bindR (rkTotalReporterPower (deReporter E) (disWorld st)) (\<lambda>tp.
     bindR (okGetTotalTips (deOracle E) (disWorld st)) (\<lambda>tips.
     Inr (st\<lparr>BlockInfo := kv_set hashId \<lparr>TotalReporterPower = tp, TotalUserTips = tips\<rparr> (BlockInfo st)\<rparr>)))"

definition GetOpenDisputes :: "'w dispute_state \<Rightarrow> u64 list" where
  "GetOpenDisputes st = kv_index Open (Disputes st)"

end
