(* ===== verification/DisputeExecute.thy ===== *)
theory DisputeExecute
  imports DisputeFunding
begin

text \<open>
  Settling disputes (\<^verbatim>\<open>keeper/execute.go\<close>, \<^verbatim>\<open>keeper/claim_reward.go\<close>,
  \<^verbatim>\<open>keeper/math_utils.go\<close>, \<^verbatim>\<open>msg_server_withdraw_fee_refund.go\<close>,
  \<^verbatim>\<open>msg_update_team.go\<close>) and the module's block steps (\<^verbatim>\<open>abci.go\<close>): executing a tallied
  vote, refunding fee payers, rewarding voters, and the expiry and execution passes every
  block runs.
\<close>

abbreviation disputeModule :: holder where
  "disputeModule \<equiv> Module ''dispute''"

abbreviation bondedPool :: holder where
  "bondedPool \<equiv> Module ''bonded_tokens_pool''"

section \<open>Executing a vote\<close>

definition burnFromDispute :: "'w dispute_env \<Rightarrow> int \<Rightarrow> 'w dispute_state \<Rightarrow> 'w dispute_state result" where
  "burnFromDispute E n st =
     (if n = 0 then Inr st
      else bindR (bkBurnCoins (deBank E) ''dispute'' BondDenom n (disWorld st)) (\<lambda>w.
           Inr (st\<lparr>disWorld := w\<rparr>)))"

definition ReturnSlashedTokens :: "'w dispute_env \<Rightarrow> ctx \<Rightarrow> dispute \<Rightarrow> 'w dispute_state \<Rightarrow>
    'w dispute_state result" where
  "ReturnSlashedTokens E c d st =
     bindR (rkReturnSlashedTokens (deReporter E) c (SlashAmount d) (HashId d) (disWorld st)) (\<lambda>(pool, w1).
     bindR (bkSendCoins (deBank E) disputeModule (Module pool) BondDenom (SlashAmount d) w1) (\<lambda>w2.
     Inr (st\<lparr>disWorld := w2\<rparr>)))"

definition ReturnFeetoStake :: "'w dispute_env \<Rightarrow> ctx \<Rightarrow> bytes \<Rightarrow> int \<Rightarrow> 'w dispute_state \<Rightarrow>
    'w dispute_state result" where
  "ReturnFeetoStake E c hashId remainingAmt st =
     bindR (rkFeeRefund (deReporter E) c hashId remainingAmt (disWorld st)) (\<lambda>w1.
     bindR (bkSendCoins (deBank E) disputeModule bondedPool BondDenom remainingAmt w1) (\<lambda>w2.
     Inr (st\<lparr>disWorld := w2\<rparr>)))"

text \<open>The sums are \<^verbatim>\<open>uint64\<close> and are read as \<^verbatim>\<open>int64\<close> at the end.\<close>

definition group_words :: "vote_counts \<Rightarrow> u64" where
  "group_words c = vcSupport c + vcAgainst c + vcInvalid c"

definition GetSumOfAllGroupVotesAllRounds :: "u64 \<Rightarrow> 'w dispute_state \<Rightarrow> int result" where
  "GetSumOfAllGroupVotesAllRounds did st =
     bindR (getR (kv_get (Disputes st) did)) (\<lambda>d.
     case kv_get (VoteCountsByGroup st) did of None \<Rightarrow> Inr 0
     | Some _ \<Rightarrow>
       let cs = map (\<lambda>i. getCounts i st) (did # PrevDisputeIds d);
           sumOf = (\<lambda>f. i64 (uint (sum_list (map (\<lambda>c. group_words (f c)) cs))))
       in Inr (sumOf svUsers + sumOf svReporters + sumOf svTeam))"

definition unjailDisputed :: "'w dispute_env \<Rightarrow> ctx \<Rightarrow> dispute \<Rightarrow> 'w dispute_state \<Rightarrow>
    'w dispute_state result" where
  "unjailDisputed E c d st =
     bindR (deAccAddressFromBech32 E (mrReporter (InitialEvidence d))) (\<lambda>a.
     bindR (rkUpdateJailedUntilOnFailedDispute (deReporter E) c a (disWorld st)) (\<lambda>w.
     Inr (st\<lparr>disWorld := w\<rparr>)))"

definition setExecuted :: "u64 \<Rightarrow> vote \<Rightarrow> 'w dispute_state \<Rightarrow> 'w dispute_state" where
  "setExecuted did v st = st\<lparr>Votes := kv_set did (v\<lparr>Executed := True\<rparr>) (Votes st)\<rparr>"

text \<open>The fee less its five percent, what a reporter that wins is paid on top of its
  stake.\<close>

definition feeMinusFivePercent :: "dec_ops \<Rightarrow> int \<Rightarrow> int" where
  "feeMinusFivePercent D fee = fee - TruncateInt (dquo D (dec_of fee) (dec_of 20))"

definition halfBurn :: "dec_ops \<Rightarrow> int \<Rightarrow> int" where
  "halfBurn D burn = TruncateInt (dquo D (dec_of burn) (dec_of 2))"

definition settle :: "'w dispute_env \<Rightarrow> ctx \<Rightarrow> u64 \<Rightarrow> dispute \<Rightarrow> vote \<Rightarrow> int \<Rightarrow> 'w dispute_state \<Rightarrow>
    'w dispute_state result" where
  "settle E c did d v burn st =
     (if voteResult v = INVALID \<or> voteResult v = NO_QUORUM_MAJORITY_INVALID then
        bindR (burnFromDispute E burn st) (\<lambda>st1.
        bindR (ReturnSlashedTokens E c d st1) (\<lambda>st2.
        bindR (unjailDisputed E c d st2) (\<lambda>st3.
        Inr (setExecuted did v st3))))
      else if voteResult v = SUPPORT \<or> voteResult v = NO_QUORUM_MAJORITY_SUPPORT then
        bindR (burnFromDispute E burn st) (\<lambda>st1. Inr (setExecuted did v st1))
      else if voteResult v = AGAINST \<or> voteResult v = NO_QUORUM_MAJORITY_AGAINST then
        bindR (burnFromDispute E burn st) (\<lambda>st1.
        bindR (ReturnSlashedTokens E c
                 (d\<lparr>SlashAmount := SlashAmount d + feeMinusFivePercent (deDec E) (DisputeFee d)\<rparr>) st1) (\<lambda>st2.
        bindR (unjailDisputed E c d st2) (\<lambda>st3.
        Inr (setExecuted did v st3))))
      else Inl (Err ''vote hasn't been tallied yet''))"

definition ExecuteVote :: "'w dispute_env \<Rightarrow> ctx \<Rightarrow> u64 \<Rightarrow> 'w dispute_state \<Rightarrow> 'w dispute_state result" where
  "ExecuteVote E c did st =
     bindR (getR (kv_get (Disputes st) did)) (\<lambda>d0.
     bindR (getR (kv_get (Votes st) did)) (\<lambda>v.
     let late = (voteResult v \<noteq> NO_TALLY \<and> DisputeEndTime d0 < BlockTime c);
         d = (if late then d0\<lparr>dStatus := Resolved, Open := False\<rparr> else d0);
         st0 = (if late then st\<lparr>Disputes := kv_set did d (Disputes st)\<rparr> else st)
     in if dStatus d \<noteq> Resolved then Inl (Err ''can't execute, dispute not resolved'')
     else if Executed v then Inl (Err ''vote already executed'')
     else bindR (GetSumOfAllGroupVotesAllRounds did st0) (\<lambda>totalVoterPower.
     let noVotes = (totalVoterPower = 0);
         burn = (if noVotes then BurnAmount d else halfBurn (deDec E) (BurnAmount d));
         voterReward = (if noVotes then 0 else halfBurn (deDec E) (BurnAmount d))
     in bindR (settle E c did d v burn st0) (\<lambda>st1.
        Inr (st1\<lparr>Disputes := kv_set did (d\<lparr>VoterReward := voterReward, PendingExecution := False\<rparr>)
                               (Disputes st1)\<rparr>)))))"

section \<open>Refunds\<close>

definition CalculateRefundAmount :: "dec_ops \<Rightarrow> int \<Rightarrow> int \<Rightarrow> int \<Rightarrow> (int \<times> int) result" where
  "CalculateRefundAmount D payerFee totalFeeRd1 disputeFeeTotal =
     (let fivePercent = TruncateInt (dquo D (dec_of disputeFeeTotal) (dec_of 20));
          totalFeeMinusBurnDec = dec_of (disputeFeeTotal - fivePercent)
      in bindR (decQuo D (dmul D (dmul D (dec_of payerFee) totalFeeMinusBurnDec) (dec_of PowerReduction))
                  (dec_of totalFeeRd1)) (\<lambda>amtFixed12Dec.
         let amtFixed12 = TruncateInt amtFixed12Dec
         in Inr (quoT amtFixed12 PowerReduction, amtFixed12 mod PowerReduction)))"

definition CalculateReporterBondRewardAmount :: "dec_ops \<Rightarrow> int \<Rightarrow> int \<Rightarrow> int \<Rightarrow> (int \<times> int) result" where
  "CalculateReporterBondRewardAmount D payerFee totalFeesPaid reporterBond =
     bindR (decQuo D (dmul D (dmul D (dec_of payerFee) (dec_of reporterBond)) (dec_of PowerReduction))
              (dec_of totalFeesPaid)) (\<lambda>amtFixed12Dec.
     let amtFixed12 = TruncateInt amtFixed12Dec;
         amtFixed6 = TruncateInt (dquo D amtFixed12Dec (dec_of PowerReduction))
     in Inr (amtFixed6, amtFixed12 mod PowerReduction))"

definition payRefund :: "'w dispute_env \<Rightarrow> ctx \<Rightarrow> addr \<Rightarrow> bool \<Rightarrow> bytes \<Rightarrow> int \<Rightarrow> 'w dispute_state \<Rightarrow>
    'w dispute_state result" where
  "payRefund E c feePayer fromBond hashId amt st =
     (if \<not> fromBond
      then bindR (bkSendCoins (deBank E) disputeModule (User feePayer) BondDenom amt (disWorld st)) (\<lambda>w.
           Inr (st\<lparr>disWorld := w\<rparr>))
      else ReturnFeetoStake E c hashId amt st)"

definition RefundFailedDisputeFee :: "'w dispute_env \<Rightarrow> ctx \<Rightarrow> addr \<Rightarrow> payer_info \<Rightarrow> bytes \<Rightarrow>
    'w dispute_state \<Rightarrow> 'w dispute_state result" where
  "RefundFailedDisputeFee E c feePayer p hashId st =
     payRefund E c feePayer (piFromBond p) hashId (piAmount p) st"

definition RefundDisputeFee :: "'w dispute_env \<Rightarrow> ctx \<Rightarrow> addr \<Rightarrow> payer_info \<Rightarrow> int \<Rightarrow> bytes \<Rightarrow> int \<Rightarrow>
    'w dispute_state \<Rightarrow> (int \<times> 'w dispute_state) result" where
  "RefundDisputeFee E c feePayer p disputeFeeTotal hashId slashAmt st =
     bindR (CalculateRefundAmount (deDec E) (piAmount p) slashAmt disputeFeeTotal) (\<lambda>(amtFixed6, remainder).
     bindR (payRefund E c feePayer (piFromBond p) hashId amtFixed6 st) (\<lambda>st1.
     Inr (remainder, st1)))"

definition RewardReporterBondToFeePayers :: "'w dispute_env \<Rightarrow> ctx \<Rightarrow> addr \<Rightarrow> payer_info \<Rightarrow> int \<Rightarrow> int \<Rightarrow>
    'w dispute_state \<Rightarrow> (int \<times> 'w dispute_state) result" where
  "RewardReporterBondToFeePayers E c feePayer p totalFeesPaid reporterBond st =
     bindR (CalculateReporterBondRewardAmount (deDec E) (piAmount p) totalFeesPaid reporterBond) (\<lambda>(amtFixed6, remainder).
     bindR (rkAddAmountToStake (deReporter E) c feePayer amtFixed6 (disWorld st)) (\<lambda>w1.
     bindR (bkSendCoins (deBank E) disputeModule bondedPool BondDenom amtFixed6 w1) (\<lambda>w2.
     Inr (remainder, st\<lparr>disWorld := w2\<rparr>))))"

definition firstRoundId :: "u64 \<Rightarrow> dispute \<Rightarrow> u64" where
  "firstRoundId did d = (case PrevDisputeIds d of [] \<Rightarrow> did | i # _ \<Rightarrow> i)"

text \<open>The payments of a withdrawal and the new dust, by the outcome of the dispute.\<close>

definition refundByOutcome :: "'w dispute_env \<Rightarrow> ctx \<Rightarrow> addr \<Rightarrow> payer_info \<Rightarrow> u64 \<Rightarrow> dispute \<Rightarrow> int \<Rightarrow>
    'w dispute_state \<Rightarrow> (int \<times> 'w dispute_state) result" where
  "refundByOutcome E c feePayer p did d dust st =
     (if dStatus d = Failed then
        bindR (RefundFailedDisputeFee E c feePayer p (HashId d) st) (\<lambda>st1. Inr (dust, st1))
      else bindR (getR (kv_get (Votes st) did)) (\<lambda>v.
        if \<not> Executed v then Inl (Err ''vote not executed'')
        else if voteResult v = INVALID \<or> voteResult v = NO_QUORUM_MAJORITY_INVALID then
          bindR (RefundDisputeFee E c feePayer p (FeeTotal d) (HashId d) (SlashAmount d) st) (\<lambda>(r, st1).
          Inr (dust + r, st1))
        else if voteResult v = SUPPORT \<or> voteResult v = NO_QUORUM_MAJORITY_SUPPORT then
          bindR (RefundDisputeFee E c feePayer p (FeeTotal d) (HashId d) (SlashAmount d) st) (\<lambda>(r, st1).
          bindR (RewardReporterBondToFeePayers E c feePayer p (FeeTotal d) (SlashAmount d) st1) (\<lambda>(r', st2).
          Inr (dust + r + r', st2)))
        else Inl (Err ''invalid vote result'')))"

definition WithdrawFeeRefund :: "'w dispute_env \<Rightarrow> ctx \<Rightarrow> string \<Rightarrow> u64 \<Rightarrow> 'w dispute_state \<Rightarrow>
    'w dispute_state result" where
  "WithdrawFeeRefund E c payerStr did st =
     (case deAccAddressFromBech32 E payerStr of Inl _ \<Rightarrow> Inl (Err ''ErrInvalidAddress'')
      | Inr feePayer \<Rightarrow>
        bindR (getR (kv_get (Disputes st) did)) (\<lambda>d.
        bindR (getR (kv_get (DisputeFeePayer st) (firstRoundId did d, feePayer))) (\<lambda>p.
        bindR (getR (Dust st)) (\<lambda>dust.
        bindR (refundByOutcome E c feePayer p did d dust st) (\<lambda>(remainder, st1).
        let burnDust = TruncateInt (dquo (deDec E) (dec_of remainder) (dec_of PowerReduction))
        in bindR (burnFromDispute E burnDust st1) (\<lambda>st2.
           let remainder2 = (if burnDust \<noteq> 0 then remainder mod PowerReduction else remainder)
           in Inr (st2\<lparr>Dust := Some remainder2,
                       DisputeFeePayer := kv_del (firstRoundId did d, feePayer) (DisputeFeePayer st2)\<rparr>)))))))"

section \<open>Voter rewards\<close>

record reward_powers =
  addrReporterPower :: int
  addrUserPower :: int
  globalReporterPower :: int
  globalUserPower :: int

definition addRoundPowers :: "'w dispute_env \<Rightarrow> addr \<Rightarrow> u64 \<Rightarrow> 'w dispute_state \<Rightarrow> u64 \<Rightarrow> reward_powers \<Rightarrow>
    reward_powers result" where
  "addRoundPowers E a blockNumber st pastId p =
     bindR (case kv_get (Voter st) (pastId, a) of
              None \<Rightarrow> Inr p
            | Some v \<Rightarrow> bindR (GetUserTotalTips E a blockNumber st) (\<lambda>userTips.
                Inr (p\<lparr>addrReporterPower := addrReporterPower p + ReporterPower v,
                       addrUserPower := addrUserPower p + userTips\<rparr>))) (\<lambda>p1.
     bindR (getR (kv_get (VoteCountsByGroup st) pastId)) (\<lambda>vc.
     Inr (p1\<lparr>globalReporterPower := globalReporterPower p1 + counts_sum (svReporters vc),
             globalUserPower := globalUserPower p1 + counts_sum (svUsers vc)\<rparr>)))"

definition rewardOf :: "dec_ops \<Rightarrow> reward_powers \<Rightarrow> int \<Rightarrow> int result" where
  "rewardOf D p voterReward =
     (let gr = (if globalReporterPower p = 0 then 1 else globalReporterPower p);
          gu = (if globalUserPower p = 0 then 1 else globalUserPower p);
          totalGroups = (2 :: int) - (if globalReporterPower p = 0 then 1 else 0)
                          - (if globalUserPower p = 0 then 1 else 0)
      in if totalGroups = 0 then Inl (Err ''no votes found'')
         else let pr = dec_of PowerReduction;
                  userPower = dquo D (dmul D (dec_of (addrUserPower p)) pr) (dec_of gu);
                  reporterPower = dquo D (dmul D (dec_of (addrReporterPower p)) pr) (dec_of gr);
                  totalAccPower = userPower + reporterPower;
                  rewardAcc = dquo D (dmul D totalAccPower (dec_of voterReward))
                                     (dmul D (dec_of totalGroups) pr)
              in Inr (TruncateInt rewardAcc))"

definition CalculateReward :: "'w dispute_env \<Rightarrow> addr \<Rightarrow> u64 \<Rightarrow> 'w dispute_state \<Rightarrow> int result" where
  "CalculateReward E a did st =
     bindR (getR (kv_get (Disputes st) did)) (\<lambda>d.
     bindR (getR (kv_get (Votes st) did)) (\<lambda>v.
     if \<not> Executed v then Inl (Err ''vote not executed'')
     else bindR (foldR (addRoundPowers E a (dBlockNumber d) st) (PrevDisputeIds d)
                   \<lparr>addrReporterPower = 0, addrUserPower = 0, globalReporterPower = 0, globalUserPower = 0\<rparr>) (\<lambda>p.
          rewardOf (deDec E) p (VoterReward d))))"

text \<open>A voter without an entry for this round gets the zero value of the Go type, with the
  claimed flag set.\<close>

definition zero_voter :: voter where
  "zero_voter = \<lparr>vVote = VOTE_INVALID, VoterPower = 0, ReporterPower = 0, RewardClaimed = False\<rparr>"

definition ClaimReward :: "'w dispute_env \<Rightarrow> addr \<Rightarrow> u64 \<Rightarrow> 'w dispute_state \<Rightarrow> 'w dispute_state result" where
  "ClaimReward E a did st =
     bindR (getR (kv_get (Disputes st) did)) (\<lambda>d.
     if dStatus d \<noteq> Resolved then Inl (Err ''can't execute, dispute not resolved'')
     else let voterInfo = (case kv_get (Voter st) (did, a) of None \<Rightarrow> zero_voter | Some v \<Rightarrow> v)
     in if RewardClaimed voterInfo then Inl (Err ''reward already claimed'')
     else bindR (CalculateReward E a did st) (\<lambda>reward.
     if reward = 0 then Inl (Err ''reward is zero'')
     else let st1 = st\<lparr>Voter := kv_set (did, a) (voterInfo\<lparr>RewardClaimed := True\<rparr>) (Voter st)\<rparr>
     in bindR (bkSendCoins (deBank E) disputeModule (User a) BondDenom reward (disWorld st1)) (\<lambda>w.
        Inr (st1\<lparr>disWorld := w\<rparr>))))"

definition msgClaimReward :: "'w dispute_env \<Rightarrow> string \<Rightarrow> u64 \<Rightarrow> 'w dispute_state \<Rightarrow> 'w dispute_state result" where
  "msgClaimReward E callerStr did st =
     bindR (deAccAddressFromBech32 E callerStr) (\<lambda>a. ClaimReward E a did st)"

section \<open>The team\<close>

text \<open>The index iterator is advanced over the open disputes while votes are moved; only
  \<^verbatim>\<open>Voter\<close> changes, so the keys are those at the start.\<close>

definition moveTeamVote :: "addr \<Rightarrow> addr \<Rightarrow> u64 \<Rightarrow> 'w dispute_state \<Rightarrow> 'w dispute_state result" where
  "moveTeamVote old new key st =
     bindR (getR (kv_get (Disputes st) key)) (\<lambda>d.
     if Open d then (case kv_get (Voter st) (DisputeId d, old) of
         None \<Rightarrow> Inr st
       | Some v \<Rightarrow> Inr (st\<lparr>Voter := kv_set (DisputeId d, new) v (kv_del (DisputeId d, old) (Voter st))\<rparr>))
     else Inr st)"

definition UpdateTeam :: "'w dispute_env \<Rightarrow> string \<Rightarrow> string \<Rightarrow> 'w dispute_state \<Rightarrow> 'w dispute_state result" where
  "UpdateTeam E currentStr newStr st =
     bindR (getR (TeamAddress st)) (\<lambda>team.
     bindR (deAccAddressFromBech32 E currentStr) (\<lambda>current.
     if team \<noteq> current then Inl (Err ''ErrInvalidSigner'')
     else bindR (deAccAddressFromBech32 E newStr) (\<lambda>new.
       let st1 = st\<lparr>TeamAddress := Some new\<rparr>
       in foldR (moveTeamVote current new) (GetOpenDisputes st1) st1)))"

section \<open>Block steps\<close>

text \<open>One open dispute of the expiry pass.\<close>

definition expireOne :: "'w dispute_env \<Rightarrow> ctx \<Rightarrow> u64 \<Rightarrow> 'w dispute_state \<Rightarrow> 'w dispute_state result" where
  "expireOne E c key st =
     bindR (getR (kv_get (Disputes st) key)) (\<lambda>d.
     if DisputeEndTime d < BlockTime c \<and> dStatus d = Prevote then
       Inr (st\<lparr>Disputes := kv_set key (d\<lparr>Open := False, dStatus := Failed\<rparr>) (Disputes st)\<rparr>)
     else if dStatus d = Voting then
       bindR (getR (kv_get (Votes st) key)) (\<lambda>v.
       if VoteEnd v < BlockTime c \<and> voteResult v = NO_TALLY then TallyVote E c key st else Inr st)
     else Inr st)"

definition CheckOpenDisputesForExpiration :: "'w dispute_env \<Rightarrow> ctx \<Rightarrow> 'w dispute_state \<Rightarrow>
    'w dispute_state result" where
  "CheckOpenDisputesForExpiration E c st = foldR (expireOne E c) (take 1000 (kv_index Open (Disputes st))) st"

definition executeOne :: "'w dispute_env \<Rightarrow> ctx \<Rightarrow> u64 \<Rightarrow> 'w dispute_state \<Rightarrow> 'w dispute_state result" where
  "executeOne E c key st =
     bindR (getR (kv_get (Disputes st) key)) (\<lambda>d.
     if DisputeEndTime d < BlockTime c \<or> dStatus d = Resolved then ExecuteVote E c key st else Inr st)"

definition CheckClosedDisputesForExecution :: "'w dispute_env \<Rightarrow> ctx \<Rightarrow> 'w dispute_state \<Rightarrow>
    'w dispute_state result" where
  "CheckClosedDisputesForExecution E c st = foldR (executeOne E c) (kv_index PendingExecution (Disputes st)) st"

definition disputeBeginBlocker :: "'w dispute_env \<Rightarrow> ctx \<Rightarrow> 'w dispute_state \<Rightarrow> 'w dispute_state result" where
  "disputeBeginBlocker E c st =
     bindR (CheckOpenDisputesForExpiration E c st) (CheckClosedDisputesForExecution E c)"

definition snapshotOne :: "'w dispute_env \<Rightarrow> ctx \<Rightarrow> u64 \<Rightarrow> 'w dispute_state \<Rightarrow> 'w dispute_state result" where
  "snapshotOne E c key st =
     bindR (getR (kv_get (Disputes st) key)) (\<lambda>d.
     if dBlockNumber d = word_of_int (BlockHeight c) then SetBlockInfo E (HashId d) st else Inr st)"

definition disputeEndBlocker :: "'w dispute_env \<Rightarrow> ctx \<Rightarrow> 'w dispute_state \<Rightarrow> 'w dispute_state result" where
  "disputeEndBlocker E c st = foldR (snapshotOne E c) (kv_index Open (Disputes st)) st"

end
