(* ===== verification/DisputeSettlement.thy ===== *)
theory DisputeSettlement
  imports DisputeExecute DisputeExample
begin

text \<open>
  Correctness of the money side of disputes: the fee of a category is the amount slashed
  for it, what executing a vote burns, returns and reserves, the refunds of first-round
  payers and their sum, rewards of voters, and that votes are executed, refunds withdrawn
  and rewards claimed once. \<open>reporter_moves_nothing\<close> states what the module relies on of
  the reporter keeper while it pays out: its calls leave the dispute account alone.
\<close>

section \<open>Fees\<close>

lemma fivePercentOf_eq:
  assumes "dec_laws D" and "0 \<le> n"
  shows "fivePercentOf D n = n div 20"
  using assms trunc_dquo_of [OF assms, of 20] dmul_of_of [OF assms(1), of n 1]
  by (simp add: fivePercentOf_def dec_one_def)

lemma feeMinusFivePercent_eq:
  assumes "dec_laws D" and "0 \<le> n"
  shows "feeMinusFivePercent D n = n - n div 20"
  using trunc_dquo_of [OF assms, of 20] by (simp add: feeMinusFivePercent_def dec_one_def)

lemma halfBurn_eq:
  assumes "dec_laws D" and "0 \<le> n"
  shows "halfBurn D n = n div 2"
  using trunc_dquo_of [OF assms, of 2] by (simp add: halfBurn_def dec_one_def)

lemma slashAmountOf_eq:
  assumes "dec_laws D" and "uint p < 2 ^ 63" and "0 \<le> pct"
  shows "slashAmountOf D p pct = uint p * pct"
proof -
  have i: "i64 (uint p) = uint p" using assms(2) by (rule i64_uint)
  have "slashAmountOf D p pct = (uint p * 1000000 * pct) div 1000000"
    using trunc_dquo_of [OF assms(1), of "uint p * 1000000 * pct" 1000000] assms(3)
    by (simp add: slashAmountOf_def Let_def i PowerReduction_def dmul_of_of [OF assms(1)] dec_one_def)
  then show ?thesis by (simp add: mult.commute mult.left_commute)
qed

text \<open>
  The fee of a dispute is the amount that will be slashed: for every category the fee
  computed from the report's power is one percent, five percent or all of its stake, and
  escrowing takes the same amount. (Powers from \<open>2\<^sup>6\<^sup>3\<close> on, read as negative, are excluded.)
\<close>

theorem dispute_fee_is_slash_amount:
  assumes D: "dec_laws D" and p: "uint (mrPower rep) < 2 ^ 63"
    and s: "GetSlashPercentageAndJailDuration cat = Inr (pct, jail)"
  shows "GetDisputeFee D rep cat = Inr (slashAmountOf D (mrPower rep) pct)
    \<and> slashAmountOf D (mrPower rep) pct =
        uint (mrPower rep) * (case cat of Warning \<Rightarrow> 10000 | Minor \<Rightarrow> 50000 | _ \<Rightarrow> 1000000)"
proof -
  have i: "i64 (uint (mrPower rep)) = uint (mrPower rep)" using p by (rule i64_uint)
  have pct: "pct = (case cat of Warning \<Rightarrow> 10000 | Minor \<Rightarrow> 50000 | _ \<Rightarrow> 1000000)"
    using s by (cases cat) (simp_all add: PowerReduction_def quoT_def)
  have nn: "0 \<le> pct" by (simp add: pct split: DisputeCategory.splits)
  have tr: "TruncateInt (dquo D (dec_of (1000000 * uint (mrPower rep) * k)) (dec_of 100)) = uint (mrPower rep) * (10000 * k)"
    if "0 \<le> k" for k
    using that by (subst trunc_dquo_of [OF D]) (simp_all add: dec_one_def)
  have "GetDisputeFee D rep cat = Inr (uint (mrPower rep) * pct)"
    using s tr [of 1] tr [of 5]
    by (cases cat) (simp_all add: GetDisputeFee_def Let_def i PowerReduction_def dmul_of_of [OF D] pct)
  then show ?thesis using slashAmountOf_eq [OF D p nn] pct by simp
qed

theorem dispute_fee_is_slash_amount_witness:
  "GetDisputeFee ref_dec ex_report Minor = Inr (slashAmountOf ref_dec 100 50000)
    \<and> slashAmountOf ref_dec 100 50000 = 5000000"
  using dispute_fee_is_slash_amount [OF ref_dec_laws, of ex_report Minor 50000 600]
  by (simp add: ex_report_def PowerReduction_def quoT_def)

section \<open>Executing a vote\<close>

definition reporter_moves_nothing :: "'w dispute_env \<Rightarrow> bool" where
  "reporter_moves_nothing E \<longleftrightarrow>
     (\<forall>c n h w pool w'. rkReturnSlashedTokens (deReporter E) c n h w = Inr (pool, w') \<longrightarrow>
        pool \<noteq> ''dispute'' \<and> bkGetBalance (deBank E) w' disputeModule BondDenom = bkGetBalance (deBank E) w disputeModule BondDenom) \<and>
     (\<forall>c a w w'. rkUpdateJailedUntilOnFailedDispute (deReporter E) c a w = Inr w' \<longrightarrow>
        bkGetBalance (deBank E) w' disputeModule BondDenom = bkGetBalance (deBank E) w disputeModule BondDenom) \<and>
     (\<forall>c h n w w'. rkFeeRefund (deReporter E) c h n w = Inr w' \<longrightarrow>
        bkGetBalance (deBank E) w' disputeModule BondDenom = bkGetBalance (deBank E) w disputeModule BondDenom) \<and>
     (\<forall>c a n w w'. rkAddAmountToStake (deReporter E) c a n w = Inr w' \<longrightarrow>
        bkGetBalance (deBank E) w' disputeModule BondDenom = bkGetBalance (deBank E) w disputeModule BondDenom)"

abbreviation held :: "'w dispute_env \<Rightarrow> 'w dispute_state \<Rightarrow> int" where
  "held E st \<equiv> bkGetBalance (deBank E) (disWorld st) disputeModule BondDenom"

text \<open>The stores of the module, without the rest of the chain.\<close>

definition same_stores :: "'w dispute_state \<Rightarrow> 'w dispute_state \<Rightarrow> bool" where
  "same_stores st st' \<longleftrightarrow> TeamAddress st' = TeamAddress st \<and> Disputes st' = Disputes st
     \<and> Votes st' = Votes st \<and> Voter st' = Voter st
     \<and> ReportersWithDelegatorsVotedBefore st' = ReportersWithDelegatorsVotedBefore st
     \<and> BlockInfo st' = BlockInfo st \<and> DisputeFeePayer st' = DisputeFeePayer st \<and> Dust st' = Dust st
     \<and> VoteCountsByGroup st' = VoteCountsByGroup st"

named_theorems settlement "effects of the settlement operations on the dispute account"

lemma burnFromDispute_effect [settlement]:
  assumes "bank_laws (deBank E)" "burnFromDispute E n st = Inr st'"
  shows "held E st' = held E st - n \<and> 0 \<le> n \<and> same_stores st st'"
proof (cases "n = 0")
  case True
  then show ?thesis using assms(2) by (simp add: burnFromDispute_def same_stores_def)
next
  case False
  then obtain w where w: "bkBurnCoins (deBank E) ''dispute'' BondDenom n (disWorld st) = Inr w"
    and st': "st' = st\<lparr>disWorld := w\<rparr>"
    using assms(2) by (auto simp: burnFromDispute_def)
  show ?thesis
    using bank_burn [OF assms(1) w] bank_burn_amount [OF assms(1) w] by (simp add: st' same_stores_def)
qed

lemma ReturnSlashedTokens_effect [settlement]:
  assumes "bank_laws (deBank E)" "reporter_moves_nothing E" "ReturnSlashedTokens E c d st = Inr st'"
  shows "held E st' = held E st - SlashAmount d \<and> 0 \<le> SlashAmount d \<and> same_stores st st'"
proof -
  from assms(3) obtain pool w1 w2 where
    1: "rkReturnSlashedTokens (deReporter E) c (SlashAmount d) (HashId d) (disWorld st) = Inr (pool, w1)"
    and 2: "bkSendCoins (deBank E) disputeModule (Module pool) BondDenom (SlashAmount d) w1 = Inr w2"
    and st': "st' = st\<lparr>disWorld := w2\<rparr>"
    by (auto simp: ReturnSlashedTokens_def)
  have "pool \<noteq> ''dispute''"
    "bkGetBalance (deBank E) w1 disputeModule BondDenom = held E st"
    using assms(2) 1 by (auto simp: reporter_moves_nothing_def)
  then show ?thesis
    using bank_send [OF assms(1) 2, of disputeModule BondDenom] bank_send_amount [OF assms(1) 2]
    by (simp add: st' moved_def same_stores_def)
qed

lemma unjailDisputed_effect [settlement]:
  assumes "reporter_moves_nothing E" "unjailDisputed E c d st = Inr st'"
  shows "held E st' = held E st \<and> same_stores st st'"
  using assms by (auto simp: unjailDisputed_def reporter_moves_nothing_def same_stores_def)

lemma same_stores_trans: "same_stores a b \<Longrightarrow> same_stores b c \<Longrightarrow> same_stores a c"
  by (auto simp: same_stores_def)

lemma same_stores_setExecuted: "same_stores a b \<Longrightarrow> same_stores (setExecuted did v a) (setExecuted did v b)"
  by (auto simp: same_stores_def setExecuted_def)

lemma held_setExecuted [simp]: "held E (setExecuted did v st) = held E st"
  by (simp add: setExecuted_def)

text \<open>What is paid back out of the dispute account when a vote is executed.\<close>

definition returned :: "dec_ops \<Rightarrow> dispute \<Rightarrow> VoteResult \<Rightarrow> int" where
  "returned D d r =
     (if r = INVALID \<or> r = NO_QUORUM_MAJORITY_INVALID then SlashAmount d
      else if r = AGAINST \<or> r = NO_QUORUM_MAJORITY_AGAINST then SlashAmount d + feeMinusFivePercent D (DisputeFee d)
      else 0)"

lemma settle_effect:
  assumes B: "bank_laws (deBank E)" and R: "reporter_moves_nothing E"
    and run: "settle E c did d v burn st = Inr st'"
  shows "voteResult v \<noteq> NO_TALLY \<and> 0 \<le> burn
    \<and> held E st' = held E st - burn - returned (deDec E) d (voteResult v)
    \<and> same_stores (setExecuted did v st) st'"
proof -
  let ?r = "voteResult v"
  have burn: "held E s = held E st - burn \<and> 0 \<le> burn \<and> same_stores st s" if "burnFromDispute E burn st = Inr s" for s
    using burnFromDispute_effect [OF B that] .
  have give: "held E s3 = held E s1 - SlashAmount d' \<and> same_stores s1 s3"
    if "ReturnSlashedTokens E c d' s1 = Inr s2" "unjailDisputed E c d s2 = Inr s3" for d' s1 s2 s3
    using ReturnSlashedTokens_effect [OF B R that(1)] unjailDisputed_effect [OF R that(2)] same_stores_trans by auto
  consider "?r = INVALID \<or> ?r = NO_QUORUM_MAJORITY_INVALID" | "?r = SUPPORT \<or> ?r = NO_QUORUM_MAJORITY_SUPPORT"
    | "?r = AGAINST \<or> ?r = NO_QUORUM_MAJORITY_AGAINST" | "?r = NO_TALLY" by (cases ?r) simp_all
  then show ?thesis
  proof cases
    case 1
    then obtain s1 s2 s3 where "burnFromDispute E burn st = Inr s1" "ReturnSlashedTokens E c d s1 = Inr s2"
      "unjailDisputed E c d s2 = Inr s3" "st' = setExecuted did v s3"
      using run by (auto simp: settle_def)
    then show ?thesis using 1 burn [of s1] give [of d s1 s2 s3] same_stores_setExecuted [of st s3 did v] same_stores_trans [of st s1 s3]
      by (auto simp: returned_def)
  next
    case 2
    then obtain s1 where "burnFromDispute E burn st = Inr s1" "st' = setExecuted did v s1"
      using run by (auto simp: settle_def)
    then show ?thesis using 2 burn [of s1] same_stores_setExecuted [of st s1 did v] by (auto simp: returned_def)
  next
    case 3
    let ?d = "d\<lparr>SlashAmount := SlashAmount d + feeMinusFivePercent (deDec E) (DisputeFee d)\<rparr>"
    from 3 obtain s1 s2 s3 where "burnFromDispute E burn st = Inr s1" "ReturnSlashedTokens E c ?d s1 = Inr s2"
      "unjailDisputed E c d s2 = Inr s3" "st' = setExecuted did v s3"
      using run by (auto simp: settle_def)
    then show ?thesis using 3 burn [of s1] give [of ?d s1 s2 s3] same_stores_setExecuted [of st s3 did v] same_stores_trans [of st s1 s3]
      by (auto simp: returned_def)
  next
    case 4
    then show ?thesis using run by (simp add: settle_def)
  qed
qed

text \<open>The dispute as execution sees it: past its end time a tallied one counts as
  resolved.\<close>

definition execution_view :: "ctx \<Rightarrow> vote \<Rightarrow> dispute \<Rightarrow> dispute" where
  "execution_view c v d = (if voteResult v \<noteq> NO_TALLY \<and> DisputeEndTime d < BlockTime c
     then d\<lparr>dStatus := Resolved, Open := False\<rparr> else d)"

lemma ExecuteVote_cases:
  assumes "ExecuteVote E c did st = Inr st'"
  obtains d v power burn reward st0 st1 where "kv_get (Disputes st) did = Some d" "kv_get (Votes st) did = Some v"
    "\<not> Executed v" "dStatus (execution_view c v d) = Resolved"
    "GetSumOfAllGroupVotesAllRounds did st0 = Inr power"
    "burn = (if power = 0 then BurnAmount d else halfBurn (deDec E) (BurnAmount d))"
    "reward = (if power = 0 then 0 else halfBurn (deDec E) (BurnAmount d))"
    "settle E c did (execution_view c v d) v burn st0 = Inr st1"
    "st0 = st \<or> st0 = st\<lparr>Disputes := kv_set did (execution_view c v d) (Disputes st)\<rparr>"
    "st' = st1\<lparr>Disputes := kv_set did ((execution_view c v d)\<lparr>VoterReward := reward, PendingExecution := False\<rparr>) (Disputes st1)\<rparr>"
proof -
  from assms obtain d v where d: "kv_get (Disputes st) did = Some d" "kv_get (Votes st) did = Some v"
    by (auto simp: ExecuteVote_def)
  define st0 where "st0 = (if voteResult v \<noteq> NO_TALLY \<and> DisputeEndTime d < BlockTime c
     then st\<lparr>Disputes := kv_set did (execution_view c v d) (Disputes st)\<rparr> else st)"
  have burn: "BurnAmount (execution_view c v d) = BurnAmount d" by (simp add: execution_view_def)
  have run: "(if dStatus (execution_view c v d) \<noteq> Resolved then Inl (Err ''can't execute, dispute not resolved'')
     else if Executed v then Inl (Err ''vote already executed'')
     else bindR (GetSumOfAllGroupVotesAllRounds did st0) (\<lambda>totalVoterPower.
       bindR (settle E c did (execution_view c v d) v
          (if totalVoterPower = 0 then BurnAmount d else halfBurn (deDec E) (BurnAmount d)) st0) (\<lambda>st1.
        Inr (st1\<lparr>Disputes := kv_set did ((execution_view c v d)\<lparr>
            VoterReward := (if totalVoterPower = 0 then 0 else halfBurn (deDec E) (BurnAmount d)),
            PendingExecution := False\<rparr>) (Disputes st1)\<rparr>)))) = Inr st'"
    using assms unfolding ExecuteVote_def d Let_def getR_simps bindR_simps
      execution_view_def [symmetric] st0_def [symmetric] burn by simp
  show thesis
  proof (cases "dStatus (execution_view c v d) = Resolved \<and> \<not> Executed v")
    case True
    then obtain power st1 where "GetSumOfAllGroupVotesAllRounds did st0 = Inr power"
      "settle E c did (execution_view c v d) v
          (if power = 0 then BurnAmount d else halfBurn (deDec E) (BurnAmount d)) st0 = Inr st1"
      "st' = st1\<lparr>Disputes := kv_set did ((execution_view c v d)\<lparr>
            VoterReward := (if power = 0 then 0 else halfBurn (deDec E) (BurnAmount d)),
            PendingExecution := False\<rparr>) (Disputes st1)\<rparr>"
      using run by auto
    moreover have "st0 = st \<or> st0 = st\<lparr>Disputes := kv_set did (execution_view c v d) (Disputes st)\<rparr>"
      by (simp add: st0_def)
    ultimately show thesis using that [OF d] True by blast
  next
    case False
    then show thesis using run by (simp split: if_splits)
  qed
qed


lemma ex_moves_nothing: "reporter_moves_nothing ex_env"
  by (simp add: reporter_moves_nothing_def ex_defs)

definition ex_tallied :: "VoteResult \<Rightarrow> ledger dispute_state" where
  "ex_tallied r = ex_state\<lparr>
     Disputes := [(1, ex_dispute\<lparr>dStatus := Resolved, Open := False, PendingExecution := True\<rparr>)],
     Votes := [(1, \<lparr>voteId = 1, VoteStart = 0, VoteEnd = TWO_DAYS, voteResult = r, Executed = False\<rparr>)]\<rparr>"


section \<open>Refunds\<close>

text \<open>The refund in units of \<open>10\<^sup>-\<^sup>6\<close> loya.\<close>

definition refundFixed12 :: "int \<Rightarrow> int \<Rightarrow> int \<Rightarrow> int" where
  "refundFixed12 payerFee rd1 feeTotal = payerFee * (feeTotal - feeTotal div 20) * PowerReduction div rd1"

lemma CalculateRefundAmount_eq:
  assumes D: "dec_laws D" and p: "0 \<le> p" and F: "0 \<le> F" and S: "0 < S" "S \<le> dec_one"
  shows "CalculateRefundAmount D p S F =
    Inr (refundFixed12 p S F div PowerReduction, refundFixed12 p S F mod PowerReduction)"
proof -
  have five: "TruncateInt (dquo D (dec_of F) (dec_of 20)) = F div 20"
    using trunc_dquo_of [OF D F, of 20] by (simp add: dec_one_def)
  have nn: "0 \<le> p * (F - F div 20) * PowerReduction"
    using p F by (simp add: PowerReduction_def)
  have "TruncateInt (dquo D (dec_of (p * (F - F div 20) * PowerReduction)) (dec_of S)) = refundFixed12 p S F"
    using trunc_dquo_of [OF D nn S] by (simp add: refundFixed12_def)
  moreover have "0 \<le> refundFixed12 p S F" using nn S by (simp add: refundFixed12_def pos_imp_zdiv_nonneg_iff)
  ultimately show ?thesis
    using S by (simp add: CalculateRefundAmount_def Let_def five dmul_of_of [OF D] decQuo_def
        quoT_nonneg PowerReduction_def)
qed

text \<open>
  C5: refunds never exceed the fees less five percent. When the amounts first-round payers
  put in sum to at most the first round's fee, what they are refunded and the fractions
  they leave as dust sum, to the last \<open>10\<^sup>-\<^sup>6\<close> loya, to at most the fees of all rounds less
  five percent.
\<close>

theorem refunds_within_fees:
  assumes D: "dec_laws D" and S: "0 < S" "S \<le> dec_one" and F: "0 \<le> F"
    and payers: "list_all (\<lambda>p. 0 \<le> p) payers" "sum_list payers \<le> S"
    and run: "list_all2 (\<lambda>p r. CalculateRefundAmount D p S F = Inr r) payers refunds"
  shows "sum_list (map (\<lambda>(amount, dust). amount * PowerReduction + dust) refunds)
    \<le> (F - F div 20) * PowerReduction"
proof -
  let ?pot = "(F - F div 20) * PowerReduction"
  have "map (\<lambda>(amount, dust). amount * PowerReduction + dust) refunds = map (\<lambda>p. p * ?pot div S) payers"
    using run payers(1)
  proof (induction payers refunds)
    case Nil
    then show ?case by simp
  next
    case (Cons p ps r rs)
    have "CalculateRefundAmount D p S F = Inr r" "0 \<le> p" using Cons.hyps Cons.prems by simp_all
    then have "r = (refundFixed12 p S F div PowerReduction, refundFixed12 p S F mod PowerReduction)"
      using CalculateRefundAmount_eq [OF D _ F S, of p] by simp
    then have "fst r * PowerReduction + snd r = p * ?pot div S"
      by (simp add: refundFixed12_def mult.assoc)
    then show ?case using Cons.IH Cons.prems by (simp add: case_prod_beta)
  qed
  then show ?thesis
    using share_sum_le_pot [OF S(1) _ , of ?pot "\<lambda>p. p" payers] F payers(2)
    by (simp add: PowerReduction_def)
qed

theorem refunds_within_fees_witness:
  "\<exists>a b. CalculateRefundAmount ref_dec 300 1000 1000 = Inr a \<and> CalculateRefundAmount ref_dec 700 1000 1000 = Inr b
    \<and> fst a * PowerReduction + snd a + (fst b * PowerReduction + snd b) \<le> 950 * PowerReduction"
proof -
  obtain a where a: "CalculateRefundAmount ref_dec 300 1000 1000 = Inr a"
    using CalculateRefundAmount_eq [OF ref_dec_laws, of 300 1000 1000] by (simp add: dec_one_def)
  obtain b where b: "CalculateRefundAmount ref_dec 700 1000 1000 = Inr b"
    using CalculateRefundAmount_eq [OF ref_dec_laws, of 700 1000 1000] by (simp add: dec_one_def)
  show ?thesis
    using refunds_within_fees [OF ref_dec_laws, of 1000 1000 "[300, 700]" "[a, b]"] a b
    by (simp add: dec_one_def case_prod_beta)
qed

text \<open>The dispute a further round stores.\<close>

lemma AddDisputeRound_stored:
  assumes "AddDisputeRound E c sender d msg st = Inr st'"
  shows "\<exists>j d'. kv_get (Disputes st') j = Some d' \<and> DisputeId d' = j \<and> DisputeRound d' = DisputeRound d + 1
    \<and> FeeTotal d' = FeeTotal d + roundFee (deDec E) d
    \<and> BurnAmount d' = BurnAmount d + fivePercentOf (deDec E) (SlashAmount d) \<and> SlashAmount d' = SlashAmount d
    \<and> dStatus d' = Voting"
proof -
  from assms obtain st2 where st': "st' = SetStartVote c (NextDisputeId st2) (st2\<lparr>Disputes := kv_set (NextDisputeId st2)
      (next_round (deDec E) c (NextDisputeId st2) (roundFee (deDec E) d) d) (Disputes st2)\<rparr>)"
    by (auto simp: AddDisputeRound_def Let_def split: if_splits)
  then show ?thesis by (intro exI [of _ "NextDisputeId st2"]) (simp add: SetStartVote_def next_round_def)
qed

lemma refund_of_all:
  assumes "0 < S" and "0 \<le> F"
  shows "refundFixed12 S S F div PowerReduction = F - F div 20"
proof -
  have "refundFixed12 S S F = (F - F div 20) * PowerReduction"
    using assms(1) by (simp add: refundFixed12_def mult.assoc)
  then show ?thesis by (simp add: PowerReduction_def)
qed

lemma second_round_arith:
  assumes "40 \<le> (S :: int)" and "F = S + min S (S div 20 * 2)"
  shows "F < F - F div 20 + (S div 20 + S div 20)"
proof -
  have "F = S + 2 * (S div 20)" using assms by simp
  moreover have "S < 20 * (S div 20) + 20" "2 \<le> S div 20" using assms(1) by simp_all
  ultimately show ?thesis by simp
qed

text \<open>
  C37: from the second round on an invalid vote promises more than was paid in. A round
  adds five percent of the slash amount to the burn amount although its fee is ten percent
  of it; refunding the first payers all fees less five percent and burning and rewarding the
  burn amount then needs more than all fees together, the difference coming from tokens
  the account holds for other disputes.
\<close>

theorem second_round_overpromises:
  assumes D: "dec_laws (deDec E)" and d: "DisputeRound d = 1" "FeeTotal d = SlashAmount d"
    "BurnAmount d = fivePercentOf (deDec E) (SlashAmount d)" "40 \<le> SlashAmount d" "SlashAmount d \<le> dec_one"
    and run: "AddDisputeRound E c sender d msg st = Inr st'"
  shows "\<exists>j d' amount dust. kv_get (Disputes st') j = Some d' \<and> DisputeRound d' = 2 \<and> SlashAmount d' = SlashAmount d
    \<and> CalculateRefundAmount (deDec E) (SlashAmount d) (SlashAmount d') (FeeTotal d') = Inr (amount, dust)
    \<and> FeeTotal d' < amount + BurnAmount d'"
proof -
  from AddDisputeRound_stored [OF run] obtain j d' where d': "kv_get (Disputes st') j = Some d'"
    "DisputeRound d' = DisputeRound d + 1" "FeeTotal d' = FeeTotal d + roundFee (deDec E) d"
    "BurnAmount d' = BurnAmount d + fivePercentOf (deDec E) (SlashAmount d)" "SlashAmount d' = SlashAmount d"
    by blast
  let ?S = "SlashAmount d"
  have five: "fivePercentOf (deDec E) ?S = ?S div 20" using fivePercentOf_eq [OF D] d(4) by simp
  have "i64 (uint (1 :: u64)) = 1" by (simp add: i64_def)
  then have F: "FeeTotal d' = ?S + min ?S (?S div 20 * 2)"
    using d by (simp add: d'(3) roundFee_def five)
  then have "0 \<le> FeeTotal d'" using d(4) by simp
  then have "CalculateRefundAmount (deDec E) ?S ?S (FeeTotal d') =
      Inr (FeeTotal d' - FeeTotal d' div 20, refundFixed12 ?S ?S (FeeTotal d') mod PowerReduction)"
    using CalculateRefundAmount_eq [OF D, of ?S "FeeTotal d'" ?S] d(4,5) refund_of_all [of ?S "FeeTotal d'"] by simp
  moreover have "FeeTotal d' < FeeTotal d' - FeeTotal d' div 20 + BurnAmount d'"
    using second_round_arith [OF d(4) F] by (simp add: d'(4) d(3) five)
  ultimately show ?thesis using d' d(1) by (metis one_add_one)
qed

theorem second_round_overpromises_witness:
  "\<exists>st' j d' amount dust. AddDisputeRound ex_env (ex_ctx 200000 9) ''p''
      (ex_dispute\<lparr>dStatus := Unresolved\<rparr>)
      \<lparr>pmCreator = ''p'', pmDisputedReporter = ''r'', pmReportMetaId = 1, pmReportQueryId = ''71'',
       pmCategory = Warning, pmFeeDenom = BondDenom, pmFee = 100000, pmPayFromBond = False\<rparr>
      (ex_state\<lparr>Disputes := [(1, ex_dispute\<lparr>dStatus := Unresolved\<rparr>)],
         disWorld := (\<lambda>h d. if d = BondDenom then 2000000 else 0)\<rparr>) = Inr st'
    \<and> kv_get (Disputes st') j = Some d' \<and> DisputeRound d' = 2
    \<and> CalculateRefundAmount ref_dec 1000000 1000000 (FeeTotal d') = Inr (amount, dust)
    \<and> FeeTotal d' < amount + BurnAmount d'"
proof -
  let ?d = "ex_dispute\<lparr>dStatus := Unresolved\<rparr>"
  let ?msg = "\<lparr>pmCreator = ''p'', pmDisputedReporter = ''r'', pmReportMetaId = 1, pmReportQueryId = ''71'',
       pmCategory = Warning, pmFeeDenom = BondDenom, pmFee = 100000, pmPayFromBond = False\<rparr>"
  let ?st = "ex_state\<lparr>Disputes := [(1, ?d)], disWorld := (\<lambda>h d. if d = BondDenom then 2000000 else 0)\<rparr>"
  have five: "fivePercentOf (deDec ex_env) 1000000 = 50000"
    using fivePercentOf_eq [OF ref_dec_laws, of 1000000] by (simp add: ex_env_def)
  have fee: "roundFee (deDec ex_env) ?d = 100000"
    using five by (simp add: roundFee_def ex_dispute_def i64_def)
  have "\<exists>st'. AddDisputeRound ex_env (ex_ctx 200000 9) ''p'' ?d ?msg ?st = Inr st'"
    unfolding AddDisputeRound_def fee
    by (simp add: ex_defs THREE_DAYS_def PayDisputeFee_def PayFromAccount_def ledger_bank_def Let_def
        CloseDispute_def kv_get_def)
  then obtain st' where run: "AddDisputeRound ex_env (ex_ctx 200000 9) ''p'' ?d ?msg ?st = Inr st'" ..
  have "\<exists>j d' amount dust. kv_get (Disputes st') j = Some d' \<and> DisputeRound d' = 2 \<and> SlashAmount d' = SlashAmount ?d
    \<and> CalculateRefundAmount (deDec ex_env) (SlashAmount ?d) (SlashAmount d') (FeeTotal d') = Inr (amount, dust)
    \<and> FeeTotal d' < amount + BurnAmount d'"
    using five by (intro second_round_overpromises [OF _ _ _ _ _ _ run])
      (simp_all add: ex_dispute_def dec_one_def ex_env_def ref_dec_laws)
  then obtain j d' amount dust where "kv_get (Disputes st') j = Some d'" "DisputeRound d' = 2"
    "CalculateRefundAmount ref_dec 1000000 1000000 (FeeTotal d') = Inr (amount, dust)"
    "FeeTotal d' < amount + BurnAmount d'" "SlashAmount d' = 1000000"
    by (auto simp: ex_dispute_def ex_env_def)
  then show ?thesis using run by blast
qed

section \<open>Withdrawing\<close>

definition bondFixed12 :: "int \<Rightarrow> int \<Rightarrow> int \<Rightarrow> int" where
  "bondFixed12 payerFee feeTotal bond = payerFee * bond * PowerReduction div feeTotal"

lemma CalculateReporterBondRewardAmount_eq:
  assumes D: "dec_laws D" and p: "0 \<le> p" and b: "0 \<le> bond" and F: "0 < F" "2 * F \<le> dec_one"
  shows "CalculateReporterBondRewardAmount D p F bond =
    Inr (bondFixed12 p F bond div PowerReduction, bondFixed12 p F bond mod PowerReduction)"
proof -
  let ?r = "dquo D (dec_of (p * bond * PowerReduction)) (dec_of F)"
  have nn: "0 \<le> p * bond" "0 \<le> p * bond * PowerReduction" using p b by (simp_all add: PowerReduction_def)
  have "TruncateInt ?r = bondFixed12 p F bond"
    using trunc_dquo_of [OF D nn(2) F(1)] F by (simp add: bondFixed12_def)
  moreover have "TruncateInt (dquo D ?r (dec_of PowerReduction)) = p * bond div F"
    using trunc_dquo_scaled [OF D nn(1) F, of PowerReduction] by (simp add: PowerReduction_def)
  moreover have "bondFixed12 p F bond div PowerReduction = p * bond div F"
    using F(1) by (simp add: bondFixed12_def PowerReduction_def zdiv_zmult2_eq [symmetric])
  ultimately show ?thesis
    using F by (simp add: CalculateReporterBondRewardAmount_def Let_def decQuo_def dmul_of_of [OF D])
qed

text \<open>What a first-round payer is owed at the outcome of the dispute, in \<open>10\<^sup>-\<^sup>6\<close> loya.\<close>

definition owed12 :: "dispute \<Rightarrow> vote option \<Rightarrow> int \<Rightarrow> int" where
  "owed12 d v paid =
     (if dStatus d = Failed then paid * PowerReduction
      else refundFixed12 paid (SlashAmount d) (FeeTotal d)
        + (case v of Some v' \<Rightarrow> if voteResult v' = SUPPORT \<or> voteResult v' = NO_QUORUM_MAJORITY_SUPPORT
             then bondFixed12 paid (FeeTotal d) (SlashAmount d) else 0 | None \<Rightarrow> 0))"

lemma payRefund_effect [settlement]:
  assumes B: "bank_laws (deBank E)" and R: "reporter_moves_nothing E" and run: "payRefund E c a fb h n st = Inr st'"
  shows "held E st' = held E st - n \<and> 0 \<le> n \<and> same_stores st st'"
proof (cases fb)
  case False
  then obtain w where w: "bkSendCoins (deBank E) disputeModule (User a) BondDenom n (disWorld st) = Inr w"
    "st' = st\<lparr>disWorld := w\<rparr>" using run by (auto simp: payRefund_def)
  show ?thesis using bank_send [OF B w(1), of disputeModule BondDenom] bank_send_amount [OF B w(1)] w(2)
    by (simp add: moved_def same_stores_def)
next
  case True
  then obtain w1 w where w1: "rkFeeRefund (deReporter E) c h n (disWorld st) = Inr w1"
    and w: "bkSendCoins (deBank E) disputeModule bondedPool BondDenom n w1 = Inr w" "st' = st\<lparr>disWorld := w\<rparr>"
    using run by (auto simp: payRefund_def ReturnFeetoStake_def)
  have "bkGetBalance (deBank E) w1 disputeModule BondDenom = held E st"
    using R w1 unfolding reporter_moves_nothing_def by blast
  then show ?thesis using bank_send [OF B w(1), of disputeModule BondDenom] bank_send_amount [OF B w(1)] w(2)
    by (simp add: moved_def same_stores_def)
qed

lemma RewardReporterBond_effect [settlement]:
  assumes B: "bank_laws (deBank E)" and R: "reporter_moves_nothing E"
    and run: "RewardReporterBondToFeePayers E c a p F bond st = Inr (r, st')"
  shows "\<exists>n. CalculateReporterBondRewardAmount (deDec E) (piAmount p) F bond = Inr (n, r)
    \<and> held E st' = held E st - n \<and> same_stores st st'"
proof -
  from run obtain n w1 w where n: "CalculateReporterBondRewardAmount (deDec E) (piAmount p) F bond = Inr (n, r)"
    and w1: "rkAddAmountToStake (deReporter E) c a n (disWorld st) = Inr w1"
    and w: "bkSendCoins (deBank E) disputeModule bondedPool BondDenom n w1 = Inr w" "st' = st\<lparr>disWorld := w\<rparr>"
    by (auto simp: RewardReporterBondToFeePayers_def)
  have "bkGetBalance (deBank E) w1 disputeModule BondDenom = held E st"
    using R w1 unfolding reporter_moves_nothing_def by blast
  then show ?thesis using n bank_send [OF B w(1), of disputeModule BondDenom] w(2)
    by (simp add: moved_def same_stores_def)
qed

lemma RefundDisputeFee_effect [settlement]:
  assumes B: "bank_laws (deBank E)" and R: "reporter_moves_nothing E"
    and run: "RefundDisputeFee E c a p F h S st = Inr (r, st')"
  shows "\<exists>n. CalculateRefundAmount (deDec E) (piAmount p) S F = Inr (n, r)
    \<and> held E st' = held E st - n \<and> same_stores st st'"
proof -
  from run obtain n where "CalculateRefundAmount (deDec E) (piAmount p) S F = Inr (n, r)"
    "payRefund E c a (piFromBond p) h n st = Inr st'"
    by (auto simp: RefundDisputeFee_def)
  then show ?thesis using payRefund_effect [OF B R] by blast
qed

lemma refundByOutcome_effect:
  assumes B: "bank_laws (deBank E)" and R: "reporter_moves_nothing E" and D: "dec_laws (deDec E)"
    and p: "0 \<le> piAmount p" and S: "0 < SlashAmount d" "SlashAmount d \<le> dec_one"
    and F: "0 < FeeTotal d" "2 * FeeTotal d \<le> dec_one"
    and run: "refundByOutcome E c a p did d dust st = Inr (r, st')"
  shows "(held E st - held E st') * PowerReduction + r = dust + owed12 d (kv_get (Votes st) did) (piAmount p)
    \<and> same_stores st st' \<and> dust \<le> r"
proof (cases "dStatus d = Failed")
  case True
  with run have "payRefund E c a (piFromBond p) (HashId d) (piAmount p) st = Inr st'" "r = dust"
    by (auto simp: refundByOutcome_def RefundFailedDisputeFee_def)
  then show ?thesis using payRefund_effect [OF B R] True by (simp add: owed12_def)
next
  case False
  note ref = CalculateRefundAmount_eq [OF D p less_imp_le [OF F(1)] S]
  note bond = CalculateReporterBondRewardAmount_eq [OF D p less_imp_le [OF S(1)] F]
  have mod: "0 \<le> x mod PowerReduction" "x div PowerReduction * PowerReduction + x mod PowerReduction = x" for x
    by (simp_all add: PowerReduction_def)
  from False run obtain v where v: "kv_get (Votes st) did = Some v" by (auto simp: refundByOutcome_def)
  let ?refund = "refundFixed12 (piAmount p) (SlashAmount d) (FeeTotal d)"
  let ?bond = "bondFixed12 (piAmount p) (FeeTotal d) (SlashAmount d)"
  consider "voteResult v = INVALID \<or> voteResult v = NO_QUORUM_MAJORITY_INVALID"
    | "voteResult v = SUPPORT \<or> voteResult v = NO_QUORUM_MAJORITY_SUPPORT"
    using False run v by (auto simp: refundByOutcome_def split: if_splits)
  then show ?thesis
  proof cases
    case 1
    with False run v obtain r1 where "RefundDisputeFee E c a p (FeeTotal d) (HashId d) (SlashAmount d) st = Inr (r1, st')"
      and r: "r = dust + r1" by (auto simp: refundByOutcome_def split: if_splits)
    then obtain n where "CalculateRefundAmount (deDec E) (piAmount p) (SlashAmount d) (FeeTotal d) = Inr (n, r1)"
      "held E st' = held E st - n" "same_stores st st'" using RefundDisputeFee_effect [OF B R] by blast
    then show ?thesis using 1 False ref mod [of ?refund] by (auto simp: r v owed12_def)
  next
    case 2
    with False run v obtain r1 st1 r2 where
      1: "RefundDisputeFee E c a p (FeeTotal d) (HashId d) (SlashAmount d) st = Inr (r1, st1)"
      and 2: "RewardReporterBondToFeePayers E c a p (FeeTotal d) (SlashAmount d) st1 = Inr (r2, st')"
      and r: "r = dust + r1 + r2" by (auto simp: refundByOutcome_def split: if_splits)
    from 1 obtain n where n: "CalculateRefundAmount (deDec E) (piAmount p) (SlashAmount d) (FeeTotal d) = Inr (n, r1)"
      "held E st1 = held E st - n" "same_stores st st1" using RefundDisputeFee_effect [OF B R] by blast
    from 2 obtain m where m: "CalculateReporterBondRewardAmount (deDec E) (piAmount p) (FeeTotal d) (SlashAmount d) = Inr (m, r2)"
      "held E st' = held E st1 - m" "same_stores st1 st'" using RewardReporterBond_effect [OF B R] by blast
    have "n * PowerReduction + r1 = ?refund" "m * PowerReduction + r2 = ?bond" "0 \<le> r1" "0 \<le> r2"
      using n(1) m(1) ref bond mod [of ?refund] mod [of ?bond] by auto
    moreover have "held E st - held E st' = n + m" using n(2) m(2) by simp
    ultimately show ?thesis
      using \<open>voteResult v = SUPPORT \<or> voteResult v = NO_QUORUM_MAJORITY_SUPPORT\<close> False
        same_stores_trans [OF n(3) m(3)]
      by (simp add: r v owed12_def distrib_right)
  qed
qed



section \<open>Voter rewards\<close>

text \<open>The powers a reward is computed from are consistent when a voter's share of a group is
  part of the group.\<close>

definition powers_ok :: "reward_powers \<Rightarrow> bool" where
  "powers_ok p \<longleftrightarrow> 0 \<le> addrReporterPower p \<and> addrReporterPower p \<le> globalReporterPower p
     \<and> 0 \<le> addrUserPower p \<and> addrUserPower p \<le> globalUserPower p"

lemma group_power_bounds:
  assumes D: "dec_laws D" and "0 \<le> x" "x \<le> g"
  defines "q \<equiv> dquo D (dmul D (dec_of x) (dec_of PowerReduction)) (dec_of (if g = 0 then 1 else g))"
  shows "0 \<le> q \<and> q \<le> (if g = 0 then 0 else PowerReduction * dec_one)"
proof (cases "g = 0")
  case True
  then have "x = 0" using assms by simp
  then have "q = 0" using True dquo_0 [OF D, of "dec_of 1"] dmul_of_of [OF D, of 0 PowerReduction] by (simp add: q_def)
  then show ?thesis using True by simp
next
  case False
  then have g: "0 < g" using assms by simp
  have q: "q = dquo D (dec_of (x * PowerReduction)) (dec_of g)" using False by (simp add: q_def dmul_of_of [OF D])
  have "q * g < x * PowerReduction * dec_one + g" using dquo_of_bounds [OF D g, of "x * PowerReduction"] q by simp
  also have "\<dots> \<le> (PowerReduction * dec_one + 1) * g"
  proof -
    have "x * (PowerReduction * dec_one) \<le> g * (PowerReduction * dec_one)"
      using \<open>x \<le> g\<close> by (intro mult_right_mono) (simp_all add: PowerReduction_def less_imp_le)
    then show ?thesis by (simp add: algebra_simps)
  qed
  finally have "q < PowerReduction * dec_one + 1" by (rule mult_right_less_imp_less) (simp add: g less_imp_le)
  moreover have "0 \<le> q" unfolding q using g \<open>0 \<le> x\<close> by (intro dquo_nonneg [OF D]) (simp_all add: PowerReduction_def)
  ultimately show ?thesis using False by simp
qed

text \<open>
  No voter is rewarded more than the reward of the dispute: with consistent powers the
  reward is between zero and the amount reserved for all voters, whatever the rounding.
\<close>

theorem reward_bounded:
  assumes D: "dec_laws D" and p: "powers_ok p" and R: "0 \<le> R" and run: "rewardOf D p R = Inr x"
  shows "0 \<le> x \<and> x \<le> R"
proof -
  let ?gr = "globalReporterPower p" and ?gu = "globalUserPower p"
  define n where "n = (2 :: int) - (if ?gr = 0 then 1 else 0) - (if ?gu = 0 then 1 else 0)"
  define u where "u = dquo D (dmul D (dec_of (addrUserPower p)) (dec_of PowerReduction)) (dec_of (if ?gu = 0 then 1 else ?gu))"
  define r where "r = dquo D (dmul D (dec_of (addrReporterPower p)) (dec_of PowerReduction)) (dec_of (if ?gr = 0 then 1 else ?gr))"
  define q where "q = dquo D ((u + r) * R) (dec_of (n * PowerReduction))"
  have "(if n = 0 then Inl (Err ''no votes found'')
      else Inr (TruncateInt (dquo D (dmul D (u + r) (dec_of R)) (dmul D (dec_of n) (dec_of PowerReduction))))) = Inr x"
    using run unfolding rewardOf_def Let_def n_def u_def r_def by simp
  then have "n \<noteq> 0" and x: "x = TruncateInt q"
    unfolding q_def dmul_of_of [OF D] unfolding dmul_of [OF D] by (simp_all split: if_splits)
  then have n: "0 < n" by (simp add: n_def split: if_splits)
  have bu: "0 \<le> u \<and> u \<le> (if ?gu = 0 then 0 else PowerReduction * dec_one)"
    unfolding u_def using p by (intro group_power_bounds [OF D]) (simp_all add: powers_ok_def)
  have br: "0 \<le> r \<and> r \<le> (if ?gr = 0 then 0 else PowerReduction * dec_one)"
    unfolding r_def using p by (intro group_power_bounds [OF D]) (simp_all add: powers_ok_def)
  have ur: "0 \<le> u + r" "u + r \<le> n * (PowerReduction * dec_one)"
    using bu br by (auto simp: n_def split: if_splits)
  have m: "0 < dec_of (n * PowerReduction)" using n by (simp add: PowerReduction_def)
  have q0: "0 \<le> q" unfolding q_def using ur R by (intro dquo_nonneg [OF D _ m]) simp
  have "q * dec_of (n * PowerReduction) < (u + r) * R * dec_one + dec_of (n * PowerReduction)"
    using dquo_bounds [OF D m, of "(u + r) * R"] by (simp add: q_def)
  also have "\<dots> \<le> (R * dec_one + 1) * dec_of (n * PowerReduction)"
    using mult_right_mono [OF ur(2) mult_nonneg_nonneg [OF R less_imp_le [OF dec_one_pos]]]
    by (simp add: dec_of_def algebra_simps)
  finally have "q < R * dec_one + 1" by (rule mult_right_less_imp_less) (rule less_imp_le [OF m])
  then have "q div dec_one \<le> R" using zdiv_mono1 [of q "R * dec_one" dec_one] by simp
  then show ?thesis using q0 by (simp add: x TruncateInt_nonneg pos_imp_zdiv_nonneg_iff)
qed

theorem reward_bounded_witness:
  "rewardOf ref_dec \<lparr>addrReporterPower = 40, addrUserPower = 0, globalReporterPower = 100, globalUserPower = 50\<rparr> 25000
     = Inr 5000 \<and> (5000 :: int) \<le> 25000"
proof -
  have "rewardOf ref_dec \<lparr>addrReporterPower = 40, addrUserPower = 0, globalReporterPower = 100, globalUserPower = 50\<rparr> 25000
     = Inr 5000" by code_simp
  from reward_bounded [OF ref_dec_laws _ _ this] this show ?thesis by (simp add: powers_ok_def)
qed

text \<open>
  C6: a voter claims its reward once: a successful claim pays the computed, positive reward
  out of the dispute account to the claimant, marks the voter's entry and changes no other
  entry, and the next claim is refused.
\<close>

theorem claim_once:
  assumes B: "bank_laws (deBank E)" and run: "ClaimReward E a did st = Inr st'"
  shows "\<exists>reward. CalculateReward E a did st = Inr reward \<and> 0 < reward
    \<and> held E st' = held E st - reward
    \<and> bkGetBalance (deBank E) (disWorld st') (User a) BondDenom = bkGetBalance (deBank E) (disWorld st) (User a) BondDenom + reward
    \<and> (\<forall>k. k \<noteq> (did, a) \<longrightarrow> kv_get (Voter st') k = kv_get (Voter st) k)
    \<and> ClaimReward E a did st' = Inl (Err ''reward already claimed'')"
proof -
  from run obtain d v reward w where d: "kv_get (Disputes st) did = Some d" "dStatus d = Resolved"
    and reward: "CalculateReward E a did st = Inr reward" "reward \<noteq> 0"
    and w: "bkSendCoins (deBank E) disputeModule (User a) BondDenom reward (disWorld st) = Inr w"
    and st': "st' = st\<lparr>Voter := kv_set (did, a) (v\<lparr>RewardClaimed := True\<rparr>) (Voter st), disWorld := w\<rparr>"
    by (auto simp: ClaimReward_def Let_def split: if_splits)
  show ?thesis
    using reward d bank_send [OF B w] bank_send_amount [OF B w] by (simp add: st' moved_def ClaimReward_def)
qed

definition ex_executed :: "ledger dispute_state" where
  "ex_executed = ex_state\<lparr>
     Disputes := [(1, ex_dispute\<lparr>dStatus := Resolved, Open := False, VoterReward := 25000\<rparr>)],
     Votes := [(1, \<lparr>voteId = 1, VoteStart = 0, VoteEnd = TWO_DAYS, voteResult = INVALID, Executed = True\<rparr>)],
     Voter := [((1, ''r''), \<lparr>vVote = VOTE_INVALID, VoterPower = 100, ReporterPower = 100, RewardClaimed = False\<rparr>)],
     VoteCountsByGroup := [(1, zero_group_counts\<lparr>svReporters := \<lparr>vcSupport = 0, vcAgainst = 0, vcInvalid = 100\<rparr>\<rparr>)]\<rparr>"

theorem claim_once_witness:
  "\<exists>st'. ClaimReward ex_env ''r'' 1 ex_executed = Inr st'
    \<and> held ex_env st' = held ex_env ex_executed - 25000
    \<and> ClaimReward ex_env ''r'' 1 st' = Inl (Err ''reward already claimed'')"
proof -
  have r: "CalculateReward ex_env ''r'' 1 ex_executed = Inr 25000" by code_simp
  have "kv_get (Disputes ex_executed) 1 = Some (ex_dispute\<lparr>dStatus := Resolved, Open := False, VoterReward := 25000\<rparr>)"
    "kv_get (Voter ex_executed) (1, ''r'') =
      Some \<lparr>vVote = VOTE_INVALID, VoterPower = 100, ReporterPower = 100, RewardClaimed = False\<rparr>"
    "\<exists>w. bkSendCoins (deBank ex_env) disputeModule (User ''r'') BondDenom 25000 (disWorld ex_executed) = Inr w"
    by (simp_all add: ex_executed_def ex_state_def kv_get_def ex_env_def ledger_bank_def)
  then have "\<exists>st'. ClaimReward ex_env ''r'' 1 ex_executed = Inr st'"
    using r by (auto simp: ClaimReward_def)
  then obtain st' where run: "ClaimReward ex_env ''r'' 1 ex_executed = Inr st'" ..
  have "bank_laws (deBank ex_env)" by (simp add: ex_env_def ledger_bank_laws)
  from claim_once [OF this run] r run show ?thesis by auto
qed

end
