(* ===== verification/DisputeInvariant.thy ===== *)
theory DisputeInvariant
  imports DisputeTally DisputeSettlement
begin

text \<open>
  The life of a dispute as a state machine: the messages and block steps of the module as
  a step relation over the block time and the keeper's state, an invariant that relates the
  status, the open and pending flags, the vote and the fee payers of every dispute, and the
  properties of reachable states it gives.
\<close>

section \<open>Steps\<close>

text \<open>
  The block time never runs backwards. The rest of the chain may change at any time. A
  dispute is proposed only while an identifier is left, which holds for the first
  \<open>2\<^sup>6\<^sup>4 - 1\<close> disputes.
\<close>

inductive dispute_step :: "'w dispute_env \<Rightarrow> time \<times> 'w dispute_state \<Rightarrow> time \<times> 'w dispute_state \<Rightarrow> bool"
  for E where
  propose: "t \<le> BlockTime c \<Longrightarrow> NextDisputeId st \<noteq> 0 \<Longrightarrow> ProposeDispute E c msg st = Inr st' \<Longrightarrow>
    dispute_step E (t, st) (BlockTime c, st')"
| add_fee: "t \<le> BlockTime c \<Longrightarrow> AddFeeToDispute E c fmsg st = Inr st' \<Longrightarrow>
    dispute_step E (t, st) (BlockTime c, st')"
| vote: "t \<le> BlockTime c \<Longrightarrow> msgVote E c voter did choice st = Inr st' \<Longrightarrow>
    dispute_step E (t, st) (BlockTime c, st')"
| evidence: "t \<le> BlockTime c \<Longrightarrow> AddEvidence E c did reports st = Inr st' \<Longrightarrow>
    dispute_step E (t, st) (BlockTime c, st')"
| withdraw: "t \<le> BlockTime c \<Longrightarrow> WithdrawFeeRefund E c payer did st = Inr st' \<Longrightarrow>
    dispute_step E (t, st) (BlockTime c, st')"
| claim: "msgClaimReward E caller did st = Inr st' \<Longrightarrow> dispute_step E (t, st) (t, st')"
| team: "UpdateTeam E current new st = Inr st' \<Longrightarrow> dispute_step E (t, st) (t, st')"
| begin_block: "t \<le> BlockTime c \<Longrightarrow> disputeBeginBlocker E c st = Inr st' \<Longrightarrow>
    dispute_step E (t, st) (BlockTime c, st')"
| end_block: "t \<le> BlockTime c \<Longrightarrow> disputeEndBlocker E c st = Inr st' \<Longrightarrow>
    dispute_step E (t, st) (BlockTime c, st')"
| other_modules: "dispute_step E (t, st) (t, st\<lparr>disWorld := w\<rparr>)"

inductive dispute_reachable :: "'w dispute_env \<Rightarrow> time \<Rightarrow> 'w dispute_state \<Rightarrow> bool"
  for E where
  genesis: "Disputes st = [] \<Longrightarrow> Votes st = [] \<Longrightarrow> DisputeFeePayer st = [] \<Longrightarrow> dispute_reachable E t st"
| step: "dispute_reachable E t st \<Longrightarrow> dispute_step E (t, st) (t', st') \<Longrightarrow> dispute_reachable E t' st'"

section \<open>The invariant\<close>

text \<open>What the payers recorded for a dispute have put in.\<close>

definition payer_total :: "u64 \<Rightarrow> 'w dispute_state \<Rightarrow> int" where
  "payer_total did st = kv_total (\<lambda>((i, a), p). if i = did then piAmount p else 0) (DisputeFeePayer st)"

text \<open>A dispute another round has replaced; it never changes again.\<close>

definition frozen :: "dispute \<Rightarrow> bool" where
  "frozen d \<longleftrightarrow> dStatus d = Unresolved \<and> \<not> Open d \<and> \<not> PendingExecution d"

definition lifecycle_ok :: "time \<Rightarrow> dispute \<Rightarrow> vote option \<Rightarrow> bool" where
  "lifecycle_ok t d v = (case dStatus d of
     Prevote \<Rightarrow> Open d \<and> \<not> PendingExecution d \<and> v = None \<and> FeeTotal d < SlashAmount d \<and> DisputeRound d = 1
   | Voting \<Rightarrow> Open d \<and> PendingExecution d = (DisputeRound d \<noteq> 1) \<and> (\<exists>v'. v = Some v' \<and> voteResult v' = NO_TALLY \<and> \<not> Executed v')
   | Unresolved \<Rightarrow> Open d = PendingExecution d \<and> (\<exists>v'. v = Some v' \<and> voteResult v' \<noteq> NO_TALLY \<and> \<not> Executed v')
   | Resolved \<Rightarrow> \<not> Open d \<and> (\<exists>v'. v = Some v' \<and> voteResult v' \<noteq> NO_TALLY \<and> Executed v' = (\<not> PendingExecution d))
   | Failed \<Rightarrow> \<not> Open d \<and> \<not> PendingExecution d \<and> v = None \<and> DisputeEndTime d < t \<and> DisputeRound d = 1)"

definition rounds_ok :: "u64 \<Rightarrow> dispute \<Rightarrow> bool" where
  "rounds_ok did d \<longleftrightarrow> DisputeId d = did \<and> PrevDisputeIds d \<noteq> [] \<and> last (PrevDisputeIds d) = did
     \<and> uint (DisputeRound d) = int (length (PrevDisputeIds d)) \<and> length (PrevDisputeIds d) \<le> 5"

definition fees_ok :: "dispute \<Rightarrow> int \<Rightarrow> bool" where
  "fees_ok d paid \<longleftrightarrow> 0 \<le> SlashAmount d \<and> (dStatus d \<notin> {Prevote, Failed} \<longrightarrow> SlashAmount d \<le> FeeTotal d)
     \<and> (DisputeRound d = 1 \<and> (Open d \<or> PendingExecution d) \<longrightarrow> paid = FeeTotal d \<and> FeeTotal d \<le> SlashAmount d)"

definition chain_ok :: "'w dispute_state \<Rightarrow> dispute \<Rightarrow> bool" where
  "chain_ok st d \<longleftrightarrow> (\<forall>j \<in> set (butlast (PrevDisputeIds d)). \<exists>d'. kv_get (Disputes st) j = Some d' \<and> frozen d')"

definition dispute_ok :: "time \<Rightarrow> 'w dispute_state \<Rightarrow> u64 \<Rightarrow> bool" where
  "dispute_ok t st did = (case kv_get (Disputes st) did of
     None \<Rightarrow> kv_get (Votes st) did = None \<and> payer_total did st = 0
   | Some d \<Rightarrow> lifecycle_ok t d (kv_get (Votes st) did) \<and> rounds_ok did d
        \<and> fees_ok d (payer_total did st) \<and> chain_ok st d)"

text \<open>Payers are recorded for existing disputes only.\<close>

definition payers_ok :: "'w dispute_state \<Rightarrow> bool" where
  "payers_ok st \<longleftrightarrow> (\<forall>i a. kv_get (DisputeFeePayer st) (i, a) \<noteq> None \<longrightarrow> kv_get (Disputes st) i \<noteq> None)"

definition dispute_inv :: "time \<Rightarrow> 'w dispute_state \<Rightarrow> bool" where
  "dispute_inv t st \<longleftrightarrow> kv_ok (Disputes st) \<and> kv_ok (DisputeFeePayer st)
     \<and> payers_ok st \<and> (\<forall>did. dispute_ok t st did)"

lemma lifecycle_later: "lifecycle_ok t d v \<Longrightarrow> t \<le> t' \<Longrightarrow> lifecycle_ok t' d v"
  by (auto simp: lifecycle_ok_def split: DisputeStatus.splits)

lemma dispute_ok_mono:
  assumes "dispute_ok t st j" "t \<le> t'" and "kv_get (Disputes st') j = kv_get (Disputes st) j"
    "kv_get (Votes st') j = kv_get (Votes st) j" "payer_total j st' = payer_total j st"
    and "\<And>e. chain_ok st e \<Longrightarrow> chain_ok st' e"
  shows "dispute_ok t' st' j"
  using assms by (cases "kv_get (Disputes st) j") (auto simp: dispute_ok_def intro: lifecycle_later)

lemma dispute_inv_later: "dispute_inv t st \<Longrightarrow> t \<le> t' \<Longrightarrow> dispute_inv t' st"
  unfolding dispute_inv_def using dispute_ok_mono [of t st _ t' st] by blast

lemma dispute_inv_stores:
  assumes "dispute_inv t st" and "Disputes st' = Disputes st" "Votes st' = Votes st"
    "DisputeFeePayer st' = DisputeFeePayer st"
  shows "dispute_inv t st'"
  using assms dispute_ok_mono [of t st _ t st'] by (simp add: dispute_inv_def payer_total_def chain_ok_def payers_ok_def)

lemma dispute_invD:
  assumes "dispute_inv t st" and "kv_get (Disputes st) did = Some d"
  shows "lifecycle_ok t d (kv_get (Votes st) did)" "rounds_ok did d" "fees_ok d (payer_total did st)" "chain_ok st d"
  using assms unfolding dispute_inv_def dispute_ok_def by (force split: option.splits)+

lemma frozen_status: "dStatus d \<noteq> Unresolved \<or> Open d \<or> PendingExecution d \<Longrightarrow> \<not> frozen d"
  by (auto simp: frozen_def)

text \<open>Updating one dispute that is not frozen, and its vote.\<close>

lemma dispute_inv_update:
  assumes inv: "dispute_inv t st" and d: "kv_get (Disputes st) did = Some d" "\<not> frozen d"
    and D: "Disputes st' = kv_set did d' (Disputes st)"
    and V: "\<And>j. j \<noteq> did \<Longrightarrow> kv_get (Votes st') j = kv_get (Votes st) j"
    and P: "kv_ok (DisputeFeePayer st')" "\<And>j. j \<noteq> did \<Longrightarrow> payer_total j st' = payer_total j st"
      "\<And>i a. i \<noteq> did \<Longrightarrow> kv_get (DisputeFeePayer st') (i, a) = kv_get (DisputeFeePayer st) (i, a)"
    and ok: "lifecycle_ok t d' (kv_get (Votes st') did)" "fees_ok d' (payer_total did st')"
    and same: "DisputeId d' = DisputeId d" "PrevDisputeIds d' = PrevDisputeIds d" "DisputeRound d' = DisputeRound d"
  shows "dispute_inv t st'"
proof -
  have chain: "chain_ok st' e" if "chain_ok st e" for e
    using that d unfolding chain_ok_def D kv_get_set by fastforce
  have "dispute_ok t st' j" for j
  proof (cases "j = did")
    case True
    then show ?thesis
      using ok dispute_invD [OF inv d(1)] chain [of d] same by (simp add: dispute_ok_def D rounds_ok_def chain_ok_def)
  next
    case False
    then show ?thesis
      using inv by (intro dispute_ok_mono [OF _ order_refl _ V [OF False] P(2) [OF False] chain])
        (simp_all add: dispute_inv_def D)
  qed
  moreover have "payers_ok st'"
    using inv P(3) unfolding dispute_inv_def payers_ok_def D kv_get_set by (metis option.distinct(1))
  ultimately show ?thesis using inv P(1) by (simp add: dispute_inv_def D)
qed

text \<open>Inserting a dispute under a fresh identifier.\<close>

lemma dispute_inv_insert:
  assumes inv: "dispute_inv t st" and fresh: "kv_get (Disputes st) did = None"
    and D: "Disputes st' = kv_set did d' (Disputes st)"
    and V: "\<And>j. j \<noteq> did \<Longrightarrow> kv_get (Votes st') j = kv_get (Votes st) j"
    and P: "kv_ok (DisputeFeePayer st')" "\<And>j. j \<noteq> did \<Longrightarrow> payer_total j st' = payer_total j st"
      "\<And>i a. i \<noteq> did \<Longrightarrow> kv_get (DisputeFeePayer st') (i, a) = kv_get (DisputeFeePayer st) (i, a)"
    and ok: "lifecycle_ok t d' (kv_get (Votes st') did)" "fees_ok d' (payer_total did st')" "rounds_ok did d'"
      "chain_ok st d'"
  shows "dispute_inv t st'"
proof -
  have chain: "chain_ok st' e" if "chain_ok st e" for e
    using that fresh unfolding chain_ok_def D kv_get_set by fastforce
  have "dispute_ok t st' j" for j
  proof (cases "j = did")
    case True
    then show ?thesis using ok chain by (simp add: dispute_ok_def D)
  next
    case False
    then show ?thesis
      using inv by (intro dispute_ok_mono [OF _ order_refl _ V [OF False] P(2) [OF False] chain])
        (simp_all add: dispute_inv_def D)
  qed
  moreover have "payers_ok st'"
    using inv P(3) unfolding dispute_inv_def payers_ok_def D kv_get_set by (metis option.distinct(1))
  ultimately show ?thesis using inv P(1) by (simp add: dispute_inv_def D)
qed

section \<open>Frames\<close>

text \<open>Operations that leave disputes, votes and fee payers alone.\<close>

definition core_same :: "'w dispute_state \<Rightarrow> 'w dispute_state \<Rightarrow> bool" where
  "core_same st st' \<longleftrightarrow> Disputes st' = Disputes st \<and> Votes st' = Votes st \<and> DisputeFeePayer st' = DisputeFeePayer st"

named_theorems frames "operations that keep the core stores"

lemma core_same_refl [simp]: "core_same st st"
  by (simp add: core_same_def)

lemma core_same_trans: "core_same a b \<Longrightarrow> core_same b c \<Longrightarrow> core_same a c"
  by (simp add: core_same_def)

lemma dispute_inv_core: "dispute_inv t st \<Longrightarrow> core_same st st' \<Longrightarrow> dispute_inv t st'"
  by (rule dispute_inv_stores) (simp_all add: core_same_def)

lemma same_stores_core: "same_stores st st' \<Longrightarrow> core_same st st'"
  by (simp add: same_stores_def core_same_def)

lemma PayDisputeFee_same [frames]: "PayDisputeFee E c a fee fb h first st = Inr st' \<Longrightarrow> same_stores st st'"
  by (auto simp: PayDisputeFee_def PayFromBond_def PayFromAccount_def same_stores_def split: if_splits)

lemma SlashAndJailReporter_same [frames]: "SlashAndJailReporter E c r cat h st = Inr st' \<Longrightarrow> same_stores st st'"
  by (auto simp: SlashAndJailReporter_def disJailReporter_def same_stores_def)

lemma SetTeamVote_same [frames]: "SetTeamVote did a ch old st = Inr (p, st') \<Longrightarrow> core_same st st'"
  by (auto simp: SetTeamVote_def Let_def setCounts_def core_same_def split: if_splits)

lemma SetVoterTips_same [frames]: "SetVoterTips E did a b ch old st = Inr (p, st') \<Longrightarrow> core_same st st'"
  by (auto simp: SetVoterTips_def Let_def setCounts_def core_same_def split: if_splits)

lemma AddReporterVoteCount_same [frames]: "core_same st (AddReporterVoteCount did n ch old st)"
  by (simp add: AddReporterVoteCount_def Let_def setCounts_def core_same_def)

lemma reporterVotes_same [frames]: "reporterVotes E did r b ch old st = Inr (p, st') \<Longrightarrow> core_same st st'"
  using AddReporterVoteCount_same by (auto simp: reporterVotes_def Let_def)

lemma selectorVotes_same [frames]: "selectorVotes E did a r b ch old st = Inr (p, st') \<Longrightarrow> core_same st st'"
  by (auto simp: selectorVotes_def Let_def SubtractReporterVoteCount_def AddReporterVoteCount_def setCounts_def
      core_same_def split: option.splits)

lemma SetVoterReporterStake_same [frames]:
  "SetVoterReporterStake E c did a b ch old st = Inr (p, st') \<Longrightarrow> core_same st st'"
  by (auto simp: SetVoterReporterStake_def Let_def dest: reporterVotes_same selectorVotes_same
      split: sum.splits if_splits)

lemma castVote_cases:
  assumes "castVote E c did a ch b v old st = Inr st'"
  obtains st1 where "core_same st st1" "st' = st1 \<or> TallyVote E c did st1 = Inr st'"
proof -
  from assms obtain p1 st1 p2 st2 p3 st3 x where
    1: "SetTeamVote did a ch old st = Inr (p1, st1)"
    and 2: "SetVoterTips E did a b ch old st1 = Inr (p2, st2)"
    and 3: "SetVoterReporterStake E c did a b ch old st2 = Inr (p3, st3)"
    and 4: "(case TallyVote E c did (st3\<lparr>Voter := kv_set (voteId v, a) x (Voter st3)\<rparr>) of
            Inl e \<Rightarrow> if e = ErrNoQuorumStillVoting then Inr (st3\<lparr>Voter := kv_set (voteId v, a) x (Voter st3)\<rparr>) else Inl e
          | Inr st5 \<Rightarrow> Inr st5) = Inr st'"
    by (auto simp: castVote_def Let_def split: if_splits)
  let ?st4 = "st3\<lparr>Voter := kv_set (voteId v, a) x (Voter st3)\<rparr>"
  have "core_same st st3"
    using SetTeamVote_same [OF 1] SetVoterTips_same [OF 2] SetVoterReporterStake_same [OF 3] core_same_trans by blast
  then have "core_same st ?st4" by (simp add: core_same_def)
  moreover have "st' = ?st4 \<or> TallyVote E c did ?st4 = Inr st'"
    using 4 by (auto split: sum.splits if_splits)
  ultimately show thesis by (rule that)
qed

lemma msgVote_castVote:
  assumes "msgVote E c voter did ch st = Inr st'"
  obtains a b v old where "castVote E c did a ch b v old st = Inr st'"
  using assms by (auto simp: msgVote_def Let_def split: option.splits if_splits)

section \<open>Preservation\<close>

lemma TallyVote_inv:
  assumes inv: "dispute_inv t st" and run: "TallyVote E c did st = Inr st'"
  shows "dispute_inv t st'"
proof -
  obtain v d d' r where v: "kv_get (Votes st) did = Some v" "voteResult v = NO_TALLY"
    and d: "kv_get (Disputes st) did = Some d" and st': "st' = tallied c did v d' r st" "r \<noteq> NO_TALLY"
    and d': "d' = d\<lparr>dStatus := Resolved, Open := False, PendingExecution := True\<rparr>
      \<or> VoteEnd v < BlockTime c \<and> BlockTime c \<le> DisputeEndTime d \<and> DisputeRound d \<noteq> 5
        \<and> d' = d\<lparr>dStatus := Unresolved, PendingExecution := True\<rparr>"
    by (rule TallyVote_cases [OF run])
  have life: "lifecycle_ok t d (Some v)" using dispute_invD(1) [OF inv d] v by simp
  then have voting: "dStatus d = Voting" "Open d" "\<not> Executed v"
    using v(2) by (auto simp: lifecycle_ok_def split: DisputeStatus.splits)
  have fees: "fees_ok d (payer_total did st)" by (rule dispute_invD(3) [OF inv d])
  show ?thesis
  proof (rule dispute_inv_update [OF inv d])
    show "\<not> frozen d" using voting by (simp add: frozen_def)
    show "Disputes st' = kv_set did d' (Disputes st)" by (simp add: st' tallied_def)
    show "lifecycle_ok t d' (kv_get (Votes st') did)"
      using d' voting st'(2) by (auto simp: st' tallied_def lifecycle_ok_def)
    show "fees_ok d' (payer_total did st')"
      using d' fees voting by (auto simp: fees_ok_def payer_total_def st' tallied_def)
  qed (use d' inv in \<open>auto simp: st' tallied_def payer_total_def dispute_inv_def\<close>)
qed

lemma msgVote_inv: "dispute_inv t st \<Longrightarrow> msgVote E c voter did ch st = Inr st' \<Longrightarrow> dispute_inv t st'"
  by (elim msgVote_castVote castVote_cases) (auto intro: dispute_inv_core TallyVote_inv)

lemma AddEvidence_inv:
  assumes inv: "dispute_inv t st" and run: "AddEvidence E c did reports st = Inr st'"
  shows "dispute_inv t st'"
proof -
  from run obtain d w where d: "kv_get (Disputes st) did = Some d" "Open d"
    and st': "st' = st\<lparr>Disputes := kv_set did (d\<lparr>AdditionalEvidence := AdditionalEvidence d @ reports\<rparr>) (Disputes st),
      disWorld := w\<rparr>"
    by (auto simp: AddEvidence_def Let_def split: if_splits)
  show ?thesis
    by (rule dispute_inv_update [OF inv d(1), where d' = "d\<lparr>AdditionalEvidence := AdditionalEvidence d @ reports\<rparr>"])
      (use d inv dispute_invD [OF inv d(1)] in \<open>auto simp: st' frozen_def payer_total_def dispute_inv_def
        lifecycle_ok_def fees_ok_def split: DisputeStatus.splits\<close>)
qed

lemma expireOne_inv:
  assumes inv: "dispute_inv t st" and t: "t = BlockTime c" and run: "expireOne E c key st = Inr st'"
  shows "dispute_inv t st'"
proof -
  from run obtain d where d: "kv_get (Disputes st) key = Some d" by (auto simp: expireOne_def)
  show ?thesis
  proof (cases "DisputeEndTime d < BlockTime c \<and> dStatus d = Prevote")
    case True
    then have st': "st' = st\<lparr>Disputes := kv_set key (d\<lparr>Open := False, dStatus := Failed\<rparr>) (Disputes st)\<rparr>"
      using run d by (simp add: expireOne_def)
    show ?thesis
      by (rule dispute_inv_update [OF inv d, where d' = "d\<lparr>Open := False, dStatus := Failed\<rparr>"])
        (use True t inv dispute_invD [OF inv d] in \<open>auto simp: st' frozen_def payer_total_def dispute_inv_def
          lifecycle_ok_def fees_ok_def\<close>)
  next
    case False
    then have "st' = st \<or> TallyVote E c key st = Inr st'"
      using run d by (auto simp: expireOne_def split: if_splits)
    then show ?thesis using inv TallyVote_inv by blast
  qed
qed

text \<open>Execution touches one dispute, which must be pending.\<close>

lemma settle_stores:
  assumes "settle E c did d v burn st = Inr st'"
  shows "voteResult v \<noteq> NO_TALLY \<and> same_stores (setExecuted did v st) st'"
proof -
  have b: "same_stores st s" if "burnFromDispute E burn st = Inr s" for s
    using that by (auto simp: burnFromDispute_def same_stores_def split: if_splits)
  have r: "same_stores s s'" if "ReturnSlashedTokens E c x s = Inr s'" for x s s'
    using that by (auto simp: ReturnSlashedTokens_def same_stores_def)
  have u: "same_stores s s'" if "unjailDisputed E c d s = Inr s'" for s s'
    using that by (auto simp: unjailDisputed_def same_stores_def)
  have chain: "same_stores (setExecuted did v st) (setExecuted did v s3)"
    if "burnFromDispute E burn st = Inr s1" "ReturnSlashedTokens E c x s1 = Inr s2" "unjailDisputed E c d s2 = Inr s3"
    for x s1 s2 s3
    using b [OF that(1)] r [OF that(2)] u [OF that(3)] same_stores_trans same_stores_setExecuted by blast
  from assms show ?thesis
    by (cases "voteResult v") (auto simp: settle_def intro: chain same_stores_setExecuted b)
qed

lemma ExecuteVote_inv:
  assumes inv: "dispute_inv t st" and t: "t = BlockTime c" and run: "ExecuteVote E c did st = Inr st'"
    and pending: "kv_get (Disputes st) did = Some d" "PendingExecution d"
  shows "dispute_inv t st' \<and> (\<forall>j. j \<noteq> did \<longrightarrow> kv_get (Disputes st') j = kv_get (Disputes st) j)"
proof -
  obtain d0 v power burn reward st0 st1 where
    d0: "kv_get (Disputes st) did = Some d0" and v: "kv_get (Votes st) did = Some v" and nx: "\<not> Executed v"
    and res: "dStatus (execution_view c v d0) = Resolved"
    and "GetSumOfAllGroupVotesAllRounds did st0 = Inr power"
    and "burn = (if power = 0 then BurnAmount d0 else halfBurn (deDec E) (BurnAmount d0))"
    and "reward = (if power = 0 then 0 else halfBurn (deDec E) (BurnAmount d0))"
    and settle: "settle E c did (execution_view c v d0) v burn st0 = Inr st1"
    and st0: "st0 = st \<or> st0 = st\<lparr>Disputes := kv_set did (execution_view c v d0) (Disputes st)\<rparr>"
    and st': "st' = st1\<lparr>Disputes := kv_set did ((execution_view c v d0)\<lparr>VoterReward := reward, PendingExecution := False\<rparr>) (Disputes st1)\<rparr>"
    by (rule ExecuteVote_cases [OF run])
  let ?d = "(execution_view c v d)\<lparr>VoterReward := reward, PendingExecution := False\<rparr>"
  have [simp]: "d0 = d" using d0 pending by simp
  have same: "voteResult v \<noteq> NO_TALLY" "same_stores (setExecuted did v st0) st1" using settle_stores [OF settle] by simp_all
  have st1: "Votes st1 = kv_set did (v\<lparr>Executed := True\<rparr>) (Votes st)" "DisputeFeePayer st1 = DisputeFeePayer st"
    "kv_set did x (Disputes st1) = kv_set did x (Disputes st)" for x
    using same(2) st0 by (auto simp: same_stores_def setExecuted_def kv_set_set)
  have "\<not> Open (execution_view c v d)"
    using res dispute_invD(1) [OF inv pending(1)] by (auto simp: execution_view_def lifecycle_ok_def split: if_splits)
  then have "lifecycle_ok t ?d (kv_get (Votes st') did)"
    using res same(1) st1(1) by (simp add: lifecycle_ok_def st')
  moreover have "dStatus d \<noteq> Prevote \<and> dStatus d \<noteq> Failed"
    using pending dispute_invD(1) [OF inv pending(1)] v by (auto simp: lifecycle_ok_def)
  then have "fees_ok ?d x" for x
    using \<open>\<not> Open (execution_view c v d)\<close> dispute_invD(3) [OF inv pending(1)]
    by (auto simp: fees_ok_def execution_view_def)
  ultimately have "dispute_inv t st'"
    by (intro dispute_inv_update [OF inv pending(1), where d' = ?d])
      (use pending inv in \<open>auto simp: st' st1 frozen_def payer_total_def dispute_inv_def execution_view_def\<close>)
  then show ?thesis by (simp add: st' st1)
qed

lemma executeAll_inv:
  assumes "foldR (executeOne E c) ks st = Inr st'" "dispute_inv t st" "t = BlockTime c" "distinct ks"
    and "\<forall>k \<in> set ks. \<exists>d. kv_get (Disputes st) k = Some d \<and> PendingExecution d"
  shows "dispute_inv t st'"
  using assms
proof (induction ks arbitrary: st)
  case Nil
  then show ?case by simp
next
  case (Cons k ks)
  then obtain s d where s: "executeOne E c k st = Inr s" "foldR (executeOne E c) ks s = Inr st'"
    and d: "kv_get (Disputes st) k = Some d" "PendingExecution d" by auto
  have "dispute_inv t s \<and> (\<forall>j. j \<noteq> k \<longrightarrow> kv_get (Disputes s) j = kv_get (Disputes st) j)"
    using s(1) d Cons.prems ExecuteVote_inv [of t st c E k s d] by (auto simp: executeOne_def split: if_splits)
  then show ?case using Cons.prems by (intro Cons.IH [OF s(2)]) auto
qed

lemma kv_index_distinct: "kv_ok m \<Longrightarrow> distinct (kv_index P m)"
  using kv_ok_distinct [of m] by (simp add: kv_index_def distinct_map_filter)

lemma beginBlock_inv:
  assumes inv: "dispute_inv t st" and t: "t = BlockTime c" and run: "disputeBeginBlocker E c st = Inr st'"
  shows "dispute_inv t st'"
proof -
  from run obtain s where 1: "CheckOpenDisputesForExpiration E c st = Inr s"
    and 2: "CheckClosedDisputesForExecution E c s = Inr st'" by (auto simp: disputeBeginBlocker_def)
  have s: "dispute_inv t s"
    using 1 inv unfolding CheckOpenDisputesForExpiration_def
    by (rule foldR_invariant) (rule expireOne_inv [OF _ t])
  then have ok: "kv_ok (Disputes s)" by (simp add: dispute_inv_def)
  have "\<forall>k \<in> set (kv_index PendingExecution (Disputes s)). \<exists>d. kv_get (Disputes s) k = Some d \<and> PendingExecution d"
    by (simp add: kv_index_mem [OF ok])
  with 2 show ?thesis
    unfolding CheckClosedDisputesForExecution_def using executeAll_inv [OF _ s t kv_index_distinct [OF ok]] by blast
qed

lemma snapshotOne_core: "snapshotOne E c k st = Inr st' \<Longrightarrow> core_same st st'"
  by (auto simp: snapshotOne_def SetBlockInfo_def core_same_def split: if_splits)

lemma endBlock_inv:
  assumes "dispute_inv t st" and "disputeEndBlocker E c st = Inr st'"
  shows "dispute_inv t st'"
  using assms(2,1) unfolding disputeEndBlocker_def
  by (rule foldR_invariant)
    (use snapshotOne_core dispute_inv_core in blast)

lemma UpdateTeam_inv:
  assumes inv: "dispute_inv t st" and run: "UpdateTeam E cur new st = Inr st'"
  shows "dispute_inv t st'"
proof -
  from run obtain a b where fold: "foldR (moveTeamVote a b) (GetOpenDisputes (st\<lparr>TeamAddress := Some b\<rparr>)) (st\<lparr>TeamAddress := Some b\<rparr>) = Inr st'"
    by (auto simp: UpdateTeam_def Let_def split: if_splits)
  have "core_same st st'"
  proof (rule foldR_invariant [OF fold])
    show "core_same st (st\<lparr>TeamAddress := Some b\<rparr>)" by (simp add: core_same_def)
  qed (auto simp: moveTeamVote_def core_same_def Let_def split: if_splits option.splits)
  then show ?thesis using inv dispute_inv_core by blast
qed

lemma ClaimReward_inv:
  assumes "dispute_inv t st" and "msgClaimReward E caller did st = Inr st'"
  shows "dispute_inv t st'"
proof -
  have "core_same st st'"
    using assms(2) by (auto simp: msgClaimReward_def ClaimReward_def core_same_def Let_def split: if_splits sum.splits)
  then show ?thesis using assms(1) dispute_inv_core by blast
qed

section \<open>Fee payers\<close>

lemma payer_total_set:
  assumes "kv_ok (DisputeFeePayer st)" and "DisputeFeePayer st' = kv_set (i, a) p (DisputeFeePayer st)"
  shows "payer_total j st' = payer_total j st
    + (if i = j then piAmount p - (case kv_get (DisputeFeePayer st) (i, a) of None \<Rightarrow> 0 | Some q \<Rightarrow> piAmount q) else 0)"
  by (simp add: payer_total_def assms(2) kv_total_set [OF assms(1)] split: option.splits)

lemma payer_total_del:
  assumes "kv_ok (DisputeFeePayer st)" and "DisputeFeePayer st' = kv_del (i, a) (DisputeFeePayer st)" "i \<noteq> j"
  shows "payer_total j st' = payer_total j st"
  using assms(3) by (simp add: payer_total_def assms(2) kv_total_del [OF assms(1)] split: option.splits)

lemma refundByOutcome_stores:
  assumes "refundByOutcome E c a p did d dust st = Inr (r, st')"
  shows "same_stores st st' \<and> (dStatus d = Failed \<or> (\<exists>v. kv_get (Votes st) did = Some v \<and> Executed v))"
proof -
  have pay: "same_stores s s'" if "payRefund E c a fb h n s = Inr s'" for fb h n s s'
    using that by (auto simp: payRefund_def ReturnFeetoStake_def same_stores_def split: if_splits)
  have ref: "same_stores s s'" if "RefundDisputeFee E c a p F h S s = Inr (r1, s')" for F h S s r1 s'
    using that pay by (auto simp: RefundDisputeFee_def)
  have bond: "same_stores s s'" if "RewardReporterBondToFeePayers E c a p F S s = Inr (r1, s')" for F S s r1 s'
    using that by (auto simp: RewardReporterBondToFeePayers_def same_stores_def)
  show ?thesis
    using assms by (auto simp: refundByOutcome_def RefundFailedDisputeFee_def split: if_splits
        dest!: pay ref bond intro: same_stores_trans)
qed

lemma WithdrawFeeRefund_inv:
  assumes inv: "dispute_inv t st" and run: "WithdrawFeeRefund E c payer did st = Inr st'"
  shows "dispute_inv t st'"
proof -
  from run obtain a d p dust r st1 st2 dust2 n where d: "kv_get (Disputes st) did = Some d"
    and r: "refundByOutcome E c a p did d dust st = Inr (r, st1)" and b: "burnFromDispute E n st1 = Inr st2"
    and st': "st' = st2\<lparr>Dust := Some dust2, DisputeFeePayer := kv_del (firstRoundId did d, a) (DisputeFeePayer st2)\<rparr>"
    by (auto simp: WithdrawFeeRefund_def Let_def split: sum.splits)
  let ?i = "firstRoundId did d"
  have "same_stores st1 st2" using b by (auto simp: burnFromDispute_def same_stores_def split: if_splits)
  then have same: "same_stores st st2" using refundByOutcome_stores [OF r] same_stores_trans by blast
  have D: "Disputes st' = Disputes st" "Votes st' = Votes st" "DisputeFeePayer st' = kv_del (?i, a) (DisputeFeePayer st)"
    using same by (simp_all add: st' same_stores_def)
  have closed: "\<not> Open d \<and> \<not> PendingExecution d"
    using refundByOutcome_stores [OF r] dispute_invD(1) [OF inv d]
    by (auto simp: lifecycle_ok_def split: DisputeStatus.splits)
  have rounds: "PrevDisputeIds d \<noteq> []" "last (PrevDisputeIds d) = did"
    using dispute_invD(2) [OF inv d] by (simp_all add: rounds_ok_def)
  obtain d1 where d1: "kv_get (Disputes st) ?i = Some d1" "\<not> Open d1" "\<not> PendingExecution d1"
  proof (cases "length (PrevDisputeIds d) = 1")
    case True
    then have "?i = did" using rounds by (auto simp: firstRoundId_def length_Suc_conv)
    then show thesis using that d closed by simp
  next
    case False
    then have "?i \<in> set (butlast (PrevDisputeIds d))"
      using rounds by (cases "PrevDisputeIds d"; cases "tl (PrevDisputeIds d)") (auto simp: firstRoundId_def)
    then show thesis using that dispute_invD(4) [OF inv d] by (auto simp: chain_ok_def frozen_def)
  qed
  have ok: "kv_ok (DisputeFeePayer st)" using inv by (simp add: dispute_inv_def)
  have "dispute_ok t st' j" for j
  proof (cases "j = ?i")
    case True
    then show ?thesis
      using dispute_invD [OF inv d1(1)] d1 by (simp add: dispute_ok_def D chain_ok_def fees_ok_def)
  next
    case False
    then have "payer_total j st' = payer_total j st" using payer_total_del [OF ok D(3)] by simp
    moreover have "dispute_ok t st j" using inv by (simp add: dispute_inv_def)
    ultimately show ?thesis by (intro dispute_ok_mono [of t st j t st']) (simp_all add: D chain_ok_def)
  qed
  moreover have "payers_ok st'"
    using inv unfolding dispute_inv_def payers_ok_def D kv_get_del by metis
  ultimately show ?thesis using inv by (simp add: dispute_inv_def D)
qed

section \<open>Opening and funding\<close>

text \<open>What the module relies on: the decimal laws, and that powers of reports are below
  \<open>2\<^sup>6\<^sup>3\<close>.\<close>

definition env_ok :: "'w dispute_env \<Rightarrow> bool" where
  "env_ok E \<longleftrightarrow> dec_laws (deDec E) \<and>
     (\<forall>w a m q r. okValidateMicroReportExists (deOracle E) w a m q = Inr (Some r) \<longrightarrow> uint (mrPower r) < 2 ^ 63)"

lemma NextDisputeId_fresh:
  assumes "kv_ok (Disputes st)" and "NextDisputeId st \<noteq> 0"
  shows "kv_get (Disputes st) (NextDisputeId st) = None"
proof (cases "kv_last_key (Disputes st)")
  case None
  then show ?thesis by (simp add: kv_last_key_def split: if_splits)
next
  case (Some k)
  then have n: "NextDisputeId st = k + 1" by (simp add: NextDisputeId_def)
  with assms(2) have "k < k + 1" by (intro u64_less_succ) simp
  then show ?thesis using kv_last_key_greatest [OF assms(1) Some] n by (metis leD not_Some_eq)
qed

lemma GetDisputeFee_nonneg:
  assumes "dec_laws D" and "uint (mrPower rep) < 2 ^ 63" and "GetDisputeFee D rep cat = Inr fee"
  shows "0 \<le> fee"
proof -
  have i: "i64 (uint (mrPower rep)) = uint (mrPower rep)" using assms(2) by (rule i64_uint)
  have tr: "TruncateInt (dquo D (dec_of (1000000 * uint (mrPower rep) * k)) (dec_of 100)) = (1000000 * uint (mrPower rep) * k) div 100"
    if "0 \<le> k" for k using that by (intro trunc_dquo_of [OF assms(1)]) (simp_all add: dec_one_def)
  show ?thesis
    using assms(3) tr [of 1] tr [of 5] by (cases cat) (auto simp: GetDisputeFee_def Let_def i PowerReduction_def dmul_of_of [OF assms(1)])
qed

lemma start_voting_cases:
  assumes "start_voting E c d st = Inr (d', st')"
  obtains (pay) "FeeTotal d \<noteq> SlashAmount d" "d' = d" "st' = st"
    | (go) st1 where "FeeTotal d = SlashAmount d" "same_stores st st1"
        "d' = d\<lparr>DisputeEndTime := BlockTime c + THREE_DAYS, dStatus := Voting\<rparr>" "st' = SetStartVote c (DisputeId d) st1"
proof (cases "FeeTotal d = SlashAmount d")
  case True
  then obtain st1 where st1: "SlashAndJailReporter E c (InitialEvidence d) (dCategory d) (HashId d) st = Inr st1"
    "d' = d\<lparr>DisputeEndTime := BlockTime c + THREE_DAYS, dStatus := Voting\<rparr>" "st' = SetStartVote c (DisputeId d) st1"
    using assms by (auto simp: start_voting_def)
  then show thesis by (intro go [OF True SlashAndJailReporter_same [OF st1(1)]])
next
  case False
  then have "d' = d" "st' = st" using assms by (simp_all add: start_voting_def)
  with False show thesis by (rule pay)
qed

text \<open>The stores after voting was started, or not, for a dispute about to be stored.\<close>

lemma start_voting_stores:
  assumes "start_voting E c d st = Inr (d', st')" and "DisputeId d = did"
    and "dStatus d = Prevote" "Open d" "\<not> PendingExecution d" "FeeTotal d \<le> SlashAmount d" "DisputeRound d = 1"
    and "kv_get (Votes st) did = None" "0 \<le> SlashAmount d" "paid = FeeTotal d"
  shows "Disputes st' = Disputes st \<and> DisputeFeePayer st' = DisputeFeePayer st
    \<and> (\<forall>j. j \<noteq> did \<longrightarrow> kv_get (Votes st') j = kv_get (Votes st) j)
    \<and> lifecycle_ok t d' (kv_get (Votes st') did) \<and> fees_ok d' paid
    \<and> DisputeId d' = did \<and> PrevDisputeIds d' = PrevDisputeIds d \<and> DisputeRound d' = 1"
  using assms(1)
proof (cases rule: start_voting_cases)
  case pay
  then show ?thesis using assms by (simp add: lifecycle_ok_def fees_ok_def)
next
  case (go st1)
  then show ?thesis using assms by (auto simp: lifecycle_ok_def fees_ok_def SetStartVote_def same_stores_def)
qed

lemma SetNewDispute_inv:
  assumes inv: "dispute_inv t st" and E: "env_ok E" and next_id: "NextDisputeId st \<noteq> 0"
    and rep: "uint (mrPower rep) < 2 ^ 63" and run: "SetNewDispute E c sender msg rep st = Inr st'"
  shows "dispute_inv t st'"
proof -
  let ?i = "NextDisputeId st"
  from run obtain fee paid d d' st1 st2 st3 where fee: "GetDisputeFee (deDec E) rep (pmCategory msg) = Inr fee"
    and paid: "paid = (if fee < pmFee msg then fee else pmFee msg)"
    and d: "d = new_dispute c (deHashId E rep (pmCategory msg)) ?i (pmCategory msg) fee
                   (fivePercentOf (deDec E) fee) rep paid"
    and st1: "st1 = st\<lparr>DisputeFeePayer := kv_set (?i, sender) \<lparr>piAmount = paid, piFromBond = pmPayFromBond msg\<rparr> (DisputeFeePayer st)\<rparr>"
    and pay: "PayDisputeFee E c sender paid (pmPayFromBond msg) (deHashId E rep (pmCategory msg)) True st1 = Inr st2"
    and start: "start_voting E c d st2 = Inr (d', st3)"
    and st': "st' = st3\<lparr>Disputes := kv_set ?i d' (Disputes st3)\<rparr>"
    by (auto simp: SetNewDispute_def Let_def)
  have fresh: "kv_get (Disputes st) ?i = None"
    using inv next_id by (intro NextDisputeId_fresh) (simp_all add: dispute_inv_def)
  have ok: "kv_ok (DisputeFeePayer st)" "payers_ok st" "dispute_ok t st ?i" using inv by (simp_all add: dispute_inv_def)
  have st2: "Disputes st2 = Disputes st" "Votes st2 = Votes st" "DisputeFeePayer st2 = DisputeFeePayer st1"
    using PayDisputeFee_same [OF pay] by (simp_all add: same_stores_def st1)
  have nopayer: "kv_get (DisputeFeePayer st) (?i, sender) = None" using ok(2) fresh unfolding payers_ok_def by blast
  have zero: "kv_get (Votes st) ?i = None" "payer_total ?i st = 0" using ok(3) fresh by (simp_all add: dispute_ok_def)
  have P: "payer_total j st' = payer_total j st + (if ?i = j then paid else 0)" if "DisputeFeePayer st' = DisputeFeePayer st1" for j
    using payer_total_set [OF ok(1) that [unfolded st1, simplified], of j] nopayer by auto
  have s3: "Disputes st3 = Disputes st2 \<and> DisputeFeePayer st3 = DisputeFeePayer st2
    \<and> (\<forall>j. j \<noteq> ?i \<longrightarrow> kv_get (Votes st3) j = kv_get (Votes st2) j)
    \<and> lifecycle_ok t d' (kv_get (Votes st3) ?i) \<and> fees_ok d' paid
    \<and> DisputeId d' = ?i \<and> PrevDisputeIds d' = PrevDisputeIds d \<and> DisputeRound d' = 1"
    using GetDisputeFee_nonneg [OF _ rep fee] E
    by (intro start_voting_stores [OF start]) (simp_all add: d new_dispute_def st2 zero paid env_ok_def)
  show ?thesis
  proof (rule dispute_inv_insert [OF inv fresh])
    show "rounds_ok ?i d'" "chain_ok st d'" using s3 by (simp_all add: rounds_ok_def chain_ok_def d new_dispute_def)
  qed (use s3 P ok in \<open>simp_all add: st' st2 st1 zero\<close>)
qed

lemma mergePayer_amount:
  "mergePayer q n fb = Inr p \<Longrightarrow> piAmount p = (case q of None \<Rightarrow> 0 | Some q' \<Rightarrow> piAmount q') + n"
  by (auto simp: mergePayer_def split: option.splits if_splits)

lemma recordFee_inv:
  assumes inv: "dispute_inv t st" and d: "kv_get (Disputes st) did = Some d" "dStatus d = Prevote"
    and amt: "FeeTotal d + n \<le> SlashAmount d" and run: "recordFee E c sender d n fb st = Inr st'"
  shows "dispute_inv t st'"
proof -
  have id: "DisputeId d = did" using dispute_invD(2) [OF inv d(1)] by (simp add: rounds_ok_def)
  from run obtain p d' st1 st2 where p: "mergePayer (kv_get (DisputeFeePayer st) (did, sender)) n fb = Inr p"
    and st1: "st1 = st\<lparr>DisputeFeePayer := kv_set (did, sender) p (DisputeFeePayer st)\<rparr>"
    and start: "start_voting E c (d\<lparr>FeeTotal := FeeTotal d + n\<rparr>) st1 = Inr (d', st2)"
    and st': "st' = st2\<lparr>Disputes := kv_set did d' (Disputes st2)\<rparr>"
    by (auto simp: recordFee_def id Let_def)
  have pre: "Open d" "\<not> PendingExecution d" "kv_get (Votes st) did = None" "DisputeRound d = 1"
    using dispute_invD(1) [OF inv d(1)] d(2) by (simp_all add: lifecycle_ok_def)
  have ok: "kv_ok (DisputeFeePayer st)" using inv by (simp add: dispute_inv_def)
  have fees: "0 \<le> SlashAmount d" "payer_total did st = FeeTotal d"
    using dispute_invD(3) [OF inv d(1)] pre by (simp_all add: fees_ok_def)
  have P: "payer_total j st' = payer_total j st + (if did = j then n else 0)" if "DisputeFeePayer st' = DisputeFeePayer st1" for j
    using payer_total_set [OF ok that [unfolded st1, simplified], of j] mergePayer_amount [OF p] by auto
  have s2: "Disputes st2 = Disputes st1 \<and> DisputeFeePayer st2 = DisputeFeePayer st1
    \<and> (\<forall>j. j \<noteq> did \<longrightarrow> kv_get (Votes st2) j = kv_get (Votes st1) j)
    \<and> lifecycle_ok t d' (kv_get (Votes st2) did) \<and> fees_ok d' (FeeTotal d + n)
    \<and> DisputeId d' = did \<and> PrevDisputeIds d' = PrevDisputeIds (d\<lparr>FeeTotal := FeeTotal d + n\<rparr>) \<and> DisputeRound d' = 1"
    using amt pre fees d(2) id by (intro start_voting_stores [OF start]) (simp_all add: st1)
  show ?thesis
  proof (rule dispute_inv_update [OF inv d(1), where d' = d'])
    show "\<not> frozen d" using d(2) by (simp add: frozen_def)
  qed (use s2 P ok fees id pre in \<open>simp_all add: st' st1\<close>)
qed

lemma AddFeeToDispute_inv:
  assumes inv: "dispute_inv t st" and t: "t \<le> BlockTime c" and run: "AddFeeToDispute E c msg st = Inr st'"
  shows "dispute_inv t st'"
proof -
  from run obtain d sender amount n st1 where d: "kv_get (Disputes st) (afDisputeId msg) = Some d"
    "\<not> DisputeEndTime d < BlockTime c" "\<not> SlashAmount d \<le> FeeTotal d"
    and n: "n = (if SlashAmount d - FeeTotal d < amount then SlashAmount d - FeeTotal d else amount)"
    and pay: "PayDisputeFee E c sender amount (afPayFromBond msg) (HashId d) True st = Inr st1"
    and rec: "recordFee E c sender d n (afPayFromBond msg) st1 = Inr st'"
    by (auto simp: AddFeeToDispute_def Let_def split: if_splits)
  have "dStatus d = Prevote"
    using d(2,3) t dispute_invD(1,3) [OF inv d(1)]
    by (cases "dStatus d") (auto simp: lifecycle_ok_def fees_ok_def)
  moreover have same: "core_same st st1" by (rule same_stores_core [OF PayDisputeFee_same [OF pay]])
  moreover have "kv_get (Disputes st1) (afDisputeId msg) = Some d" using d(1) same by (simp add: core_same_def)
  moreover have "FeeTotal d + n \<le> SlashAmount d" by (simp add: n)
  ultimately show ?thesis using recordFee_inv [OF dispute_inv_core [OF inv] _ _ _ rec] by blast
qed

lemma roundFee_nonneg: "dec_laws D \<Longrightarrow> 0 \<le> SlashAmount d \<Longrightarrow> 0 \<le> roundFee D d"
  by (simp add: roundFee_def fivePercentOf_eq)

lemma AddDisputeRound_inv:
  assumes inv: "dispute_inv t st" and E: "env_ok E" and next_id: "NextDisputeId st \<noteq> 0"
    and d: "kv_get (Disputes st) did = Some d" and run: "AddDisputeRound E c sender d msg st = Inr st'"
  shows "dispute_inv t st'"
proof -
  have rounds: "DisputeId d = did" "PrevDisputeIds d \<noteq> []" "last (PrevDisputeIds d) = did"
    "uint (DisputeRound d) = int (length (PrevDisputeIds d))" "length (PrevDisputeIds d) \<le> 5"
    using dispute_invD(2) [OF inv d] by (simp_all add: rounds_ok_def)
  let ?closed = "d\<lparr>Open := False, PendingExecution := False\<rparr>"
  let ?fee = "roundFee (deDec E) d"
  from run obtain st1 where open_d: "dStatus d = Unresolved" "Open d" "DisputeRound d \<noteq> 5"
    and pay: "PayDisputeFee E c sender ?fee (pmPayFromBond msg) (HashId d) True st = Inr st1"
    and rest: "bindR (CloseDispute did st1) (\<lambda>st2.
         Inr (SetStartVote c (NextDisputeId st2) (st2\<lparr>Disputes := kv_set (NextDisputeId st2)
           (next_round (deDec E) c (NextDisputeId st2) ?fee d) (Disputes st2)\<rparr>))) = Inr st'"
    unfolding AddDisputeRound_def Let_def rounds(1) by (auto split: if_splits)
  have same: "core_same st st1" by (rule same_stores_core [OF PayDisputeFee_same [OF pay]])
  define st2 where "st2 = st1\<lparr>Disputes := kv_set did ?closed (Disputes st1)\<rparr>"
  have ok: "kv_ok (Disputes st1)" "kv_get (Disputes st1) did = Some d"
    using inv same d by (simp_all add: dispute_inv_def core_same_def)
  have nid: "NextDisputeId st2 = NextDisputeId st"
    using same kv_last_key_set_same [OF ok(1), of did] ok(2) by (simp add: NextDisputeId_def st2_def core_same_def)
  let ?i = "NextDisputeId st"
  have st': "st' = SetStartVote c ?i (st2\<lparr>Disputes := kv_set ?i (next_round (deDec E) c ?i ?fee d) (Disputes st2)\<rparr>)"
    using rest ok(2) by (simp add: CloseDispute_def st2_def [symmetric] nid)
  have inv1: "dispute_inv t st1" by (rule dispute_inv_core [OF inv same])
  note old = dispute_invD [OF inv1 ok(2)]
  have inv2: "dispute_inv t st2"
    by (rule dispute_inv_update [OF inv1 ok(2), where d' = ?closed])
      (use open_d old inv1 in \<open>auto simp: st2_def frozen_def lifecycle_ok_def fees_ok_def payer_total_def dispute_inv_def\<close>)
  have fresh: "kv_get (Disputes st2) ?i = None"
    using NextDisputeId_fresh [of st2] inv2 next_id by (simp add: nid dispute_inv_def)
  have "dispute_ok t st2 ?i" using inv2 by (simp add: dispute_inv_def)
  then have zero: "kv_get (Votes st2) ?i = None" "payer_total ?i st2 = 0"
    using fresh by (simp_all add: dispute_ok_def)
  have "uint (DisputeRound d) \<noteq> uint (5 :: u64)" using open_d(3) by (metis unsigned_word_eqI)
  then have "uint (DisputeRound d) \<noteq> 5" by simp
  then have len: "length (PrevDisputeIds d) < 5" using rounds(4,5) by linarith
  have round: "uint (DisputeRound d + 1) = uint (DisputeRound d) + 1"
    using len rounds(4) by (simp add: uint_add_no_overflow)
  let ?d = "next_round (deDec E) c ?i ?fee d"
  have round1: "DisputeRound d + 1 \<noteq> 1" using round rounds(2,4) by (metis add_cancel_left_left length_0_conv of_nat_0_eq_iff uint_1_eq)
  then have fees: "fees_ok ?d x" for x
    using old(3) open_d roundFee_nonneg [of "deDec E" d] E by (auto simp: fees_ok_def next_round_def env_ok_def)
  have rok: "rounds_ok ?i ?d" using round rounds len by (simp add: rounds_ok_def next_round_def)
  have "chain_ok st2 d" using dispute_invD(4) [OF inv2, of did] by (simp add: st2_def chain_ok_def)
  then have chain: "chain_ok st2 ?d"
    using rounds(2,3) open_d unfolding chain_ok_def next_round_def
    by (auto simp: st2_def frozen_def) (metis append_butlast_last_id in_set_conv_decomp rotate1.simps(2) set_ConsD set_rotate1)
  have "PendingExecution d" using old(1) open_d by (simp add: lifecycle_ok_def)
  then have "lifecycle_ok t ?d (kv_get (Votes st') ?i)"
    using round1 by (simp add: st' SetStartVote_def lifecycle_ok_def next_round_def open_d)
  then show ?thesis
    by (intro dispute_inv_insert [OF inv2 fresh, where d' = ?d])
      (use inv2 fees rok chain in \<open>simp_all add: st' SetStartVote_def payer_total_def dispute_inv_def\<close>)
qed

lemma GetDisputeByReporter_stored:
  assumes "kv_ok (Disputes st)" and "GetDisputeByReporter E r cat st = Inr d"
  obtains did where "kv_get (Disputes st) did = Some d"
  using assms by (auto simp: GetDisputeByReporter_def Let_def split: if_splits)

lemma ProposeDispute_inv:
  assumes inv: "dispute_inv t st" and E: "env_ok E" and next_id: "NextDisputeId st \<noteq> 0"
    and run: "ProposeDispute E c msg st = Inr st'"
  shows "dispute_inv t st'"
proof -
  from run obtain sender a q where rest: "(case okValidateMicroReportExists (deOracle E) (disWorld st) a (pmReportMetaId msg) q of
       Inl _ \<Rightarrow> Inl (Err ''ErrDisputedReportDoesNotExist'')
     | Inr None \<Rightarrow> Inl (Err ''ErrDisputedReportDoesNotExist'')
     | Inr (Some report) \<Rightarrow>
       if mrTimestamp report < BlockTime c - 21 * 24 * hour
       then Inl (Err ''disputed report must be less than 21 days old'')
       else if pmFee msg < OnePercent then Inl (Err ''ErrMinimumTRBrequired'')
       else if pmPayFromBond msg \<and> equalFold (pmCreator msg) (pmDisputedReporter msg)
       then Inl (Err ''ErrSelfDisputeFromBond'')
       else openDispute E c sender msg report st) = Inr st'"
    unfolding ProposeDispute_def bindR_eq_Inr case_prod_beta by blast
  then obtain r where rep: "okValidateMicroReportExists (deOracle E) (disWorld st) a (pmReportMetaId msg) q = Inr (Some r)"
    by (cases "okValidateMicroReportExists (deOracle E) (disWorld st) a (pmReportMetaId msg) q")
      (auto split: option.splits)
  then have cont: "openDispute E c sender msg r st = Inr st'"
    using rest by (simp split: if_splits)
  have pow: "uint (mrPower r) < 2 ^ 63" using E rep unfolding env_ok_def by blast
  show ?thesis
  proof (cases "GetDisputeByReporter E r (pmCategory msg) st")
    case (Inl e)
    then show ?thesis using cont SetNewDispute_inv [OF inv E next_id pow] by (simp add: openDispute_def split: if_splits)
  next
    case (Inr d)
    have "kv_ok (Disputes st)" using inv by (simp add: dispute_inv_def)
    then obtain did where "kv_get (Disputes st) did = Some d" using GetDisputeByReporter_stored [OF _ Inr] by blast
    then show ?thesis using cont Inr AddDisputeRound_inv [OF inv E next_id] by (simp add: openDispute_def)
  qed
qed

section \<open>Reachable states\<close>

lemma dispute_step_inv:
  assumes "dispute_step E s s'" and "env_ok E" and "dispute_inv (fst s) (snd s)"
  shows "dispute_inv (fst s') (snd s')"
  using assms
proof (cases rule: dispute_step.cases)
  case (propose t c st msg st')
  then show ?thesis using assms ProposeDispute_inv dispute_inv_later by fastforce
next
  case (add_fee t c fmsg st st')
  then show ?thesis using assms AddFeeToDispute_inv dispute_inv_later by fastforce
next
  case (vote t c voter did choice st st')
  then show ?thesis using assms msgVote_inv dispute_inv_later by fastforce
next
  case (evidence t c did reports st st')
  then show ?thesis using assms AddEvidence_inv dispute_inv_later by fastforce
next
  case (withdraw t c payer did st st')
  then show ?thesis using assms WithdrawFeeRefund_inv dispute_inv_later by fastforce
next
  case (claim caller did st st' t)
  then show ?thesis using assms ClaimReward_inv by fastforce
next
  case (team current new st st' t)
  then show ?thesis using assms UpdateTeam_inv by fastforce
next
  case (begin_block t c st st')
  then show ?thesis using assms beginBlock_inv [OF dispute_inv_later refl] by fastforce
next
  case (end_block t c st st')
  then show ?thesis using assms endBlock_inv dispute_inv_later by fastforce
next
  case (other_modules t st w)
  then show ?thesis using assms dispute_inv_stores [of t st "st\<lparr>disWorld := w\<rparr>"] by simp
qed

lemma dispute_reachable_inv: "dispute_reachable E t st \<Longrightarrow> env_ok E \<Longrightarrow> dispute_inv t st"
proof (induction rule: dispute_reachable.induct)
  case (genesis st t)
  then show ?case
    by (simp add: dispute_inv_def payers_ok_def dispute_ok_def payer_total_def)
next
  case (step t st t' st')
  then show ?case using dispute_step_inv by fastforce
qed

text \<open>
  C1: the life of a dispute. In every state the messages and block steps of the module can
  reach, a dispute before voting is open, underfunded, in its first round and has no vote; a
  voting one is open and has an untallied vote; an unresolved or resolved one has a tallied
  vote, which is executed exactly if the dispute is resolved and no longer pending; a failed
  one is closed and past its end. A dispute has as many identifiers as rounds, at most five,
  the last its own, and every earlier round is stored, unresolved, closed and not pending.
\<close>

theorem dispute_lifecycle:
  assumes "env_ok E" and "dispute_reachable E t st" and "kv_get (Disputes st) did = Some d"
  shows "lifecycle_ok t d (kv_get (Votes st) did) \<and> rounds_ok did d
    \<and> (\<forall>j \<in> set (butlast (PrevDisputeIds d)). \<exists>d'. kv_get (Disputes st) j = Some d'
         \<and> dStatus d' = Unresolved \<and> \<not> Open d' \<and> \<not> PendingExecution d')"
  using dispute_invD [OF dispute_reachable_inv [OF assms(2,1)] assms(3)]
  by (simp add: chain_ok_def frozen_def)

text \<open>
  C4: fees are accounted for. As long as a first-round dispute is open or its execution is
  pending, the payments recorded for its payers sum to exactly its fee total, which never
  exceeds the amount to be slashed and equals it once voting has begun.
\<close>

theorem dispute_fees_accounted:
  assumes "env_ok E" and "dispute_reachable E t st" and "kv_get (Disputes st) did = Some d"
    and "DisputeRound d = 1" and "Open d \<or> PendingExecution d"
  shows "payer_total did st = FeeTotal d \<and> FeeTotal d \<le> SlashAmount d
    \<and> (dStatus d \<noteq> Prevote \<longrightarrow> FeeTotal d = SlashAmount d)"
  using dispute_invD(1,3) [OF dispute_reachable_inv [OF assms(2,1)] assms(3)] assms(4,5)
  by (auto simp: fees_ok_def lifecycle_ok_def split: DisputeStatus.splits)

text \<open>
  A further round is marked as pending execution while it is still being voted on. The
  round is copied from the dispute as it was before it was closed, flag included; only the
  first round of a dispute is unmarked while it is voted on.
\<close>

theorem later_round_marked_pending:
  assumes "env_ok E" and "dispute_reachable E t st" and "kv_get (Disputes st) did = Some d"
    and "dStatus d = Voting"
  shows "PendingExecution d \<longleftrightarrow> DisputeRound d \<noteq> 1"
  using dispute_invD(1) [OF dispute_reachable_inv [OF assms(2,1)] assms(3)] assms(4)
  by (simp add: lifecycle_ok_def)

section \<open>A reachable dispute\<close>

definition ex_genesis :: "ledger dispute_state" where
  "ex_genesis = \<lparr>TeamAddress = Some ''t'', Disputes = [], Votes = [], Voter = [],
     ReportersWithDelegatorsVotedBefore = [], BlockInfo = [], DisputeFeePayer = [], Dust = Some 0,
     VoteCountsByGroup = [], disWorld = (\<lambda>h d. if d = BondDenom then 5000000 else 0)\<rparr>"

definition ex_propose :: "int \<Rightarrow> propose_msg" where
  "ex_propose fee = \<lparr>pmCreator = ''p'', pmDisputedReporter = ''r'', pmReportMetaId = 1, pmReportQueryId = ''71'',
     pmCategory = Warning, pmFeeDenom = BondDenom, pmFee = fee, pmPayFromBond = False\<rparr>"

lemma ex_env_ok: "env_ok ex_env"
  by (simp add: env_ok_def ex_defs ref_dec_laws)

lemma ex_proposed:
  obtains st d where "dispute_reachable ex_env 0 st" "kv_get (Disputes st) 1 = Some d"
    "dStatus d = Voting" "Open d" "DisputeRound d = 1"
proof -
  have q: "QueryBytesFromString ''71'' = Inr ''q''" by code_simp
  have "TruncateInt (dquo ref_dec (dec_of 100000000) (dec_of 100)) = 1000000"
    using trunc_dquo_of [OF ref_dec_laws, of 100000000 100] by (simp add: dec_one_def)
  then have fee: "GetDisputeFee ref_dec ex_report Warning = Inr 1000000"
    by (simp add: GetDisputeFee_def ex_report_def i64_def PowerReduction_def dmul_of_of [OF ref_dec_laws])
  have slash: "slashAmountOf ref_dec (mrPower ex_report) (quoT PowerReduction 100) = 1000000"
    using slashAmountOf_eq [OF ref_dec_laws, of 100 10000] by (simp add: ex_report_def PowerReduction_def quoT_def)
  have "\<exists>st. openDispute ex_env (ex_ctx 0 2) ''p'' (ex_propose 1000000) ex_report ex_genesis = Inr st \<and>
      (\<exists>d. kv_get (Disputes st) 1 = Some d \<and> dStatus d = Voting \<and> Open d \<and> DisputeRound d = 1)"
    using fee slash
    by (simp add: openDispute_def GetDisputeByReporter_def SetNewDispute_def ex_env_def ex_propose_def ex_genesis_def kv_index_def
        NextDisputeId_def kv_last_key_def PayDisputeFee_def PayFromAccount_def ledger_bank_def moved_def start_voting_def
        new_dispute_def SlashAndJailReporter_def ex_oracle_def ex_reporter_def mustAddr_def Let_def
        disJailReporter_def SetStartVote_def BondDenom_def ex_bonded_def kv_get_def)
  then obtain st d where od: "openDispute ex_env (ex_ctx 0 2) ''p'' (ex_propose 1000000) ex_report ex_genesis = Inr st"
    and d: "kv_get (Disputes st) 1 = Some d" "dStatus d = Voting" "Open d" "DisputeRound d = 1"
    by blast
  have "validateProposeDispute ex_env (ex_propose 1000000) = Inr (''p'', ''r'')"
    by (simp add: validateProposeDispute_def ex_propose_def ex_env_def)
  moreover have "okValidateMicroReportExists (deOracle ex_env) w a m x = Inr (Some ex_report)" for w a m x
    by (simp add: ex_env_def ex_oracle_def)
  ultimately have run: "ProposeDispute ex_env (ex_ctx 0 2) (ex_propose 1000000) ex_genesis = Inr st"
    using od q by (simp add: ProposeDispute_def ex_report_def ex_ctx_def ex_propose_def OnePercent_def)
  have "dispute_reachable ex_env 0 ex_genesis" by (rule dispute_reachable.genesis) (simp_all add: ex_genesis_def)
  moreover have "dispute_step ex_env (0, ex_genesis) (BlockTime (ex_ctx 0 2), st)"
    by (rule dispute_step.propose [OF _ _ run]) (simp_all add: ex_ctx_def NextDisputeId_def kv_last_key_def ex_genesis_def)
  ultimately have "dispute_reachable ex_env (BlockTime (ex_ctx 0 2)) st" by (rule dispute_reachable.step)
  then show thesis using that d by (simp add: ex_ctx_def)
qed

theorem dispute_lifecycle_witness:
  "\<exists>st d. dispute_reachable ex_env 0 st \<and> kv_get (Disputes st) 1 = Some d \<and> dStatus d = Voting
    \<and> lifecycle_ok 0 d (kv_get (Votes st) 1)"
  by (rule ex_proposed) (use dispute_lifecycle [OF ex_env_ok] in blast)

theorem dispute_fees_accounted_witness:
  "\<exists>st d. dispute_reachable ex_env 0 st \<and> kv_get (Disputes st) 1 = Some d \<and> payer_total 1 st = SlashAmount d"
  by (rule ex_proposed) (use dispute_fees_accounted [OF ex_env_ok] in fastforce)

theorem later_round_marked_pending_witness:
  "\<exists>st d. dispute_reachable ex_env 0 st \<and> kv_get (Disputes st) 1 = Some d \<and> dStatus d = Voting \<and> \<not> PendingExecution d"
  by (rule ex_proposed) (use later_round_marked_pending [OF ex_env_ok] in blast)

end
