(* ===== verification/DisputeGenesis.thy ===== *)
theory DisputeGenesis
  imports DisputeInvariant
begin

text \<open>
  Genesis of the dispute module (\<^verbatim>\<open>x/dispute/genesis.go\<close>): the export keeps only the open disputes that
  are being voted on, with what belongs to them; the rest goes to a file of its own that is not
  modelled. A failing write or a missing entry panics.
\<close>

section \<open>Import and export\<close>

record dispute_genesis =
  dgTeamAddress :: addr
  dgDisputes :: "(u64 \<times> dispute) list"
  dgVotes :: "(u64 \<times> vote) list"
  dgVoter :: "((u64 \<times> addr) \<times> voter) list"
  dgReportersWithDelegatorsWhoVoted :: "((addr \<times> u64) \<times> int) list"
  dgBlockInfo :: "(bytes \<times> block_info) list"
  dgDisputeFeePayer :: "((u64 \<times> addr) \<times> payer_info) list"
  dgDust :: "int option"
  dgVoteCountsByGroup :: "(u64 \<times> stakeholder_vote_counts) list"

definition disputeInitGenesis :: "dispute_genesis \<Rightarrow> 'w dispute_state \<Rightarrow> 'w dispute_state" where
  "disputeInitGenesis gen st =
     st\<lparr>TeamAddress := Some (dgTeamAddress gen),
        Dust := Some (case dgDust gen of None \<Rightarrow> 0 | Some n \<Rightarrow> n),
        Disputes := setAll (dgDisputes gen) (Disputes st),
        Votes := setAll (dgVotes gen) (Votes st),
        Voter := setAll (dgVoter gen) (Voter st),
        ReportersWithDelegatorsVotedBefore :=
          setAll (dgReportersWithDelegatorsWhoVoted gen) (ReportersWithDelegatorsVotedBefore st),
        BlockInfo := setAll (dgBlockInfo gen) (BlockInfo st),
        DisputeFeePayer := setAll (dgDisputeFeePayer gen) (DisputeFeePayer st),
        VoteCountsByGroup := setAll (dgVoteCountsByGroup gen) (VoteCountsByGroup st)\<rparr>"

text \<open>The disputes the loop does not skip, from the last to the first.\<close>

definition beingVoted :: "dispute \<Rightarrow> bool" where
  "beingVoted d \<longleftrightarrow> Open d \<and> dStatus d = Voting"

definition exportedDisputes :: "'w dispute_state \<Rightarrow> (u64 \<times> dispute) list" where
  "exportedDisputes st = filter (\<lambda>(i, d). beingVoted d) (rev (Disputes st))"

definition votedDisputes :: "'w dispute_state \<Rightarrow> dispute list" where
  "votedDisputes st = map snd (exportedDisputes st)"

definition entryOf :: "('k \<Rightarrow> 'v option) \<Rightarrow> 'k \<Rightarrow> ('k \<times> 'v) list" where
  "entryOf get k = (case get k of None \<Rightarrow> [] | Some v \<Rightarrow> [(k, v)])"

definition entriesOf :: "u64 \<Rightarrow> (u64 \<times> addr, 'v) kv \<Rightarrow> ((u64 \<times> addr) \<times> 'v) list" where
  "entriesOf did m = map (\<lambda>(a, v). ((did, a), v)) (kv_prefix did m)"

text \<open>The range of reporters whose selectors voted has the prefix \<^verbatim>\<open>nil\<close>, which is the key of the empty
  address; a dispute without vote counts is left before it.\<close>

definition votedBeforeOf :: "'w dispute_state \<Rightarrow> u64 \<Rightarrow> ((addr \<times> u64) \<times> int) list" where
  "votedBeforeOf st did =
     (if kv_has (VoteCountsByGroup st) did
      then filter (\<lambda>((a, i), n). a = [] \<and> i = did) (ReportersWithDelegatorsVotedBefore st) else [])"

definition disputeExportGenesis :: "'w dispute_state \<Rightarrow> dispute_genesis result" where
  "disputeExportGenesis st =
     (let ds = votedDisputes st in
      bindR (guardR (list_all (\<lambda>d. kv_has (BlockInfo st) (HashId d)) ds) ErrPanic) (\<lambda>_.
      case Dust st of
        None \<Rightarrow> Inl ErrPanic
      | Some dust \<Rightarrow>
          Inr \<lparr>dgTeamAddress = (case TeamAddress st of None \<Rightarrow> [] | Some a \<Rightarrow> a),
               dgDisputes = exportedDisputes st,
               dgVotes = concat (map (\<lambda>d. entryOf (kv_get (Votes st)) (DisputeId d)) ds),
               dgVoter = concat (map (\<lambda>d. entriesOf (DisputeId d) (Voter st)) ds),
               dgReportersWithDelegatorsWhoVoted = concat (map (\<lambda>d. votedBeforeOf st (DisputeId d)) ds),
               dgBlockInfo = concat (map (\<lambda>d. entryOf (kv_get (BlockInfo st)) (HashId d)) ds),
               dgDisputeFeePayer = concat (map (\<lambda>d. entriesOf (DisputeId d) (DisputeFeePayer st)) ds),
               dgDust = Some dust,
               dgVoteCountsByGroup = concat (map (\<lambda>d. entryOf (kv_get (VoteCountsByGroup st)) (DisputeId d)) ds)\<rparr>))"

definition emptyDisputes :: "'w \<Rightarrow> 'w dispute_state" where
  "emptyDisputes w = \<lparr>TeamAddress = None, Disputes = [], Votes = [], Voter = [], ReportersWithDelegatorsVotedBefore = [],
     BlockInfo = [], DisputeFeePayer = [], Dust = None, VoteCountsByGroup = [], disWorld = w\<rparr>"

section \<open>What an import restores\<close>

definition keptDispute :: "'w dispute_state \<Rightarrow> u64 \<Rightarrow> bool" where
  "keptDispute st i = (case kv_get (Disputes st) i of None \<Rightarrow> False | Some d \<Rightarrow> beingVoted d)"

text \<open>The identifiers a stored dispute carries are its key; so it is in every reachable state.\<close>

definition idsMatch :: "'w dispute_state \<Rightarrow> bool" where
  "idsMatch st \<longleftrightarrow> kv_ok (Disputes st) \<and> (\<forall>i d. kv_get (Disputes st) i = Some d \<longrightarrow> DisputeId d = i)"

lemma reachable_ids: "dispute_reachable E t st \<Longrightarrow> env_ok E \<Longrightarrow> idsMatch st \<and> kv_ok (DisputeFeePayer st)"
  using dispute_reachable_inv [of E t st] by (force simp: idsMatch_def dispute_inv_def dispute_ok_def rounds_ok_def split: option.splits)

lemma exported_mem:
  assumes "idsMatch st"
  shows "(i, d) \<in> set (exportedDisputes st) \<longleftrightarrow> kv_get (Disputes st) i = Some d \<and> beingVoted d"
  using assms by (auto simp: exportedDisputes_def idsMatch_def kv_get_mem)

lemma exported_keys:
  assumes "idsMatch st"
  shows "i \<in> fst ` set (exportedDisputes st) \<longleftrightarrow> keptDispute st i"
proof -
  have "i \<in> fst ` set (exportedDisputes st) \<longleftrightarrow> (\<exists>d. (i, d) \<in> set (exportedDisputes st))" by force
  then show ?thesis by (auto simp: exported_mem [OF assms] keptDispute_def split: option.splits)
qed

lemma exported_id:
  assumes "idsMatch st"
  shows "i \<in> DisputeId ` set (votedDisputes st) \<longleftrightarrow> keptDispute st i"
proof -
  have "DisputeId (snd e) = fst e" if "e \<in> set (exportedDisputes st)" for e
    using that exported_mem [OF assms, of "fst e" "snd e"] assms by (simp add: idsMatch_def)
  then have "DisputeId ` set (votedDisputes st) = fst ` set (exportedDisputes st)"
    by (simp add: votedDisputes_def image_image)
  then show ?thesis by (simp add: exported_keys [OF assms])
qed

lemma exported_ex: "idsMatch st \<Longrightarrow> keptDispute st i \<longleftrightarrow> (\<exists>d \<in> set (votedDisputes st). DisputeId d = i)"
  using exported_id [of st i] by auto

lemma fst_mem: "k \<in> fst ` S \<longleftrightarrow> (\<exists>v. (k, v) \<in> S)"
  by force

lemma entries_get:
  "kv_get (setAll (concat (map (\<lambda>d. entryOf f (g d)) ds)) []) k = (if k \<in> g ` set ds then f k else None)"
proof -
  let ?xs = "concat (map (\<lambda>d. entryOf f (g d)) ds)"
  have mem: "(k, v) \<in> set ?xs \<longleftrightarrow> k \<in> g ` set ds \<and> f k = Some v" for k v
    by (induction ds) (auto simp: entryOf_def split: option.splits)
  then have "k \<in> fst ` set ?xs \<longleftrightarrow> k \<in> g ` set ds \<and> f k \<noteq> None" unfolding fst_mem mem by blast
  moreover have "kv_get (setAll ?xs []) k = (if k \<in> fst ` set ?xs then f k else None)"
    by (rule setAll_agrees) (simp only: mem)
  ultimately show ?thesis by simp
qed

lemma kept_pairs:
  assumes "idsMatch st" and "kv_ok m"
  shows "kv_get (setAll (concat (map (\<lambda>d. entriesOf (DisputeId d) m) (votedDisputes st))) []) (i, a)
      = (if keptDispute st i then kv_get m (i, a) else None)"
proof -
  let ?xs = "concat (map (\<lambda>d. entriesOf (DisputeId d) m) (votedDisputes st))"
  have mem: "((j, b), v) \<in> set ?xs \<longleftrightarrow> keptDispute st j \<and> ((j, b), v) \<in> set m" for j b v
  proof -
    have "((j, b), v) \<in> set (entriesOf i m) \<longleftrightarrow> i = j \<and> ((j, b), v) \<in> set m" for i
      using kv_prefix_mem [of b v i m] by (force simp: entriesOf_def)
    then show ?thesis by (auto simp: exported_ex [OF assms(1)])
  qed
  have "kv_get m k = Some v" if "(k, v) \<in> set ?xs" for k v
    using that mem kv_get_mem [OF assms(2)] by (cases k) blast
  moreover have "(i, a) \<in> fst ` set ?xs \<longleftrightarrow> keptDispute st i \<and> kv_get m (i, a) \<noteq> None"
    unfolding fst_mem mem kv_get_mem [OF assms(2), symmetric] by blast
  moreover have "kv_get (setAll ?xs []) (i, a) = (if (i, a) \<in> fst ` set ?xs then kv_get m (i, a) else None)"
    by (rule setAll_agrees) fact
  ultimately show ?thesis by simp
qed

text \<open>An exported and imported state of the dispute module has exactly the open disputes that were
  being voted on, each with its vote, its voters, the payers of its own round, its counts and
  the totals at its block; and the dust and the team.\<close>

theorem dispute_genesis_roundtrip:
  assumes ids: "idsMatch st" and payers: "kv_ok (DisputeFeePayer st)" and "kv_ok (Voter st)" and "disputeExportGenesis st = Inr gen"
    and "st0 = disputeInitGenesis gen (emptyDisputes w)"
  shows "(\<forall>i. kv_get (Disputes st0) i = (if keptDispute st i then kv_get (Disputes st) i else None)
      \<and> kv_get (Votes st0) i = (if keptDispute st i then kv_get (Votes st) i else None)
      \<and> kv_get (VoteCountsByGroup st0) i = (if keptDispute st i then kv_get (VoteCountsByGroup st) i else None)
      \<and> (\<forall>a. kv_get (Voter st0) (i, a) = (if keptDispute st i then kv_get (Voter st) (i, a) else None)
          \<and> kv_get (DisputeFeePayer st0) (i, a) = (if keptDispute st i then kv_get (DisputeFeePayer st) (i, a) else None))
      \<and> (\<forall>d. keptDispute st i \<and> kv_get (Disputes st) i = Some d \<longrightarrow> kv_has (BlockInfo st) (HashId d)
          \<and> kv_get (BlockInfo st0) (HashId d) = kv_get (BlockInfo st) (HashId d)))
    \<and> Dust st0 = Dust st \<and> (\<forall>a. TeamAddress st = Some a \<longrightarrow> TeamAddress st0 = Some a)"
proof -
  from assms(4) obtain dust where dust: "Dust st = Some dust"
    and info: "\<forall>d \<in> set (votedDisputes st). kv_has (BlockInfo st) (HashId d)"
    by (auto simp: disputeExportGenesis_def Let_def list_all_iff split: option.splits)
  have gen: "dgTeamAddress gen = (case TeamAddress st of None \<Rightarrow> [] | Some a \<Rightarrow> a)" "dgDust gen = Some dust"
    "dgDisputes gen = exportedDisputes st"
    "dgVotes gen = concat (map (\<lambda>d. entryOf (kv_get (Votes st)) (DisputeId d)) (votedDisputes st))"
    "dgVoter gen = concat (map (\<lambda>d. entriesOf (DisputeId d) (Voter st)) (votedDisputes st))"
    "dgBlockInfo gen = concat (map (\<lambda>d. entryOf (kv_get (BlockInfo st)) (HashId d)) (votedDisputes st))"
    "dgDisputeFeePayer gen = concat (map (\<lambda>d. entriesOf (DisputeId d) (DisputeFeePayer st)) (votedDisputes st))"
    "dgVoteCountsByGroup gen = concat (map (\<lambda>d. entryOf (kv_get (VoteCountsByGroup st)) (DisputeId d)) (votedDisputes st))"
    using assms(4) dust by (auto simp: disputeExportGenesis_def Let_def)
  have "kv_get (Disputes st0) i = (if keptDispute st i then kv_get (Disputes st) i else None)" for i
    using setAll_agrees [of "exportedDisputes st" "kv_get (Disputes st)" i]
    by (simp add: assms(5) disputeInitGenesis_def emptyDisputes_def gen exported_mem [OF ids] exported_keys [OF ids])
  moreover have "kv_get (BlockInfo st0) (HashId d) = kv_get (BlockInfo st) (HashId d) \<and> kv_has (BlockInfo st) (HashId d)"
    if "keptDispute st i" "kv_get (Disputes st) i = Some d" for i d
  proof -
    have "(i, d) \<in> set (exportedDisputes st)" using that exported_mem [OF ids] by (simp add: keptDispute_def)
    then have mem: "d \<in> set (votedDisputes st)" by (force simp: votedDisputes_def)
    then show ?thesis using info by (simp add: assms(5) disputeInitGenesis_def emptyDisputes_def gen entries_get)
  qed
  moreover have "kv_get (Voter st0) (i, a) = (if keptDispute st i then kv_get (Voter st) (i, a) else None)"
    "kv_get (DisputeFeePayer st0) (i, a) = (if keptDispute st i then kv_get (DisputeFeePayer st) (i, a) else None)" for i a
    using kept_pairs [OF ids assms(3), of i a] kept_pairs [OF ids payers, of i a]
    by (simp_all add: assms(5) disputeInitGenesis_def emptyDisputes_def gen)
  moreover have "kv_get (Votes st0) i = (if keptDispute st i then kv_get (Votes st) i else None)"
    "kv_get (VoteCountsByGroup st0) i = (if keptDispute st i then kv_get (VoteCountsByGroup st) i else None)" for i
    by (simp_all add: assms(5) disputeInitGenesis_def emptyDisputes_def gen entries_get exported_id [OF ids])
  moreover have "Dust st0 = Dust st" "TeamAddress st = Some a \<Longrightarrow> TeamAddress st0 = Some a" for a
    by (simp_all add: assms(5) disputeInitGenesis_def gen dust)
  ultimately show ?thesis by simp blast
qed

section \<open>What an import loses\<close>

text \<open>C38: the record of selectors that voted before their reporters is never exported, as the range it
  is read with only holds the empty address. When the reporter votes after the import, the
  tokens of these selectors are counted a second time.\<close>

theorem import_counts_selectors_twice:
  assumes ids: "idsMatch st" and "disputeExportGenesis st = Inr gen" and "st0 = disputeInitGenesis gen (emptyDisputes (disWorld st))"
    and "keptDispute st did" and "reporter \<noteq> []" and "kv_get (ReportersWithDelegatorsVotedBefore st) (reporter, did) = Some n"
    and "kv_has (VoteCountsByGroup st) did"
    and "rkGetReporterTokensAtBlock (deReporter E) (disWorld st) reporter b = Inr tokens" and "0 \<le> n" and "n \<le> tokens" and "tokens < 2 ^ 64"
  shows "getCounts did st0 = getCounts did st
    \<and> reporterVotes E did reporter b choice None st
        = Inr (tokens - n, AddReporterVoteCount did (word_of_int (tokens - n)) choice None st)
    \<and> reporterVotes E did reporter b choice None st0
        = Inr (tokens, AddReporterVoteCount did (word_of_int tokens) choice None st0)"
proof -
  have gen: "dgReportersWithDelegatorsWhoVoted gen = concat (map (\<lambda>d. votedBeforeOf st (DisputeId d)) (votedDisputes st))"
    "dgVoteCountsByGroup gen = concat (map (\<lambda>d. entryOf (kv_get (VoteCountsByGroup st)) (DisputeId d)) (votedDisputes st))"
    using assms(2) by (auto simp: disputeExportGenesis_def Let_def split: option.splits)
  have "map_of (rev (dgReportersWithDelegatorsWhoVoted gen)) (reporter, did) = None"
    using assms(5) by (auto simp: map_of_eq_None_iff gen votedBeforeOf_def split: if_splits)
  then have "votedBefore reporter did st0 = 0"
    by (simp add: votedBefore_def assms(3) disputeInitGenesis_def emptyDisputes_def setAll_get)
  moreover have "getCounts did st0 = getCounts did st"
    using assms(4) by (simp add: entries_get exported_id [OF ids] getCounts_def assms(3) disputeInitGenesis_def emptyDisputes_def gen)
  moreover have "disWorld st0 = disWorld st" by (simp add: assms(3) disputeInitGenesis_def emptyDisputes_def)
  moreover have "votedBefore reporter did st = n" using assms(6) by (simp add: votedBefore_def)
  ultimately show ?thesis using assms(8-11) by (simp add: reporterVotes_def Uint64_def)
qed

section \<open>Evaluations\<close>

text \<open>The selector of the reporter has voted.\<close>

definition ex_selector_voted :: "ledger dispute_state" where
  "ex_selector_voted = ex_state\<lparr>ReportersWithDelegatorsVotedBefore := [((''r'', 1), 60)],
     Voter := [((1, ''s''), \<lparr>vVote = VOTE_SUPPORT, VoterPower = 60, ReporterPower = 60, RewardClaimed = False\<rparr>)],
     VoteCountsByGroup := [(1, \<lparr>svUsers = zero_counts, svReporters = zero_counts\<lparr>vcSupport := 60\<rparr>, svTeam = zero_counts\<rparr>)]\<rparr>"

lemma ex_selector_run:
  "SetVoterReporterStake ex_env (ex_ctx 1 3) 1 ''s'' 2 VOTE_SUPPORT None ex_state
    = Inr (60, ex_selector_voted\<lparr>Voter := []\<rparr>)"
  by (simp add: SetVoterReporterStake_def selectorVotes_def votedBefore_def AddReporterVoteCount_def getCounts_def setCounts_def
      record_choice_def zero_group_counts_def zero_counts_def ex_selector_voted_def ex_defs kv_get_def Uint64_def Let_def)

definition ex_dispute_genesis :: dispute_genesis where
  "ex_dispute_genesis = (case disputeExportGenesis ex_selector_voted of
     Inr gen \<Rightarrow> gen
   | Inl _ \<Rightarrow> \<lparr>dgTeamAddress = [], dgDisputes = [], dgVotes = [], dgVoter = [], dgReportersWithDelegatorsWhoVoted = [], dgBlockInfo = [],
       dgDisputeFeePayer = [], dgDust = None, dgVoteCountsByGroup = []\<rparr>)"

lemma ex_dispute_export: "disputeExportGenesis ex_selector_voted = Inr ex_dispute_genesis"
  by (simp add: ex_dispute_genesis_def disputeExportGenesis_def votedDisputes_def exportedDisputes_def beingVoted_def Let_def
      ex_selector_voted_def ex_state_def ex_dispute_def kv_has_def kv_get_def)

lemma ex_ids: "idsMatch ex_selector_voted" "keptDispute ex_selector_voted 1"
  by (auto simp: idsMatch_def keptDispute_def beingVoted_def ex_selector_voted_def ex_state_def ex_dispute_def kv_get_def kv_ok_def split: if_splits)

theorem dispute_genesis_roundtrip_witness:
  "kv_get (Disputes (disputeInitGenesis ex_dispute_genesis (emptyDisputes ()))) 1 = Some ex_dispute"
proof -
  have stores: "kv_ok (DisputeFeePayer ex_selector_voted)" "kv_ok (Voter ex_selector_voted)"
    and get: "kv_get (Disputes ex_selector_voted) 1 = Some ex_dispute"
    by (simp_all add: ex_selector_voted_def ex_state_def kv_ok_def kv_get_def)
  show ?thesis
    using dispute_genesis_roundtrip [OF ex_ids(1) stores ex_dispute_export refl, of "()"] get ex_ids(2) by (metis (no_types, lifting))
qed

theorem import_counts_selectors_twice_witness:
  "reporterVotes ex_env 1 ''r'' 2 VOTE_SUPPORT None ex_selector_voted
      = Inr (40, AddReporterVoteCount 1 40 VOTE_SUPPORT None ex_selector_voted)
    \<and> reporterVotes ex_env 1 ''r'' 2 VOTE_SUPPORT None (disputeInitGenesis ex_dispute_genesis (emptyDisputes (disWorld ex_selector_voted)))
      = Inr (100, AddReporterVoteCount 1 100 VOTE_SUPPORT None (disputeInitGenesis ex_dispute_genesis (emptyDisputes (disWorld ex_selector_voted))))"
proof -
  have "kv_get (ReportersWithDelegatorsVotedBefore ex_selector_voted) (''r'', 1) = Some 60" "kv_has (VoteCountsByGroup ex_selector_voted) 1"
    by (simp_all add: ex_selector_voted_def kv_get_def kv_has_def)
  moreover have "rkGetReporterTokensAtBlock (deReporter ex_env) (disWorld ex_selector_voted) ''r'' 2 = Inr 100"
    by (simp add: ex_env_def ex_reporter_def)
  ultimately show ?thesis
    using import_counts_selectors_twice [OF ex_ids(1) ex_dispute_export refl ex_ids(2), of "''r''" 60 ex_env 2 100 VOTE_SUPPORT] by simp
qed

end
