(* ===== verification/OracleTypes.thy ===== *)
theory OracleTypes
  imports KVStore Decimal Bank Registry
begin

text \<open>
  Data of the oracle module (\<^verbatim>\<open>x/oracle\<close>): its stored types, the keeper's collections and
  the interfaces of the keepers it calls (\<^verbatim>\<open>types/expected_keepers.go\<close>), as records of
  functions over the state \<open>'w\<close> of the rest of the chain.

  A collection of pairs or triples of keys is ordered lexicographically. Amounts of the
  protobuf type \<^verbatim>\<open>math.Int\<close> that were never set are zero, as their encoding is. Query data
  read back from the store is \<^verbatim>\<open>nil\<close> exactly when it is empty.
\<close>

section \<open>Errors and writes\<close>

text \<open>An operation that keeps what it wrote before it failed: the caller of a Go function
  that returns an error sees the writes made so far, and only the failure of the whole
  message undoes them.\<close>

type_synonym 's run = "error option \<times> 's"

definition resultOf :: "'s run \<Rightarrow> 's result" where
  "resultOf r = (case r of (None, s) \<Rightarrow> Inr s | (Some e, _) \<Rightarrow> Inl e)"

definition runOf :: "'s \<Rightarrow> 's result \<Rightarrow> 's run" where
  "runOf s m = (case m of Inl e \<Rightarrow> (Some e, s) | Inr s' \<Rightarrow> (None, s'))"

lemma resultOf_Inr [simp]: "resultOf r = Inr s \<longleftrightarrow> r = (None, s)"
  by (cases r) (auto simp: resultOf_def split: option.splits)

lemma resultOf_runOf [simp]: "resultOf (runOf s m) = m"
  by (cases m) (simp_all add: resultOf_def runOf_def)

section \<open>Stored types\<close>

record query_meta =
  qmId :: u64
  qmAmount :: int
  qmExpiration :: u64
  RegistrySpecBlockWindow :: u64
  HasRevealedReports :: bool
  qmQueryData :: bytes
  qmQueryType :: string
  qmCycleList :: bool

record aggregate =
  agQueryId :: bytes
  AggregateValueOf :: string
  AggregateReporter :: string
  AggregatePower :: u64
  Flagged :: bool
  agIndex :: u64
  agHeight :: u64
  MicroHeight :: u64
  agMetaId :: u64

text \<open>\<^verbatim>\<open>types.Value\<close>: the power behind one reported value and the last report of it;
  \<open>None\<close> is the nil pointer of a fresh entry.\<close>

record value_entry =
  veCrossoverWeight :: u64
  veMicroReport :: "micro_report option"

record running_aggregate =
  raValue :: string
  raCrossoverWeight :: u64

record oracle_params =
  MinStakeAmount :: int
  MinTipAmount :: int
  MaxTipAmount :: int
  LivenessCycles :: u64

definition DefaultMaxTipAmount :: int where
  "DefaultMaxTipAmount = 25000000"

definition oracleDefaultParams :: oracle_params where
  "oracleDefaultParams = \<lparr>MinStakeAmount = 1000000, MinTipAmount = 10000,
     MaxTipAmount = DefaultMaxTipAmount, LivenessCycles = 1\<rparr>"

definition validateOracleParams :: "oracle_params \<Rightarrow> unit result" where
  "validateOracleParams p =
     (if MinStakeAmount p \<le> 0 then Inl (Err ''min stake amount must be greater than 0'')
      else if MinTipAmount p \<le> 0 then Inl (Err ''min tip amount must be greater than 0'')
      else if MaxTipAmount p \<le> 0 then Inl (Err ''max tip amount must be greater than 0'')
      else if LivenessCycles p = 0 then Inl (Err ''liveness cycles must be greater than 0'')
      else Inr ())"

section \<open>The keeper's state\<close>

text \<open>Sequences hold the number their \<^verbatim>\<open>Next\<close> returns; they start at 0. \<open>orcWorld\<close> is the
  state of the rest of the chain.\<close>

record 'w oracle_state =
  orcParams :: "oracle_params option"
  MaxBatchSize :: "nat option"
  CyclelistSequencer :: u64
  TipperTotal :: "(addr \<times> u64, int) kv"
  TotalTips :: "(u64, int) kv"
  Nonces :: "(bytes, u64) kv"
  Reports :: "(bytes \<times> addr \<times> u64, micro_report) kv"
  QuerySequencer :: u64
  Query :: "(bytes \<times> u64, query_meta) kv"
  Aggregates :: "(bytes \<times> u64, aggregate) kv"
  Cyclelist :: "(bytes, bytes) kv"
  QueryDataLimit :: "u64 option"
  Values :: "(u64 \<times> string, value_entry) kv"
  AggregateValue :: "(u64, running_aggregate) kv"
  ValuesWeightSum :: "(u64, u64) kv"
  BridgeDepositQueue :: "(u64 \<times> u64, bytes) kv"
  CycleCount :: u64
  livenessDust :: "int option"
  QueryOpportunities :: "(bytes, u64) kv"
  ReporterQueryShareSum :: "(bytes \<times> addr, dec) kv"
  ReporterStandardShareSum :: "(addr, dec) kv"
  NonStandardQueries :: "(bytes, bool) kv"
  StandardOpportunities :: "u64 option"
  TotalAggregatesCount :: "u64 option"
  ReporterAggregatesCount :: "(addr, u64) kv"
  ReporterLastReportTime :: "(addr, int) kv"
  orcWorld :: 'w

text \<open>A keeper with nothing stored.\<close>

definition emptyOracle :: "'w \<Rightarrow> 'w oracle_state" where
  "emptyOracle w = \<lparr>orcParams = None, MaxBatchSize = None, CyclelistSequencer = 0, TipperTotal = [],
     TotalTips = [], Nonces = [], Reports = [], QuerySequencer = 0, Query = [], Aggregates = [],
     Cyclelist = [], QueryDataLimit = None, Values = [], AggregateValue = [], ValuesWeightSum = [],
     BridgeDepositQueue = [], CycleCount = 0, livenessDust = None, QueryOpportunities = [],
     ReporterQueryShareSum = [], ReporterStandardShareSum = [], NonStandardQueries = [],
     StandardOpportunities = None, TotalAggregatesCount = None, ReporterAggregatesCount = [],
     ReporterLastReportTime = [], orcWorld = w\<rparr>"

section \<open>Interfaces\<close>

record 'w o_reporter_iface =
  orkReporterStake :: "ctx \<Rightarrow> addr \<Rightarrow> bytes \<Rightarrow> 'w \<Rightarrow> (int \<times> 'w) result"
  orkGetReporterStake :: "ctx \<Rightarrow> addr \<Rightarrow> 'w \<Rightarrow> (int \<times> token_origin_info list \<times> 'w) result"
  orkSetReporterStakeByQueryId :: "ctx \<Rightarrow> addr \<Rightarrow> token_origin_info list \<Rightarrow> int \<Rightarrow> bytes \<Rightarrow> 'w \<Rightarrow> 'w result"
  orkDivvyingTips :: "ctx \<Rightarrow> addr \<Rightarrow> dec \<Rightarrow> 'w \<Rightarrow> 'w result"
  orkGetLastReportedAtBlock :: "ctx \<Rightarrow> 'w \<Rightarrow> addr \<Rightarrow> u64 result"

text \<open>A claim looks the aggregate of the deposit up in the oracle that calls it: the lookup is an
  argument of the call.\<close>

record 'w o_bridge_iface =
  obkGetDepositStatus :: "'w \<Rightarrow> u64 \<Rightarrow> bool result"
  obkClaimDeposit :: "ctx \<Rightarrow> (bytes \<Rightarrow> u64 \<Rightarrow> aggregate result) \<Rightarrow> u64 \<Rightarrow> u64 \<Rightarrow> 'w \<Rightarrow> 'w run"

text \<open>
  What the keeper is built with. \<open>oeMapOrder\<close> is the order in which Go walks the map of
  rewards, which the language leaves open; \<open>oeAccString\<close> prints an address
  (\<^verbatim>\<open>AccAddress.String\<close>).
\<close>

record 'w oracle_env =
  oeAuthority :: string
  oeBank :: "'w bank_keeper"
  oeReporter :: "'w o_reporter_iface"
  oeBridge :: "'w o_bridge_iface"
  oeGetSpec :: "'w \<Rightarrow> string \<Rightarrow> data_spec result"
  oeUnpack :: abi_unpack
  oeKeccak :: "bytes \<Rightarrow> bytes"
  oeDec :: dec_ops
  oeAccAddressFromBech32 :: "string \<Rightarrow> addr result"
  oeAccString :: "addr \<Rightarrow> string"
  oeMapOrder :: "(addr \<times> dec) list \<Rightarrow> (addr \<times> dec) list"

abbreviation queryIdOf :: "'w oracle_env \<Rightarrow> bytes \<Rightarrow> bytes" where
  "queryIdOf env d \<equiv> QueryIDFromData (oeKeccak env) d"

abbreviation heightOf :: "ctx \<Rightarrow> u64" where
  "heightOf c \<equiv> toU64 (BlockHeight c)"

definition oracleModule :: string where "oracleModule = ''oracle''"

definition tipsEscrowPool :: string where "tipsEscrowPool = ''tips_escrow_pool''"

definition timeBasedRewards :: string where "timeBasedRewards = ''time_based_rewards''"

definition TRBBridgeQueryType :: string where "TRBBridgeQueryType = ''TRBBridge''"

definition TRBBridgeV2QueryType :: string where "TRBBridgeV2QueryType = ''TRBBridgeV2''"

definition TRBBridgeMarkerQueryId :: bytes where "TRBBridgeMarkerQueryId = ''TRBBridge''"

definition isBridgeType :: "string \<Rightarrow> bool" where
  "isBridgeType qt \<longleftrightarrow> equalFold qt TRBBridgeV2QueryType \<or> equalFold qt TRBBridgeQueryType"

end
