(* ===== verification/OracleAggregate.thy ===== *)
theory OracleAggregate
  imports OracleTypes
begin

text \<open>
  Aggregation of the oracle (\<^verbatim>\<open>submit_value.go\<close>, \<^verbatim>\<open>aggregate.go\<close>): the running weighted median
  and weighted mode a query keeps while reports arrive, the storing of the final aggregate,
  and the lookups of stored aggregates by time, height and reporter.
\<close>

section \<open>Running aggregates\<close>

text \<open>Both aggregation methods first add the report to the weight of its value and to the
  total of the query; the new total is returned too.\<close>

definition addWeight :: "u64 \<Rightarrow> string \<Rightarrow> micro_report \<Rightarrow> 'w oracle_state \<Rightarrow> value_entry \<times> u64 \<times> 'w oracle_state" where
  "addWeight i v report st =
     (let existing = kv_get_or \<lparr>veCrossoverWeight = 0, veMicroReport = None\<rparr> (Values st) (i, v);
          existing = existing\<lparr>veCrossoverWeight := veCrossoverWeight existing + mrPower report,
                              veMicroReport := Some report\<rparr>;
          totalPower = kv_get_or 0 (ValuesWeightSum st) i + mrPower report
      in (existing, totalPower,
          st\<lparr>Values := kv_set (i, v) existing (Values st),
             ValuesWeightSum := kv_set i totalPower (ValuesWeightSum st)\<rparr>))"

definition setAggregateValue :: "u64 \<Rightarrow> string \<Rightarrow> u64 \<Rightarrow> 'w oracle_state \<Rightarrow> 'w oracle_state" where
  "setAggregateValue i v w st =
     st\<lparr>AggregateValue := kv_set i \<lparr>raValue = v, raCrossoverWeight = w\<rparr> (AggregateValue st)\<rparr>"

text \<open>The loop of \<^verbatim>\<open>TraverseLeft\<close> over the entries up to the median, from the highest
  down. Go tests for the entry of the median itself only to keep its name, so both of its
  branches return the current key.\<close>

fun leftLoop :: "string \<Rightarrow> u64 \<Rightarrow> (string \<times> u64) list \<Rightarrow> u64 \<Rightarrow> string \<times> u64" where
  "leftLoop medianValue halfTotal [] crossoverWeight = (medianValue, crossoverWeight)"
| "leftLoop medianValue halfTotal ((leftkey, leftPower) # rest) crossoverWeight =
     (let crossoverWeight = crossoverWeight - leftPower in
      if leftkey = medianValue then
        if crossoverWeight < halfTotal then (medianValue, crossoverWeight + leftPower)
        else leftLoop medianValue halfTotal rest crossoverWeight
      else
        if crossoverWeight < halfTotal then (leftkey, crossoverWeight + leftPower)
        else leftLoop medianValue halfTotal rest crossoverWeight)"

fun rightLoop :: "u64 \<Rightarrow> u64 \<Rightarrow> (string \<times> u64) list \<Rightarrow> string \<Rightarrow> u64 \<Rightarrow> string \<times> u64" where
  "rightLoop incomingWeight halfTotal [] medianValue crossoverWeight = (medianValue, crossoverWeight)"
| "rightLoop incomingWeight halfTotal ((rightkey, rightPower) # rest) medianValue crossoverWeight =
     (let crossoverWeight = crossoverWeight + rightPower in
      if crossoverWeight < halfTotal then rightLoop incomingWeight halfTotal rest rightkey crossoverWeight
      else if incomingWeight = crossoverWeight then (medianValue, incomingWeight)
      else (rightkey, crossoverWeight))"

definition valueWeights :: "'w oracle_state \<Rightarrow> u64 \<Rightarrow> (string \<times> u64) list" where
  "valueWeights st i = map (\<lambda>(v, e). (v, veCrossoverWeight e)) (kv_prefix i (Values st))"

definition TraverseLeft :: "u64 \<Rightarrow> string \<Rightarrow> u64 \<Rightarrow> u64 \<Rightarrow> 'w oracle_state \<Rightarrow> 'w oracle_state" where
  "TraverseLeft i medianValue crossoverWeight halfTotal st =
     (let (v, w) = leftLoop medianValue halfTotal
            (rev (filter (\<lambda>e. fst e \<le> medianValue) (valueWeights st i))) crossoverWeight
      in setAggregateValue i v w st)"

definition TraverseRight :: "u64 \<Rightarrow> string \<Rightarrow> u64 \<Rightarrow> u64 \<Rightarrow> 'w oracle_state \<Rightarrow> 'w oracle_state" where
  "TraverseRight i medianValue crossoverWeight halfTotal st =
     (let (v, w) = rightLoop crossoverWeight halfTotal
            (filter (\<lambda>e. medianValue < fst e) (valueWeights st i)) medianValue crossoverWeight
      in setAggregateValue i v w st)"

definition AddReport :: "u64 \<Rightarrow> micro_report \<Rightarrow> 'w oracle_state \<Rightarrow> 'w oracle_state result" where
  "AddReport i report st =
     bindR (FormatUint256 (mrValue report)) (\<lambda>v.
     let power' = mrPower report;
         (_, totalPower, st) = addWeight i v report st;
         halfTotal = totalPower div 2
     in case kv_get (AggregateValue st) i of
          None \<Rightarrow> Inr (setAggregateValue i v power' st)
        | Some currentMedian \<Rightarrow>
            let crossoverPower = raCrossoverWeight currentMedian in
            if v < raValue currentMedian then
              let crossoverPower = crossoverPower + power' in
              if halfTotal \<le> crossoverPower
              then Inr (TraverseLeft i (raValue currentMedian) crossoverPower halfTotal st)
              else Inr st
            else if raValue currentMedian < v then
              if crossoverPower < halfTotal
              then Inr (TraverseRight i (raValue currentMedian) crossoverPower halfTotal st)
              else Inr st
            else Inr (setAggregateValue i (raValue currentMedian) (crossoverPower + power') st))"

definition AddReportWeightedMode :: "u64 \<Rightarrow> micro_report \<Rightarrow> 'w oracle_state \<Rightarrow> 'w oracle_state result" where
  "AddReportWeightedMode i report st =
     (let v = mrValue report;
          (existing, _, st) = addWeight i v report st
      in case kv_get (AggregateValue st) i of
           None \<Rightarrow> Inr (setAggregateValue i v (mrPower report) st)
         | Some currentMedian \<Rightarrow>
             if equalFold (raValue currentMedian) v
             then Inr (setAggregateValue i v (veCrossoverWeight existing) st)
             else if raCrossoverWeight currentMedian < veCrossoverWeight existing
             then Inr (setAggregateValue i v (veCrossoverWeight existing) st)
             else Inr st)"

section \<open>Storing an aggregate\<close>

definition SetAggregate ::
  "ctx \<Rightarrow> aggregate \<Rightarrow> bytes \<Rightarrow> string \<Rightarrow> 'w oracle_state \<Rightarrow> aggregate \<times> 'w oracle_state" where
  "SetAggregate c report queryData queryType st =
     (let nonce = kv_get_or 0 (Nonces st) (agQueryId report) + 1;
          st = st\<lparr>Nonces := kv_set (agQueryId report) nonce (Nonces st)\<rparr>;
          currentTimestamp = toU64 (unixMilli (BlockTime c));
          report = report\<lparr>agIndex := nonce, agHeight := heightOf c\<rparr>;
          st = (if isBridgeType queryType
                then st\<lparr>BridgeDepositQueue :=
                       kv_set (currentTimestamp, agMetaId report) queryData (BridgeDepositQueue st)\<rparr>
                else st)
      in (report, st\<lparr>Aggregates := kv_set (agQueryId report, currentTimestamp) report (Aggregates st)\<rparr>))"

definition AggregateReport ::
  "ctx \<Rightarrow> u64 \<Rightarrow> bytes \<Rightarrow> 'w oracle_state \<Rightarrow> (aggregate \<times> 'w oracle_state) result" where
  "AggregateReport c i queryData st =
     bindR (getR (kv_get (AggregateValue st) i)) (\<lambda>median.
     bindR (getR (kv_get (Values st) (i, raValue median))) (\<lambda>aggregateValue.
     bindR (getR (kv_get (ValuesWeightSum st) i)) (\<lambda>tPower.
     case veMicroReport aggregateValue of
       None \<Rightarrow> Inl ErrPanic
     | Some microReport \<Rightarrow>
         Inr (SetAggregate c
           \<lparr>agQueryId = mrQueryId microReport, AggregateValueOf = mrValue microReport,
            AggregateReporter = mrReporter microReport, AggregatePower = tPower, Flagged = False,
            agIndex = 0, agHeight = 0, MicroHeight = mrBlockNumber microReport, agMetaId = i\<rparr>
           queryData (mrQueryType microReport) st))))"

definition cleanupAggregationData :: "u64 \<Rightarrow> 'w oracle_state \<Rightarrow> 'w oracle_state" where
  "cleanupAggregationData metaId st =
     (let keysToRemove = map fst (kv_prefix metaId (Values st))
      in st\<lparr>Values := fold (\<lambda>k. kv_del (metaId, k)) keysToRemove (Values st),
            AggregateValue := kv_del metaId (AggregateValue st),
            ValuesWeightSum := kv_del metaId (ValuesWeightSum st)\<rparr>)"

section \<open>Lookups\<close>

text \<open>The aggregates of a query by timestamp, ascending.\<close>

definition aggregatesOf :: "'w oracle_state \<Rightarrow> bytes \<Rightarrow> (u64 \<times> aggregate) list" where
  "aggregatesOf st queryId = kv_prefix queryId (Aggregates st)"

definition GetTimestampBefore :: "'w oracle_state \<Rightarrow> bytes \<Rightarrow> time \<Rightarrow> time result" where
  "GetTimestampBefore st queryId timestamp =
     (let mostRecent = (case firstOf (rev (filter (\<lambda>e. fst e < toU64 (unixMilli timestamp)) (aggregatesOf st queryId))) of
            None \<Rightarrow> 0 | Some e \<Rightarrow> fst e)
      in if mostRecent = 0 then Inl (Err ''no data before timestamp available'')
         else Inr (timeOfMilli mostRecent))"

definition GetTimestampAfter :: "'w oracle_state \<Rightarrow> bytes \<Rightarrow> time \<Rightarrow> time result" where
  "GetTimestampAfter st queryId timestamp =
     (let mostRecent = (case firstOf (filter (\<lambda>e. toU64 (unixMilli timestamp) < fst e) (aggregatesOf st queryId)) of
            None \<Rightarrow> 0 | Some e \<Rightarrow> fst e)
      in if mostRecent = 0 then Inl (Err ''no data before timestamp available'')
         else Inr (timeOfMilli mostRecent))"

definition GetAggregatedReportsByHeight :: "'w oracle_state \<Rightarrow> u64 \<Rightarrow> aggregate list" where
  "GetAggregatedReportsByHeight st h = filter (\<lambda>a. agHeight a = h) (map snd (Aggregates st))"

definition GetCurrentAggregateReport :: "'w oracle_state \<Rightarrow> bytes \<Rightarrow> (aggregate \<times> time) result" where
  "GetCurrentAggregateReport st queryId =
     (case firstOf (rev (aggregatesOf st queryId)) of
        None \<Rightarrow> Inl (Err ''aggregate not found'')
      | Some (t, a) \<Rightarrow> Inr (a, timeOfMilli t))"

definition GetAggregateBefore :: "'w oracle_state \<Rightarrow> bytes \<Rightarrow> time \<Rightarrow> (aggregate \<times> time) result" where
  "GetAggregateBefore st queryId timestampBefore =
     (case find (\<lambda>e. \<not> Flagged (snd e))
             (rev (filter (\<lambda>e. fst e < toU64 (unixMilli timestampBefore)) (aggregatesOf st queryId))) of
        None \<Rightarrow> Inl (Err ''no aggregate report found before timestamp'')
      | Some (t, a) \<Rightarrow> Inr (a, timeOfMilli t))"

definition GetAggregateAfter :: "'w oracle_state \<Rightarrow> bytes \<Rightarrow> time \<Rightarrow> (aggregate \<times> time) result" where
  "GetAggregateAfter st queryId timestampAfter =
     (case find (\<lambda>e. \<not> Flagged (snd e))
             (filter (\<lambda>e. toU64 (unixMilli timestampAfter) < fst e) (aggregatesOf st queryId)) of
        None \<Rightarrow> Inl (Err ''no aggregate report found after timestamp'')
      | Some (t, a) \<Rightarrow> Inr (a, timeOfMilli t))"

definition GetAggregateByTimestamp :: "'w oracle_state \<Rightarrow> bytes \<Rightarrow> u64 \<Rightarrow> aggregate result" where
  "GetAggregateByTimestamp st queryId timestamp = getR (kv_get (Aggregates st) (queryId, timestamp))"

text \<open>The walk of \<^verbatim>\<open>GetAggregateBeforeByReporter\<close>: the reporter of an unflagged aggregate
  must parse.\<close>

fun walkByReporter :: "(string \<Rightarrow> addr result) \<Rightarrow> addr \<Rightarrow> aggregate list \<Rightarrow> aggregate option result" where
  "walkByReporter bech reporter [] = Inr None"
| "walkByReporter bech reporter (a # rest) =
     (if Flagged a then walkByReporter bech reporter rest
      else case bech (AggregateReporter a) of
             Inl _ \<Rightarrow> Inl ErrPanic
           | Inr r \<Rightarrow> if r = reporter then Inr (Some a) else walkByReporter bech reporter rest)"

definition GetAggregateBeforeByReporter ::
  "'w oracle_env \<Rightarrow> 'w oracle_state \<Rightarrow> bytes \<Rightarrow> time \<Rightarrow> addr \<Rightarrow> aggregate option result" where
  "GetAggregateBeforeByReporter env st queryId timestamp reporter =
     walkByReporter (oeAccAddressFromBech32 env) reporter
       (map snd (rev (filter (\<lambda>e. fst e < toU64 (unixMilli timestamp)) (aggregatesOf st queryId))))"

text \<open>The keys of the height index up to a height, the highest first: the first entry of a
  descending walk.\<close>

definition lastAtHeight :: "'w oracle_state \<Rightarrow> u64 \<Rightarrow> (u64 \<times> bytes \<times> u64) option" where
  "lastAtHeight st h =
     firstOf (rev (sort (filter (\<lambda>e. fst e \<le> h) (map (\<lambda>(k, a). (agHeight a, k)) (Aggregates st)))))"

definition GetLastReportedAtTimestamp :: "'w oracle_env \<Rightarrow> ctx \<Rightarrow> 'w oracle_state \<Rightarrow> addr \<Rightarrow> u64 result" where
  "GetLastReportedAtTimestamp env c st reporter =
     (case orkGetLastReportedAtBlock (oeReporter env) c (orcWorld st) reporter of
        Inl _ \<Rightarrow> Inl (Err ''error getting last reported block'')
      | Inr reportedAtBlock \<Rightarrow>
          let timestamp = (case lastAtHeight st reportedAtBlock of None \<Rightarrow> 0 | Some (_, _, t) \<Rightarrow> t)
          in if timestamp = 0 \<and> reportedAtBlock \<noteq> 0 then Inl (Err ''no reports found'') else Inr timestamp)"

definition GetTimestampForBlockHeight :: "'w oracle_state \<Rightarrow> u64 \<Rightarrow> u64" where
  "GetTimestampForBlockHeight st blockHeight =
     (case firstOf (filter (\<lambda>(k, a). agHeight a = blockHeight) (Aggregates st)) of
        None \<Rightarrow> 0 | Some (k, _) \<Rightarrow> snd k)"

definition ethUsdQueryId :: bytes where
  "ethUsdQueryId = projr (hexDecode ''83a7f3d48786ac2667503a61e8c415438ed2922eb86a2906e4ee66d9a2ce4992'')"

definition GetBlockHeightFromTimestamp :: "'w oracle_state \<Rightarrow> time \<Rightarrow> u64 result" where
  "GetBlockHeightFromTimestamp st timestamp =
     bindR (GetTimestampBefore st ethUsdQueryId timestamp) (\<lambda>aggTimestamp.
     bindR (GetAggregateByTimestamp st ethUsdQueryId (toU64 (unixMilli aggTimestamp))) (\<lambda>agg.
     Inr (agHeight agg)))"

section \<open>Calls of the dispute module\<close>

text \<open>The aggregates a report became the median of, found by its reporter, query and height;
  the first of them is flagged.\<close>

definition FlagAggregateReport ::
  "'w oracle_env \<Rightarrow> micro_report \<Rightarrow> 'w oracle_state \<Rightarrow> 'w oracle_state result" where
  "FlagAggregateReport env report st =
     (case oeAccAddressFromBech32 env (mrReporter report) of
        Inl _ \<Rightarrow> Inl ErrPanic
      | Inr reporter \<Rightarrow>
          case firstOf (filter (\<lambda>(k, a). oeAccAddressFromBech32 env (AggregateReporter a) = Inr reporter
                   \<and> agQueryId a = mrQueryId report \<and> MicroHeight a = mrBlockNumber report) (Aggregates st)) of
            None \<Rightarrow> Inr st
          | Some (k, a) \<Rightarrow> Inr (st\<lparr>Aggregates := kv_set k (a\<lparr>Flagged := True\<rparr>) (Aggregates st)\<rparr>))"

definition ValidateMicroReportExists :: "'w oracle_state \<Rightarrow> addr \<Rightarrow> u64 \<Rightarrow> bytes \<Rightarrow> micro_report option" where
  "ValidateMicroReportExists st reporter meta_id query_id = kv_get (Reports st) (query_id, reporter, meta_id)"

end
