(* ===== verification/OracleMedian.thy ===== *)
theory OracleMedian
  imports OracleAggregate "HOL-Library.Multiset"
begin

text \<open>
  Correctness of the running weighted median. The reference \<open>medianOf\<close> looks at the final
  weights only: the first value, in ascending order, at which the weights add up to half of
  the total. The incremental routine of the code, which moves a cursor left or right at
  every report, computes the same value for every sequence of reports with positive power
  whose total fits 64 bits; hence the order in which reports arrive does not matter.
\<close>

section \<open>Reference definition\<close>

fun firstReaching :: "int \<Rightarrow> int \<Rightarrow> (string \<times> int) list \<Rightarrow> string option" where
  "firstReaching h acc [] = None"
| "firstReaching h acc ((v, w) # xs) = (if h \<le> acc + w then Some v else firstReaching h (acc + w) xs)"

abbreviation weight_sum :: "('k \<times> int) list \<Rightarrow> int" where
  "weight_sum xs \<equiv> sum_list (map snd xs)"

definition medianOf :: "(string \<times> int) list \<Rightarrow> string option" where
  "medianOf xs = firstReaching (weight_sum xs div 2) 0 xs"

text \<open>A value cut out of an ascending list of weights: those below it, its own, and those
  above.\<close>

definition median_split :: "(string \<times> int) list \<Rightarrow> string \<Rightarrow> int \<Rightarrow> int \<Rightarrow> bool" where
  "median_split xs m c h \<longleftrightarrow> (\<exists>A w B. xs = A @ (m, w) # B \<and> c = weight_sum A + w
     \<and> h \<le> c \<and> (weight_sum A < h \<or> A = []))"

lemma weight_sum_nonneg: "(\<And>e. e \<in> set xs \<Longrightarrow> 0 < snd e) \<Longrightarrow> 0 \<le> weight_sum xs"
  by (induction xs) (auto intro: add_nonneg_nonneg less_imp_le)

lemma firstReaching_split:
  assumes "\<And>e. e \<in> set A \<Longrightarrow> 0 < snd e" and "acc + weight_sum A < h \<or> A = []" and "h \<le> acc + weight_sum A + w"
  shows "firstReaching h acc (A @ (m, w) # B) = Some m"
  using assms
proof (induction A arbitrary: acc)
  case Nil
  then show ?case by simp
next
  case (Cons e A)
  have "0 \<le> weight_sum A" using Cons.prems(1) by (intro weight_sum_nonneg) simp
  moreover have "acc + (snd e + weight_sum A) < h" using Cons.prems(2) by simp
  moreover have "acc + (snd e + weight_sum A) = acc + snd e + weight_sum A" by simp
  ultimately have "acc + snd e < h" and "acc + snd e + weight_sum A < h" by linarith+
  then show ?case using Cons.IH [of "acc + snd e"] Cons.prems by (cases e) simp
qed

lemma median_split_medianOf:
  assumes "\<And>e. e \<in> set xs \<Longrightarrow> 0 < snd e" and "median_split xs m c (weight_sum xs div 2)"
  shows "medianOf xs = Some m"
proof -
  obtain A w B where "xs = A @ (m, w) # B" "c = weight_sum A + w" "weight_sum xs div 2 \<le> c"
    "weight_sum A < weight_sum xs div 2 \<or> A = []" using assms(2) unfolding median_split_def by blast
  then show ?thesis using assms(1) firstReaching_split [of A 0 "weight_sum xs div 2" w m B]
    by (auto simp: medianOf_def)
qed

section \<open>The two traversals\<close>

abbreviation uweights :: "('k \<times> u64) list \<Rightarrow> ('k \<times> int) list" where
  "uweights xs \<equiv> map (\<lambda>(v, w). (v, uint w)) xs"

lemma uweight_sum_nonneg: "0 \<le> weight_sum (uweights xs)"
  by (induction xs) auto

lemma uint_sub_part:
  assumes "uint (c :: u64) = uint w + r" and "0 \<le> r"
  shows "uint (c - w) = r"
  using uint_sub_no_underflow [of w c] assms by simp

lemma leftLoop_split:
  assumes "leftLoop m h xs c = (k, c')" and "uint c = weight_sum (uweights xs)"
    and "0 < uint h" and "uint h \<le> uint c"
  shows "\<exists>X w Y. xs = X @ (k, w) # Y \<and> uint c' = uint w + weight_sum (uweights Y)
    \<and> weight_sum (uweights Y) < uint h \<and> uint h \<le> uint c'"
  using assms
proof (induction xs arbitrary: c)
  case Nil
  then show ?case by simp
next
  case (Cons e xs)
  obtain v w where e: "e = (v, w)" by (cases e)
  have c: "uint c = uint w + weight_sum (uweights xs)" using Cons.prems(2) by (simp add: e)
  then have d: "uint (c - w) = weight_sum (uweights xs)" by (rule uint_sub_part) (rule uweight_sum_nonneg)
  show ?case
  proof (cases "c - w < h")
    case True
    then have "k = v" and "c' = c" using Cons.prems(1) by (auto simp: e Let_def split: if_splits)
    moreover have "weight_sum (uweights xs) < uint h" using True d by (simp add: word_less_def)
    ultimately show ?thesis using Cons.prems(4) c by (intro exI [of _ "[]"]) (auto simp: e)
  next
    case False
    then have run: "leftLoop m h xs (c - w) = (k, c')" using Cons.prems(1) by (auto simp: e Let_def split: if_splits)
    have "uint h \<le> uint (c - w)" using False by (simp add: word_less_def)
    from Cons.IH [OF run d Cons.prems(3) this] obtain X u Y where "xs = X @ (k, u) # Y"
      "uint c' = uint u + weight_sum (uweights Y)" "weight_sum (uweights Y) < uint h" "uint h \<le> uint c'"
      by blast
    then show ?thesis by (intro exI [of _ "e # X"]) auto
  qed
qed

lemma rightLoop_split:
  assumes "rightLoop c0 h xs m c = (k, c')" and "uint c + weight_sum (uweights xs) < 2 ^ 64"
    and "uint c < uint h" and "uint h \<le> uint c + weight_sum (uweights xs)"
    and "\<And>e. e \<in> set xs \<Longrightarrow> 0 < uint (snd e)" and "uint c0 \<le> uint c"
  shows "\<exists>X w Y. xs = X @ (k, w) # Y \<and> uint c' = uint c + weight_sum (uweights X) + uint w
    \<and> uint c + weight_sum (uweights X) < uint h \<and> uint h \<le> uint c'"
  using assms
proof (induction xs arbitrary: m c)
  case Nil
  then show ?case by simp
next
  case (Cons e xs)
  obtain v w where e: "e = (v, w)" by (cases e)
  have w0: "0 < uint w" using Cons.prems(5) [of e] by (simp add: e)
  have n: "0 \<le> weight_sum (uweights xs)" by (rule uweight_sum_nonneg)
  have "uint c + (uint w + weight_sum (uweights xs)) < 2 ^ 64" using Cons.prems(2) by (simp add: e)
  with n have u: "uint (c + w) = uint c + uint w" by (intro uint_add_no_overflow) linarith
  then have ne: "c0 \<noteq> c + w" using w0 Cons.prems(6) by auto
  show ?case
  proof (cases "c + w < h")
    case True
    then have run: "rightLoop c0 h xs v (c + w) = (k, c')" using Cons.prems(1) by (simp add: e Let_def)
    have "uint (c + w) < uint h" using True by (simp add: word_less_def)
    from Cons.IH [OF run _ this] Cons.prems(2,4-6) w0 obtain X y Y where "xs = X @ (k, y) # Y"
      "uint c' = uint (c + w) + weight_sum (uweights X) + uint y"
      "uint (c + w) + weight_sum (uweights X) < uint h" "uint h \<le> uint c'"
      by (auto simp: e u)
    then show ?thesis by (intro exI [of _ "e # X"]) (auto simp: e u)
  next
    case False
    then have "k = v" and "c' = c + w" using Cons.prems(1) ne by (auto simp: e Let_def)
    moreover have "uint h \<le> uint (c + w)" using False by (simp add: word_less_def)
    ultimately show ?thesis using Cons.prems(3) by (intro exI [of _ "[]"]) (auto simp: e u)
  qed
qed

text \<open>An ascending list splits at any key.\<close>

lemma sorted_split_at:
  assumes "sorted_wrt (<) (map fst xs)"
  shows "xs = filter (\<lambda>e. fst e \<le> m) xs @ filter (\<lambda>e. m < (fst e :: 'k :: linorder)) xs"
  using assms
proof (induction xs)
  case Nil
  then show ?case by simp
next
  case (Cons e xs)
  show ?case
  proof (cases "fst e \<le> m")
    case True
    then show ?thesis using Cons by auto
  next
    case False
    then have "\<forall>x \<in> set xs. m < fst x" using Cons.prems by auto
    then have "filter (\<lambda>e. fst e \<le> m) xs = []" "filter (\<lambda>e. m < fst e) xs = xs"
      by (auto simp: filter_empty_conv intro: filter_True)
    then show ?thesis using False by auto
  qed
qed

section \<open>Weights of a list of reports\<close>

text \<open>The reports of one query as pairs of formatted value and power, and the ascending
  list of the values with their added powers.\<close>

definition weightsOf :: "(string \<times> int) list \<Rightarrow> (string \<times> int) list" where
  "weightsOf ps = map (\<lambda>v. (v, weight_sum (filter (\<lambda>e. fst e = v) ps))) (sort (remdups (map fst ps)))"

lemma weightsOf_ok: "kv_ok (weightsOf ps)"
  by (simp add: weightsOf_def kv_ok_def o_def strict_sorted_iff)

lemma weightsOf_get:
  "kv_get (weightsOf ps) v =
    (if v \<in> fst ` set ps then Some (weight_sum (filter (\<lambda>e. fst e = v) ps)) else None)"
proof -
  have "(v, x) \<in> set (weightsOf ps) \<longleftrightarrow> v \<in> fst ` set ps \<and> x = weight_sum (filter (\<lambda>e. fst e = v) ps)" for x
    by (auto simp: weightsOf_def)
  then show ?thesis using kv_get_mem [OF weightsOf_ok, of ps v] by (cases "kv_get (weightsOf ps) v") auto
qed

lemma weightsOf_get_or: "kv_get_or 0 (weightsOf ps) v = weight_sum (filter (\<lambda>e. fst e = v) ps)"
proof (cases "v \<in> fst ` set ps")
  case False
  then have "filter (\<lambda>e. fst e = v) ps = []" by (auto simp: filter_empty_conv image_iff)
  then show ?thesis using False by (simp add: kv_get_or_def weightsOf_get)
qed (simp add: kv_get_or_def weightsOf_get)

lemma weightsOf_snoc:
  "weightsOf (ps @ [(v, p)]) = kv_set v (kv_get_or 0 (weightsOf ps) v + p) (weightsOf ps)"
proof (rule kv_list_eqI)
  fix k
  have "filter (\<lambda>e. fst e = k) ps = []" if "k \<notin> fst ` set ps"
    using that by (auto simp: filter_empty_conv image_iff)
  then show "kv_get (weightsOf (ps @ [(v, p)])) k =
      kv_get (kv_set v (kv_get_or 0 (weightsOf ps) v + p) (weightsOf ps)) k"
    by (simp add: weightsOf_get weightsOf_get_or)
qed (simp_all add: weightsOf_ok)

lemma weightsOf_pos:
  assumes "\<And>e. e \<in> set ps \<Longrightarrow> 0 < snd e" and "x \<in> set (weightsOf ps)"
  shows "0 < snd x"
proof -
  have "kv_get (weightsOf ps) (fst x) = Some (snd x)"
    using assms(2) kv_get_mem [OF weightsOf_ok, of ps "fst x" "snd x"] by simp
  then have mem: "fst x \<in> fst ` set ps" and x: "snd x = weight_sum (filter (\<lambda>e. fst e = fst x) ps)"
    by (auto simp: weightsOf_get split: if_splits)
  from mem obtain e where e: "e \<in> set (filter (\<lambda>e. fst e = fst x) ps)" by auto
  have "snd e \<le> weight_sum (filter (\<lambda>e. fst e = fst x) ps)"
    using e assms(1) by (intro member_le_sum_list) (auto intro: less_imp_le)
  then show ?thesis using x assms(1) [of e] e by simp
qed

lemma weightsOf_filter:
  "weight_sum (filter (\<lambda>e. Q (fst e)) (weightsOf ps)) = weight_sum (filter (\<lambda>e. Q (fst e)) ps)"
proof (induction ps rule: rev_induct)
  case Nil
  then show ?case by (simp add: weightsOf_def)
next
  case (snoc e ps)
  obtain v p where e: "e = (v, p)" by (cases e)
  have f: "weight_sum (filter (\<lambda>e. Q (fst e)) xs) = kv_total (\<lambda>e. if Q (fst e) then snd e else 0) xs" for xs
    by (simp add: kv_total_def sum_list_map_filter')
  have "kv_total (\<lambda>e. if Q (fst e) then snd e else 0) (weightsOf (ps @ [(v, p)])) =
      kv_total (\<lambda>e. if Q (fst e) then snd e else 0) (weightsOf ps) + (if Q v then p else 0)"
    unfolding weightsOf_snoc by (subst kv_total_set [OF weightsOf_ok]) (simp add: kv_get_or_def split: option.split)
  then show ?case using snoc by (simp add: e f [symmetric])
qed

lemma weightsOf_total: "weight_sum (weightsOf ps) = weight_sum ps"
  using weightsOf_filter [of "\<lambda>_. True" ps] by simp

lemma weightsOf_mset: "mset ps = mset qs \<Longrightarrow> weightsOf ps = weightsOf qs"
proof -
  assume eq: "mset ps = mset qs"
  have "weight_sum (filter P xs) = \<Sum>\<^sub># (image_mset snd (filter_mset P (mset xs)))" for P and xs :: "(string \<times> int) list"
    by (simp flip: mset_filter mset_map sum_mset_sum_list)
  then have "weight_sum (filter (\<lambda>e. fst e = v) ps) = weight_sum (filter (\<lambda>e. fst e = v) qs)" for v
    using eq by simp
  moreover have "fst ` set ps = fst ` set qs" using mset_eq_setD [OF eq] by simp
  ultimately show ?thesis by (intro kv_list_eqI) (simp_all add: weightsOf_ok weightsOf_get)
qed

section \<open>Writes in the store\<close>

lemma kv_set_map_values: "map (\<lambda>(k, v). (k, f v)) (kv_set k v m) = kv_set k (f v) (map (\<lambda>(k, v). (k, f v)) m)"
  by (induction k v m rule: kv_set.induct) auto

lemma kv_get_map_values: "kv_get (map (\<lambda>(k, v). (k, f v)) m) k = map_option f (kv_get m k)"
  by (induction m) (auto simp: kv_get_def)

lemma kv_set_above: "\<forall>e \<in> set A. fst e < k \<Longrightarrow> kv_set k v (A @ B) = A @ kv_set k v B"
  by (induction A) auto

lemma kv_ok_map_values: "kv_ok m \<Longrightarrow> kv_ok (map (\<lambda>(k, v). (k, f v)) m)"
  by (auto simp: kv_ok_def o_def case_prod_beta)

section \<open>The running median\<close>

definition storedWeights :: "'w oracle_state \<Rightarrow> u64 \<Rightarrow> (string \<times> int) list" where
  "storedWeights st i = uweights (valueWeights st i)"

definition median_inv :: "u64 \<Rightarrow> (string \<times> int) list \<Rightarrow> 'w oracle_state \<Rightarrow> bool" where
  "median_inv i ps st \<longleftrightarrow> kv_ok (Values st) \<and> storedWeights st i = weightsOf ps
     \<and> uint (kv_get_or 0 (ValuesWeightSum st) i) = weight_sum ps
     \<and> (\<forall>e \<in> set ps. 0 < snd e)
     \<and> (case kv_get (AggregateValue st) i of
          None \<Rightarrow> ps = []
        | Some a \<Rightarrow> median_split (weightsOf ps) (raValue a) (uint (raCrossoverWeight a)) (weight_sum ps div 2))"

lemma storedWeights_ok: "kv_ok (Values st) \<Longrightarrow> kv_ok (storedWeights st i)"
  unfolding storedWeights_def valueWeights_def using kv_prefix_ok by (intro kv_ok_map_values) blast

lemma storedWeights_get:
  "kv_ok (Values st) \<Longrightarrow> kv_get (storedWeights st i) v =
     map_option (\<lambda>e. uint (veCrossoverWeight e)) (kv_get (Values st) (i, v))"
  unfolding storedWeights_def valueWeights_def
  by (simp add: kv_get_map_values kv_prefix_get option.map_comp o_def del: map_map)

text \<open>The two writes both methods start with.\<close>

lemma addWeight_effect:
  assumes "addWeight i v r st = (e, t, st')" and "kv_ok (Values st)"
    and "storedWeights st i = weightsOf ps" and "uint (kv_get_or 0 (ValuesWeightSum st) i) = weight_sum ps"
    and "\<forall>e \<in> set ps. 0 < snd e" and "weight_sum ps + uint (mrPower r) < 2 ^ 64"
  defines "qs \<equiv> ps @ [(v, uint (mrPower r))]"
  shows "kv_ok (Values st')" and "storedWeights st' i = weightsOf qs"
    and "uint (kv_get_or 0 (ValuesWeightSum st') i) = weight_sum qs" and "uint t = weight_sum qs"
    and "uint (veCrossoverWeight e) = kv_get_or 0 (weightsOf qs) v"
    and "AggregateValue st' = AggregateValue st"
    and "veMicroReport e = Some r" and "kv_get (Values st') (i, v) = Some e"
proof -
  let ?e0 = "kv_get_or \<lparr>veCrossoverWeight = 0, veMicroReport = None\<rparr> (Values st) (i, v)"
  have st': "st' = st\<lparr>Values := kv_set (i, v) e (Values st), ValuesWeightSum := kv_set i t (ValuesWeightSum st)\<rparr>"
    and t: "t = kv_get_or 0 (ValuesWeightSum st) i + mrPower r"
    and ec: "veCrossoverWeight e = veCrossoverWeight ?e0 + mrPower r" and er: "veMicroReport e = Some r"
    using assms(1) by (auto simp: addWeight_def Let_def)
  show "kv_ok (Values st')" "AggregateValue st' = AggregateValue st" "veMicroReport e = Some r"
    "kv_get (Values st') (i, v) = Some e"
    using assms(2) er by (simp_all add: st')
  show ut: "uint t = weight_sum qs"
    using assms(4,6) unfolding t qs_def by (subst uint_add_no_overflow) simp_all
  then show "uint (kv_get_or 0 (ValuesWeightSum st') i) = weight_sum qs" by (simp add: st' kv_get_or_def)
  have old: "uint (veCrossoverWeight ?e0) = kv_get_or 0 (weightsOf ps) v"
    using storedWeights_get [OF assms(2), of i v] unfolding assms(3)
    by (cases "kv_get (Values st) (i, v)") (simp_all add: kv_get_or_def)
  have "kv_get_or 0 (weightsOf ps) v \<le> weight_sum ps"
    unfolding weightsOf_get_or using assms(5)
    by (induction ps) (auto intro: add_mono order.trans)
  then have ue: "uint (veCrossoverWeight e) = kv_get_or 0 (weightsOf ps) v + uint (mrPower r)"
    using assms(6) old unfolding ec by (subst uint_add_no_overflow) simp_all
  then show "uint (veCrossoverWeight e) = kv_get_or 0 (weightsOf qs) v"
    by (simp add: qs_def weightsOf_get_or)
  show "storedWeights st' i = weightsOf qs"
    using assms(3) unfolding storedWeights_def valueWeights_def qs_def weightsOf_snoc
    by (simp add: st' kv_prefix_set assms(2) kv_set_map_values ue)
qed

text \<open>The weight up to a key, before and after adding to the weight of one value.\<close>

lemma weight_upto_snoc:
  "weight_sum (filter (\<lambda>e. fst e \<le> m) (weightsOf (ps @ [(v, p)]))) =
   weight_sum (filter (\<lambda>e. fst e \<le> m) (weightsOf ps)) + (if v \<le> m then p else 0)"
  using weightsOf_filter [of "\<lambda>k. k \<le> m"] by simp

lemma median_split_upto:
  assumes "median_split xs m c h" and "kv_ok xs"
  shows "weight_sum (filter (\<lambda>e. fst e \<le> m) xs) = c"
proof -
  obtain A w B where xs: "xs = A @ (m, w) # B" and c: "c = weight_sum A + w"
    using assms(1) unfolding median_split_def by blast
  have "\<forall>e \<in> set A. fst e \<le> m" "\<forall>e \<in> set B. \<not> fst e \<le> m"
    using assms(2) by (auto simp: xs kv_ok_def sorted_wrt_append intro: less_imp_le)
  then have "filter (\<lambda>e. fst e \<le> m) A = A" "filter (\<lambda>e. fst e \<le> m) B = []"
    by (auto simp: filter_empty_conv)
  then show ?thesis by (simp add: xs c)
qed

lemma filter_uweights:
  "weight_sum (uweights (filter (\<lambda>e. Q (fst e)) xs)) = weight_sum (filter (\<lambda>e. Q (fst e)) (uweights xs))"
  by (induction xs) auto

lemma weight_sum_rev: "weight_sum (uweights (rev xs)) = weight_sum (uweights xs)"
  by (induction xs) auto

lemma uweights_sorted: "kv_ok (uweights xs) \<longleftrightarrow> kv_ok xs"
  by (simp add: kv_ok_def o_def case_prod_beta)

lemma leftLoop_median:
  assumes "kv_ok xs" and "uint c = weight_sum (filter (\<lambda>e. fst e \<le> m) (uweights xs))"
    and "0 < uint h" and "uint h \<le> uint c"
    and "leftLoop m h (rev (filter (\<lambda>e. fst e \<le> m) xs)) c = (k, c')"
  shows "median_split (uweights xs) k (uint c') (uint h)"
proof -
  have "uint c = weight_sum (uweights (rev (filter (\<lambda>e. fst e \<le> m) xs)))"
    unfolding assms(2) weight_sum_rev by (rule filter_uweights [symmetric])
  from leftLoop_split [OF assms(5) this assms(3,4)] obtain X w Y where
    s: "rev (filter (\<lambda>e. fst e \<le> m) xs) = X @ (k, w) # Y" and
    Y: "uint c' = uint w + weight_sum (uweights Y)" "weight_sum (uweights Y) < uint h" "uint h \<le> uint c'"
    by blast
  have "xs = filter (\<lambda>e. fst e \<le> m) xs @ filter (\<lambda>e. m < fst e) xs"
    using assms(1) by (intro sorted_split_at) (simp add: kv_ok_def)
  moreover have "filter (\<lambda>e. fst e \<le> m) xs = rev Y @ (k, w) # rev X"
    using arg_cong [OF s, of rev] by simp
  ultimately have xs: "xs = rev Y @ (k, w) # (rev X @ filter (\<lambda>e. m < fst e) xs)" by simp
  have "uweights xs = uweights (rev Y) @ (k, uint w) # uweights (rev X @ filter (\<lambda>e. m < fst e) xs)"
    by (subst xs) simp
  moreover note weight_sum_rev [of Y]
  ultimately show ?thesis unfolding median_split_def using Y
    by (intro exI [of _ "uweights (rev Y)"] exI [of _ "uint w"]
        exI [of _ "uweights (rev X @ filter (\<lambda>e. m < fst e) xs)"]) auto
qed

lemma rightLoop_median:
  assumes "kv_ok xs" and "uint c = weight_sum (filter (\<lambda>e. fst e \<le> m) (uweights xs))"
    and "weight_sum (uweights xs) < 2 ^ 64" and "uint c < uint h" and "uint h \<le> weight_sum (uweights xs)"
    and "\<And>e. e \<in> set xs \<Longrightarrow> 0 < uint (snd e)"
    and "rightLoop c h (filter (\<lambda>e. m < fst e) xs) m c = (k, c')"
  shows "median_split (uweights xs) k (uint c') (uint h)"
proof -
  have xs: "xs = filter (\<lambda>e. fst e \<le> m) xs @ filter (\<lambda>e. m < fst e) xs"
    using assms(1) by (intro sorted_split_at) (simp add: kv_ok_def)
  have c: "uint c = weight_sum (uweights (filter (\<lambda>e. fst e \<le> m) xs))"
    unfolding assms(2) by (rule filter_uweights [symmetric])
  have "weight_sum (uweights xs) = uint c + weight_sum (uweights (filter (\<lambda>e. m < fst e) xs))"
    unfolding c by (subst xs) simp
  then obtain X w Y where s: "filter (\<lambda>e. m < fst e) xs = X @ (k, w) # Y" and
    X: "uint c' = uint c + weight_sum (uweights X) + uint w" "uint c + weight_sum (uweights X) < uint h"
      "uint h \<le> uint c'"
    using rightLoop_split [OF assms(7) _ assms(4)] assms(3,5,6) by fastforce
  have "uweights xs = uweights (filter (\<lambda>e. fst e \<le> m) xs @ X) @ (k, uint w) # uweights Y"
    by (subst xs) (simp add: s)
  then show ?thesis unfolding median_split_def using X c
    by (intro exI [of _ "uweights (filter (\<lambda>e. fst e \<le> m) xs @ X)"] exI [of _ "uint w"] exI [of _ "uweights Y"]) auto
qed

text \<open>Adding above the median, or to the median itself, leaves what is below it alone.\<close>

lemma median_split_above:
  assumes "median_split (weightsOf ps) m c h" and "m < v" and "h \<le> h'" and "h' \<le> c"
  shows "median_split (weightsOf (ps @ [(v, p)])) m c h'"
proof -
  obtain A w B where s: "weightsOf ps = A @ (m, w) # B" and c: "c = weight_sum A + w"
    and l: "weight_sum A < h \<or> A = []" using assms(1) unfolding median_split_def by blast
  have "\<forall>e \<in> set (A @ [(m, w)]). fst e < v"
    using weightsOf_ok [of ps] assms(2) unfolding s by (auto simp: kv_ok_def sorted_wrt_append)
  then have "weightsOf (ps @ [(v, p)]) = (A @ [(m, w)]) @ kv_set v (kv_get_or 0 (weightsOf ps) v + p) B"
    unfolding weightsOf_snoc using kv_set_above [of "A @ [(m, w)]" v] by (simp add: s)
  then show ?thesis unfolding median_split_def using c l assms(3,4) by fastforce
qed

lemma median_split_same:
  assumes "median_split (weightsOf ps) m c h" and "h \<le> h'" and "h' \<le> c + p"
  shows "median_split (weightsOf (ps @ [(m, p)])) m (c + p) h'"
proof -
  obtain A w B where s: "weightsOf ps = A @ (m, w) # B" and c: "c = weight_sum A + w"
    and l: "weight_sum A < h \<or> A = []" using assms(1) unfolding median_split_def by blast
  have "\<forall>e \<in> set A. fst e < m"
    using weightsOf_ok [of ps] unfolding s by (auto simp: kv_ok_def sorted_wrt_append)
  moreover have "kv_get (weightsOf ps) m = Some w" using kv_get_mem [OF weightsOf_ok, of ps m w] by (simp add: s)
  ultimately have "weightsOf (ps @ [(m, p)]) = A @ (m, w + p) # B"
    unfolding weightsOf_snoc using kv_set_above [of A m "w + p" "(m, w) # B"] by (simp add: s kv_get_or_def)
  then show ?thesis unfolding median_split_def using c l assms(2,3) by fastforce
qed

lemma median_split_le_total:
  assumes "median_split xs m c h" and "\<And>e. e \<in> set xs \<Longrightarrow> 0 < snd e"
  shows "0 < c \<and> c \<le> weight_sum xs"
proof -
  obtain A w B where s: "xs = A @ (m, w) # B" and c: "c = weight_sum A + w"
    using assms(1) unfolding median_split_def by blast
  have "0 \<le> weight_sum A" "0 \<le> weight_sum B" using assms(2) by (auto simp: s intro!: weight_sum_nonneg)
  moreover have "0 < w" using assms(2) [of "(m, w)"] by (simp add: s)
  ultimately show ?thesis by (simp add: s c)
qed

lemma AddReport_step:
  assumes inv: "median_inv i ps st" and v: "FormatUint256 (mrValue r) = Inr v"
    and p0: "0 < uint (mrPower r)" and fits: "weight_sum ps + uint (mrPower r) < 2 ^ 64"
  shows "\<exists>st'. AddReport i r st = Inr st' \<and> median_inv i (ps @ [(v, uint (mrPower r))]) st'"
proof -
  let ?p = "uint (mrPower r)"
  let ?qs = "ps @ [(v, ?p)]"
  obtain e t s where aw: "addWeight i v r st = (e, t, s)" by (metis prod_cases3)
  have ok: "kv_ok (Values st)" and sw: "storedWeights st i = weightsOf ps"
    and su: "uint (kv_get_or 0 (ValuesWeightSum st) i) = weight_sum ps" and pos: "\<forall>e \<in> set ps. 0 < snd e"
    using inv by (auto simp: median_inv_def)
  note eff = addWeight_effect [OF aw ok sw su pos fits]
  have posq: "\<forall>e \<in> set ?qs. 0 < snd e" using pos p0 by auto
  have set_inv: "median_inv i ?qs (setAggregateValue i k c s)"
    if "median_split (weightsOf ?qs) k (uint c) (weight_sum ?qs div 2)" for k c
    using that eff(1-3) posq by (simp add: median_inv_def setAggregateValue_def storedWeights_def valueWeights_def)
  have half: "uint (t div 2) = weight_sum ?qs div 2" by (simp add: uint_div eff(4))
  have okw: "kv_ok (valueWeights s i)" and uw: "uweights (valueWeights s i) = weightsOf ?qs"
    using weightsOf_ok [of ?qs] eff(2) by (simp_all add: storedWeights_def flip: uweights_sorted)
  show ?thesis
  proof (cases "kv_get (AggregateValue st) i")
    case None
    then have "ps = []" using inv by (simp add: median_inv_def)
    moreover have "weightsOf [(v, ?p)] = [(v, ?p)]" by (simp add: weightsOf_def)
    ultimately have "median_split (weightsOf ?qs) v (uint (mrPower r)) (weight_sum ?qs div 2)"
      using p0 by (auto simp: median_split_def intro!: exI [of _ "[]"])
    then show ?thesis using None v aw eff(6) set_inv [of v "mrPower r"] by (simp add: AddReport_def)
  next
    case (Some a)
    let ?m = "raValue a" and ?c = "raCrossoverWeight a"
    have sp: "median_split (weightsOf ps) ?m (uint ?c) (weight_sum ps div 2)"
      using inv Some by (simp add: median_inv_def)
    have c: "0 < uint ?c" "uint ?c \<le> weight_sum ps"
      using median_split_le_total [OF sp] weightsOf_pos pos weightsOf_total by auto
    have hc: "weight_sum ps div 2 \<le> uint ?c" using sp by (auto simp: median_split_def)
    have cp: "uint (?c + mrPower r) = uint ?c + ?p" using c fits by (intro uint_add_no_overflow) linarith
    have upto: "weight_sum (filter (\<lambda>e. fst e \<le> ?m) (weightsOf ?qs)) = uint ?c + (if v \<le> ?m then ?p else 0)"
      using median_split_upto [OF sp weightsOf_ok] by (simp add: weight_upto_snoc)
    have hq: "weight_sum ?qs div 2 \<le> uint ?c + ?p" "weight_sum ps div 2 \<le> weight_sum ?qs div 2"
      using hc p0 by simp_all
    consider "v < ?m" | "?m < v" | "v = ?m" by (metis linorder_neqE)
    then show ?thesis
    proof cases
      case 1
      have h: "t div 2 \<le> ?c + mrPower r" using hq(1) by (simp add: word_le_def half cp)
      obtain k d where run: "leftLoop ?m (t div 2) (rev (filter (\<lambda>e. fst e \<le> ?m) (valueWeights s i))) (?c + mrPower r) = (k, d)"
        by (metis surj_pair)
      have "median_split (uweights (valueWeights s i)) k (uint d) (uint (t div 2))"
        by (rule leftLoop_median [OF okw _ _ _ run])
          (use upto uw 1 c p0 hq(1) in \<open>simp_all add: cp half\<close>)
      then show ?thesis using 1 Some v aw eff(6) h run set_inv [of k d]
        by (simp add: AddReport_def Let_def TraverseLeft_def uw half)
    next
      case 2
      then have nv: "\<not> v < ?m" by (simp add: not_less less_imp_le)
      show ?thesis
      proof (cases "?c < t div 2")
        case True
        obtain k d where run: "rightLoop ?c (t div 2) (filter (\<lambda>e. ?m < fst e) (valueWeights s i)) ?m ?c = (k, d)"
          by (metis surj_pair)
        have wpos: "0 < uint (snd x)" if "x \<in> set (valueWeights s i)" for x
        proof -
          have "(fst x, uint (snd x)) \<in> set (weightsOf ?qs)" using that by (force simp flip: uw)
          then show ?thesis using weightsOf_pos [of ?qs] posq by fastforce
        qed
        have "median_split (uweights (valueWeights s i)) k (uint d) (uint (t div 2))"
          by (rule rightLoop_median [OF okw _ _ _ _ wpos run])
            (use upto uw 2 True fits c p0 in \<open>simp_all add: half weightsOf_total word_less_def\<close>)
        then show ?thesis using 2 nv Some v aw eff(6) True run set_inv [of k d]
          by (simp add: AddReport_def Let_def TraverseRight_def uw half)
      next
        case False
        then have "weight_sum ?qs div 2 \<le> uint ?c" by (simp add: word_less_def half)
        then have "median_split (weightsOf ?qs) ?m (uint ?c) (weight_sum ?qs div 2)"
          by (rule median_split_above [OF sp 2 hq(2)])
        then have "median_inv i ?qs s" using eff posq Some by (simp add: median_inv_def)
        then show ?thesis using 2 nv Some v aw eff(6) False by (simp add: AddReport_def Let_def)
      qed
    next
      case 3
      have "median_split (weightsOf ?qs) ?m (uint (?c + mrPower r)) (weight_sum ?qs div 2)"
        using median_split_same [OF sp hq(2,1)] 3 cp by simp
      then show ?thesis using 3 Some v aw eff(6) set_inv [of ?m "?c + mrPower r"] by (simp add: AddReport_def Let_def)
    qed
  qed
qed

section \<open>Sequences of reports\<close>

text \<open>No report of the query has been added yet: the state in which a query starts.\<close>

definition fresh_query :: "u64 \<Rightarrow> 'w oracle_state \<Rightarrow> bool" where
  "fresh_query i st \<longleftrightarrow> kv_ok (Values st) \<and> kv_prefix i (Values st) = []
     \<and> kv_get (AggregateValue st) i = None \<and> kv_get (ValuesWeightSum st) i = None"

definition medianPairs :: "micro_report list \<Rightarrow> (string \<times> int) list" where
  "medianPairs rs = map (\<lambda>r. (projr (FormatUint256 (mrValue r)), uint (mrPower r))) rs"

definition median_reports :: "micro_report list \<Rightarrow> bool" where
  "median_reports rs \<longleftrightarrow> (\<forall>r \<in> set rs. \<not> isl (FormatUint256 (mrValue r)) \<and> 0 < mrPower r)
     \<and> sum_list (map (\<lambda>r. uint (mrPower r)) rs) < 2 ^ 64"

lemma fresh_median_inv: "fresh_query i st \<Longrightarrow> median_inv i [] st"
  by (simp add: fresh_query_def median_inv_def storedWeights_def valueWeights_def weightsOf_def kv_get_or_def)

lemma weight_sum_pairs: "weight_sum (medianPairs rs) = sum_list (map (\<lambda>r. uint (mrPower r)) rs)"
  by (simp add: medianPairs_def o_def)

lemma AddReports_run:
  assumes "median_inv i (medianPairs rs) st" and "median_reports (rs @ ss)"
  shows "\<exists>st'. foldR (AddReport i) ss st = Inr st' \<and> median_inv i (medianPairs (rs @ ss)) st'"
  using assms
proof (induction ss arbitrary: rs st)
  case Nil
  then show ?case by simp
next
  case (Cons r ss)
  have "\<not> isl (FormatUint256 (mrValue r))" and pw: "0 < mrPower r"
    using Cons.prems(2) by (simp_all add: median_reports_def)
  then obtain v where v: "FormatUint256 (mrValue r) = Inr v" by (cases "FormatUint256 (mrValue r)") auto
  have "0 \<le> sum_list (map (\<lambda>r. uint (mrPower r)) ss)" by (intro sum_list_nonneg) auto
  then have fits: "weight_sum (medianPairs rs) + uint (mrPower r) < 2 ^ 64"
    using Cons.prems(2) by (simp add: median_reports_def weight_sum_pairs)
  have p0: "0 < uint (mrPower r)" using pw by (simp add: word_less_def)
  obtain s where s: "AddReport i r st = Inr s" "median_inv i (medianPairs rs @ [(v, uint (mrPower r))]) s"
    using AddReport_step [OF Cons.prems(1) v p0 fits] by blast
  then have "median_inv i (medianPairs (rs @ [r])) s" by (simp add: medianPairs_def v)
  from Cons.IH [OF this] Cons.prems(2) obtain st' where
    "foldR (AddReport i) ss s = Inr st'" "median_inv i (medianPairs (rs @ r # ss)) st'" by auto
  then show ?case using s(1) by simp
qed

lemma median_inv_result:
  assumes "median_inv i ps st" and "ps \<noteq> []"
  obtains a where "kv_get (AggregateValue st) i = Some a" and "medianOf (weightsOf ps) = Some (raValue a)"
    and "median_split (weightsOf ps) (raValue a) (uint (raCrossoverWeight a)) (weight_sum ps div 2)"
proof -
  obtain a where a: "kv_get (AggregateValue st) i = Some a"
    using assms by (cases "kv_get (AggregateValue st) i") (auto simp: median_inv_def)
  then have sp: "median_split (weightsOf ps) (raValue a) (uint (raCrossoverWeight a)) (weight_sum ps div 2)"
    and pos: "\<forall>e \<in> set ps. 0 < snd e" using assms(1) by (auto simp: median_inv_def)
  have "medianOf (weightsOf ps) = Some (raValue a)"
    using median_split_medianOf [of "weightsOf ps" "raValue a" "uint (raCrossoverWeight a)"] sp
      weightsOf_pos [of ps] pos by (simp add: weightsOf_total)
  then show thesis using that a sp by blast
qed

text \<open>
  C15: the incremental median computes the reference. Whatever the reports of a fresh query,
  as long as their values format, their powers are positive and the total fits 64 bits,
  adding them one by one succeeds and leaves as running aggregate the first value at which
  the added powers, in ascending order of values, reach half of the total, together with
  the total power up to it.
\<close>

theorem running_median_correct:
  assumes "fresh_query i st" and "median_reports rs" and "rs \<noteq> []"
  shows "\<exists>st' a. foldR (AddReport i) rs st = Inr st' \<and> kv_get (AggregateValue st') i = Some a
    \<and> medianOf (weightsOf (medianPairs rs)) = Some (raValue a)
    \<and> uint (raCrossoverWeight a) =
        weight_sum (filter (\<lambda>e. fst e \<le> raValue a) (weightsOf (medianPairs rs)))"
proof -
  have "median_inv i (medianPairs []) st" using fresh_median_inv [OF assms(1)] by (simp add: medianPairs_def)
  from AddReports_run [OF this, of rs] assms(2) obtain st' where
    run: "foldR (AddReport i) rs st = Inr st'" and inv: "median_inv i (medianPairs rs) st'" by auto
  have "medianPairs rs \<noteq> []" using assms(3) by (simp add: medianPairs_def)
  then obtain a where "kv_get (AggregateValue st') i = Some a"
    "medianOf (weightsOf (medianPairs rs)) = Some (raValue a)"
    and sp: "median_split (weightsOf (medianPairs rs)) (raValue a) (uint (raCrossoverWeight a))
      (weight_sum (medianPairs rs) div 2)" by (rule median_inv_result [OF inv])
  then show ?thesis using run median_split_upto [OF sp weightsOf_ok] by auto
qed

definition ex_median_reports :: "micro_report list" where
  "ex_median_reports = map (\<lambda>(v, p).
     \<lparr>mrReporter = ''r'', mrPower = p, mrQueryType = ''SpotPrice'', mrQueryId = ''q'',
      mrAggregateMethod = ''weighted-median'', mrValue = v, mrTimestamp = 0, mrCyclelist = True,
      mrBlockNumber = 1, mrMetaId = 7\<rparr>) [(''0a'', 3), (''09'', 2), (''0c'', 4)]"

lemma ex_median_ok:
  "fresh_query 7 (emptyOracle ())" "median_reports ex_median_reports" "ex_median_reports \<noteq> []"
  by (simp add: fresh_query_def emptyOracle_def kv_prefix_def)
    (simp_all add: median_reports_def ex_median_reports_def FormatUint256_def has0xPrefix_def)

theorem running_median_correct_witness:
  "\<exists>st' a. foldR (AddReport 7) ex_median_reports (emptyOracle ()) = Inr st'
    \<and> kv_get (AggregateValue st') 7 = Some a
    \<and> raValue a = replicate 62 (CHR ''0'') @ ''0a'' \<and> uint (raCrossoverWeight a) = 5"
proof -
  have "medianOf (weightsOf (medianPairs ex_median_reports)) = Some (replicate 62 (CHR ''0'') @ ''0a'')"
    by code_simp
  moreover have "weight_sum (filter (\<lambda>e. fst e \<le> replicate 62 (CHR ''0'') @ ''0a'')
      (weightsOf (medianPairs ex_median_reports))) = 5" by code_simp
  ultimately show ?thesis using running_median_correct [OF ex_median_ok] by force
qed

text \<open>
  C16: the running median does not depend on the order in which the reports arrive.
\<close>

theorem median_order_independent:
  assumes "fresh_query i st" and "fresh_query j st2" and "median_reports rs" and "mset rs' = mset rs"
    and "foldR (AddReport i) rs st = Inr st'" and "foldR (AddReport j) rs' st2 = Inr st2'"
  shows "kv_get (AggregateValue st') i = kv_get (AggregateValue st2') j"
proof -
  have m: "mset (medianPairs rs') = mset (medianPairs rs)" using assms(4) by (simp add: medianPairs_def)
  have s: "sum_list (map (\<lambda>r. uint (mrPower r)) rs') = sum_list (map (\<lambda>r. uint (mrPower r)) rs)"
    using assms(4) by (metis mset_map sum_mset_sum_list)
  have reps: "median_reports rs'" using assms(3) s mset_eq_setD [OF assms(4)] by (simp add: median_reports_def)
  have inv: "median_inv i (medianPairs rs) st'"
    using AddReports_run [of i "[]" st rs] fresh_median_inv [OF assms(1)] assms(3,5) by (simp add: medianPairs_def)
  have inv2: "median_inv j (medianPairs rs') st2'"
    using AddReports_run [of j "[]" st2 rs'] fresh_median_inv [OF assms(2)] reps assms(6) by (simp add: medianPairs_def)
  note w = weightsOf_mset [OF m]
  show ?thesis
  proof (cases "rs = []")
    case True
    then have "rs' = []" using assms(4) by simp
    then show ?thesis using True assms(1,2,5,6) by (simp add: fresh_query_def)
  next
    case False
    then have "medianPairs rs \<noteq> []" "medianPairs rs' \<noteq> []" using m by (auto simp: medianPairs_def)
    then obtain a b where a: "kv_get (AggregateValue st') i = Some a" "medianOf (weightsOf (medianPairs rs)) = Some (raValue a)"
      "median_split (weightsOf (medianPairs rs)) (raValue a) (uint (raCrossoverWeight a)) (weight_sum (medianPairs rs) div 2)"
      and b: "kv_get (AggregateValue st2') j = Some b" "medianOf (weightsOf (medianPairs rs')) = Some (raValue b)"
      "median_split (weightsOf (medianPairs rs')) (raValue b) (uint (raCrossoverWeight b)) (weight_sum (medianPairs rs') div 2)"
      using median_inv_result [OF inv] median_inv_result [OF inv2] by metis
    have "raValue a = raValue b" using a(2) b(2) w by simp
    moreover from this have "uint (raCrossoverWeight a) = uint (raCrossoverWeight b)"
      using median_split_upto [OF a(3) weightsOf_ok] median_split_upto [OF b(3) weightsOf_ok] w by simp
    ultimately have "a = b" by (auto intro!: running_aggregate.equality unsigned_word_eqI)
    then show ?thesis using a(1) b(1) by simp
  qed
qed

theorem median_order_independent_witness:
  "\<exists>st' st2'. foldR (AddReport 7) ex_median_reports (emptyOracle ()) = Inr st'
    \<and> foldR (AddReport 7) (rev ex_median_reports) (emptyOracle ()) = Inr st2'
    \<and> kv_get (AggregateValue st') 7 = kv_get (AggregateValue st2') 7"
proof -
  have "median_reports (rev ex_median_reports)" using ex_median_ok(2) by (simp add: median_reports_def rev_map [symmetric])
  then obtain st' st2' where runs: "foldR (AddReport 7) ex_median_reports (emptyOracle ()) = Inr st'"
    "foldR (AddReport 7) (rev ex_median_reports) (emptyOracle ()) = Inr st2'"
    using AddReports_run [of 7 "[]" "emptyOracle ()"] fresh_median_inv [OF ex_median_ok(1)] ex_median_ok(2)
    by (force simp: medianPairs_def)
  show ?thesis using median_order_independent [OF ex_median_ok(1,1,2) _ runs] runs by simp
qed

text \<open>
  The running aggregate is a weighted median up to one unit of power. The values
  reported below it have less than half of the total power, unless there are none, and the
  values above it have at most half of the total plus half a unit.
\<close>

theorem median_balance:
  assumes "fresh_query i st" and "median_reports rs" and "rs \<noteq> []"
    and "foldR (AddReport i) rs st = Inr st'" and "kv_get (AggregateValue st') i = Some a"
  shows "(2 * weight_sum (filter (\<lambda>e. fst e < raValue a) (medianPairs rs)) < weight_sum (medianPairs rs))
    \<and> 2 * weight_sum (filter (\<lambda>e. raValue a < fst e) (medianPairs rs)) \<le> weight_sum (medianPairs rs) + 1"
proof -
  let ?ps = "medianPairs rs" and ?m = "raValue a"
  have inv: "median_inv i ?ps st'"
    using AddReports_run [of i "[]" st rs] fresh_median_inv [OF assms(1)] assms(2,4) by (simp add: medianPairs_def)
  then have sp: "median_split (weightsOf ?ps) ?m (uint (raCrossoverWeight a)) (weight_sum ?ps div 2)"
    and pos: "\<forall>e \<in> set ?ps. 0 < snd e" using assms(5) by (auto simp: median_inv_def)
  then obtain A w B where s: "weightsOf ?ps = A @ (?m, w) # B" and h: "weight_sum ?ps div 2 \<le> weight_sum A + w"
    and l: "weight_sum A < weight_sum ?ps div 2 \<or> A = []" unfolding median_split_def by force
  have part: "weight_sum (filter (\<lambda>e. Q (fst e)) ?ps) = weight_sum (filter (\<lambda>e. Q (fst e)) (weightsOf ?ps))" for Q
    by (rule weightsOf_filter [symmetric])
  have o: "\<forall>e \<in> set A. fst e < ?m" "\<forall>e \<in> set B. ?m < fst e"
    using weightsOf_ok [of ?ps] by (auto simp: s kv_ok_def sorted_wrt_append)
  have "filter (\<lambda>e. fst e < ?m) B = []" "filter (\<lambda>e. ?m < fst e) A = []"
    using o by (auto simp: filter_empty_conv not_less intro: less_imp_le)
  then have parts: "filter (\<lambda>e. fst e < ?m) (weightsOf ?ps) = A" "filter (\<lambda>e. ?m < fst e) (weightsOf ?ps) = B"
    using o by (simp_all add: s)
  have "weight_sum ?ps = weight_sum A + w + weight_sum B" using weightsOf_total [of ?ps] by (simp add: s)
  moreover have "0 < weight_sum ?ps"
    using median_split_le_total [OF sp] weightsOf_pos [of ?ps] pos by (fastforce simp: weightsOf_total)
  ultimately show ?thesis unfolding part [of "\<lambda>k. k < ?m"] part [of "\<lambda>k. ?m < k"] parts using h l by auto
qed

theorem median_balance_witness:
  "\<exists>st' a. foldR (AddReport 7) ex_median_reports (emptyOracle ()) = Inr st'
    \<and> kv_get (AggregateValue st') 7 = Some a
    \<and> 2 * weight_sum (filter (\<lambda>e. raValue a < fst e) (medianPairs ex_median_reports)) \<le> 10"
proof -
  obtain st' a where run: "foldR (AddReport 7) ex_median_reports (emptyOracle ()) = Inr st'"
    "kv_get (AggregateValue st') 7 = Some a"
    using AddReports_run [of 7 "[]" "emptyOracle ()" ex_median_reports] fresh_median_inv [OF ex_median_ok(1)]
      ex_median_ok(2,3) by (force simp: medianPairs_def elim!: median_inv_result)
  moreover have "weight_sum (medianPairs ex_median_reports) = 9"
    by (simp add: medianPairs_def ex_median_reports_def)
  ultimately show ?thesis using median_balance [OF ex_median_ok run] by auto
qed

end
