(* ===== verification/OracleMode.thy ===== *)
theory OracleMode
  imports OracleMedian
begin

text \<open>
  Correctness of the running weighted mode, and the order of the values the median is taken
  over: submitted values are lower-case hexadecimal, so comparing the padded strings
  compares the numbers they stand for.
\<close>

section \<open>The running mode\<close>

definition modePairs :: "micro_report list \<Rightarrow> (string \<times> int) list" where
  "modePairs rs = map (\<lambda>r. (mrValue r, uint (mrPower r))) rs"

definition mode_reports :: "micro_report list \<Rightarrow> bool" where
  "mode_reports rs \<longleftrightarrow> (\<forall>r \<in> set rs. toLower (mrValue r) = mrValue r \<and> 0 < mrPower r)
     \<and> sum_list (map (\<lambda>r. uint (mrPower r)) rs) < 2 ^ 64"

text \<open>The running aggregate names a reported value, carries its weight, and no value has
  more.\<close>

definition mode_inv :: "u64 \<Rightarrow> (string \<times> int) list \<Rightarrow> 'w oracle_state \<Rightarrow> bool" where
  "mode_inv i ps st \<longleftrightarrow> kv_ok (Values st) \<and> storedWeights st i = weightsOf ps
     \<and> uint (kv_get_or 0 (ValuesWeightSum st) i) = weight_sum ps
     \<and> (\<forall>e \<in> set ps. 0 < snd e \<and> toLower (fst e) = fst e)
     \<and> (case kv_get (AggregateValue st) i of
          None \<Rightarrow> ps = []
        | Some a \<Rightarrow> raValue a \<in> fst ` set ps
            \<and> uint (raCrossoverWeight a) = kv_get_or 0 (weightsOf ps) (raValue a)
            \<and> (\<forall>v. kv_get_or 0 (weightsOf ps) v \<le> uint (raCrossoverWeight a)))"

lemma weightsOf_get_or_snoc:
  "kv_get_or 0 (weightsOf (ps @ [(v, p)])) k = kv_get_or 0 (weightsOf ps) k + (if k = v then p else 0)"
  by (simp add: weightsOf_get_or)

lemma AddReportWeightedMode_step:
  assumes inv: "mode_inv i ps st" and low: "toLower (mrValue r) = mrValue r"
    and p0: "0 < uint (mrPower r)" and fits: "weight_sum ps + uint (mrPower r) < 2 ^ 64"
  shows "\<exists>st'. AddReportWeightedMode i r st = Inr st' \<and> mode_inv i (ps @ [(mrValue r, uint (mrPower r))]) st'"
proof -
  let ?v = "mrValue r"
  let ?qs = "ps @ [(?v, uint (mrPower r))]"
  obtain e t s where aw: "addWeight i ?v r st = (e, t, s)" by (metis prod_cases3)
  have ok: "kv_ok (Values st)" and sw: "storedWeights st i = weightsOf ps"
    and su: "uint (kv_get_or 0 (ValuesWeightSum st) i) = weight_sum ps"
    and pos: "\<forall>e \<in> set ps. 0 < snd e" and lows: "\<forall>e \<in> set ps. toLower (fst e) = fst e"
    using inv by (auto simp: mode_inv_def)
  note eff = addWeight_effect [OF aw ok sw su pos fits]
  have all: "\<forall>e \<in> set ?qs. 0 < snd e \<and> toLower (fst e) = fst e" using pos lows p0 low by auto
  have set_inv: "mode_inv i ?qs (setAggregateValue i ?v c s)"
    if "uint c = kv_get_or 0 (weightsOf ?qs) ?v" "\<forall>k. kv_get_or 0 (weightsOf ?qs) k \<le> uint c" for c
    using that eff(1-3) all by (simp add: mode_inv_def setAggregateValue_def storedWeights_def valueWeights_def)
  show ?thesis
  proof (cases "kv_get (AggregateValue st) i")
    case None
    then have ps: "ps = []" using inv by (simp add: mode_inv_def)
    have "mode_inv i ?qs (setAggregateValue i ?v (mrPower r) s)"
      by (rule set_inv) (auto simp: ps weightsOf_get_or)
    then show ?thesis using None aw eff(6) by (simp add: AddReportWeightedMode_def Let_def)
  next
    case (Some a)
    let ?m = "raValue a" and ?c = "raCrossoverWeight a" and ?W = "veCrossoverWeight e"
    have mem: "?m \<in> fst ` set ps" and c: "uint ?c = kv_get_or 0 (weightsOf ps) ?m"
      and max: "\<And>k. kv_get_or 0 (weightsOf ps) k \<le> uint ?c"
      using inv Some by (auto simp: mode_inv_def)
    have fold: "equalFold ?m ?v \<longleftrightarrow> ?m = ?v" using mem lows low by (auto simp: equalFold_def)
    have W: "uint ?W = kv_get_or 0 (weightsOf ?qs) ?v" by (rule eff(5))
    show ?thesis
    proof (cases "?m = ?v \<or> ?c < ?W")
      case True
      have "uint ?c \<le> uint ?W"
        using True W c p0 by (auto simp: weightsOf_get_or_snoc word_less_def)
      then have "kv_get_or 0 (weightsOf ?qs) k \<le> uint ?W" for k
        using max [of k] W by (cases "k = ?v") (auto simp: weightsOf_get_or_snoc)
      then have "mode_inv i ?qs (setAggregateValue i ?v ?W s)" using W by (intro set_inv) auto
      then show ?thesis using True Some aw eff(6) fold by (auto simp: AddReportWeightedMode_def Let_def)
    next
      case False
      then have "uint ?W \<le> uint ?c" by (simp add: word_less_def)
      then have "kv_get_or 0 (weightsOf ?qs) k \<le> uint ?c" for k
        using max [of k] W by (cases "k = ?v") (auto simp: weightsOf_get_or_snoc)
      moreover have "kv_get_or 0 (weightsOf ?qs) ?m = uint ?c" using False c by (simp add: weightsOf_get_or_snoc)
      ultimately have "mode_inv i ?qs s" using eff all Some mem by (simp add: mode_inv_def)
      then show ?thesis using False Some aw eff(6) fold by (simp add: AddReportWeightedMode_def Let_def)
    qed
  qed
qed

lemma AddReportsWeightedMode_run:
  assumes "mode_inv i (modePairs rs) st" and "mode_reports (rs @ ss)"
  shows "\<exists>st'. foldR (AddReportWeightedMode i) ss st = Inr st' \<and> mode_inv i (modePairs (rs @ ss)) st'"
  using assms
proof (induction ss arbitrary: rs st)
  case Nil
  then show ?case by simp
next
  case (Cons r ss)
  have low: "toLower (mrValue r) = mrValue r" and p0: "0 < uint (mrPower r)"
    using Cons.prems(2) by (simp_all add: mode_reports_def word_less_def)
  have "0 \<le> sum_list (map (\<lambda>r. uint (mrPower r)) ss)" by (intro sum_list_nonneg) auto
  then have fits: "weight_sum (modePairs rs) + uint (mrPower r) < 2 ^ 64"
    using Cons.prems(2) by (simp add: mode_reports_def modePairs_def o_def)
  obtain s where s: "AddReportWeightedMode i r st = Inr s" "mode_inv i (modePairs (rs @ [r])) s"
    using AddReportWeightedMode_step [OF Cons.prems(1) low p0 fits] by (auto simp: modePairs_def)
  from Cons.IH [OF s(2)] Cons.prems(2) s(1) show ?case by auto
qed

text \<open>
  C17: the incremental mode is a weighted mode. Adding lower-case values with positive powers
  to a fresh query leaves as running aggregate a reported value whose added power no other
  value exceeds, together with that power.
\<close>

theorem running_mode_maximal:
  assumes "fresh_query i st" and "mode_reports rs" and "rs \<noteq> []"
  shows "\<exists>st' a. foldR (AddReportWeightedMode i) rs st = Inr st' \<and> kv_get (AggregateValue st') i = Some a
    \<and> raValue a \<in> mrValue ` set rs
    \<and> uint (raCrossoverWeight a) = sum_list (map (\<lambda>r. uint (mrPower r)) (filter (\<lambda>r. mrValue r = raValue a) rs))
    \<and> (\<forall>v. sum_list (map (\<lambda>r. uint (mrPower r)) (filter (\<lambda>r. mrValue r = v) rs)) \<le> uint (raCrossoverWeight a))"
proof -
  have "mode_inv i (modePairs []) st" using assms(1)
    by (simp add: fresh_query_def mode_inv_def modePairs_def storedWeights_def valueWeights_def weightsOf_def kv_get_or_def)
  from AddReportsWeightedMode_run [OF this, of rs] assms(2) obtain st' where
    run: "foldR (AddReportWeightedMode i) rs st = Inr st'" and inv: "mode_inv i (modePairs rs) st'" by auto
  have w: "kv_get_or 0 (weightsOf (modePairs rs)) v =
      sum_list (map (\<lambda>r. uint (mrPower r)) (filter (\<lambda>r. mrValue r = v) rs))" for v
    by (simp add: weightsOf_get_or modePairs_def filter_map o_def)
  obtain a where "kv_get (AggregateValue st') i = Some a"
    using inv assms(3) by (cases "kv_get (AggregateValue st') i") (auto simp: mode_inv_def modePairs_def)
  then show ?thesis using run inv unfolding mode_inv_def w by (auto simp: modePairs_def image_iff)
qed

definition ex_mode_reports :: "micro_report list" where
  "ex_mode_reports = map (\<lambda>(v, p).
     \<lparr>mrReporter = ''r'', mrPower = p, mrQueryType = ''EVMCall'', mrQueryId = ''q'',
      mrAggregateMethod = ''weighted-mode'', mrValue = v, mrTimestamp = 0, mrCyclelist = True,
      mrBlockNumber = 1, mrMetaId = 7\<rparr>) [(''aa'', 3), (''bb'', 4), (''aa'', 2)]"

theorem running_mode_maximal_witness:
  "\<exists>st' a. foldR (AddReportWeightedMode 7) ex_mode_reports (emptyOracle ()) = Inr st'
    \<and> kv_get (AggregateValue st') 7 = Some a \<and> uint (raCrossoverWeight a) \<ge> 5"
proof -
  have "mode_reports ex_mode_reports" by code_simp
  moreover have "ex_mode_reports \<noteq> []" by (simp add: ex_mode_reports_def)
  moreover have "sum_list (map (\<lambda>r. uint (mrPower r)) (filter (\<lambda>r. mrValue r = ''aa'') ex_mode_reports)) = 5"
    by (simp add: ex_mode_reports_def)
  ultimately show ?thesis using running_mode_maximal [OF ex_median_ok(1), of ex_mode_reports] by metis
qed

section \<open>The order of hexadecimal values\<close>

fun hexVal :: "string \<Rightarrow> nat" where
  "hexVal [] = 0"
| "hexVal (c # s) = the (hex_digit c) * 16 ^ length s + hexVal s"

fun bytesVal :: "bytes \<Rightarrow> nat" where
  "bytesVal [] = 0"
| "bytesVal (c # s) = of_char c * 256 ^ length s + bytesVal s"

definition lower_hex :: "char \<Rightarrow> bool" where
  "lower_hex c \<longleftrightarrow> (\<exists>n < 16. c = hex_char n)"

lemma hexVal_bound: "\<forall>c \<in> set s. lower_hex c \<Longrightarrow> hexVal s < 16 ^ length s"
proof (induction s)
  case Nil
  then show ?case by simp
next
  case (Cons c s)
  then obtain n where n: "n < 16" "c = hex_char n" by (auto simp: lower_hex_def)
  have "(n + 1) * 16 ^ length s \<le> 16 * 16 ^ length s" using n(1) by (intro mult_right_mono) simp_all
  then have "n * 16 ^ length s + 16 ^ length s \<le> 16 * 16 ^ length s" by (simp add: distrib_right)
  moreover have "hexVal s < 16 ^ length s" using Cons by simp
  ultimately have "n * 16 ^ length s + hexVal s < 16 * 16 ^ length s" by linarith
  then show ?case using n by simp
qed

lemma hex_char_less: "m < 16 \<Longrightarrow> n < 16 \<Longrightarrow> hex_char m < hex_char n \<longleftrightarrow> m < n"
  by (auto simp: less_char_def hex_char_code)

lemma lex_less_iff_hexVal:
  assumes "length s = length t" and "\<forall>c \<in> set s. lower_hex c" and "\<forall>c \<in> set t. lower_hex c"
  shows "s < t \<longleftrightarrow> hexVal s < hexVal t"
  using assms
proof (induction s t rule: list_induct2)
  case Nil
  then show ?case by simp
next
  case (Cons c s d t)
  obtain m n where c: "m < 16" "c = hex_char m" and d: "n < 16" "d = hex_char n"
    using Cons.prems by (auto simp: lower_hex_def)
  have b: "hexVal s < 16 ^ length t" "hexVal t < 16 ^ length t"
    using hexVal_bound [of s] hexVal_bound [of t] Cons.prems Cons.hyps by simp_all
  have IH: "s < t \<longleftrightarrow> hexVal s < hexVal t" using Cons.IH Cons.prems by simp
  have step: "hexVal (c # s) = m * 16 ^ length t + hexVal s" "hexVal (d # t) = n * 16 ^ length t + hexVal t"
    using c d Cons.hyps by simp_all
  have lt: "x * 16 ^ length t + u < y * 16 ^ length t + w"
    if "x < y" "u < 16 ^ length t" for x y u w :: nat
  proof -
    have "(x + 1) * 16 ^ length t \<le> y * 16 ^ length t" using that(1) by (intro mult_right_mono) simp_all
    then have "x * 16 ^ length t + 16 ^ length t \<le> y * 16 ^ length t" by (simp add: distrib_right)
    then show ?thesis using that(2) by linarith
  qed
  consider "m < n" | "m = n" | "n < m" by linarith
  then show ?case
  proof cases
    case 1
    then show ?thesis using lt [OF 1 b(1), of "hexVal t"] c d unfolding step by (simp add: hex_char_less)
  next
    case 2
    then show ?thesis using IH c d unfolding step by simp
  next
    case 3
    then have "d < c" using c d by (simp add: hex_char_less)
    then have "\<not> c < d" "c \<noteq> d" by auto
    then show ?thesis using lt [OF 3 b(2), of "hexVal s"] unfolding step by simp
  qed
qed

lemma hexEncode_lower: "\<forall>c \<in> set (hexEncode b). lower_hex c"
proof (induction b)
  case Nil
  then show ?case by simp
next
  case (Cons c b)
  have "lower_hex (hex_char ((of_char c :: nat) div 16))" "lower_hex (hex_char ((of_char c :: nat) mod 16))"
    unfolding lower_hex_def using high_nibble [of c] by (auto intro: exI [of _ "of_char c mod 16"])
  then show ?case using Cons by simp
qed

lemma length_hexEncode: "length (hexEncode b) = 2 * length b"
  by (induction b) auto

lemma hexVal_hexEncode: "hexVal (hexEncode b) = bytesVal b"
proof (induction b)
  case Nil
  then show ?case by simp
next
  case (Cons c b)
  have "(16 :: nat) ^ (2 * length b) = 256 ^ length b" by (simp add: power_mult)
  moreover have "(of_char c :: nat) div 16 * (16 * x) + of_char c mod 16 * x = of_char c * x" for x :: nat
    by (metis distrib_right div_mult_mod_eq mult.assoc)
  ultimately show ?case using Cons high_nibble [of c] by (simp add: length_hexEncode)
qed

lemma hexVal_append: "hexVal (replicate n (CHR ''0'') @ s) = hexVal s"
  by (induction n) (simp_all add: hex_digit_def)

text \<open>
  The median compares numbers. Two submitted values of at most 32 bytes, printed in
  hexadecimal as \<^verbatim>\<open>SubmitValue\<close> stores them and padded by \<^verbatim>\<open>FormatUint256\<close>, compare as strings
  exactly as the big-endian numbers they stand for.
\<close>

theorem value_order_numeric:
  assumes "FormatUint256 (hexEncode a) = Inr s" and "FormatUint256 (hexEncode b) = Inr t"
  shows "(s < t) = (bytesVal a < bytesVal b)"
proof -
  have pad: "x = replicate (64 - length (hexEncode c)) (CHR ''0'') @ hexEncode c \<and> length x = 64"
    if "FormatUint256 (hexEncode c) = Inr x" for c x
    using that hexEncode_no_prefix [of c] by (auto simp: FormatUint256_def Let_def pad64_eq split: if_splits)
  have "CHR ''0'' = hex_char 0" by code_simp
  then have zero: "lower_hex (CHR ''0'')" unfolding lower_hex_def by (intro exI [of _ 0]) simp
  have "\<forall>c \<in> set s. lower_hex c" "\<forall>c \<in> set t. lower_hex c"
    using pad [OF assms(1)] pad [OF assms(2)] zero hexEncode_lower by (metis Un_iff in_set_replicate set_append)+
  moreover have "length s = length t" using pad assms by metis
  ultimately have "s < t \<longleftrightarrow> hexVal s < hexVal t" by (intro lex_less_iff_hexVal)
  moreover have "hexVal s = bytesVal a" "hexVal t = bytesVal b"
    using pad [OF assms(1)] pad [OF assms(2)] hexVal_append hexVal_hexEncode by metis+
  ultimately show ?thesis by simp
qed

theorem value_order_numeric_witness:
  "(replicate 62 (CHR ''0'') @ ''09'' < replicate 62 (CHR ''0'') @ ''0a'')
     = (bytesVal [CHR 0x09] < bytesVal [CHR 0x0A])"
  by (rule value_order_numeric) code_simp+

end
