(* ===== verification/OracleLiveness.thy ===== *)
theory OracleLiveness
  imports OracleAggregate
begin

text \<open>
  Rewards of the oracle (\<^verbatim>\<open>liveness.go\<close>, \<^verbatim>\<open>rewards.go\<close>): the shares reporters earn in the
  aggregates of a period, the demotion of queries tipped out of turn, the distribution of
  the time-based rewards at the end of a period, and the distribution of a tip.
\<close>

section \<open>Reports of an aggregate\<close>

text \<open>The index \<^verbatim>\<open>IdQueryId\<close> at one query: the reporters with their reports.\<close>

definition reportsOf :: "'w oracle_state \<Rightarrow> u64 \<Rightarrow> bytes \<Rightarrow> (addr \<times> micro_report) list" where
  "reportsOf st metaId queryId =
     map (\<lambda>((_, reporter, _), r). (reporter, r))
       (filter (\<lambda>((q, _, i), _). q = queryId \<and> i = metaId) (Reports st))"

text \<open>\<^verbatim>\<open>math.LegacyNewDec(int64(x))\<close>.\<close>

definition decOfU64 :: "u64 \<Rightarrow> dec" where
  "decOfU64 x = dec_of (i64 (uint x))"

section \<open>Shares\<close>

definition AddReporterQueryShareSum ::
  "'w oracle_env \<Rightarrow> addr \<Rightarrow> bytes \<Rightarrow> u64 \<Rightarrow> u64 \<Rightarrow> 'w oracle_state \<Rightarrow> 'w oracle_state result" where
  "AddReporterQueryShareSum env reporter queryId reporterPower aggregateTotalPower st =
     (if aggregateTotalPower = 0 then Inr st
      else bindR (decQuo (oeDec env) (decOfU64 reporterPower) (decOfU64 aggregateTotalPower)) (\<lambda>share.
        let currentSum = kv_get_or 0 (ReporterQueryShareSum st) (queryId, reporter)
        in Inr (st\<lparr>ReporterQueryShareSum :=
             kv_set (queryId, reporter) (currentSum + share) (ReporterQueryShareSum st)\<rparr>)))"

definition UpdateReporterLiveness ::
  "'w oracle_env \<Rightarrow> addr \<Rightarrow> bytes \<Rightarrow> u64 \<Rightarrow> u64 \<Rightarrow> bool \<Rightarrow> 'w oracle_state \<Rightarrow> 'w oracle_state result" where
  "UpdateReporterLiveness env reporter queryId reporterPower aggregateTotalPower isNonStandard st =
     (if aggregateTotalPower = 0 then Inr st
      else bindR (decQuo (oeDec env) (decOfU64 reporterPower) (decOfU64 aggregateTotalPower)) (\<lambda>share.
        bindR (AddReporterQueryShareSum env reporter queryId reporterPower aggregateTotalPower st) (\<lambda>st.
        if isNonStandard then Inr st
        else Inr (st\<lparr>ReporterStandardShareSum :=
             kv_set reporter (kv_get_or 0 (ReporterStandardShareSum st) reporter + share)
               (ReporterStandardShareSum st)\<rparr>))))"

definition TrackLivenessForAggregateWithQueryId ::
  "'w oracle_env \<Rightarrow> aggregate \<Rightarrow> bytes \<Rightarrow> 'w oracle_state \<Rightarrow> 'w oracle_state result" where
  "TrackLivenessForAggregateWithQueryId env agg queryIdForTracking st =
     (let isNonStandard = kv_has (NonStandardQueries st) queryIdForTracking
      in foldR (\<lambda>(reporter, report). UpdateReporterLiveness env reporter queryIdForTracking
             (mrPower report) (AggregatePower agg) isNonStandard)
           (reportsOf st (agMetaId agg) (agQueryId agg)) st)"

definition TrackLivenessForAggregate ::
  "'w oracle_env \<Rightarrow> aggregate \<Rightarrow> 'w oracle_state \<Rightarrow> 'w oracle_state result" where
  "TrackLivenessForAggregate env agg st = TrackLivenessForAggregateWithQueryId env agg (agQueryId agg) st"

definition TrackLivenessForTRBBridge ::
  "'w oracle_env \<Rightarrow> aggregate \<Rightarrow> 'w oracle_state \<Rightarrow> 'w oracle_state result" where
  "TrackLivenessForTRBBridge env agg st =
     TrackLivenessForAggregateWithQueryId env agg TRBBridgeMarkerQueryId
       (st\<lparr>NonStandardQueries := kv_set TRBBridgeMarkerQueryId True (NonStandardQueries st)\<rparr>)"

definition IncrementQueryOpportunities :: "bytes \<Rightarrow> 'w oracle_state \<Rightarrow> 'w oracle_state" where
  "IncrementQueryOpportunities queryId st =
     st\<lparr>QueryOpportunities :=
          kv_set queryId (kv_get_or 0 (QueryOpportunities st) queryId + 1) (QueryOpportunities st)\<rparr>"

definition opt0 :: "u64 option \<Rightarrow> u64" where
  "opt0 x = (case x of None \<Rightarrow> 0 | Some n \<Rightarrow> n)"

definition IncrementStandardOpportunities :: "'w oracle_state \<Rightarrow> 'w oracle_state" where
  "IncrementStandardOpportunities st =
     st\<lparr>StandardOpportunities := Some (opt0 (StandardOpportunities st) + 1)\<rparr>"

text \<open>Demotion subtracts a reporter's shares of the query from its standard shares, not below
  zero.\<close>

definition demoteShare :: "addr \<times> dec \<Rightarrow> (addr, dec) kv \<Rightarrow> (addr, dec) kv" where
  "demoteShare e m =
     (let (reporter, shareSum) = e;
          newStandard = kv_get_or 0 m reporter - shareSum
      in kv_set reporter (if newStandard < 0 then 0 else newStandard) m)"

definition DemoteQueryToNonStandard :: "bytes \<Rightarrow> 'w oracle_state \<Rightarrow> 'w oracle_state" where
  "DemoteQueryToNonStandard queryId st =
     (if kv_has (NonStandardQueries st) queryId then st
      else st\<lparr>NonStandardQueries := kv_set queryId True (NonStandardQueries st),
              QueryOpportunities := kv_set queryId (opt0 (StandardOpportunities st)) (QueryOpportunities st),
              ReporterStandardShareSum :=
                fold demoteShare (kv_prefix queryId (ReporterQueryShareSum st)) (ReporterStandardShareSum st)\<rparr>)"

section \<open>Participation counters\<close>

definition TrackReporterParticipation :: "addr \<Rightarrow> 'w oracle_state \<Rightarrow> 'w oracle_state" where
  "TrackReporterParticipation reporter st =
     st\<lparr>ReporterAggregatesCount :=
          kv_set reporter (kv_get_or 0 (ReporterAggregatesCount st) reporter + 1) (ReporterAggregatesCount st)\<rparr>"

definition SetReporterLastReportTime :: "addr \<Rightarrow> int \<Rightarrow> 'w oracle_state \<Rightarrow> 'w oracle_state" where
  "SetReporterLastReportTime reporter timestamp st =
     st\<lparr>ReporterLastReportTime := kv_set reporter timestamp (ReporterLastReportTime st)\<rparr>"

definition GetReporterLastReportTime :: "'w oracle_state \<Rightarrow> addr \<Rightarrow> int" where
  "GetReporterLastReportTime st reporter = kv_get_or 0 (ReporterLastReportTime st) reporter"

definition IncrementTotalAggregates :: "'w oracle_state \<Rightarrow> 'w oracle_state" where
  "IncrementTotalAggregates st = st\<lparr>TotalAggregatesCount := Some (opt0 (TotalAggregatesCount st) + 1)\<rparr>"

definition GetReporterPercentLiveness :: "'w oracle_env \<Rightarrow> 'w oracle_state \<Rightarrow> addr \<Rightarrow> (u64 \<times> u64 \<times> dec) result" where
  "GetReporterPercentLiveness env st reporter =
     (case TotalAggregatesCount st of
        None \<Rightarrow> Inr (0, 0, 0)
      | Some total' \<Rightarrow>
          if total' = 0 then Inr (0, 0, 0)
          else case kv_get (ReporterAggregatesCount st) reporter of
                 None \<Rightarrow> Inr (0, total', 0)
               | Some reported \<Rightarrow>
                   bindR (decQuo (oeDec env) (decOfU64 reported) (decOfU64 total')) (\<lambda>q.
                   Inr (reported, total', q * 100)))"

section \<open>Distribution\<close>

definition GetTimeBasedRewards :: "'w oracle_env \<Rightarrow> 'w oracle_state \<Rightarrow> int" where
  "GetTimeBasedRewards env st =
     bkGetBalance (oeBank env) (orcWorld st) (Module timeBasedRewards) BondDenom"

definition GetCyclelist :: "'w oracle_state \<Rightarrow> bytes list" where
  "GetCyclelist st = map snd (Cyclelist st)"

definition ResetLivenessData :: "'w oracle_state \<Rightarrow> 'w oracle_state" where
  "ResetLivenessData st =
     st\<lparr>QueryOpportunities := [], ReporterQueryShareSum := [], ReporterStandardShareSum := [],
        NonStandardQueries := [], StandardOpportunities := Some 0\<rparr>"

definition AllocateTBR ::
  "'w oracle_env \<Rightarrow> ctx \<Rightarrow> addr \<Rightarrow> dec \<Rightarrow> 'w oracle_state \<Rightarrow> 'w oracle_state result" where
  "AllocateTBR env c a amount st =
     bindR (orkDivvyingTips (oeReporter env) c a amount (orcWorld st)) (\<lambda>w. Inr (st\<lparr>orcWorld := w\<rparr>))"

text \<open>The reward of a share over a number of opportunities.\<close>

definition shareReward :: "'w oracle_env \<Rightarrow> dec \<Rightarrow> u64 \<Rightarrow> dec \<Rightarrow> dec result" where
  "shareReward env share opportunities rewardPerSlot =
     bindR (decQuo (oeDec env) share (decOfU64 opportunities)) (\<lambda>q. Inr (dmul (oeDec env) q rewardPerSlot))"

text \<open>The map of rewards by reporter that the two loops of the distribution fill.\<close>

definition addReward :: "addr \<Rightarrow> dec \<Rightarrow> (addr, dec) kv \<Rightarrow> (addr, dec) kv" where
  "addReward reporter reward m = kv_set reporter (kv_get_or 0 m reporter + reward) m"

definition standardRewards ::
  "'w oracle_env \<Rightarrow> dec \<Rightarrow> 'w oracle_state \<Rightarrow> (addr, dec) kv \<Rightarrow> (addr, dec) kv result" where
  "standardRewards env rewardPerSlot st m =
     (let standardOpportunities = opt0 (StandardOpportunities st)
      in if 0 < standardOpportunities
         then foldR (\<lambda>(reporter, share) m.
                bindR (shareReward env share standardOpportunities rewardPerSlot) (\<lambda>reward.
                Inr (addReward reporter reward m))) (ReporterStandardShareSum st) m
         else Inr m)"

definition nonStandardOpportunities :: "'w oracle_state \<Rightarrow> (bytes, u64) kv" where
  "nonStandardOpportunities st =
     filter (\<lambda>e. 0 < snd e) (map (\<lambda>(q, _). (q, kv_get_or 0 (QueryOpportunities st) q)) (NonStandardQueries st))"

definition nonStandardRewards ::
  "'w oracle_env \<Rightarrow> dec \<Rightarrow> 'w oracle_state \<Rightarrow> (addr, dec) kv \<Rightarrow> (addr, dec) kv result" where
  "nonStandardRewards env rewardPerSlot st m =
     (if nonStandardOpportunities st = [] then Inr m
      else foldR (\<lambda>((queryId, reporter), share) m.
             case kv_get (nonStandardOpportunities st) queryId of
               None \<Rightarrow> Inr m
             | Some opportunities \<Rightarrow>
                 if opportunities = 0 then Inr m
                 else bindR (shareReward env share opportunities rewardPerSlot) (\<lambda>reward.
                      Inr (addReward reporter reward m))) (ReporterQueryShareSum st) m)"

definition payReward ::
  "'w oracle_env \<Rightarrow> ctx \<Rightarrow> addr \<times> dec \<Rightarrow> dec \<times> 'w oracle_state \<Rightarrow> (dec \<times> 'w oracle_state) result" where
  "payReward env c e ds =
     (let (reporter, reward) = e; (distributed, st) = ds in
      if 0 < reward
      then bindR (AllocateTBR env c reporter reward st) (\<lambda>st. Inr (distributed + reward, st))
      else Inr (distributed, st))"

definition numSlotsOf :: "'w oracle_state \<Rightarrow> int" where
  "numSlotsOf st = int (length (GetCyclelist st)) +
     (if 0 < kv_get_or 0 (QueryOpportunities st) TRBBridgeMarkerQueryId then 1 else 0)"

text \<open>Payment of the rewards, transfer of the time-based rewards to the escrow of the
  reporters, and the rest kept as dust for the next period.\<close>

definition settleRewards ::
  "'w oracle_env \<Rightarrow> ctx \<Rightarrow> int \<Rightarrow> dec \<Rightarrow> (addr, dec) kv \<Rightarrow> 'w oracle_state \<Rightarrow> 'w oracle_state result" where
  "settleRewards env c tbr totalToDistribute reporterRewards st =
     bindR (foldR (payReward env c) (oeMapOrder env reporterRewards) (0, st)) (\<lambda>(distributed, st).
     bindR (bkSendCoins (oeBank env) (Module timeBasedRewards) (Module tipsEscrowPool) BondDenom tbr
              (orcWorld st)) (\<lambda>w.
     let newDust = totalToDistribute - distributed
     in Inr (ResetLivenessData (st\<lparr>orcWorld := w,
          livenessDust := Some (if 0 < newDust then TruncateInt newDust else 0)\<rparr>))))"

definition DistributeLivenessRewards ::
  "'w oracle_env \<Rightarrow> ctx \<Rightarrow> 'w oracle_state \<Rightarrow> 'w oracle_state result" where
  "DistributeLivenessRewards env c st =
     (let tbr = GetTimeBasedRewards env st in
      if tbr = 0 then Inr (ResetLivenessData st)
      else if numSlotsOf st = 0 then Inr (ResetLivenessData st)
      else
        let dust = (case livenessDust st of None \<Rightarrow> 0 | Some d \<Rightarrow> d);
            totalToDistribute = dec_of tbr + dec_of dust in
        bindR (decQuo (oeDec env) totalToDistribute (dec_of (numSlotsOf st))) (\<lambda>rewardPerSlot.
        bindR (standardRewards env rewardPerSlot st []) (\<lambda>m.
        bindR (nonStandardRewards env rewardPerSlot st m) (\<lambda>reporterRewards.
        settleRewards env c tbr totalToDistribute reporterRewards st))))"

definition CheckAndDistributeLivenessRewards ::
  "'w oracle_env \<Rightarrow> ctx \<Rightarrow> 'w oracle_state \<Rightarrow> 'w oracle_state result" where
  "CheckAndDistributeLivenessRewards env c st =
     (let st = IncrementStandardOpportunities st;
          cycleCount = CycleCount st;
          st = st\<lparr>CycleCount := cycleCount + 1\<rparr>
      in bindR (getR (orcParams st)) (\<lambda>params.
         bindR (guardR (LivenessCycles params \<noteq> 0) ErrPanic) (\<lambda>_.
         if cycleCount mod LivenessCycles params \<noteq> 0 then Inr st
         else DistributeLivenessRewards env c st)))"

section \<open>Tips\<close>

definition tipShare :: "'w oracle_env \<Rightarrow> u64 \<Rightarrow> u64 \<Rightarrow> dec \<Rightarrow> dec result" where
  "tipShare env p aggregatePower reward =
     bindR (decQuo (oeDec env) (decOfU64 p) (decOfU64 aggregatePower)) (\<lambda>q. Inr (dmul (oeDec env) q reward))"

definition DistributeTip ::
  "'w oracle_env \<Rightarrow> ctx \<Rightarrow> aggregate \<Rightarrow> dec \<Rightarrow> 'w oracle_state \<Rightarrow> 'w oracle_state result" where
  "DistributeTip env c agg reward st =
     foldR (\<lambda>(reporter, report) st.
        bindR (tipShare env (mrPower report) (AggregatePower agg) reward) (\<lambda>amount.
        bindR (orkDivvyingTips (oeReporter env) c reporter amount (orcWorld st)) (\<lambda>w.
        Inr (st\<lparr>orcWorld := w\<rparr>))))
       (reportsOf st (agMetaId agg) (agQueryId agg)) st"

end
