(* ===== verification/OracleQueries.thy ===== *)
theory OracleQueries
  imports OracleLiveness
begin

text \<open>
  The life of a query in the oracle: its creation by a tip, by the rotation of the cycle
  list or by a bridge deposit (\<^verbatim>\<open>keeper.go\<close>, \<^verbatim>\<open>msg_server_tip.go\<close>, \<^verbatim>\<open>cycle_list.go\<close>,
  \<^verbatim>\<open>token_bridge_deposit.go\<close>), the submission of values one by one or in a batch
  (\<^verbatim>\<open>submit_value.go\<close>, \<^verbatim>\<open>msg_server_submit_value.go\<close>, \<^verbatim>\<open>msg_server_batch_submit.go\<close>), its
  aggregation and the other steps of the end of a block (\<^verbatim>\<open>aggregate.go\<close>, \<^verbatim>\<open>abci.go\<close>).
\<close>

section \<open>Queries\<close>

definition GetDataSpec :: "'w oracle_env \<Rightarrow> 'w oracle_state \<Rightarrow> string \<Rightarrow> data_spec result" where
  "GetDataSpec env st queryType = oeGetSpec env (orcWorld st) queryType"

text \<open>\<^verbatim>\<open>QuerySequencer.Next\<close>.\<close>

definition nextQueryId :: "'w oracle_state \<Rightarrow> u64 \<times> 'w oracle_state" where
  "nextQueryId st = (QuerySequencer st, st\<lparr>QuerySequencer := QuerySequencer st + 1\<rparr>)"

definition InitializeQuery ::
  "'w oracle_env \<Rightarrow> bytes \<Rightarrow> 'w oracle_state \<Rightarrow> (query_meta \<times> 'w oracle_state) result" where
  "InitializeQuery env querydata st =
     bindR (DecodeQueryType (oeUnpack env) querydata) (\<lambda>(queryType, _).
     bindR (guardR (\<not> equalFold queryType TRBBridgeQueryType)
              (Err ''cannot initialize deprecated TRBBridge query type'')) (\<lambda>_.
     bindR (GetDataSpec env st queryType) (\<lambda>dataSpec.
     let (i, st) = nextQueryId st
     in Inr (\<lparr>qmId = i, qmAmount = 0, qmExpiration = 0,
              RegistrySpecBlockWindow = ReportBlockWindow dataSpec, HasRevealedReports = False,
              qmQueryData = querydata, qmQueryType = '''', qmCycleList = False\<rparr>, st))))"

definition CurrentQuery :: "'w oracle_state \<Rightarrow> bytes \<Rightarrow> query_meta option" where
  "CurrentQuery st queryId =
     (case firstOf (rev (kv_prefix queryId (Query st))) of
        None \<Rightarrow> None
      | Some (_, query) \<Rightarrow> if qmQueryData query = [] then None else Some query)"

definition setQuery :: "bytes \<Rightarrow> query_meta \<Rightarrow> 'w oracle_state \<Rightarrow> 'w oracle_state" where
  "setQuery queryId query st = st\<lparr>Query := kv_set (queryId, qmId query) query (Query st)\<rparr>"

definition removeQuery :: "bytes \<Rightarrow> u64 \<Rightarrow> 'w oracle_state \<Rightarrow> 'w oracle_state result" where
  "removeQuery queryId i st = bindR (kv_remove (queryId, i) (Query st)) (\<lambda>m. Inr (st\<lparr>Query := m\<rparr>))"

definition UpdateQuery :: "'w oracle_env \<Rightarrow> string \<Rightarrow> u64 \<Rightarrow> 'w oracle_state \<Rightarrow> 'w oracle_state" where
  "UpdateQuery env queryType newBlockWindow st =
     fold (\<lambda>query st. setQuery (queryIdOf env (qmQueryData query))
             (query\<lparr>RegistrySpecBlockWindow := newBlockWindow\<rparr>) st)
       (filter (\<lambda>q. qmQueryType q = queryType) (map snd (Query st))) st"

text \<open>The hook the registry calls when a data specification changes.\<close>

definition oracleAfterDataSpecUpdated ::
  "'w oracle_env \<Rightarrow> string \<Rightarrow> data_spec \<Rightarrow> 'w oracle_state \<Rightarrow> 'w oracle_state result" where
  "oracleAfterDataSpecUpdated env querytype dataspec st =
     Inr (UpdateQuery env querytype (ReportBlockWindow dataspec) st)"

section \<open>Tips\<close>

record msg_tip =
  mtTipper :: string
  mtQueryData :: bytes
  mtDenom :: denom
  mtAmount :: int

definition transfer :: "'w oracle_env \<Rightarrow> addr \<Rightarrow> int \<Rightarrow> 'w \<Rightarrow> (int \<times> 'w) result" where
  "transfer env tipper amount w =
     (let twoPercent = quoT (amount * 2) 100 in
      bindR (guardR (0 \<le> twoPercent) ErrPanic) (\<lambda>_.
      bindR (bkSendCoins (oeBank env) (User tipper) (Module oracleModule) BondDenom amount w) (\<lambda>w.
      bindR (bkBurnCoins (oeBank env) oracleModule BondDenom twoPercent w) (\<lambda>w.
      Inr (amount - twoPercent, w)))))"

definition GetQueryTip :: "'w oracle_state \<Rightarrow> bytes \<Rightarrow> int" where
  "GetQueryTip st queryId = (case CurrentQuery st queryId of None \<Rightarrow> 0 | Some q \<Rightarrow> qmAmount q)"

definition GetTipsAtBlockForTipper :: "'w oracle_state \<Rightarrow> u64 \<Rightarrow> addr \<Rightarrow> int" where
  "GetTipsAtBlockForTipper st blockNumber tipper =
     (case firstOf (rev (filter (\<lambda>e. fst e \<le> blockNumber) (kv_prefix tipper (TipperTotal st)))) of
        None \<Rightarrow> 0 | Some (_, v) \<Rightarrow> v)"

definition GetUserTips :: "ctx \<Rightarrow> 'w oracle_state \<Rightarrow> addr \<Rightarrow> int" where
  "GetUserTips c st tipper = GetTipsAtBlockForTipper st (heightOf c) tipper"

definition GetTotalTipsAtBlock :: "'w oracle_state \<Rightarrow> u64 \<Rightarrow> int" where
  "GetTotalTipsAtBlock st blockNumber =
     (case firstOf (rev (filter (\<lambda>e. fst e \<le> blockNumber) (TotalTips st))) of
        None \<Rightarrow> 0 | Some (_, total') \<Rightarrow> total')"

definition GetTotalTips :: "ctx \<Rightarrow> 'w oracle_state \<Rightarrow> int" where
  "GetTotalTips c st = GetTotalTipsAtBlock st (heightOf c)"

definition AddtoTotalTips :: "ctx \<Rightarrow> int \<Rightarrow> 'w oracle_state \<Rightarrow> 'w oracle_state" where
  "AddtoTotalTips c amt st = st\<lparr>TotalTips := kv_set (heightOf c) (GetTotalTips c st + amt) (TotalTips st)\<rparr>"

definition AddToTipperTotal :: "ctx \<Rightarrow> addr \<Rightarrow> int \<Rightarrow> 'w oracle_state \<Rightarrow> 'w oracle_state" where
  "AddToTipperTotal c tipper amt st =
     st\<lparr>TipperTotal := kv_set (tipper, heightOf c) (GetUserTips c st tipper + amt) (TipperTotal st)\<rparr>"

definition validateTip :: "'w oracle_env \<Rightarrow> msg_tip \<Rightarrow> addr result" where
  "validateTip env msg =
     bindR (wrapR ''invalid tipper address'' (oeAccAddressFromBech32 env (mtTipper msg))) (\<lambda>tipper.
     bindR (guardR (mtDenom msg = BondDenom \<and> 0 < mtAmount msg) (Err ''invalid tip amount'')) (\<lambda>_.
     bindR (guardR (mtQueryData msg \<noteq> []) (Err ''query data is empty'')) (\<lambda>_.
     Inr tipper)))"

text \<open>The query a tip goes to: the current one or a new one that opens in this block.\<close>

definition tippedQuery ::
  "'w oracle_env \<Rightarrow> ctx \<Rightarrow> bytes \<Rightarrow> 'w oracle_state \<Rightarrow> (query_meta \<times> 'w oracle_state) result" where
  "tippedQuery env c queryData st =
     (case CurrentQuery st (queryIdOf env queryData) of
        Some query \<Rightarrow> Inr (query, st)
      | None \<Rightarrow>
          bindR (InitializeQuery env queryData st) (\<lambda>(query, st).
          Inr (query\<lparr>qmAmount := 0, qmExpiration := heightOf c + RegistrySpecBlockWindow query\<rparr>, st)))"

text \<open>An expired query is reopened under a new id; a query of the cycle list tipped out of
  turn is demoted.\<close>

definition reopenQuery ::
  "ctx \<Rightarrow> bytes \<Rightarrow> query_meta \<Rightarrow> 'w oracle_state \<Rightarrow> (query_meta \<times> 'w oracle_state) result" where
  "reopenQuery c queryId query st =
     (let query = query\<lparr>qmExpiration := heightOf c + RegistrySpecBlockWindow query\<rparr>;
          (query, st) =
            (if kv_has (Cyclelist st) queryId
             then (query\<lparr>qmCycleList := True\<rparr>,
                   IncrementQueryOpportunities queryId (DemoteQueryToNonStandard queryId st))
             else (query\<lparr>qmCycleList := False\<rparr>, st));
          (i, st) = nextQueryId st
      in bindR (removeQuery queryId (qmId query) st) (\<lambda>st. Inr (query\<lparr>qmId := i\<rparr>, st)))"

definition Tip :: "'w oracle_env \<Rightarrow> ctx \<Rightarrow> msg_tip \<Rightarrow> 'w oracle_state \<Rightarrow> 'w oracle_state result" where
  "Tip env c msg st =
     bindR (validateTip env msg) (\<lambda>tipper.
     bindR (getR (orcParams st)) (\<lambda>params.
     bindR (guardR (MinTipAmount params \<le> mtAmount msg) (Err ''ErrNotEnoughTip'')) (\<lambda>_.
     bindR (guardR (mtAmount msg \<le> MaxTipAmount params) (Err ''ErrTipExceedsMax'')) (\<lambda>_.
     let queryId = queryIdOf env (mtQueryData msg) in
     bindR (tippedQuery env c (mtQueryData msg) st) (\<lambda>(query, st).
     bindR (guardR (qmAmount query + mtAmount msg \<le> DefaultMaxTipAmount) (Err ''ErrTipExceedsMax'')) (\<lambda>_.
     bindR (transfer env tipper (mtAmount msg) (orcWorld st)) (\<lambda>(tip, w).
     let st = st\<lparr>orcWorld := w\<rparr>;
         query = query\<lparr>qmAmount := qmAmount query + tip\<rparr> in
     bindR (if qmExpiration query < heightOf c then reopenQuery c queryId query st
            else Inr (query, st)) (\<lambda>(query, st).
     Inr (AddtoTotalTips c tip (AddToTipperTotal c tipper tip (setQuery queryId query st)))))))))))"

section \<open>Submission\<close>

definition microReportOf ::
  "'w oracle_env \<Rightarrow> ctx \<Rightarrow> addr \<Rightarrow> query_meta \<Rightarrow> string \<Rightarrow> bytes \<Rightarrow> u64 \<Rightarrow> bool \<Rightarrow> string \<Rightarrow> string \<Rightarrow> micro_report" where
  "microReportOf env c reporter query val queryId pow incycle queryType method =
     \<lparr>mrReporter = oeAccString env reporter, mrPower = pow, mrQueryType = queryType, mrQueryId = queryId,
      mrAggregateMethod = method, mrValue = val, mrTimestamp = BlockTime c, mrCyclelist = incycle,
      mrBlockNumber = heightOf c, mrMetaId = qmId query\<rparr>"

text \<open>The writes of \<^verbatim>\<open>SetValue\<close> after its checks. The query is written before the report is
  added to the aggregate.\<close>

definition storeReport ::
  "ctx \<Rightarrow> addr \<Rightarrow> query_meta \<Rightarrow> bytes \<Rightarrow> micro_report \<Rightarrow> 'w oracle_state \<Rightarrow> 'w oracle_state run" where
  "storeReport c reporter query queryId report st =
     (let query = query\<lparr>HasRevealedReports := True\<rparr>;
          st = setQuery queryId query st;
          added = (if mrAggregateMethod report = WeightedMedian then AddReport (qmId query) report st
                   else AddReportWeightedMode (qmId query) report st)
      in case added of
           Inl e \<Rightarrow> (Some (Err ''failed to add report''), st)
         | Inr st \<Rightarrow>
             (None, SetReporterLastReportTime reporter (unixMilli (BlockTime c))
                (TrackReporterParticipation reporter
                  (st\<lparr>Reports := kv_set (queryId, reporter, qmId query) report (Reports st)\<rparr>))))"

definition SetValue ::
  "'w oracle_env \<Rightarrow> ctx \<Rightarrow> addr \<Rightarrow> query_meta \<Rightarrow> string \<Rightarrow> bytes \<Rightarrow> u64 \<Rightarrow> bool \<Rightarrow> 'w oracle_state \<Rightarrow> 'w oracle_state run" where
  "SetValue env c reporter query val queryData pow incycle st =
     (let queryId = queryIdOf env queryData;
          checks = bindR (guardR (\<not> kv_has (Reports st) (queryId, reporter, qmId query))
                (Err ''reporter has already submitted a report for this query'')) (\<lambda>_.
              bindR (wrapR ''failed to decode query type'' (DecodeQueryType (oeUnpack env) queryData)) (\<lambda>(queryType, _).
              bindR (wrapR ''failed to get value type'' (GetDataSpec env st queryType)) (\<lambda>dataSpec.
              bindR (wrapR ''failed to validate value'' (ValidateValue (oeUnpack env) dataSpec val)) (\<lambda>_.
              Inr (microReportOf env c reporter query val queryId pow incycle queryType (AggregationMethod dataSpec))))))
      in case checks of
           Inl e \<Rightarrow> (Some e, st)
         | Inr report \<Rightarrow> storeReport c reporter query queryId report st)"

definition TokenBridgeDepositQuery :: "ctx \<Rightarrow> bytes \<Rightarrow> 'w oracle_state \<Rightarrow> query_meta \<times> 'w oracle_state" where
  "TokenBridgeDepositQuery c queryData st =
     (let (nextId, st) = nextQueryId st
      in (\<lparr>qmId = nextId, qmAmount = 0, qmExpiration = heightOf c + 2000, RegistrySpecBlockWindow = 2000,
           HasRevealedReports = False, qmQueryData = queryData, qmQueryType = TRBBridgeV2QueryType,
           qmCycleList = True\<rparr>, st))"

definition validateBridgeDepositAmount :: "abi_unpack \<Rightarrow> string \<Rightarrow> unit result" where
  "validateBridgeDepositAmount unpack v =
     bindR (wrapR ''failed to decode bridge deposit value hex'' (hexDecode (regRemove0xPrefix v))) (\<lambda>valueBytes.
     bindR (wrapR ''failed to decode bridge deposit value''
        (unpack [AbiArg '''' ''address'' [], AbiArg '''' ''string'' [], AbiArg '''' ''uint256'' [],
                 AbiArg '''' ''uint256'' []] valueBytes)) (\<lambda>decoded.
     case decoded of
       _ # _ # AbiUint amount # _ \<Rightarrow> guardR (0 < amount) (Err ''bridge deposit amount cannot be zero'')
     | _ \<Rightarrow> Inl ErrPanic))"

text \<open>A bridge deposit whose window is over is reopened, under a new id when it has no
  tip.\<close>

definition renewDeposit :: "ctx \<Rightarrow> query_meta \<Rightarrow> 'w oracle_state \<Rightarrow> query_meta \<times> 'w oracle_state" where
  "renewDeposit c query st =
     (if qmExpiration query \<le> heightOf c
      then if qmAmount query = 0
           then let (nextId, st) = nextQueryId st;
                    query = query\<lparr>qmId := nextId, qmExpiration := heightOf c + RegistrySpecBlockWindow query\<rparr>
                in (query, st)
           else if 0 < qmAmount query
           then (query\<lparr>qmExpiration := heightOf c + RegistrySpecBlockWindow query\<rparr>, st)
           else (query, st)
      else (query, st))"

definition HandleBridgeDepositDirectReveal ::
  "'w oracle_env \<Rightarrow> ctx \<Rightarrow> query_meta \<Rightarrow> bytes \<Rightarrow> addr \<Rightarrow> string \<Rightarrow> u64 \<Rightarrow> 'w oracle_state \<Rightarrow> 'w oracle_state run" where
  "HandleBridgeDepositDirectReveal env c query querydata reporterAcc v voterPower st =
     (let (query, st) = renewDeposit c query st
      in if qmExpiration query < heightOf c then (Some (Err ''ErrSubmissionWindowExpired''), st)
         else case validateBridgeDepositAmount (oeUnpack env) v of
                Inl e \<Rightarrow> (Some e, st)
              | Inr _ \<Rightarrow> SetValue env c reporterAcc query v querydata voterPower True st)"

definition DirectReveal ::
  "'w oracle_env \<Rightarrow> ctx \<Rightarrow> query_meta \<Rightarrow> bytes \<Rightarrow> string \<Rightarrow> addr \<Rightarrow> u64 \<Rightarrow> bool \<Rightarrow> 'w oracle_state \<Rightarrow> 'w oracle_state run" where
  "DirectReveal env c query qDataBytes v reporterAddr votingPower bridgeDeposit st =
     (if bridgeDeposit then HandleBridgeDepositDirectReveal env c query qDataBytes reporterAddr v votingPower st
      else if qmAmount query = 0 \<and> \<not> qmCycleList query then (Some (Err ''ErrNoTipsNotInCycle''), st)
      else if qmExpiration query < heightOf c then (Some (Err ''ErrSubmissionWindowExpired''), st)
      else SetValue env c reporterAddr query v qDataBytes votingPower (qmCycleList query) st)"

text \<open>The deposit id is the low 64 bits of the unpacked number (\<^verbatim>\<open>big.Int.Uint64\<close>).\<close>

definition PreventBridgeWithdrawalReport :: "'w oracle_env \<Rightarrow> 'w oracle_state \<Rightarrow> bytes \<Rightarrow> bool result" where
  "PreventBridgeWithdrawalReport env st queryData =
     bindR (getR (QueryDataLimit st)) (\<lambda>limit.
     bindR (guardR (int (length queryData) \<le> i64 (uint limit)) (Err ''query data too large'')) (\<lambda>_.
     bindR (wrapR ''ErrInvalidQueryData'' (oeUnpack env [AbiArg '''' ''string'' [], AbiArg '''' ''bytes'' []] queryData))
       (\<lambda>partial.
     case partial of
       [AbiString queryType, rest] \<Rightarrow>
         if equalFold queryType TRBBridgeQueryType then Inl (Err ''cannot report deprecated TRBBridge queries'')
         else if \<not> equalFold queryType TRBBridgeV2QueryType then Inr False
         else (case rest of
           AbiBytes args \<Rightarrow>
             bindR (wrapR ''ErrInvalidQueryData'' (oeUnpack env [AbiArg '''' ''bool'' [], AbiArg '''' ''uint256'' []] args))
               (\<lambda>decoded.
             case decoded of
               [AbiBool toLayer, n] \<Rightarrow>
                 if \<not> toLayer then Inl (Err ''cannot report token bridge withdrawal'')
                 else (case n of
                   AbiUint depositId \<Rightarrow>
                     (case obkGetDepositStatus (oeBridge env) (orcWorld st) (word_of_int depositId) of
                        Inl ErrNotFound \<Rightarrow> Inr True
                      | Inl e \<Rightarrow> Inl e
                      | Inr claimStatus \<Rightarrow>
                          if claimStatus then Inl (Err ''cannot report token bridge deposit that has already been claimed'')
                          else Inr True)
                 | _ \<Rightarrow> Inl ErrPanic)
             | [_, _] \<Rightarrow> Inl (Err ''invalid query data arguments type'')
             | _ \<Rightarrow> Inl (Err ''invalid query data arguments length''))
         | _ \<Rightarrow> Inl ErrPanic)
     | [_, _] \<Rightarrow> Inl (Err ''invalid query data type'')
     | _ \<Rightarrow> Inl (Err ''invalid query data length''))))"

record msg_submit_value =
  msCreator :: string
  msQueryData :: bytes
  msValue :: string

definition validateSubmitValue :: "'w oracle_env \<Rightarrow> msg_submit_value \<Rightarrow> addr result" where
  "validateSubmitValue env msg =
     bindR (wrapR ''invalid creator address'' (oeAccAddressFromBech32 env (msCreator msg))) (\<lambda>reporterAddr.
     bindR (guardR (msQueryData msg \<noteq> []) (Err ''query data cannot be empty'')) (\<lambda>_.
     bindR (guardR (msValue msg \<noteq> []) (Err ''value cannot be empty'')) (\<lambda>_.
     Inr reporterAddr)))"

text \<open>Where a submission goes: the current query, or a new query for a bridge deposit.\<close>

definition revealTo ::
  "'w oracle_env \<Rightarrow> ctx \<Rightarrow> bytes \<Rightarrow> string \<Rightarrow> addr \<Rightarrow> u64 \<Rightarrow> bool \<Rightarrow> 'w oracle_state \<Rightarrow> 'w oracle_state result" where
  "revealTo env c queryData v reporterAddr reportingPower isTokenBridgeDeposit st =
     (let queryId = queryIdOf env queryData in
      case CurrentQuery st queryId of
        Some query \<Rightarrow>
          resultOf (DirectReveal env c query queryData v reporterAddr reportingPower isTokenBridgeDeposit st)
      | None \<Rightarrow>
          if \<not> isTokenBridgeDeposit then Inl (Err ''ErrNotTokenDeposit'')
          else let (query, st) = TokenBridgeDepositQuery c queryData st
               in resultOf (HandleBridgeDepositDirectReveal env c query queryData reporterAddr v reportingPower
                     (setQuery queryId query st)))"

definition SubmitValue ::
  "'w oracle_env \<Rightarrow> ctx \<Rightarrow> msg_submit_value \<Rightarrow> 'w oracle_state \<Rightarrow> 'w oracle_state result" where
  "SubmitValue env c msg st =
     bindR (hexDecode (regRemove0xPrefix (msValue msg))) (\<lambda>valueBytes.
     let msg = msg\<lparr>msValue := hexEncode valueBytes\<rparr> in
     bindR (validateSubmitValue env msg) (\<lambda>reporterAddr.
     bindR (PreventBridgeWithdrawalReport env st (msQueryData msg)) (\<lambda>isTokenBridgeDeposit.
     let queryId = queryIdOf env (msQueryData msg) in
     bindR (orkReporterStake (oeReporter env) c reporterAddr queryId (orcWorld st)) (\<lambda>(reporterStake, w).
     let st = st\<lparr>orcWorld := w\<rparr> in
     bindR (getR (orcParams st)) (\<lambda>params.
     bindR (guardR (MinStakeAmount params \<le> reporterStake) (Err ''ErrNotEnoughStake'')) (\<lambda>_.
     bindR (Uint64 (quoT reporterStake PowerReduction)) (\<lambda>reportingPower.
     revealTo env c (msQueryData msg) (msValue msg) reporterAddr reportingPower isTokenBridgeDeposit st)))))))"

section \<open>Batches\<close>

text \<open>One report of a batch: \<open>Inl\<close> fails the whole message, \<open>Inr (ok, st)\<close> continues with
  the state, \<open>ok\<close> false when the report is listed as failed. A failed \<^verbatim>\<open>DirectReveal\<close> leaves
  behind what it wrote.\<close>

definition batchOne ::
  "'w oracle_env \<Rightarrow> ctx \<Rightarrow> addr \<Rightarrow> token_origin_info list \<Rightarrow> int \<Rightarrow> u64 \<Rightarrow> bytes \<times> string
    \<Rightarrow> 'w oracle_state \<Rightarrow> (bool \<times> 'w oracle_state) result" where
  "batchOne env c reporterAddr delegationsUsed reporterStake reportingPower single st =
     (let queryData = fst single;
          queryId = queryIdOf env queryData;
          stored = (\<lambda>st. bindR (orkSetReporterStakeByQueryId (oeReporter env) c reporterAddr delegationsUsed
                     reporterStake queryId (orcWorld st)) (\<lambda>w. Inr (True, st\<lparr>orcWorld := w\<rparr>)))
      in case hexDecode (regRemove0xPrefix (snd single)) of
           Inl _ \<Rightarrow> Inr (False, st)
         | Inr valueBytes \<Rightarrow>
             let v = hexEncode valueBytes in
             if queryData = [] \<or> v = [] then Inr (False, st)
             else case PreventBridgeWithdrawalReport env st queryData of
               Inl ErrPanic \<Rightarrow> Inl ErrPanic
             | Inl _ \<Rightarrow> Inr (False, st)
             | Inr isTokenBridgeDeposit \<Rightarrow>
                 (case CurrentQuery st queryId of
                    None \<Rightarrow>
                      if \<not> isTokenBridgeDeposit then Inr (False, st)
                      else let (query, st) = TokenBridgeDepositQuery c queryData st
                           in bindR (resultOf (HandleBridgeDepositDirectReveal env c query queryData
                                       reporterAddr v reportingPower st)) stored
                  | Some query \<Rightarrow>
                      (case DirectReveal env c query queryData v reporterAddr reportingPower isTokenBridgeDeposit st of
                         (Some ErrPanic, _) \<Rightarrow> Inl ErrPanic
                       | (Some _, st) \<Rightarrow> Inr (False, st)
                       | (None, st) \<Rightarrow> stored st)))"

fun batchLoop ::
  "'w oracle_env \<Rightarrow> ctx \<Rightarrow> addr \<Rightarrow> token_origin_info list \<Rightarrow> int \<Rightarrow> u64 \<Rightarrow> nat \<Rightarrow> (bytes \<times> string) list
    \<Rightarrow> 'w oracle_state \<Rightarrow> (nat list \<times> 'w oracle_state) result" where
  "batchLoop env c a ds stake pow i [] st = Inr ([], st)"
| "batchLoop env c a ds stake pow i (x # xs) st =
     bindR (batchOne env c a ds stake pow x st) (\<lambda>(ok, st).
     bindR (batchLoop env c a ds stake pow (i + 1) xs st) (\<lambda>(failedIndices, st).
     Inr (if ok then failedIndices else i # failedIndices, st)))"

definition GetMaxBatchSize :: "'w oracle_state \<Rightarrow> nat" where
  "GetMaxBatchSize st = (case MaxBatchSize st of None \<Rightarrow> 0 | Some n \<Rightarrow> n)"

definition BatchSubmitValue ::
  "'w oracle_env \<Rightarrow> ctx \<Rightarrow> string \<Rightarrow> (bytes \<times> string) list \<Rightarrow> 'w oracle_state \<Rightarrow> (nat list \<times> 'w oracle_state) result" where
  "BatchSubmitValue env c creator vs st =
     bindR (wrapR ''invalid creator address'' (oeAccAddressFromBech32 env creator)) (\<lambda>reporterAddr.
     bindR (getR (orcParams st)) (\<lambda>params.
     bindR (orkGetReporterStake (oeReporter env) c reporterAddr (orcWorld st)) (\<lambda>(reporterStake, delegationsUsed, w).
     let st = st\<lparr>orcWorld := w\<rparr> in
     bindR (guardR (MinStakeAmount params \<le> reporterStake) (Err ''ErrNotEnoughStake'')) (\<lambda>_.
     bindR (Uint64 (quoT reporterStake PowerReduction)) (\<lambda>reportingPower.
     let maxBatchSize = (if GetMaxBatchSize st = 0 then 20 else GetMaxBatchSize st) in
     bindR (guardR (length vs \<le> maxBatchSize) (Err ''too many reports in batch'')) (\<lambda>_.
     batchLoop env c reporterAddr delegationsUsed reporterStake reportingPower 0 vs st))))))"

definition UpdateMaxBatchSize :: "'w oracle_env \<Rightarrow> string \<Rightarrow> nat \<Rightarrow> 'w oracle_state \<Rightarrow> 'w oracle_state result" where
  "UpdateMaxBatchSize env authority size' st =
     bindR (guardR (oeAuthority env = authority) (Err ''ErrInvalidSigner'')) (\<lambda>_.
     bindR (guardR (size' \<noteq> 0) (Err ''max batch size must be greater than 0'')) (\<lambda>_.
     Inr (st\<lparr>MaxBatchSize := Some size'\<rparr>)))"

end
