(* ===== verification/OracleBlock.thy ===== *)
theory OracleBlock
  imports OracleQueries
begin

text \<open>
  The end of a block in the oracle (\<^verbatim>\<open>abci.go\<close>): aggregation of the expired queries, claim of
  the oldest bridge deposit, rotation of the cycle list, pruning of old reports; and the
  messages of the governance module and the genesis of the module.
\<close>

section \<open>Aggregation\<close>

text \<open>The index \<^verbatim>\<open>Expiration\<close> below a height, restricted to queries with reports, descending.\<close>

definition expiredKeys :: "'w oracle_state \<Rightarrow> u64 \<Rightarrow> (bytes \<times> u64) list" where
  "expiredKeys st h =
     map snd (rev (sort (map (\<lambda>(k, q). (qmExpiration q, k))
       (filter (\<lambda>(k, q). HasRevealedReports q \<and> qmExpiration q \<le> h) (Query st)))))"

definition trackAggregate ::
  "'w oracle_env \<Rightarrow> query_meta \<Rightarrow> aggregate \<Rightarrow> 'w oracle_state \<Rightarrow> 'w oracle_state result" where
  "trackAggregate env query agg st =
     (if isBridgeType (qmQueryType query)
      then bindR (TrackLivenessForTRBBridge env agg st) (\<lambda>st.
           Inr (IncrementQueryOpportunities TRBBridgeMarkerQueryId st))
      else if qmCycleList query then TrackLivenessForAggregate env agg st
      else Inr st)"

definition aggregateOne ::
  "'w oracle_env \<Rightarrow> ctx \<Rightarrow> bytes \<times> u64 \<Rightarrow> int \<times> 'w oracle_state \<Rightarrow> (int \<times> 'w oracle_state) result" where
  "aggregateOne env c k s =
     (let (transferAmt, st) = s in
      bindR (getR (kv_get (Query st) k)) (\<lambda>query.
      bindR (AggregateReport c (qmId query) (qmQueryData query) st) (\<lambda>(agg, st).
      bindR (trackAggregate env query agg (IncrementTotalAggregates st)) (\<lambda>st.
      bindR (if qmAmount query = 0 then Inr (transferAmt, st)
             else bindR (DistributeTip env c agg (dec_of (qmAmount query)) st) (\<lambda>st.
                  Inr (transferAmt + qmAmount query, st))) (\<lambda>(transferAmt, st).
      bindR (removeQuery (fst k) (snd k) st) (\<lambda>st.
      Inr (transferAmt, cleanupAggregationData (qmId query) st)))))))"

definition SetAggregatedReport :: "'w oracle_env \<Rightarrow> ctx \<Rightarrow> 'w oracle_state \<Rightarrow> 'w oracle_state result" where
  "SetAggregatedReport env c st =
     bindR (foldR (aggregateOne env c) (expiredKeys st (heightOf c)) (0, st)) (\<lambda>(transferAmt, st).
     if 0 < transferAmt
     then bindR (bkSendCoins (oeBank env) (Module oracleModule) (Module tipsEscrowPool) BondDenom transferAmt
                   (orcWorld st)) (\<lambda>w. Inr (st\<lparr>orcWorld := w\<rparr>))
     else Inr st)"

section \<open>Bridge deposits\<close>

definition DecodeBridgeDeposit :: "'w oracle_env \<Rightarrow> bytes \<Rightarrow> u64 result" where
  "DecodeBridgeDeposit env queryData =
     bindR (wrapR ''failed to decode query type'' (DecodeQueryType (oeUnpack env) queryData)) (\<lambda>(_, bytesArgs).
     bindR (oeUnpack env [AbiArg '''' ''bool'' [], AbiArg '''' ''uint256'' []] bytesArgs) (\<lambda>decoded.
     case decoded of
       _ # AbiUint depositId # _ \<Rightarrow> Inr (word_of_int depositId)
     | _ \<Rightarrow> Inl ErrPanic))"

definition twelveHrsInMillis :: int where
  "twelveHrsInMillis = 12 * 60 * 60 * 1000"

text \<open>The deposit leaves the queue whether or not the claim succeeds.\<close>

definition AutoClaimDeposits :: "'w oracle_env \<Rightarrow> ctx \<Rightarrow> 'w oracle_state \<Rightarrow> 'w oracle_state result" where
  "AutoClaimDeposits env c st =
     (let thresholdTimestamp = toU64 (unixMilli (BlockTime c) - twelveHrsInMillis) in
      case firstOf (filter (\<lambda>e. fst (fst e) \<le> thresholdTimestamp) (BridgeDepositQueue st)) of
        None \<Rightarrow> Inr st
      | Some ((aggregateTimestamp, metaId), queryData) \<Rightarrow>
          if queryData = [] \<and> metaId = 0 then Inr st
          else bindR (DecodeBridgeDeposit env queryData) (\<lambda>depositId.
            let (claimErr, w) = obkClaimDeposit (oeBridge env) c (GetAggregateByTimestamp st) depositId aggregateTimestamp (orcWorld st) in
            if claimErr = Some ErrPanic then Inl ErrPanic
            else Inr (st\<lparr>orcWorld := w,
                BridgeDepositQueue := kv_del (aggregateTimestamp, metaId) (BridgeDepositQueue st)\<rparr>)))"

section \<open>The cycle list\<close>

text \<open>\<^verbatim>\<open>q[i]\<close> on a slice.\<close>

definition indexR :: "'a list \<Rightarrow> u64 \<Rightarrow> 'a result" where
  "indexR q i = (if unat i < length q then Inr (q ! unat i) else Inl ErrPanic)"

definition GetCurrentQueryInCycleList :: "'w oracle_state \<Rightarrow> bytes result" where
  "GetCurrentQueryInCycleList st = indexR (GetCyclelist st) (CyclelistSequencer st)"

definition GetNextCurrentQueryInCycleList :: "'w oracle_state \<Rightarrow> bytes result" where
  "GetNextCurrentQueryInCycleList st =
     (let q = GetCyclelist st;
          next' = CyclelistSequencer st + 1
      in indexR q (if toU64 (int (length q)) \<le> next' then 0 else next'))"

text \<open>The query of the cycle list whose turn it is becomes open for reports.\<close>

definition openCycleQuery :: "'w oracle_env \<Rightarrow> ctx \<Rightarrow> bytes \<Rightarrow> 'w oracle_state \<Rightarrow> 'w oracle_state result" where
  "openCycleQuery env c querydata st =
     (let queryId = queryIdOf env querydata in
      case CurrentQuery st queryId of
        None \<Rightarrow>
          bindR (InitializeQuery env querydata st) (\<lambda>(querymeta, st).
          Inr (setQuery queryId (querymeta\<lparr>qmCycleList := True,
                 qmExpiration := heightOf c + RegistrySpecBlockWindow querymeta\<rparr>) st))
      | Some querymeta \<Rightarrow>
          if qmExpiration querymeta < heightOf c \<and> \<not> HasRevealedReports querymeta \<and> qmAmount querymeta = 0 then
            bindR (removeQuery queryId (qmId querymeta) st) (\<lambda>st.
            let (i, st) = nextQueryId st
            in Inr (setQuery queryId (querymeta\<lparr>qmId := i, qmCycleList := True,
                      qmExpiration := heightOf c + RegistrySpecBlockWindow querymeta\<rparr>) st))
          else if qmAmount querymeta \<noteq> 0 then
            let querymeta = querymeta\<lparr>qmCycleList := True\<rparr> in
            if qmExpiration querymeta \<le> heightOf c then
              bindR (removeQuery queryId (qmId querymeta) st) (\<lambda>st.
              let (i, st) = nextQueryId st
              in Inr (setQuery queryId (querymeta\<lparr>qmId := i,
                        qmExpiration := heightOf c + RegistrySpecBlockWindow querymeta\<rparr>) st))
            else Inr (setQuery queryId querymeta st)
          else Inr st)"

text \<open>The next position of the cycle list, and at its end the distribution of the rewards of
  the cycle.\<close>

definition advanceCycle :: "'w oracle_env \<Rightarrow> ctx \<Rightarrow> nat \<Rightarrow> 'w oracle_state \<Rightarrow> (u64 \<times> 'w oracle_state) result" where
  "advanceCycle env c max' st =
     (let n = CyclelistSequencer st;
          st = st\<lparr>CyclelistSequencer := n + 1\<rparr>
      in if toU64 (int max' - 1) \<le> n
         then bindR (CheckAndDistributeLivenessRewards env c (st\<lparr>CyclelistSequencer := 0\<rparr>)) (\<lambda>st. Inr (0, st))
         else Inr (n + 1, st))"

definition RotateQueries :: "'w oracle_env \<Rightarrow> ctx \<Rightarrow> 'w oracle_state \<Rightarrow> 'w oracle_state result" where
  "RotateQueries env c st =
     bindR (GetCurrentQueryInCycleList st) (\<lambda>querydata.
     if (case CurrentQuery st (queryIdOf env querydata) of
           None \<Rightarrow> False | Some queryMeta \<Rightarrow> heightOf c < qmExpiration queryMeta)
     then Inr st
     else
       let q = GetCyclelist st in
       bindR (advanceCycle env c (length q) st) (\<lambda>(n, st).
       bindR (indexR q n) (\<lambda>querydata.
       openCycleQuery env c querydata
         (IncrementQueryOpportunities (queryIdOf env querydata) st))))"

definition InitCycleListQuery :: "'w oracle_env \<Rightarrow> bytes list \<Rightarrow> 'w oracle_state \<Rightarrow> 'w oracle_state" where
  "InitCycleListQuery env queries st =
     st\<lparr>Cyclelist := fold (\<lambda>querydata. kv_set (queryIdOf env querydata) querydata) queries (Cyclelist st)\<rparr>"

definition GenesisCycleList :: "'w oracle_env \<Rightarrow> bytes list \<Rightarrow> 'w oracle_state \<Rightarrow> 'w oracle_state" where
  "GenesisCycleList env queries st =
     st\<lparr>Cyclelist := fold (\<lambda>querydata. kv_set (queryIdOf env querydata) querydata) queries (Cyclelist st)\<rparr>"

definition checkCyclelistQuery :: "'w oracle_env \<Rightarrow> 'w oracle_state \<Rightarrow> bytes \<Rightarrow> unit result" where
  "checkCyclelistQuery env st querydata =
     bindR (DecodeQueryType (oeUnpack env) querydata) (\<lambda>(queryType, fieldBytes).
     bindR (GetDataSpec env st queryType) (\<lambda>dataSpec.
     bindR (DecodeParamtypes (oeUnpack env) fieldBytes (AbiComponents dataSpec)) (\<lambda>_. Inr ())))"

definition UpdateCyclelist ::
  "'w oracle_env \<Rightarrow> string \<Rightarrow> bytes list \<Rightarrow> 'w oracle_state \<Rightarrow> 'w oracle_state result" where
  "UpdateCyclelist env authority cyclelist st =
     bindR (guardR (oeAuthority env = authority) (Err ''ErrInvalidSigner'')) (\<lambda>_.
     bindR (guardR (cyclelist \<noteq> []) (Err ''cyclelist cannot be an empty array'')) (\<lambda>_.
     bindR (foldR (\<lambda>querydata _. checkCyclelistQuery env st querydata) cyclelist ()) (\<lambda>_.
     Inr (InitCycleListQuery env cyclelist (st\<lparr>Cyclelist := []\<rparr>)))))"

section \<open>Pruning\<close>

definition maxPruneSize :: nat where
  "maxPruneSize = 100"

text \<open>The index \<^verbatim>\<open>IdQueryId\<close>: the keys of the reports in the order of query id and report.\<close>

definition reportIndex :: "'w oracle_state \<Rightarrow> (bytes \<times> addr \<times> u64) list" where
  "reportIndex st = map snd (sort (map (\<lambda>((q, r, i), _). ((i, q), (q, r, i))) (Reports st)))"

definition pruneCutoff :: "ctx \<Rightarrow> time" where
  "pruneCutoff c = BlockTime c - 30 * 24 * hour"

definition oldReport :: "ctx \<Rightarrow> 'w oracle_state \<Rightarrow> bytes \<times> addr \<times> u64 \<Rightarrow> bool" where
  "oldReport c st k = (case kv_get (Reports st) k of None \<Rightarrow> False | Some r \<Rightarrow> mrTimestamp r < pruneCutoff c)"

definition RemoveOldReports :: "ctx \<Rightarrow> 'w oracle_state \<Rightarrow> 'w oracle_state result" where
  "RemoveOldReports c st =
     (let toDelete = take maxPruneSize (takeWhile (oldReport c st) (reportIndex st))
      in foldR (\<lambda>k st. bindR (kv_remove k (Reports st)) (\<lambda>m. Inr (st\<lparr>Reports := m\<rparr>))) toDelete st)"

definition oracleEndBlocker :: "'w oracle_env \<Rightarrow> ctx \<Rightarrow> 'w oracle_state \<Rightarrow> 'w oracle_state result" where
  "oracleEndBlocker env c st =
     bindR (SetAggregatedReport env c st) (\<lambda>st.
     bindR (AutoClaimDeposits env c st) (\<lambda>st.
     bindR (RotateQueries env c st) (\<lambda>st.
     RemoveOldReports c st)))"

section \<open>Parameters and genesis\<close>

definition oracleSetParams :: "oracle_params \<Rightarrow> 'w oracle_state \<Rightarrow> 'w oracle_state result" where
  "oracleSetParams params st =
     bindR (validateOracleParams params) (\<lambda>_. Inr (st\<lparr>orcParams := Some params\<rparr>))"

definition oracleUpdateParams ::
  "'w oracle_env \<Rightarrow> string \<Rightarrow> oracle_params \<Rightarrow> 'w oracle_state \<Rightarrow> 'w oracle_state result" where
  "oracleUpdateParams env authority params st =
     bindR (wrapR ''invalid authority address'' (oeAccAddressFromBech32 env authority)) (\<lambda>_.
     bindR (validateOracleParams params) (\<lambda>_.
     bindR (guardR (oeAuthority env = authority) (Err ''ErrInvalidSigner'')) (\<lambda>_.
     oracleSetParams params st)))"

definition UpdateQueryDataLimit ::
  "'w oracle_env \<Rightarrow> string \<Rightarrow> u64 \<Rightarrow> 'w oracle_state \<Rightarrow> 'w oracle_state result" where
  "UpdateQueryDataLimit env authority limit st =
     bindR (guardR (oeAuthority env = authority) (Err ''ErrInvalidSigner'')) (\<lambda>_.
     Inr (st\<lparr>QueryDataLimit := Some limit\<rparr>))"

record oracle_genesis =
  ogParams :: oracle_params
  ogCyclelist :: "bytes list"
  ogQueryDataLimit :: u64
  ogQuerySequencer :: u64

definition validateOracleGenesis :: "abi_unpack \<Rightarrow> oracle_genesis \<Rightarrow> unit result" where
  "validateOracleGenesis unpack gs =
     bindR (guardR (ogCyclelist gs \<noteq> []) (Err ''cyclelist is empty'')) (\<lambda>_.
     bindR (foldR (\<lambda>query _.
        bindR (guardR (query \<noteq> []) (Err ''cyclelist item is empty'')) (\<lambda>_.
        bindR (wrapR ''failed to decode query type'' (DecodeQueryType unpack query)) (\<lambda>_. Inr ())))
        (ogCyclelist gs) ()) (\<lambda>_.
     validateOracleParams (ogParams gs)))"

definition oracleInitGenesis :: "'w oracle_env \<Rightarrow> oracle_genesis \<Rightarrow> 'w oracle_state \<Rightarrow> 'w oracle_state result" where
  "oracleInitGenesis env gs st =
     (case oracleSetParams (ogParams gs) st of
        Inl _ \<Rightarrow> Inl ErrPanic
      | Inr st \<Rightarrow> Inr ((GenesisCycleList env (ogCyclelist gs) st)
          \<lparr>QueryDataLimit := Some (ogQueryDataLimit gs), QuerySequencer := ogQuerySequencer gs\<rparr>))"

text \<open>The genesis document of an export, without the file of module data it also writes.\<close>

definition oracleExportGenesis :: "'w oracle_state \<Rightarrow> oracle_genesis result" where
  "oracleExportGenesis st =
     (case (orcParams st, QueryDataLimit st) of
        (Some params, Some limit) \<Rightarrow>
          Inr \<lparr>ogParams = params, ogCyclelist = GetCyclelist st, ogQueryDataLimit = limit,
               ogQuerySequencer = QuerySequencer st\<rparr>
      | _ \<Rightarrow> Inl ErrPanic)"

end
