(* ===== verification/OracleEscrow.thy ===== *)
theory OracleEscrow
  imports OracleBlock
begin

text \<open>
  The escrow of tips: the tokens the oracle module holds cover the tips of all open queries.
  Each operation is shown to keep the invariant, then every reachable state has it. The
  operations of the other keepers are assumed not to take tokens from the oracle module.
\<close>

section \<open>What the oracle relies on\<close>

abbreviation escrowed :: "'w oracle_env \<Rightarrow> 'w \<Rightarrow> int" where
  "escrowed env w \<equiv> bkGetBalance (oeBank env) w (Module oracleModule) BondDenom"

definition oracle_env_ok :: "'w oracle_env \<Rightarrow> bool" where
  "oracle_env_ok env \<longleftrightarrow> bank_laws (oeBank env)
     \<and> (\<forall>c a q w x w'. orkReporterStake (oeReporter env) c a q w = Inr (x, w') \<longrightarrow> escrowed env w \<le> escrowed env w')
     \<and> (\<forall>c a w x d w'. orkGetReporterStake (oeReporter env) c a w = Inr (x, d, w') \<longrightarrow> escrowed env w \<le> escrowed env w')
     \<and> (\<forall>c a d n q w w'. orkSetReporterStakeByQueryId (oeReporter env) c a d n q w = Inr w' \<longrightarrow> escrowed env w \<le> escrowed env w')
     \<and> (\<forall>c a r w w'. orkDivvyingTips (oeReporter env) c a r w = Inr w' \<longrightarrow> escrowed env w \<le> escrowed env w')
     \<and> (\<forall>c f d t w. escrowed env w \<le> escrowed env (snd (obkClaimDeposit (oeBridge env) c f d t w)))"

lemma oracle_env_okD:
  assumes "oracle_env_ok env"
  shows "bank_laws (oeBank env)"
    and "orkReporterStake (oeReporter env) c a q w = Inr (x, w') \<Longrightarrow> escrowed env w \<le> escrowed env w'"
    and "orkGetReporterStake (oeReporter env) c a w = Inr (x, d, w') \<Longrightarrow> escrowed env w \<le> escrowed env w'"
    and "orkSetReporterStakeByQueryId (oeReporter env) c a d n q w = Inr w' \<Longrightarrow> escrowed env w \<le> escrowed env w'"
    and "orkDivvyingTips (oeReporter env) c a r w = Inr w' \<Longrightarrow> escrowed env w \<le> escrowed env w'"
    and "escrowed env w \<le> escrowed env (snd (obkClaimDeposit (oeBridge env) c f i t w))"
proof -
  note parts = assms [unfolded oracle_env_ok_def, THEN conjunct1] assms [unfolded oracle_env_ok_def, THEN conjunct2]
  show "bank_laws (oeBank env)" by (rule parts(1))
  note p2 = parts(2) [THEN conjunct1] and p3 = parts(2) [THEN conjunct2]
  show "escrowed env w \<le> escrowed env w'" if "orkReporterStake (oeReporter env) c a q w = Inr (x, w')"
    by (rule p2 [rule_format, OF that])
  show "escrowed env w \<le> escrowed env w'" if "orkGetReporterStake (oeReporter env) c a w = Inr (x, d, w')"
    by (rule p3 [THEN conjunct1, rule_format, OF that])
  note p4 = p3 [THEN conjunct2]
  show "escrowed env w \<le> escrowed env w'" if "orkSetReporterStakeByQueryId (oeReporter env) c a d n q w = Inr w'"
    by (rule p4 [THEN conjunct1, rule_format, OF that])
  note p5 = p4 [THEN conjunct2]
  show "escrowed env w \<le> escrowed env w'" if "orkDivvyingTips (oeReporter env) c a r w = Inr w'"
    by (rule p5 [THEN conjunct1, rule_format, OF that])
  show "escrowed env w \<le> escrowed env (snd (obkClaimDeposit (oeBridge env) c f i t w))"
    by (rule p5 [THEN conjunct2, rule_format])
qed

section \<open>The invariant\<close>

definition tips_total :: "'w oracle_state \<Rightarrow> int" where
  "tips_total st = kv_total (\<lambda>e. qmAmount (snd e)) (Query st)"

text \<open>Queries are stored under the hash of their data and their id, with tips that are not
  negative.\<close>

definition queries_ok :: "'w oracle_env \<Rightarrow> 'w oracle_state \<Rightarrow> bool" where
  "queries_ok env st \<longleftrightarrow> kv_ok (Query st) \<and>
     (\<forall>k q. kv_get (Query st) k = Some q \<longrightarrow> k = (queryIdOf env (qmQueryData q), qmId q) \<and> 0 \<le> qmAmount q)"

lemma queries_ok_get:
  assumes "queries_ok env st" and "kv_get (Query st) k = Some q"
  shows "k = (queryIdOf env (qmQueryData q), qmId q)" and "0 \<le> qmAmount q"
  using assms unfolding queries_ok_def by blast+

text \<open>The slack \<open>n\<close> is the amount that is about to leave the module.\<close>

definition escrow_inv :: "'w oracle_env \<Rightarrow> int \<Rightarrow> 'w oracle_state \<Rightarrow> bool" where
  "escrow_inv env n st \<longleftrightarrow> queries_ok env st \<and> tips_total st + n \<le> escrowed env (orcWorld st)"

lemma escrow_inv_cong:
  assumes "escrow_inv env n st" and "Query st' = Query st" and "escrowed env (orcWorld st) \<le> escrowed env (orcWorld st')"
  shows "escrow_inv env n st'"
  using assms by (simp add: escrow_inv_def queries_ok_def tips_total_def)

named_theorems oracle_frame "fields an operation of the oracle leaves alone"

lemma frame_simps [oracle_frame, simp]:
  "Query (IncrementQueryOpportunities q st) = Query st" "orcWorld (IncrementQueryOpportunities q st) = orcWorld st"
  "Query (DemoteQueryToNonStandard q st) = Query st" "orcWorld (DemoteQueryToNonStandard q st) = orcWorld st"
  "Query (IncrementTotalAggregates st) = Query st" "orcWorld (IncrementTotalAggregates st) = orcWorld st"
  "Query (ResetLivenessData st) = Query st" "orcWorld (ResetLivenessData st) = orcWorld st"
  "Query (TrackReporterParticipation a st) = Query st" "orcWorld (TrackReporterParticipation a st) = orcWorld st"
  "Query (SetReporterLastReportTime a t st) = Query st" "orcWorld (SetReporterLastReportTime a t st) = orcWorld st"
  "Query (cleanupAggregationData i st) = Query st" "orcWorld (cleanupAggregationData i st) = orcWorld st"
  "Query (setAggregateValue i v w st) = Query st" "orcWorld (setAggregateValue i v w st) = orcWorld st"
  "Query (AddtoTotalTips c n st) = Query st" "orcWorld (AddtoTotalTips c n st) = orcWorld st"
  "Query (AddToTipperTotal c a n st) = Query st" "orcWorld (AddToTipperTotal c a n st) = orcWorld st"
  "Query (IncrementStandardOpportunities st) = Query st" "orcWorld (IncrementStandardOpportunities st) = orcWorld st"
  "orcWorld (setQuery q m st) = orcWorld st"
  by (simp_all add: IncrementQueryOpportunities_def DemoteQueryToNonStandard_def IncrementTotalAggregates_def
      ResetLivenessData_def TrackReporterParticipation_def SetReporterLastReportTime_def cleanupAggregationData_def
      setAggregateValue_def AddtoTotalTips_def AddToTipperTotal_def IncrementStandardOpportunities_def setQuery_def Let_def)

lemma traverse_frame [oracle_frame, simp]:
  "Query (TraverseLeft i m c h st) = Query st" "orcWorld (TraverseLeft i m c h st) = orcWorld st"
  "Query (TraverseRight i m c h st) = Query st" "orcWorld (TraverseRight i m c h st) = orcWorld st"
  by (simp_all add: TraverseLeft_def TraverseRight_def split: prod.split)

lemma addWeight_frame: "addWeight i v r st = (e, t, st') \<Longrightarrow> Query st' = Query st \<and> orcWorld st' = orcWorld st"
  by (auto simp: addWeight_def Let_def)

lemma AddReport_frame:
  assumes "AddReport i r st = Inr st'"
  shows "Query st' = Query st \<and> orcWorld st' = orcWorld st"
proof -
  obtain v where "FormatUint256 (mrValue r) = Inr v" using assms by (auto simp: AddReport_def)
  moreover obtain e t s where "addWeight i v r st = (e, t, s)" by (metis prod_cases3)
  ultimately show ?thesis using assms addWeight_frame [of i v r st e t s]
    by (auto simp: AddReport_def Let_def split: option.splits if_splits)
qed

lemma AddReportWeightedMode_frame:
  assumes "AddReportWeightedMode i r st = Inr st'"
  shows "Query st' = Query st \<and> orcWorld st' = orcWorld st"
proof -
  obtain e t s where "addWeight i (mrValue r) r st = (e, t, s)" by (metis prod_cases3)
  then show ?thesis using assms addWeight_frame [of i "mrValue r" r st e t s]
    by (auto simp: AddReportWeightedMode_def Let_def split: option.splits if_splits)
qed

section \<open>Writes of queries\<close>

lemma CurrentQuery_stored:
  assumes "CurrentQuery st queryId = Some q" and "queries_ok env st"
  shows "kv_get (Query st) (queryId, qmId q) = Some q" and "queryIdOf env (qmQueryData q) = queryId" and "0 \<le> qmAmount q"
proof -
  have ok: "kv_ok (Query st)" using assms(2) by (simp add: queries_ok_def)
  obtain i where "(i, q) \<in> set (kv_prefix queryId (Query st))"
    using assms(1) by (auto simp: CurrentQuery_def firstOf_def split: option.splits list.splits if_splits)
      (metis list.set_intros(1) set_rev)
  then have "kv_get (Query st) (queryId, i) = Some q" using kv_get_mem [OF ok] by (simp add: kv_prefix_mem)
  then show "kv_get (Query st) (queryId, qmId q) = Some q" "queryIdOf env (qmQueryData q) = queryId" "0 \<le> qmAmount q"
    using assms(2) by (auto simp: queries_ok_def)
qed

text \<open>A query may be written when its tip is already counted under its key or is zero.\<close>

definition counted :: "'w oracle_env \<Rightarrow> 'w oracle_state \<Rightarrow> bytes \<Rightarrow> query_meta \<Rightarrow> bool" where
  "counted env st queryId q \<longleftrightarrow> queryId = queryIdOf env (qmQueryData q) \<and> 0 \<le> qmAmount q \<and>
     (qmAmount q = 0 \<or> (\<exists>q0. kv_get (Query st) (queryId, qmId q) = Some q0 \<and> qmAmount q0 = qmAmount q))"

lemma setQuery_inv:
  assumes "escrow_inv env n st" and "queryId = queryIdOf env (qmQueryData q)" and "0 \<le> qmAmount q"
    and "m + qmAmount q \<le> n + (case kv_get (Query st) (queryId, qmId q) of None \<Rightarrow> 0 | Some q0 \<Rightarrow> qmAmount q0)"
  shows "escrow_inv env m (setQuery queryId q st)"
proof -
  have ok: "queries_ok env st" and b: "tips_total st + n \<le> escrowed env (orcWorld st)"
    using assms(1) by (simp_all add: escrow_inv_def)
  have "queries_ok env (setQuery queryId q st)"
    using ok assms(2,3) by (auto simp: queries_ok_def setQuery_def)
  moreover have "tips_total (setQuery queryId q st) = tips_total st + qmAmount q
      - (case kv_get (Query st) (queryId, qmId q) of None \<Rightarrow> 0 | Some q0 \<Rightarrow> qmAmount q0)"
    using ok by (simp add: tips_total_def setQuery_def kv_total_set queries_ok_def split: option.split)
  ultimately show ?thesis using b assms(4) by (simp add: escrow_inv_def)
qed

lemma setQuery_counted:
  assumes "escrow_inv env n st" and "counted env st queryId q"
  shows "escrow_inv env n (setQuery queryId q st)"
proof (rule setQuery_inv [OF assms(1)])
  have "kv_get (Query st) k = Some q0 \<Longrightarrow> 0 \<le> qmAmount q0" for k q0
    using assms(1) unfolding escrow_inv_def by (blast intro: queries_ok_get(2))
  then show "n + qmAmount q \<le> n + (case kv_get (Query st) (queryId, qmId q) of None \<Rightarrow> 0 | Some q0 \<Rightarrow> qmAmount q0)"
    using assms(2) by (auto simp: counted_def split: option.split)
qed (use assms(2) in \<open>auto simp: counted_def\<close>)

lemma removeQuery_inv:
  assumes "removeQuery queryId i st = Inr st'" and "escrow_inv env n st"
  obtains q where "kv_get (Query st) (queryId, i) = Some q" and "escrow_inv env (n + qmAmount q) st'"
    and "orcWorld st' = orcWorld st" and "Query st' = kv_del (queryId, i) (Query st)"
proof -
  have ok: "queries_ok env st" using assms(2) by (simp add: escrow_inv_def)
  have st': "st' = st\<lparr>Query := kv_del (queryId, i) (Query st)\<rparr>" and "kv_has (Query st) (queryId, i)"
    using assms(1) by (auto simp: removeQuery_def)
  then obtain q where q: "kv_get (Query st) (queryId, i) = Some q" by (auto simp: kv_has_def)
  have "queries_ok env st'" using ok by (auto simp: queries_ok_def st' split: if_splits)
  moreover have "tips_total st' = tips_total st - qmAmount q"
    using ok q by (simp add: tips_total_def st' kv_total_del queries_ok_def)
  ultimately have "escrow_inv env (n + qmAmount q) st'" using assms(2) by (simp add: escrow_inv_def st')
  then show thesis using that q st' by simp
qed

lemma nextQueryId_simps [simp]:
  "fst (nextQueryId st) = QuerySequencer st" "Query (snd (nextQueryId st)) = Query st"
  "orcWorld (snd (nextQueryId st)) = orcWorld st"
  by (simp_all add: nextQueryId_def)

lemma InitializeQuery_Inr:
  assumes "InitializeQuery env d st = Inr (q, st')"
  shows "qmAmount q = 0" and "qmQueryData q = d" and "qmQueryType q = ''''" and "Query st' = Query st"
    and "orcWorld st' = orcWorld st" and "qmId q = QuerySequencer st" and "QuerySequencer st' = QuerySequencer st + 1"
  using assms by (auto simp: InitializeQuery_def nextQueryId_def Let_def)

section \<open>Tips\<close>

lemma transfer_effect:
  assumes "transfer env a n w = Inr (t, w')" and "bank_laws (oeBank env)"
  shows "escrowed env w' = escrowed env w + t" and "0 \<le> n" and "t = n - quoT (n * 2) 100"
    and "0 \<le> quoT (n * 2) 100"
proof -
  obtain u where s: "bkSendCoins (oeBank env) (User a) (Module oracleModule) BondDenom n w = Inr u"
    and b: "bkBurnCoins (oeBank env) oracleModule BondDenom (quoT (n * 2) 100) u = Inr w'"
    and t: "t = n - quoT (n * 2) 100" and p: "0 \<le> quoT (n * 2) 100"
    using assms(1) by (auto simp: transfer_def Let_def)
  show "escrowed env w' = escrowed env w + t"
    by (simp add: bank_burn [OF assms(2) b] bank_send [OF assms(2) s] moved_def t)
  show "0 \<le> n" using bank_send_amount [OF assms(2) s] by simp
  show "t = n - quoT (n * 2) 100" "0 \<le> quoT (n * 2) 100" by (rule t, rule p)
qed

lemma burn_share: "0 \<le> n \<Longrightarrow> 0 \<le> quoT (n * 2) 100 \<and> quoT (n * 2) 100 \<le> n"
proof -
  assume "0 \<le> n"
  then have "n * 2 div 100 \<le> n * 100 div 100" by (intro zdiv_mono1) auto
  then show ?thesis using \<open>0 \<le> n\<close> by (simp add: quoT_nonneg)
qed

lemma tippedQuery_counted:
  assumes "tippedQuery env c d st = Inr (q, st')" and "queries_ok env st"
  shows "counted env st' (queryIdOf env d) q" and "Query st' = Query st" and "orcWorld st' = orcWorld st"
proof -
  show "Query st' = Query st" "orcWorld st' = orcWorld st"
    using assms(1) InitializeQuery_Inr by (fastforce simp: tippedQuery_def split: option.splits)+
  show "counted env st' (queryIdOf env d) q"
  proof (cases "CurrentQuery st (queryIdOf env d)")
    case None
    then obtain q0 where "InitializeQuery env d st = Inr (q0, st')" "qmAmount q = 0" "qmQueryData q = qmQueryData q0"
      using assms(1) by (auto simp: tippedQuery_def)
    then show ?thesis using InitializeQuery_Inr(2) [of env d st q0 st'] by (simp add: counted_def)
  next
    case (Some q0)
    then have "q0 = q" "st' = st" using assms(1) by (auto simp: tippedQuery_def)
    then show ?thesis using CurrentQuery_stored [OF Some assms(2)] by (auto simp: counted_def)
  qed
qed

text \<open>The query of a tip after the tip is added and, when it had expired, reopened.\<close>

lemma reopenQuery_inv:
  assumes "reopenQuery c queryId q st = Inr (q', st')" and "escrow_inv env n st"
  obtains q0 where "kv_get (Query st) (queryId, qmId q) = Some q0" and "escrow_inv env (n + qmAmount q0) st'"
    and "qmAmount q' = qmAmount q" and "qmQueryData q' = qmQueryData q"
proof -
  let ?s = "snd (nextQueryId (if kv_has (Cyclelist st) queryId
       then IncrementQueryOpportunities queryId (DemoteQueryToNonStandard queryId st) else st))"
  have run: "removeQuery queryId (qmId q) ?s = Inr st'" and q': "qmAmount q' = qmAmount q" "qmQueryData q' = qmQueryData q"
    using assms(1) by (auto simp: reopenQuery_def nextQueryId_def Let_def split: if_splits)
  have Q: "Query ?s = Query st" by (simp add: nextQueryId_def)
  have "escrow_inv env n ?s" by (rule escrow_inv_cong [OF assms(2)]) (simp_all add: nextQueryId_def)
  from removeQuery_inv [OF run this] obtain q0 where
    "kv_get (Query ?s) (queryId, qmId q) = Some q0" "escrow_inv env (n + qmAmount q0) st'" .
  then show thesis using that [of q0] q' unfolding Q by simp
qed

lemma Tip_cases:
  assumes "Tip env c msg st = Inr st'"
  obtains tipper q s t w q' s' where "validateTip env msg = Inr tipper"
    and "tippedQuery env c (mtQueryData msg) st = Inr (q, s)"
    and "transfer env tipper (mtAmount msg) (orcWorld s) = Inr (t, w)"
    and "qmAmount q + mtAmount msg \<le> DefaultMaxTipAmount"
    and "(if qmExpiration q < heightOf c
          then reopenQuery c (queryIdOf env (mtQueryData msg)) (q\<lparr>qmAmount := qmAmount q + t\<rparr>) (s\<lparr>orcWorld := w\<rparr>)
          else Inr (q\<lparr>qmAmount := qmAmount q + t\<rparr>, s\<lparr>orcWorld := w\<rparr>)) = Inr (q', s')"
    and "st' = AddtoTotalTips c t (AddToTipperTotal c tipper t (setQuery (queryIdOf env (mtQueryData msg)) q' s'))"
  using assms by (auto simp: Tip_def Let_def)

lemma Tip_inv:
  assumes "Tip env c msg st = Inr st'" and "escrow_inv env n st" and env: "oracle_env_ok env"
  shows "escrow_inv env n st'"
proof -
  let ?k = "queryIdOf env (mtQueryData msg)"
  obtain tipper q s t w q' s' where tq: "tippedQuery env c (mtQueryData msg) st = Inr (q, s)"
    and tr: "transfer env tipper (mtAmount msg) (orcWorld s) = Inr (t, w)"
    and re: "(if qmExpiration q < heightOf c
          then reopenQuery c ?k (q\<lparr>qmAmount := qmAmount q + t\<rparr>) (s\<lparr>orcWorld := w\<rparr>)
          else Inr (q\<lparr>qmAmount := qmAmount q + t\<rparr>, s\<lparr>orcWorld := w\<rparr>)) = Inr (q', s')"
    and st': "st' = AddtoTotalTips c t (AddToTipperTotal c tipper t (setQuery ?k q' s'))"
    by (rule Tip_cases [OF assms(1)])
  have ok: "queries_ok env st" using assms(2) by (simp add: escrow_inv_def)
  note cnt = tippedQuery_counted [OF tq ok]
  have laws: "bank_laws (oeBank env)" by (rule oracle_env_okD(1) [OF env])
  note eff = transfer_effect [OF tr laws]
  have t0: "0 \<le> t" using eff(2,3) burn_share by simp
  have inv: "escrow_inv env (n + t) (s\<lparr>orcWorld := w\<rparr>)"
    using assms(2) eff(1) cnt(2,3) by (simp add: escrow_inv_def queries_ok_def tips_total_def)
  have k: "?k = queryIdOf env (qmQueryData q)" and a0: "0 \<le> qmAmount q" using cnt(1) by (auto simp: counted_def)
  have nn: "0 \<le> qmAmount q0" if "kv_get (Query s) k = Some q0" for k q0
    using queries_ok_get(2) [OF ok] that cnt(2) by simp
  have "escrow_inv env n (setQuery ?k q' s')"
  proof (cases "qmExpiration q < heightOf c")
    case True
    then have "reopenQuery c ?k (q\<lparr>qmAmount := qmAmount q + t\<rparr>) (s\<lparr>orcWorld := w\<rparr>) = Inr (q', s')" using re by simp
    from reopenQuery_inv [OF this inv] obtain q0 where q0: "kv_get (Query s) (?k, qmId q) = Some q0"
      "escrow_inv env (n + t + qmAmount q0) s'" "qmAmount q' = qmAmount q + t" "qmQueryData q' = qmQueryData q" by auto
    have "qmAmount q \<le> qmAmount q0" using cnt(1) q0(1) nn [OF q0(1)] by (auto simp: counted_def)
    moreover have "0 \<le> (case kv_get (Query s') k of None \<Rightarrow> 0 | Some q1 \<Rightarrow> qmAmount q1)" for k
      using q0(2) queries_ok_get(2) [of env s' k] by (simp add: escrow_inv_def split: option.split)
    ultimately show ?thesis using q0 k a0 t0 by (intro setQuery_inv [OF q0(2)]) (simp_all add: add_increasing2)
  next
    case False
    then have q': "q' = q\<lparr>qmAmount := qmAmount q + t\<rparr>" and s': "s' = s\<lparr>orcWorld := w\<rparr>" using re by simp_all
    have "qmAmount q \<le> (case kv_get (Query s) (?k, qmId q) of None \<Rightarrow> 0 | Some q0 \<Rightarrow> qmAmount q0)"
      using cnt(1) nn by (auto simp: counted_def split: option.split)
    then show ?thesis using k a0 t0 unfolding q' s' by (intro setQuery_inv [OF inv]) auto
  qed
  then show ?thesis unfolding st' by (rule escrow_inv_cong) simp_all
qed

section \<open>Submissions\<close>

text \<open>Submissions may fail after having written; the invariant holds either way.\<close>

lemma storeReport_inv:
  assumes "storeReport c a q queryId r st = (e, st')" and "escrow_inv env n st" and "counted env st queryId q"
  shows "escrow_inv env n st'"
proof -
  let ?q = "q\<lparr>HasRevealedReports := True\<rparr>"
  have "counted env st queryId ?q" using assms(3) by (auto simp: counted_def)
  then have inv: "escrow_inv env n (setQuery queryId ?q st)" by (rule setQuery_counted [OF assms(2)])
  let ?add = "if mrAggregateMethod r = WeightedMedian then AddReport (qmId q) r (setQuery queryId ?q st)
      else AddReportWeightedMode (qmId q) r (setQuery queryId ?q st)"
  show ?thesis
  proof (cases ?add)
    case (Inl x)
    then show ?thesis using assms(1) inv by (auto simp: storeReport_def Let_def split: if_splits)
  next
    case (Inr s)
    then have "Query s = Query (setQuery queryId ?q st) \<and> orcWorld s = orcWorld (setQuery queryId ?q st)"
      by (auto split: if_splits dest: AddReport_frame AddReportWeightedMode_frame)
    then have "escrow_inv env n s" using inv by (intro escrow_inv_cong [OF inv]) simp_all
    moreover have "Query st' = Query s" "orcWorld st' = orcWorld s"
      using assms(1) Inr by (auto simp: storeReport_def Let_def split: if_splits)
    ultimately show ?thesis by (auto intro: escrow_inv_cong)
  qed
qed

lemma SetValue_inv:
  assumes "SetValue env c a q v d p b st = (e, st')" and "escrow_inv env n st"
    and "counted env st (queryIdOf env d) q"
  shows "escrow_inv env n st'"
  using assms storeReport_inv by (auto simp: SetValue_def Let_def split: sum.splits)

lemma HandleBridgeDepositDirectReveal_inv:
  assumes "HandleBridgeDepositDirectReveal env c q d a v p st = (e, st')" and "escrow_inv env n st"
    and "counted env st (queryIdOf env d) q"
  shows "escrow_inv env n st'"
proof -
  obtain q1 s1 where r: "renewDeposit c q st = (q1, s1)" by (metis surj_pair)
  then have s1: "Query s1 = Query st" "orcWorld s1 = orcWorld st" and q1: "qmAmount q1 = qmAmount q"
    "qmQueryData q1 = qmQueryData q" "qmAmount q \<noteq> 0 \<Longrightarrow> qmId q1 = qmId q"
    by (auto simp: renewDeposit_def nextQueryId_def Let_def split: if_splits)
  have inv: "escrow_inv env n s1" using s1 by (intro escrow_inv_cong [OF assms(2)]) simp_all
  have "counted env s1 (queryIdOf env d) q1"
    using assms(3) q1 s1(1) unfolding counted_def by (cases "qmAmount q = 0") auto
  then show ?thesis using assms(1) r inv SetValue_inv
    by (auto simp: HandleBridgeDepositDirectReveal_def split: if_splits sum.splits)
qed

lemma DirectReveal_inv:
  assumes "DirectReveal env c q d v a p b st = (e, st')" and "escrow_inv env n st"
    and "counted env st (queryIdOf env d) q"
  shows "escrow_inv env n st'"
  using assms HandleBridgeDepositDirectReveal_inv SetValue_inv
  by (auto simp: DirectReveal_def split: if_splits)

lemma CurrentQuery_counted:
  "CurrentQuery st k = Some q \<Longrightarrow> queries_ok env st \<Longrightarrow> counted env st k q"
  using CurrentQuery_stored [of st k q env] by (simp add: counted_def)

lemma TokenBridgeDepositQuery_counted:
  assumes "TokenBridgeDepositQuery c d st = (q, st')"
  shows "counted env s (queryIdOf env d) q" and "Query st' = Query st" and "orcWorld st' = orcWorld st"
  using assms by (auto simp: TokenBridgeDepositQuery_def nextQueryId_def counted_def)

lemma revealTo_inv:
  assumes "revealTo env c d v a p b st = Inr st'" and "escrow_inv env n st"
  shows "escrow_inv env n st'"
proof (cases "CurrentQuery st (queryIdOf env d)")
  case (Some q)
  then have "counted env st (queryIdOf env d) q"
    using assms(2) by (intro CurrentQuery_counted) (simp_all add: escrow_inv_def)
  then show ?thesis using assms Some by (auto simp: revealTo_def Let_def intro: DirectReveal_inv)
next
  case None
  obtain q s where t: "TokenBridgeDepositQuery c d st = (q, s)" by (metis surj_pair)
  note cnt = TokenBridgeDepositQuery_counted [OF t]
  have "escrow_inv env n s" using cnt by (intro escrow_inv_cong [OF assms(2)]) simp_all
  then have "escrow_inv env n (setQuery (queryIdOf env d) q s)" by (rule setQuery_counted) (rule cnt(1))
  moreover have "counted env (setQuery (queryIdOf env d) q s) (queryIdOf env d) q" by (rule cnt(1))
  ultimately show ?thesis using assms(1) None t
    by (auto simp: revealTo_def Let_def split: if_splits intro: HandleBridgeDepositDirectReveal_inv)
qed

lemma SubmitValue_inv:
  assumes "SubmitValue env c msg st = Inr st'" and "escrow_inv env n st" and "oracle_env_ok env"
  shows "escrow_inv env n st'"
proof -
  obtain a stake w v p b where
    stake: "orkReporterStake (oeReporter env) c a (queryIdOf env (msQueryData msg)) (orcWorld st) = Inr (stake, w)"
    and run: "revealTo env c (msQueryData msg) v a p b (st\<lparr>orcWorld := w\<rparr>) = Inr st'"
    using assms(1) by (auto simp: SubmitValue_def Let_def)
  have "escrowed env (orcWorld st) \<le> escrowed env w" by (rule oracle_env_okD(2) [OF assms(3) stake])
  then have "escrow_inv env n (st\<lparr>orcWorld := w\<rparr>)" by (intro escrow_inv_cong [OF assms(2)]) simp_all
  then show ?thesis by (rule revealTo_inv [OF run])
qed

lemma batchOne_inv:
  assumes "batchOne env c a ds stake p x st = Inr (ok, st')" and "escrow_inv env n st" and "oracle_env_ok env"
  shows "escrow_inv env n st'"
proof -
  have stored: "escrow_inv env n (s\<lparr>orcWorld := w\<rparr>)"
    if "orkSetReporterStakeByQueryId (oeReporter env) c a ds stake k (orcWorld s) = Inr w"
      "escrow_inv env n s" for k s w
  proof -
    have "escrowed env (orcWorld s) \<le> escrowed env w" by (rule oracle_env_okD(4) [OF assms(3) that(1)])
    then show ?thesis by (intro escrow_inv_cong [OF that(2)]) simp_all
  qed
  have direct: "escrow_inv env n s"
    if "CurrentQuery st (queryIdOf env (fst x)) = Some q" "DirectReveal env c q (fst x) v a p b st = (e, s)" for q v b e s
    using that assms(2) CurrentQuery_counted by (intro DirectReveal_inv [OF that(2) assms(2)]) (auto simp: escrow_inv_def)
  have fresh: "escrow_inv env n s'"
    if "TokenBridgeDepositQuery c (fst x) st = (q, s)"
      "HandleBridgeDepositDirectReveal env c q (fst x) a v p s = (e, s')" for q v e s s'
  proof -
    note cnt = TokenBridgeDepositQuery_counted [OF that(1)]
    have "escrow_inv env n s" using cnt by (intro escrow_inv_cong [OF assms(2)]) simp_all
    then show ?thesis by (rule HandleBridgeDepositDirectReveal_inv [OF that(2)]) (rule cnt(1))
  qed
  show ?thesis using assms(1,2)
    by (auto simp: batchOne_def Let_def split: sum.splits if_splits error.splits option.splits prod.splits
        intro: direct fresh stored)
qed

lemma batchLoop_inv:
  assumes "batchLoop env c a ds stake p i xs st = Inr (f, st')" and "escrow_inv env n st" and "oracle_env_ok env"
  shows "escrow_inv env n st'"
  using assms
proof (induction xs arbitrary: i st f)
  case Nil
  then show ?case by simp
next
  case (Cons x xs)
  then obtain ok s g where "batchOne env c a ds stake p x st = Inr (ok, s)"
    "batchLoop env c a ds stake p (i + 1) xs s = Inr (g, st')" by auto
  then show ?case using Cons batchOne_inv by blast
qed

lemma BatchSubmitValue_inv:
  assumes "BatchSubmitValue env c a vs st = Inr (f, st')" and "escrow_inv env n st" and "oracle_env_ok env"
  shows "escrow_inv env n st'"
proof -
  obtain r stake ds w p where
    stake: "orkGetReporterStake (oeReporter env) c r (orcWorld st) = Inr (stake, ds, w)"
    and run: "batchLoop env c r ds stake p 0 vs (st\<lparr>orcWorld := w\<rparr>) = Inr (f, st')"
    using assms(1) by (auto simp: BatchSubmitValue_def Let_def)
  have "escrowed env (orcWorld st) \<le> escrowed env w" by (rule oracle_env_okD(3) [OF assms(3) stake])
  then have "escrow_inv env n (st\<lparr>orcWorld := w\<rparr>)" by (intro escrow_inv_cong [OF assms(2)]) simp_all
  then show ?thesis by (rule batchLoop_inv [OF run _ assms(3)])
qed

section \<open>The end of a block\<close>

lemma SetAggregate_frame:
  "SetAggregate c r d t st = (agg, st') \<Longrightarrow> Query st' = Query st \<and> orcWorld st' = orcWorld st"
  by (auto simp: SetAggregate_def Let_def)

lemma AggregateReport_frame:
  "AggregateReport c i d st = Inr (agg, st') \<Longrightarrow> Query st' = Query st \<and> orcWorld st' = orcWorld st"
  by (auto simp: AggregateReport_def split: option.splits dest: SetAggregate_frame)

lemma UpdateReporterLiveness_frame:
  "UpdateReporterLiveness env a q p t b st = Inr st' \<Longrightarrow> Query st' = Query st \<and> orcWorld st' = orcWorld st"
  by (auto simp: UpdateReporterLiveness_def AddReporterQueryShareSum_def Let_def split: if_splits)

lemma TrackLiveness_frame:
  assumes "TrackLivenessForAggregateWithQueryId env agg q st = Inr st'"
  shows "Query st' = Query st \<and> orcWorld st' = orcWorld st"
  using assms unfolding TrackLivenessForAggregateWithQueryId_def Let_def
  by (rule foldR_invariant) (auto dest: UpdateReporterLiveness_frame)

lemma trackAggregate_frame:
  "trackAggregate env q agg st = Inr st' \<Longrightarrow> Query st' = Query st \<and> orcWorld st' = orcWorld st"
  by (auto simp: trackAggregate_def TrackLivenessForAggregate_def TrackLivenessForTRBBridge_def
      split: if_splits dest!: TrackLiveness_frame)

lemma DistributeTip_inv:
  assumes "DistributeTip env c agg r st = Inr st'" and "oracle_env_ok env"
  shows "Query st' = Query st \<and> escrowed env (orcWorld st) \<le> escrowed env (orcWorld st')"
  using assms(1) unfolding DistributeTip_def
  by (rule foldR_invariant) (auto dest!: oracle_env_okD(5) [OF assms(2)])

lemma aggregateOne_inv:
  assumes "aggregateOne env c k (n, st) = Inr (n', st')" and "escrow_inv env n st" and "oracle_env_ok env"
  shows "escrow_inv env n' st'"
proof -
  obtain q agg s1 s2 s3 s4 where q: "kv_get (Query st) k = Some q"
    and a: "AggregateReport c (qmId q) (qmQueryData q) st = Inr (agg, s1)"
    and t: "trackAggregate env q agg (IncrementTotalAggregates s1) = Inr s2"
    and d: "(if qmAmount q = 0 then Inr (n, s2)
         else bindR (DistributeTip env c agg (dec_of (qmAmount q)) s2) (\<lambda>st. Inr (n + qmAmount q, st))) = Inr (n', s3)"
    and r: "removeQuery (fst k) (snd k) s3 = Inr s4" and st': "st' = cleanupAggregationData (qmId q) s4"
    using assms(1) by (auto simp: aggregateOne_def split: prod.splits)
  have s2: "Query s2 = Query st" "orcWorld s2 = orcWorld st"
    using trackAggregate_frame [OF t] AggregateReport_frame [OF a] by simp_all
  have n': "n' = n + qmAmount q" and s3: "Query s3 = Query st" "escrowed env (orcWorld st) \<le> escrowed env (orcWorld s3)"
    using d s2 DistributeTip_inv [OF _ assms(3)] by (fastforce split: if_splits)+
  have "escrow_inv env n s3" by (rule escrow_inv_cong [OF assms(2) s3])
  from removeQuery_inv [OF r this] obtain q' where "kv_get (Query s3) (fst k, snd k) = Some q'"
    "escrow_inv env (n + qmAmount q') s4" .
  then have "escrow_inv env n' s4" using q n' s3(1) by simp
  then show ?thesis unfolding st' by (rule escrow_inv_cong) simp_all
qed

lemma SetAggregatedReport_inv:
  assumes "SetAggregatedReport env c st = Inr st'" and "escrow_inv env 0 st" and env: "oracle_env_ok env"
  shows "escrow_inv env 0 st'"
proof -
  obtain n s where run: "foldR (aggregateOne env c) (expiredKeys st (heightOf c)) (0, st) = Inr (n, s)"
    and fin: "(if 0 < n then bindR (bkSendCoins (oeBank env) (Module oracleModule) (Module tipsEscrowPool)
        BondDenom n (orcWorld s)) (\<lambda>w. Inr (s\<lparr>orcWorld := w\<rparr>)) else Inr s) = Inr st'"
    using assms(1) by (auto simp: SetAggregatedReport_def)
  have "0 \<le> fst (n, s) \<and> escrow_inv env (fst (n, s)) (snd (n, s))"
  proof (rule foldR_invariant [OF run])
    fix k x y
    assume "0 \<le> fst x \<and> escrow_inv env (fst x) (snd x)" and step: "aggregateOne env c k x = Inr y"
    then have inv: "0 \<le> fst x" "escrow_inv env (fst x) (snd x)"
      and step': "aggregateOne env c k (fst x, snd x) = Inr (fst y, snd y)" by simp_all
    have "escrow_inv env (fst y) (snd y)" by (rule aggregateOne_inv [OF step' inv(2) env])
    moreover have "fst x \<le> fst y"
    proof -
      obtain q where "kv_get (Query (snd x)) k = Some q" "fst y = fst x + qmAmount q \<or> fst y = fst x"
        using step' by (auto simp: aggregateOne_def split: prod.splits if_splits)
      moreover from this have "0 \<le> qmAmount q" using inv(2) queries_ok_get(2) unfolding escrow_inv_def by blast
      ultimately show ?thesis by auto
    qed
    ultimately show "0 \<le> fst y \<and> escrow_inv env (fst y) (snd y)" using inv(1) by simp
  qed (use assms(2) in simp)
  then have n: "0 \<le> n" and inv: "escrow_inv env n s" by simp_all
  show ?thesis
  proof (cases "0 < n")
    case True
    then obtain w where send: "bkSendCoins (oeBank env) (Module oracleModule) (Module tipsEscrowPool) BondDenom n (orcWorld s) = Inr w"
      and st': "st' = s\<lparr>orcWorld := w\<rparr>" using fin by auto
    have "escrowed env w = escrowed env (orcWorld s) - n"
      by (simp add: bank_send [OF oracle_env_okD(1) [OF env] send] moved_def oracleModule_def tipsEscrowPool_def)
    then show ?thesis using inv by (simp add: st' escrow_inv_def queries_ok_def tips_total_def)
  next
    case False
    then show ?thesis using n inv fin by simp
  qed
qed

lemma AutoClaimDeposits_inv:
  assumes "AutoClaimDeposits env c st = Inr st'" and "escrow_inv env n st" and "oracle_env_ok env"
  shows "escrow_inv env n st'"
proof -
  have claim: "escrow_inv env n (st\<lparr>orcWorld := w, BridgeDepositQueue := m\<rparr>)"
    if "w = snd (obkClaimDeposit (oeBridge env) c (GetAggregateByTimestamp st) d t (orcWorld st))" for d t w m
    using oracle_env_okD(6) [OF assms(3), of "orcWorld st" c "GetAggregateByTimestamp st" d t] that
    by (intro escrow_inv_cong [OF assms(2)]) simp_all
  then show ?thesis using assms(1,2)
    by (auto simp: AutoClaimDeposits_def Let_def case_prod_beta split: option.splits if_splits)
qed

lemma payReward_inv:
  assumes "foldR (payReward env c) xs (d, st) = Inr (d', st')" and "oracle_env_ok env"
  shows "Query st' = Query st \<and> escrowed env (orcWorld st) \<le> escrowed env (orcWorld st')"
proof -
  have "Query (snd (d', st')) = Query st \<and> escrowed env (orcWorld st) \<le> escrowed env (orcWorld (snd (d', st')))"
    using assms(1) by (rule foldR_invariant)
      (auto simp: payReward_def AllocateTBR_def split: prod.splits if_splits dest!: oracle_env_okD(5) [OF assms(2)])
  then show ?thesis by simp
qed

lemma settleRewards_inv:
  assumes "settleRewards env c t x m st = Inr st'" and "escrow_inv env n st" and env: "oracle_env_ok env"
  shows "escrow_inv env n st'"
proof -
  obtain d s w y where pay: "foldR (payReward env c) (oeMapOrder env m) (0, st) = Inr (d, s)"
    and send: "bkSendCoins (oeBank env) (Module timeBasedRewards) (Module tipsEscrowPool) BondDenom t (orcWorld s) = Inr w"
    and st': "st' = ResetLivenessData (s\<lparr>orcWorld := w, livenessDust := Some y\<rparr>)"
    using assms(1) by (auto simp: settleRewards_def Let_def)
  have "escrowed env w = escrowed env (orcWorld s)"
    by (simp add: bank_send [OF oracle_env_okD(1) [OF env] send] moved_def oracleModule_def tipsEscrowPool_def timeBasedRewards_def)
  then show ?thesis using payReward_inv [OF pay env] st' by (intro escrow_inv_cong [OF assms(2)]) simp_all
qed

lemma DistributeLivenessRewards_inv:
  assumes "DistributeLivenessRewards env c st = Inr st'" and "escrow_inv env n st" and env: "oracle_env_ok env"
  shows "escrow_inv env n st'"
proof -
  have "escrow_inv env n (ResetLivenessData st)" by (rule escrow_inv_cong [OF assms(2)]) simp_all
  then show ?thesis using assms(1)
    by (auto simp: DistributeLivenessRewards_def Let_def split: if_splits intro: settleRewards_inv [OF _ assms(2) env])
qed

lemma CheckAndDistribute_inv:
  assumes "CheckAndDistributeLivenessRewards env c st = Inr st'" and "escrow_inv env n st" and "oracle_env_ok env"
  shows "escrow_inv env n st'"
proof -
  let ?s = "(IncrementStandardOpportunities st)\<lparr>CycleCount := CycleCount (IncrementStandardOpportunities st) + 1\<rparr>"
  have inv: "escrow_inv env n ?s" by (rule escrow_inv_cong [OF assms(2)]) simp_all
  have "st' = ?s \<or> DistributeLivenessRewards env c ?s = Inr st'"
    using assms(1) by (auto simp: CheckAndDistributeLivenessRewards_def Let_def split: if_splits)
  then show ?thesis using inv DistributeLivenessRewards_inv [OF _ inv assms(3)] by blast
qed

lemma moveQuery_inv:
  assumes "removeQuery queryId (qmId q) st = Inr s" and "escrow_inv env n st"
    and "kv_get (Query st) (queryId, qmId q) = Some q"
    and "Query s' = Query s" and "orcWorld s' = orcWorld s"
    and "qmAmount q' = qmAmount q" and "qmQueryData q' = qmQueryData q"
  shows "escrow_inv env n (setQuery queryId q' s')"
proof -
  from removeQuery_inv [OF assms(1,2)] obtain q0 where "kv_get (Query st) (queryId, qmId q) = Some q0"
    "escrow_inv env (n + qmAmount q0) s" .
  then have inv: "escrow_inv env (n + qmAmount q) s" using assms(3) by simp
  have ok: "queries_ok env st" using assms(2) by (simp add: escrow_inv_def)
  have k: "queryId = queryIdOf env (qmQueryData q)" "0 \<le> qmAmount q" using queries_ok_get [OF ok assms(3)] by simp_all
  have "escrow_inv env (n + qmAmount q) s'" by (rule escrow_inv_cong [OF inv]) (simp_all add: assms(4,5))
  then show ?thesis
  proof (rule setQuery_inv)
    have "0 \<le> (case kv_get (Query s') (queryId, qmId q') of None \<Rightarrow> 0 | Some q0 \<Rightarrow> qmAmount q0)"
      using \<open>escrow_inv env (n + qmAmount q) s'\<close> queries_ok_get(2) [of env s' "(queryId, qmId q')"]
      by (simp add: escrow_inv_def split: option.split)
    then show "n + qmAmount q' \<le> n + qmAmount q + (case kv_get (Query s') (queryId, qmId q') of None \<Rightarrow> 0 | Some q0 \<Rightarrow> qmAmount q0)"
      using assms(6) by simp
  qed (use k assms(6,7) in simp_all)
qed

lemma openCycleQuery_inv:
  assumes "openCycleQuery env c d st = Inr st'" and "escrow_inv env n st"
  shows "escrow_inv env n st'"
proof (cases "CurrentQuery st (queryIdOf env d)")
  case None
  then obtain q s where i: "InitializeQuery env d st = Inr (q, s)"
    and st': "st' = setQuery (queryIdOf env d) (q\<lparr>qmCycleList := True,
        qmExpiration := heightOf c + RegistrySpecBlockWindow q\<rparr>) s"
    using assms(1) by (auto simp: openCycleQuery_def Let_def)
  note q = InitializeQuery_Inr [OF i]
  have "escrow_inv env n s" by (rule escrow_inv_cong [OF assms(2)]) (simp_all add: q)
  then show ?thesis unfolding st' by (rule setQuery_counted) (simp add: counted_def q)
next
  case (Some q)
  have ok: "queries_ok env st" using assms(2) by (simp add: escrow_inv_def)
  note stored = CurrentQuery_stored [OF Some ok]
  have "counted env st (queryIdOf env d) (q\<lparr>qmCycleList := True\<rparr>)" using stored by (simp add: counted_def)
  then have "escrow_inv env n (setQuery (queryIdOf env d) (q\<lparr>qmCycleList := True\<rparr>) st)"
    by (rule setQuery_counted [OF assms(2)])
  then show ?thesis using assms(1,2) Some
    by (auto simp: openCycleQuery_def nextQueryId_def Let_def split: if_splits
        intro: moveQuery_inv [OF _ assms(2) stored(1)])
qed

lemma RotateQueries_inv:
  assumes "RotateQueries env c st = Inr st'" and "escrow_inv env n st" and env: "oracle_env_ok env"
  shows "escrow_inv env n st'"
proof -
  consider "st' = st" | i s d where "advanceCycle env c (length (GetCyclelist st)) st = Inr (i, s)"
      "openCycleQuery env c d (IncrementQueryOpportunities (queryIdOf env d) s) = Inr st'"
    using assms(1) by (auto simp: RotateQueries_def Let_def split: if_splits)
  then show ?thesis
  proof cases
    case 1
    then show ?thesis using assms(2) by simp
  next
    case 2
    have "escrow_inv env n (st\<lparr>CyclelistSequencer := x\<rparr>)" for x by (rule escrow_inv_cong [OF assms(2)]) simp_all
    then have "escrow_inv env n s" using 2(1) CheckAndDistribute_inv [OF _ _ env]
      by (fastforce simp: advanceCycle_def Let_def split: if_splits)
    then have "escrow_inv env n (IncrementQueryOpportunities (queryIdOf env d) s)" by (rule escrow_inv_cong) simp_all
    then show ?thesis by (rule openCycleQuery_inv [OF 2(2)])
  qed
qed

lemma RemoveOldReports_frame:
  assumes "RemoveOldReports c st = Inr st'"
  shows "Query st' = Query st \<and> orcWorld st' = orcWorld st"
  using assms unfolding RemoveOldReports_def Let_def by (rule foldR_invariant) auto

lemma oracleEndBlocker_inv:
  assumes "oracleEndBlocker env c st = Inr st'" and "escrow_inv env 0 st" and "oracle_env_ok env"
  shows "escrow_inv env 0 st'"
proof -
  obtain s1 s2 s3 where run: "SetAggregatedReport env c st = Inr s1" "AutoClaimDeposits env c s1 = Inr s2"
    "RotateQueries env c s2 = Inr s3" "RemoveOldReports c s3 = Inr st'"
    using assms(1) by (auto simp: oracleEndBlocker_def)
  have "escrow_inv env 0 s1" by (rule SetAggregatedReport_inv [OF run(1) assms(2,3)])
  then have "escrow_inv env 0 s2" by (rule AutoClaimDeposits_inv [OF run(2) _ assms(3)])
  then have "escrow_inv env 0 s3" by (rule RotateQueries_inv [OF run(3) _ assms(3)])
  then show ?thesis by (rule escrow_inv_cong) (simp_all add: RemoveOldReports_frame [OF run(4)])
qed

end
