(* ===== verification/OracleExample.thy ===== *)
theory OracleExample
  imports OracleBlock
begin

text \<open>
  A concrete environment of the oracle for evaluations: the reference ledger and decimals,
  one reporter with a stake of 5 TRB, an ABI codec that reads every query as a spot price
  and, as \<^verbatim>\<open>go-ethereum\<close> does, accepts a number of 32 bytes followed by anything, and a
  two-byte checksum in place of the hash.
\<close>

definition ex_unpack :: abi_unpack where
  "ex_unpack args d =
     (if map argType args = [''string'', ''bytes''] then Inr [AbiString ''SpotPrice'', AbiBytes d]
      else if 32 \<le> length d then Inr [AbiOther ''word'']
      else Inl (Err ''abi: cannot marshal''))"

definition ex_orc_env :: "ledger oracle_env" where
  "ex_orc_env = \<lparr>oeAuthority = ''gov'', oeBank = ledger_bank,
     oeReporter = \<lparr>orkReporterStake = (\<lambda>_ _ _ w. Inr (5000000, w)),
        orkGetReporterStake = (\<lambda>_ _ w. Inr (5000000, [], w)),
        orkSetReporterStakeByQueryId = (\<lambda>_ _ _ _ _ w. Inr w),
        orkDivvyingTips = (\<lambda>_ _ _ w. Inr w),
        orkGetLastReportedAtBlock = (\<lambda>_ _ _. Inr 1)\<rparr>,
     oeBridge = \<lparr>obkGetDepositStatus = (\<lambda>_ _. Inl ErrNotFound), obkClaimDeposit = (\<lambda>_ _ _ _ w. (None, w))\<rparr>,
     oeGetSpec = (\<lambda>_ _. Inr (GenesisDataSpec ! 0)),
     oeUnpack = ex_unpack, oeKeccak = (\<lambda>d. take 2 d), oeDec = ref_dec,
     oeAccAddressFromBech32 = Inr, oeAccString = (\<lambda>a. a), oeMapOrder = (\<lambda>m. m)\<rparr>"

definition ex_world :: ledger where
  "ex_world h d = (if h = User ''alice'' \<and> d = BondDenom then 1000000 else 0)"

definition ex_genesis_oracle :: oracle_genesis where
  "ex_genesis_oracle = \<lparr>ogParams = oracleDefaultParams, ogCyclelist = [''btc'', ''eth'', ''trb''],
     ogQueryDataLimit = 1000, ogQuerySequencer = 0\<rparr>"

definition ex_orc :: "ledger oracle_state" where
  "ex_orc = (emptyOracle ex_world)\<lparr>orcParams := Some oracleDefaultParams,
     Cyclelist := [(''bt'', ''btc''), (''et'', ''eth''), (''tr'', ''trb'')], QueryDataLimit := Some 1000\<rparr>"

definition ex_tip :: msg_tip where
  "ex_tip = \<lparr>mtTipper = ''alice'', mtQueryData = ''atom'', mtDenom = BondDenom, mtAmount = 50000\<rparr>"

definition ex_block :: "int \<Rightarrow> ctx" where
  "ex_block h = \<lparr>BlockTime = h * 1000000000, BlockHeight = h\<rparr>"

lemma ex_orc_genesis: "oracleInitGenesis ex_orc_env ex_genesis_oracle (emptyOracle ex_world) = Inr ex_orc"
  by (simp add: oracleInitGenesis_def oracleSetParams_def validateOracleParams_def ex_genesis_oracle_def
      oracleDefaultParams_def DefaultMaxTipAmount_def GenesisCycleList_def ex_orc_def ex_orc_env_def QueryIDFromData_def emptyOracle_def)

lemmas ex_orc_defs = ex_orc_env_def ex_orc_def ex_tip_def ex_block_def ex_world_def

end
