(* ===== verification/OracleTips.thy ===== *)
theory OracleTips
  imports OracleEscrow OracleExample
begin

text \<open>
  Reachable states of the oracle keep the tips of all open queries escrowed; the exact
  effect of a tip on balances and on the running totals the dispute module reads.
\<close>

section \<open>Steps\<close>

lemma UpdateQuery_inv:
  assumes "escrow_inv env n st"
  shows "escrow_inv env n (UpdateQuery env t w st)"
proof -
  let ?same = "\<lambda>s. \<forall>k. map_option qmAmount (kv_get (Query s) k) = map_option qmAmount (kv_get (Query st) k)"
  let ?set = "\<lambda>q s. setQuery (queryIdOf env (qmQueryData q)) (q\<lparr>RegistrySpecBlockWindow := w\<rparr>) s"
  have ok: "queries_ok env st" using assms by (simp add: escrow_inv_def)
  have "escrow_inv env n (fold ?set qs s) \<and> ?same (fold ?set qs s)"
    if "set qs \<subseteq> snd ` set (Query st)" "escrow_inv env n s" "?same s" for qs s
    using that
  proof (induction qs arbitrary: s)
    case Nil
    then show ?case by simp
  next
    case (Cons q qs)
    obtain k where "(k, q) \<in> set (Query st)" using Cons.prems(1) by auto
    then have "kv_get (Query st) k = Some q" using ok kv_get_mem [of "Query st" k q] by (simp add: queries_ok_def)
    then have q: "kv_get (Query st) (queryIdOf env (qmQueryData q), qmId q) = Some q" and a: "0 \<le> qmAmount q"
      using queries_ok_get [OF ok] by auto
    then have "map_option qmAmount (kv_get (Query s) (queryIdOf env (qmQueryData q), qmId q)) = Some (qmAmount q)"
      using Cons.prems(3) by simp
    then have "counted env s (queryIdOf env (qmQueryData q)) (q\<lparr>RegistrySpecBlockWindow := w\<rparr>)"
      using a by (auto simp: counted_def)
    then have "escrow_inv env n (?set q s)" by (rule setQuery_counted [OF Cons.prems(2)])
    moreover have "?same (?set q s)" using Cons.prems(3) q by (simp add: setQuery_def)
    ultimately show ?case using Cons.IH [of "?set q s"] Cons.prems(1) by simp
  qed
  then show ?thesis using assms unfolding UpdateQuery_def by auto
qed

text \<open>What can change the oracle: tips, the other messages, the hook of the registry, the dispute module's
  flagging of an aggregate, the end of a block, and steps of other modules that leave the
  tokens of the oracle in place.\<close>

inductive quiet_step :: "'w oracle_env \<Rightarrow> 'w oracle_state \<Rightarrow> 'w oracle_state \<Rightarrow> bool" for env where
  submit: "SubmitValue env c sv st = Inr st' \<Longrightarrow> quiet_step env st st'"
| batch: "BatchSubmitValue env c a vs st = Inr (f, st') \<Longrightarrow> quiet_step env st st'"
| end_block: "oracleEndBlocker env c st = Inr st' \<Longrightarrow> quiet_step env st st'"
| cyclelist: "UpdateCyclelist env a l st = Inr st' \<Longrightarrow> quiet_step env st st'"
| params: "oracleUpdateParams env a p st = Inr st' \<Longrightarrow> quiet_step env st st'"
| limit: "UpdateQueryDataLimit env a x st = Inr st' \<Longrightarrow> quiet_step env st st'"
| batch_size: "UpdateMaxBatchSize env a m st = Inr st' \<Longrightarrow> quiet_step env st st'"
| spec_update: "oracleAfterDataSpecUpdated env t d st = Inr st' \<Longrightarrow> quiet_step env st st'"
| flag: "FlagAggregateReport env r st = Inr st' \<Longrightarrow> quiet_step env st st'"
| other: "escrowed env (orcWorld st) \<le> escrowed env w \<Longrightarrow> quiet_step env st (st\<lparr>orcWorld := w\<rparr>)"

inductive oracle_step :: "'w oracle_env \<Rightarrow> 'w oracle_state \<Rightarrow> 'w oracle_state \<Rightarrow> bool" for env where
  tip: "Tip env c msg st = Inr st' \<Longrightarrow> oracle_step env st st'"
| quiet: "quiet_step env st st' \<Longrightarrow> oracle_step env st st'"

inductive oracle_reachable :: "'w oracle_env \<Rightarrow> 'w oracle_state \<Rightarrow> bool" for env where
  genesis: "oracleInitGenesis env gs (emptyOracle w) = Inr st \<Longrightarrow> 0 \<le> escrowed env w \<Longrightarrow> oracle_reachable env st"
| step: "oracle_reachable env st \<Longrightarrow> oracle_step env st st' \<Longrightarrow> oracle_reachable env st'"

inductive_cases oracle_stepE: "oracle_step env st st'"
inductive_cases quiet_stepE: "quiet_step env st st'"

lemma governance_frame:
  "UpdateCyclelist env a l st = Inr st' \<Longrightarrow> Query st' = Query st \<and> orcWorld st' = orcWorld st"
  "oracleUpdateParams env a p st = Inr st' \<Longrightarrow> Query st' = Query st \<and> orcWorld st' = orcWorld st"
  "UpdateQueryDataLimit env a x st = Inr st' \<Longrightarrow> Query st' = Query st \<and> orcWorld st' = orcWorld st"
  "UpdateMaxBatchSize env a m st = Inr st' \<Longrightarrow> Query st' = Query st \<and> orcWorld st' = orcWorld st"
  by (auto simp: UpdateCyclelist_def InitCycleListQuery_def oracleUpdateParams_def oracleSetParams_def
      UpdateQueryDataLimit_def UpdateMaxBatchSize_def)

lemma FlagAggregateReport_frame:
  "FlagAggregateReport env r st = Inr st' \<Longrightarrow> Query st' = Query st \<and> orcWorld st' = orcWorld st"
  by (auto simp: FlagAggregateReport_def split: sum.splits option.splits)

lemma quiet_step_inv:
  assumes "quiet_step env st st'" and "escrow_inv env 0 st" and "oracle_env_ok env"
  shows "escrow_inv env 0 st'"
  using assms(1)
proof (cases rule: quiet_step.cases)
  case (submit c sv)
  then show ?thesis by (rule SubmitValue_inv [OF _ assms(2,3)])
next
  case (batch c a vs f)
  then show ?thesis by (rule BatchSubmitValue_inv [OF _ assms(2,3)])
next
  case (end_block c)
  then show ?thesis by (rule oracleEndBlocker_inv [OF _ assms(2,3)])
next
  case (spec_update t d)
  then have "st' = UpdateQuery env t (ReportBlockWindow d) st" by (simp add: oracleAfterDataSpecUpdated_def)
  then show ?thesis using UpdateQuery_inv [OF assms(2)] by simp
next
  case (other w)
  then show ?thesis by (auto intro: escrow_inv_cong [OF assms(2)])
qed (auto dest!: governance_frame FlagAggregateReport_frame intro: escrow_inv_cong [OF assms(2)])

lemma oracle_step_inv:
  assumes "oracle_step env st st'" and "escrow_inv env 0 st" and "oracle_env_ok env"
  shows "escrow_inv env 0 st'"
  using assms(1) by (rule oracle_stepE) (auto intro: Tip_inv [OF _ assms(2,3)] quiet_step_inv [OF _ assms(2,3)])

lemma oracle_genesis_inv:
  assumes "oracleInitGenesis env gs (emptyOracle w) = Inr st" and "0 \<le> escrowed env w"
  shows "escrow_inv env 0 st"
  using assms by (auto simp: oracleInitGenesis_def oracleSetParams_def GenesisCycleList_def emptyOracle_def
      escrow_inv_def queries_ok_def tips_total_def split: sum.splits)

lemma escrow_reachable:
  assumes "oracle_reachable env st" and "oracle_env_ok env"
  shows "escrow_inv env 0 st"
  using assms(1) by induction (auto intro: oracle_genesis_inv oracle_step_inv [OF _ _ assms(2)])

text \<open>
  C12: in every reachable state the tokens held by the oracle module cover the tips of all
  stored queries together, whatever tips, reports, batches, aggregations, rotations and
  updates happened; no open query has a negative tip.
\<close>

theorem tips_backed:
  assumes "oracle_reachable env st" and "oracle_env_ok env"
  shows "sum_list (map (\<lambda>(k, q). qmAmount q) (Query st))
      \<le> bkGetBalance (oeBank env) (orcWorld st) (Module oracleModule) BondDenom
    \<and> (\<forall>(k, q) \<in> set (Query st). 0 \<le> qmAmount q \<and> k = (QueryIDFromData (oeKeccak env) (qmQueryData q), qmId q))"
proof -
  have "escrow_inv env 0 st" using assms by (rule escrow_reachable)
  then have ok: "queries_ok env st" and le: "tips_total st \<le> escrowed env (orcWorld st)" by (auto simp: escrow_inv_def)
  have each: "0 \<le> qmAmount q \<and> k = (queryIdOf env (qmQueryData q), qmId q)" if "(k, q) \<in> set (Query st)" for k q
  proof -
    have "kv_get (Query st) k = Some q" using that ok kv_get_mem [of "Query st" k q] by (simp add: queries_ok_def)
    from queries_ok_get [OF ok this] show ?thesis by blast
  qed
  show ?thesis
  proof (rule conjI)
    show "sum_list (map (\<lambda>(k, q). qmAmount q) (Query st)) \<le> escrowed env (orcWorld st)"
      using le by (simp add: tips_total_def kv_total_def case_prod_unfold)
  qed (use each in blast)
qed

lemma ledger_env_ok: "oracle_env_ok ex_orc_env"
  using ledger_bank_laws by (simp add: oracle_env_ok_def ex_orc_env_def)

definition ex_tipped :: "ledger oracle_state" where
  "ex_tipped = (case Tip ex_orc_env (ex_block 5) ex_tip ex_orc of Inr st \<Rightarrow> st | Inl _ \<Rightarrow> ex_orc)"

lemma ex_tip_runs: "Tip ex_orc_env (ex_block 5) ex_tip ex_orc = Inr ex_tipped"
proof -
  have "case Tip ex_orc_env (ex_block 5) ex_tip ex_orc of Inr _ \<Rightarrow> True | Inl _ \<Rightarrow> False" by code_simp
  then show ?thesis by (simp add: ex_tipped_def split: sum.splits)
qed

lemma ex_tipped_reachable: "oracle_reachable ex_orc_env ex_tipped"
proof (rule oracle_reachable.step)
  have "0 \<le> escrowed ex_orc_env ex_world" by (simp add: ex_orc_env_def ledger_bank_def ex_world_def)
  then show "oracle_reachable ex_orc_env ex_orc" by (rule oracle_reachable.genesis [OF ex_orc_genesis])
  show "oracle_step ex_orc_env ex_orc ex_tipped" by (rule oracle_step.tip [OF ex_tip_runs])
qed

theorem tips_backed_witness:
  "oracle_reachable ex_orc_env ex_tipped \<and> map (\<lambda>(k, q). qmAmount q) (Query ex_tipped) = [49000]
    \<and> 49000 \<le> bkGetBalance ledger_bank (orcWorld ex_tipped) (Module oracleModule) BondDenom"
proof -
  have q: "map (\<lambda>(k, q). qmAmount q) (Query ex_tipped) = [49000]" by code_simp
  have "oeBank ex_orc_env = ledger_bank" by (simp add: ex_orc_env_def)
  then show ?thesis using ex_tipped_reachable tips_backed [OF ex_tipped_reachable ledger_env_ok] q by simp
qed

section \<open>The effect of a tip\<close>

lemma CurrentQuery_greatest:
  assumes "kv_ok (Query st)" and "kv_get (Query st) (d, i) = Some q" and "qmQueryData q \<noteq> []"
    and "\<And>j q'. kv_get (Query st) (d, j) = Some q' \<Longrightarrow> j \<le> i"
  shows "CurrentQuery st d = Some q"
proof -
  let ?m = "kv_prefix d (Query st)"
  have ok: "kv_ok ?m" by (rule kv_prefix_ok [OF assms(1)])
  have get: "kv_get ?m j = kv_get (Query st) (d, j)" for j by (rule kv_prefix_get [OF assms(1)])
  have ne: "?m \<noteq> []" using get [of i] assms(2) by auto
  obtain j q' where l: "last ?m = (j, q')" by (metis surj_pair)
  then have "(j, q') \<in> set ?m" using last_in_set [OF ne] by simp
  then have g: "kv_get ?m j = Some q'" using kv_get_mem [OF ok] by simp
  have "kv_last_key ?m = Some j" using ne l by (simp add: kv_last_key_def)
  from kv_last_key_greatest [OF ok this, of i q] have "i \<le> j" using get [of i] assms(2) by simp
  moreover have "j \<le> i" using assms(4) [of j q'] g get [of j] by simp
  ultimately have "j = i" "q' = q" using g get [of i] assms(2) by auto
  then show ?thesis using ne l assms(3) by (simp add: CurrentQuery_def firstOf_rev)
qed

lemma CurrentQuery_newest:
  assumes "CurrentQuery st d = Some q" and "queries_ok env st" and "kv_get (Query st) (d, j) = Some q'"
  shows "j \<le> qmId q"
proof -
  let ?m = "kv_prefix d (Query st)"
  have ok: "kv_ok (Query st)" using assms(2) by (simp add: queries_ok_def)
  obtain i where last: "last ?m = (i, q)" and ne: "?m \<noteq> []"
    using assms(1) by (auto simp: CurrentQuery_def firstOf_rev split: option.splits if_splits)
  then have "(i, q) \<in> set ?m" using last_in_set [OF ne] by simp
  then have "kv_get (Query st) (d, i) = Some q" using kv_get_mem [OF ok] by (simp add: kv_prefix_mem)
  then have i: "i = qmId q" using queries_ok_get(1) [OF assms(2)] by blast
  have "kv_last_key ?m = Some i" using ne last by (simp add: kv_last_key_def)
  from kv_last_key_greatest [OF kv_prefix_ok [OF ok] this, of j q'] show ?thesis
    using assms(3) i by (simp add: kv_prefix_get [OF ok])
qed

text \<open>The query a tip lands on is the current one of its query id, under the greatest id.\<close>

lemma tippedQuery_greatest:
  assumes "tippedQuery env c d st = Inr (q, s)" and "queries_ok env st" and "d \<noteq> []"
    and "\<forall>k \<in> fst ` set (Query st). snd k < QuerySequencer st"
  shows "qmAmount q = GetQueryTip st (queryIdOf env d)" and "qmQueryData q \<noteq> []"
    and "kv_get (Query st) (queryIdOf env d, j) = Some q' \<Longrightarrow> j \<le> qmId q"
    and "kv_has (Query st) (queryIdOf env d, qmId q) \<Longrightarrow> s = st"
proof -
  have below: "snd k < QuerySequencer st" if "kv_get (Query st) k = Some x" for k x
    using that assms(2,4) kv_get_mem [of "Query st" k x] by (force simp: queries_ok_def)
  note facts = InitializeQuery_Inr
  show "qmAmount q = GetQueryTip st (queryIdOf env d)"
    using assms(1) by (auto simp: tippedQuery_def GetQueryTip_def split: option.splits)
  show "qmQueryData q \<noteq> []"
    using assms(1,3) facts(2) by (fastforce simp: tippedQuery_def CurrentQuery_def split: option.splits if_splits)
  show "j \<le> qmId q" if "kv_get (Query st) (queryIdOf env d, j) = Some q'"
  proof (cases "CurrentQuery st (queryIdOf env d)")
    case None
    then have "qmId q = QuerySequencer st" using assms(1) facts(6) by (fastforce simp: tippedQuery_def)
    then show ?thesis using below [OF that] by simp
  next
    case (Some q0)
    then show ?thesis using CurrentQuery_newest [OF Some assms(2) that] assms(1) by (simp add: tippedQuery_def)
  qed
  show "s = st" if "kv_has (Query st) (queryIdOf env d, qmId q)"
  proof (cases "CurrentQuery st (queryIdOf env d)")
    case None
    then have "qmId q = QuerySequencer st" using assms(1) facts(6) by (fastforce simp: tippedQuery_def)
    then show ?thesis using that below by (fastforce simp: kv_has_def)
  qed (use assms(1) in \<open>simp add: tippedQuery_def\<close>)
qed

lemma reopenQuery_writes:
  assumes "reopenQuery c queryId q st = Inr (q', st')"
  shows "kv_has (Query st) (queryId, qmId q)" and "Query st' = kv_del (queryId, qmId q) (Query st)"
    and "qmId q' = QuerySequencer st" and "qmQueryData q' = qmQueryData q" and "qmAmount q' = qmAmount q"
    and "TipperTotal st' = TipperTotal st" and "TotalTips st' = TotalTips st" and "orcWorld st' = orcWorld st"
  using assms by (auto simp: reopenQuery_def removeQuery_def nextQueryId_def IncrementQueryOpportunities_def
      DemoteQueryToNonStandard_def Let_def split: if_splits)

lemma Tip_query:
  assumes "Tip env c msg st = Inr st'" and "queries_ok env st"
    and "\<forall>k \<in> fst ` set (Query st). snd k < QuerySequencer st"
  obtains t tipper w where "validateTip env msg = Inr tipper"
    and "transfer env tipper (mtAmount msg) (orcWorld st) = Inr (t, w)" and "orcWorld st' = w"
    and "GetQueryTip st' (queryIdOf env (mtQueryData msg)) = GetQueryTip st (queryIdOf env (mtQueryData msg)) + t"
    and "TipperTotal st' = kv_set (tipper, heightOf c) (GetUserTips c st tipper + t) (TipperTotal st)"
    and "TotalTips st' = kv_set (heightOf c) (GetTotalTips c st + t) (TotalTips st)"
proof -
  let ?k = "queryIdOf env (mtQueryData msg)"
  obtain tipper q s t w q' s' where v: "validateTip env msg = Inr tipper"
    and tq: "tippedQuery env c (mtQueryData msg) st = Inr (q, s)"
    and tr: "transfer env tipper (mtAmount msg) (orcWorld s) = Inr (t, w)"
    and re: "(if qmExpiration q < heightOf c
          then reopenQuery c ?k (q\<lparr>qmAmount := qmAmount q + t\<rparr>) (s\<lparr>orcWorld := w\<rparr>)
          else Inr (q\<lparr>qmAmount := qmAmount q + t\<rparr>, s\<lparr>orcWorld := w\<rparr>)) = Inr (q', s')"
    and st': "st' = AddtoTotalTips c t (AddToTipperTotal c tipper t (setQuery ?k q' s'))"
    by (rule Tip_cases [OF assms(1)])
  have ok: "kv_ok (Query st)" using assms(2) by (simp add: queries_ok_def)
  note cnt = tippedQuery_counted [OF tq assms(2)]
  have data: "mtQueryData msg \<noteq> []" using v by (auto simp: validateTip_def)
  have s: "TipperTotal s = TipperTotal st" "TotalTips s = TotalTips st"
    using tq by (auto simp: tippedQuery_def InitializeQuery_def nextQueryId_def Let_def split: option.splits)
  have s': "TipperTotal s' = TipperTotal s" "TotalTips s' = TotalTips s" "orcWorld s' = w"
    using re reopenQuery_writes(6,7,8) by (fastforce split: if_splits)+
  note g = tippedQuery_greatest [OF tq assms(2) data assms(3)]
  have "CurrentQuery (setQuery ?k q' s') ?k = Some q'"
  proof (rule CurrentQuery_greatest)
    show "qmQueryData q' \<noteq> []" using re g(2) reopenQuery_writes(4) by (fastforce split: if_splits)
    show "kv_ok (Query (setQuery ?k q' s'))" using re ok cnt(2) reopenQuery_writes(2)
      by (fastforce simp: setQuery_def split: if_splits)
    show "kv_get (Query (setQuery ?k q' s')) (?k, qmId q') = Some q'" by (simp add: setQuery_def)
    show "j \<le> qmId q'" if "kv_get (Query (setQuery ?k q' s')) (?k, j) = Some x" for j x
    proof (cases "qmExpiration q < heightOf c")
      case True
      then have r: "reopenQuery c ?k (q\<lparr>qmAmount := qmAmount q + t\<rparr>) (s\<lparr>orcWorld := w\<rparr>) = Inr (q', s')" using re by simp
      note wr = reopenQuery_writes [OF r]
      have "s = st" using g(4) wr(1) cnt(2) by simp
      then show ?thesis using that wr(2,3) kv_get_mem [OF ok, of "(?k, j)" x] assms(3)
        by (fastforce simp: setQuery_def split: if_splits)
    next
      case False
      then show ?thesis using that re g(3) cnt(2) by (fastforce simp: setQuery_def split: if_splits)
    qed
  qed
  moreover have "qmAmount q' = qmAmount q + t" using re reopenQuery_writes(5) by (fastforce split: if_splits)
  moreover have "CurrentQuery st' ?k = CurrentQuery (setQuery ?k q' s') ?k" by (simp add: st' CurrentQuery_def)
  ultimately have tip: "GetQueryTip st' ?k = GetQueryTip st ?k + t" using g(1) by (simp add: GetQueryTip_def)
  show thesis
  proof (rule that [OF v])
    show "transfer env tipper (mtAmount msg) (orcWorld st) = Inr (t, w)" using tr cnt(3) by simp
    show "orcWorld st' = w" using s'(3) by (simp add: st')
    show "TipperTotal st' = kv_set (tipper, heightOf c) (GetUserTips c st tipper + t) (TipperTotal st)"
      using s s' by (simp add: st' AddtoTotalTips_def AddToTipperTotal_def setQuery_def GetUserTips_def GetTipsAtBlockForTipper_def)
    show "TotalTips st' = kv_set (heightOf c) (GetTotalTips c st + t) (TotalTips st)"
      using s s' by (simp add: st' AddtoTotalTips_def AddToTipperTotal_def setQuery_def GetTotalTips_def GetTotalTipsAtBlock_def)
    show "GetQueryTip st' ?k = GetQueryTip st ?k + t" by (rule tip)
  qed
qed

text \<open>
  C13: what a tip does. The tipper pays the amount, the oracle module receives all but the two
  percent that are burned, the tip of the query grows by that much, and so do the total of
  all tips and the tipper's own total as the dispute module reads them; the totals of other
  tippers and every total at an earlier block stay as they were.
\<close>

theorem tip_effect:
  assumes "Tip env c msg st = Inr st'" and "bank_laws (oeBank env)" and "queries_ok env st"
    and "\<forall>k \<in> fst ` set (Query st). snd k < QuerySequencer st"
    and "kv_ok (TipperTotal st)" and "kv_ok (TotalTips st)"
  shows "\<exists>tipper t. oeAccAddressFromBech32 env (mtTipper msg) = Inr tipper \<and> t = mtAmount msg - mtAmount msg * 2 div 100
    \<and> bkGetBalance (oeBank env) (orcWorld st') (User tipper) BondDenom
        = bkGetBalance (oeBank env) (orcWorld st) (User tipper) BondDenom - mtAmount msg
    \<and> bkGetBalance (oeBank env) (orcWorld st') (Module oracleModule) BondDenom
        = bkGetBalance (oeBank env) (orcWorld st) (Module oracleModule) BondDenom + t
    \<and> GetQueryTip st' (queryIdOf env (mtQueryData msg)) = GetQueryTip st (queryIdOf env (mtQueryData msg)) + t
    \<and> GetTotalTips c st' = GetTotalTips c st + t \<and> GetUserTips c st' tipper = GetUserTips c st tipper + t
    \<and> (\<forall>a b. b < heightOf c \<or> a \<noteq> tipper \<longrightarrow> GetTipsAtBlockForTipper st' b a = GetTipsAtBlockForTipper st b a)
    \<and> (\<forall>b < heightOf c. GetTotalTipsAtBlock st' b = GetTotalTipsAtBlock st b)"
proof -
  obtain t tipper w where v: "validateTip env msg = Inr tipper"
    and tr: "transfer env tipper (mtAmount msg) (orcWorld st) = Inr (t, w)" and w: "orcWorld st' = w"
    and q: "GetQueryTip st' (queryIdOf env (mtQueryData msg)) = GetQueryTip st (queryIdOf env (mtQueryData msg)) + t"
    and own: "TipperTotal st' = kv_set (tipper, heightOf c) (GetUserTips c st tipper + t) (TipperTotal st)"
    and all: "TotalTips st' = kv_set (heightOf c) (GetTotalTips c st + t) (TotalTips st)"
    by (rule Tip_query [OF assms(1,3,4)])
  have addr: "oeAccAddressFromBech32 env (mtTipper msg) = Inr tipper" and pos: "0 < mtAmount msg"
    using v by (auto simp: validateTip_def wrapR_def split: sum.splits error.splits)
  note bal = transfer_effect [OF tr assms(2)]
  have t: "t = mtAmount msg - mtAmount msg * 2 div 100" using bal(3) pos by (simp add: quoT_nonneg)
  have paid: "bkGetBalance (oeBank env) w (User tipper) BondDenom
      = bkGetBalance (oeBank env) (orcWorld st) (User tipper) BondDenom - mtAmount msg"
    using tr by (auto simp: transfer_def Let_def bank_send [OF assms(2)] bank_burn [OF assms(2)] moved_def)
  have own_new: "GetUserTips c st' tipper = GetUserTips c st tipper + t"
    unfolding GetUserTips_def GetTipsAtBlockForTipper_def own
    using kv_prefix_ok [OF assms(5)] by (simp add: kv_prefix_set [OF assms(5)] kv_set_upto firstOf_def)
  have own_old: "GetTipsAtBlockForTipper st' b a = GetTipsAtBlockForTipper st b a" if "b < heightOf c \<or> a \<noteq> tipper" for a b
    using that unfolding GetTipsAtBlockForTipper_def own by (auto simp: kv_prefix_set [OF assms(5)] kv_set_below)
  have all_new: "GetTotalTips c st' = GetTotalTips c st + t"
    unfolding GetTotalTips_def [of c st'] GetTotalTipsAtBlock_def [of st'] all using assms(6) by (simp add: kv_set_upto firstOf_def)
  have all_old: "GetTotalTipsAtBlock st' b = GetTotalTipsAtBlock st b" if "b < heightOf c" for b
    using that unfolding GetTotalTipsAtBlock_def all by (simp add: kv_set_below)
  show ?thesis using addr t paid bal(1) q own_new own_old all_new all_old unfolding w by blast
qed

theorem tip_effect_witness:
  "GetTotalTips (ex_block 5) ex_tipped = 49000 \<and> GetUserTips (ex_block 5) ex_tipped ''alice'' = 49000
    \<and> GetTotalTipsAtBlock ex_tipped 4 = 0"
proof -
  have pre: "queries_ok ex_orc_env ex_orc" "\<forall>k \<in> fst ` set (Query ex_orc). snd k < QuerySequencer ex_orc"
    "kv_ok (TipperTotal ex_orc)" "kv_ok (TotalTips ex_orc)" "bank_laws (oeBank ex_orc_env)"
    using ledger_bank_laws by (simp_all add: queries_ok_def ex_orc_def emptyOracle_def ex_orc_env_def)
  have vals: "GetTotalTips (ex_block 5) ex_orc = 0" "GetUserTips (ex_block 5) ex_orc ''alice'' = 0"
    "GetTotalTipsAtBlock ex_orc 4 = 0" "(4 :: u64) < heightOf (ex_block 5)" by code_simp+
  have msg: "mtTipper ex_tip = ''alice''" "mtAmount ex_tip = 50000" "oeAccAddressFromBech32 ex_orc_env = Inr"
    by (simp_all add: ex_tip_def ex_orc_env_def)
  show ?thesis using tip_effect [OF ex_tip_runs pre(5,1,2,3,4)] vals msg by auto
qed

end
