(* ===== verification/OracleHalts.thy ===== *)
theory OracleHalts
  imports OracleTips
begin

text \<open>
  Where the end of a block can fail, and so stop the chain: a query marked as having
  reports without an aggregate, which a failed report of a batch leaves behind, and a
  cycle list replaced by one shorter than the position of its rotation.
\<close>

section \<open>What the aggregation leaves alone\<close>

definition same_cycle :: "'w oracle_state \<Rightarrow> 'w oracle_state \<Rightarrow> bool" where
  "same_cycle st st' \<longleftrightarrow> AggregateValue st' = AggregateValue st \<and> Cyclelist st' = Cyclelist st
     \<and> CyclelistSequencer st' = CyclelistSequencer st"

lemma same_cycle_trans: "same_cycle r s \<Longrightarrow> same_cycle s t \<Longrightarrow> same_cycle r t"
  by (simp add: same_cycle_def)

lemma SetAggregate_same: "SetAggregate c r d t st = (agg, st') \<Longrightarrow> same_cycle st st'"
  by (auto simp: SetAggregate_def same_cycle_def Let_def)

lemma AggregateReport_same: "AggregateReport c i d st = Inr (agg, st') \<Longrightarrow> same_cycle st st'"
  by (auto simp: AggregateReport_def split: option.splits dest: SetAggregate_same)

lemma TrackLiveness_same:
  assumes "TrackLivenessForAggregateWithQueryId env agg q st = Inr st'"
  shows "same_cycle st st'"
  using assms unfolding TrackLivenessForAggregateWithQueryId_def Let_def
  by (rule foldR_invariant)
    (auto simp: same_cycle_def UpdateReporterLiveness_def AddReporterQueryShareSum_def Let_def split: if_splits)

lemma trackAggregate_same: "trackAggregate env q agg st = Inr st' \<Longrightarrow> same_cycle st st'"
  by (auto simp: trackAggregate_def TrackLivenessForAggregate_def TrackLivenessForTRBBridge_def same_cycle_def
      IncrementQueryOpportunities_def split: if_splits dest!: TrackLiveness_same)

lemma DistributeTip_same: "DistributeTip env c agg r st = Inr st' \<Longrightarrow> same_cycle st st' \<and> Query st' = Query st"
  unfolding DistributeTip_def by (erule foldR_invariant) (auto simp: same_cycle_def)

lemma aggregateOne_writes:
  assumes "aggregateOne env c k (n, st) = Inr (n', st')"
  obtains q where "kv_get (Query st) k = Some q" and "kv_get (AggregateValue st) (qmId q) \<noteq> None"
    and "Query st' = kv_del k (Query st)" and "AggregateValue st' = kv_del (qmId q) (AggregateValue st)"
    and "Cyclelist st' = Cyclelist st" and "CyclelistSequencer st' = CyclelistSequencer st"
proof -
  obtain q agg s1 s2 s3 s4 where q: "kv_get (Query st) k = Some q"
    and a: "AggregateReport c (qmId q) (qmQueryData q) st = Inr (agg, s1)"
    and t: "trackAggregate env q agg (IncrementTotalAggregates s1) = Inr s2"
    and d: "(if qmAmount q = 0 then Inr (n, s2)
         else bindR (DistributeTip env c agg (dec_of (qmAmount q)) s2) (\<lambda>st. Inr (n + qmAmount q, st))) = Inr (n', s3)"
    and r: "removeQuery (fst k) (snd k) s3 = Inr s4" and st': "st' = cleanupAggregationData (qmId q) s4"
    using assms by (auto simp: aggregateOne_def split: prod.splits)
  have "same_cycle s1 s2" using trackAggregate_same [OF t] by (simp add: same_cycle_def IncrementTotalAggregates_def)
  moreover have "same_cycle s2 s3 \<and> Query s3 = Query s2" using d DistributeTip_same
    by (fastforce simp: same_cycle_def split: if_splits)
  moreover have "Query s2 = Query st" using trackAggregate_frame [OF t] AggregateReport_frame [OF a] by simp
  ultimately have "same_cycle st s3" "Query s3 = Query st"
    using AggregateReport_same [OF a] by (auto intro: same_cycle_trans)
  moreover have "kv_get (AggregateValue st) (qmId q) \<noteq> None" using a by (auto simp: AggregateReport_def)
  ultimately show thesis using that [OF q] r
    by (auto simp: st' cleanupAggregationData_def removeQuery_def same_cycle_def Let_def)
qed

section \<open>A query without its aggregate\<close>

lemma missing_aggregate_stops:
  assumes "k \<in> set ks" and "distinct ks" and "kv_get (Query st) k = Some q" and "kv_get (AggregateValue st) (qmId q) = None"
  shows "\<exists>e. foldR (aggregateOne env c) ks (n, st) = Inl e"
  using assms
proof (induction ks arbitrary: n st)
  case Nil
  then show ?case by simp
next
  case (Cons k' ks)
  show ?case
  proof (cases "aggregateOne env c k' (n, st)")
    case (Inl e)
    then show ?thesis by simp
  next
    case (Inr r)
    obtain n' st' where r: "r = (n', st')" by (cases r)
    obtain q' where q': "kv_get (Query st) k' = Some q'" "kv_get (AggregateValue st) (qmId q') \<noteq> None"
      "Query st' = kv_del k' (Query st)" "AggregateValue st' = kv_del (qmId q') (AggregateValue st)"
      by (rule aggregateOne_writes [OF Inr [unfolded r]])
    have "k' \<noteq> k" using q'(1,2) Cons.prems(3,4) by auto
    then have "\<exists>e. foldR (aggregateOne env c) ks (n', st') = Inl e"
      using Cons.prems q'(3,4) by (intro Cons.IH) auto
    then show ?thesis using Inr r by simp
  qed
qed

lemma expiredKeys_mem:
  assumes "kv_ok (Query st)"
  shows "k \<in> set (expiredKeys st h) \<longleftrightarrow>
    (\<exists>q. kv_get (Query st) k = Some q \<and> HasRevealedReports q \<and> qmExpiration q \<le> h)"
proof -
  have "set (expiredKeys st h) = fst ` {e \<in> set (Query st). HasRevealedReports (snd e) \<and> qmExpiration (snd e) \<le> h}"
    by (simp add: expiredKeys_def image_image case_prod_beta)
  then show ?thesis by (auto simp: kv_get_mem [OF assms] image_iff) force
qed

lemma expiredKeys_distinct:
  assumes "kv_ok (Query st)"
  shows "distinct (expiredKeys st h)"
proof -
  let ?xs = "map (\<lambda>(k, q). (qmExpiration q, k)) (filter (\<lambda>(k, q). HasRevealedReports q \<and> qmExpiration q \<le> h) (Query st))"
  have "distinct (map fst (Query st))" by (rule kv_ok_distinct [OF assms])
  then have "distinct (map snd ?xs)" by (induction "Query st" arbitrary: st) (auto simp: distinct_map_filter o_def case_prod_beta)
  then show ?thesis unfolding expiredKeys_def
    by (simp only: distinct_map distinct_rev distinct_sort set_rev set_sort)
qed

lemma unaggregated_halts:
  assumes "kv_ok (Query st)" and "kv_get (Query st) k = Some q" and "HasRevealedReports q"
    and "qmExpiration q \<le> heightOf c" and "kv_get (AggregateValue st) (qmId q) = None"
  shows "\<exists>e. oracleEndBlocker env c st = Inl e"
proof -
  have "k \<in> set (expiredKeys st (heightOf c))" using assms by (auto simp: expiredKeys_mem)
  then obtain e where "foldR (aggregateOne env c) (expiredKeys st (heightOf c)) (0, st) = Inl e"
    using missing_aggregate_stops [OF _ expiredKeys_distinct [OF assms(1)] assms(2,5)] by blast
  then show ?thesis by (simp add: oracleEndBlocker_def SetAggregatedReport_def)
qed

text \<open>
  A report that passes the checks of \<^verbatim>\<open>SetValue\<close> but is too long for the median. \<^verbatim>\<open>ValidateValue\<close>
  accepts what the ABI codec can decode, \<^verbatim>\<open>FormatUint256\<close> at most 64 hexadecimal digits.
\<close>

definition too_long_report :: "'w oracle_env \<Rightarrow> 'w oracle_state \<Rightarrow> addr \<Rightarrow> query_meta \<Rightarrow> bytes \<Rightarrow> string \<Rightarrow> bool" where
  "too_long_report env st a q d v \<longleftrightarrow> \<not> kv_has (Reports st) (queryIdOf env d, a, qmId q)
     \<and> (case DecodeQueryType (oeUnpack env) d of
          Inl _ \<Rightarrow> False
        | Inr (queryType, _) \<Rightarrow>
            (case GetDataSpec env st queryType of
               Inl _ \<Rightarrow> False
             | Inr spec \<Rightarrow> AggregationMethod spec = WeightedMedian \<and> ValidateValue (oeUnpack env) spec v = Inr ()))
     \<and> (case FormatUint256 v of Inl _ \<Rightarrow> True | Inr _ \<Rightarrow> False)"

lemma SetValue_too_long:
  assumes "too_long_report env st a q d v"
  shows "SetValue env c a q v d p b st =
    (Some (Err ''failed to add report''), setQuery (queryIdOf env d) (q\<lparr>HasRevealedReports := True\<rparr>) st)"
  using assms by (auto simp: too_long_report_def SetValue_def storeReport_def microReportOf_def AddReport_def wrapR_def Let_def
      split: sum.splits)

text \<open>
  C39: a failed report of a batch can stop the chain. When a reporter submits, in a batch, a
  value that decodes but has more than 32 bytes for an open weighted-median query nobody has
  reported on yet, the report is listed as failed, but the query stays marked as having
  reports. Unless another report for it arrives, the end of the first block at which the
  query expires fails, and of every later one.
\<close>

theorem batch_failure_halts:
  assumes "kv_ok (Query st)" and "CurrentQuery st (queryIdOf env d) = Some q"
    and "kv_get (AggregateValue st) (qmId q) = None"
    and "PreventBridgeWithdrawalReport env st d = Inr False" and "d \<noteq> []"
    and "hexDecode (regRemove0xPrefix v) = Inr bs" and "too_long_report env st a q d (hexEncode bs)"
    and "qmAmount q \<noteq> 0 \<or> qmCycleList q" and "heightOf c \<le> qmExpiration q"
  shows "\<exists>st'. batchOne env c a ds stake p (d, v) st = Inr (False, st')
    \<and> (\<forall>c'. qmExpiration q \<le> heightOf c' \<longrightarrow> (\<exists>e. oracleEndBlocker env c' st' = Inl e))"
proof -
  let ?q = "q\<lparr>HasRevealedReports := True\<rparr>" and ?k = "queryIdOf env d"
  have ne: "hexEncode bs \<noteq> []"
  proof
    assume "hexEncode bs = []"
    then have "FormatUint256 (hexEncode bs) = Inr (replicate 64 (CHR ''0''))"
      by (simp add: FormatUint256_def Let_def has0xPrefix_def pad64_eq)
    then show False using assms(7) by (simp add: too_long_report_def)
  qed
  have "batchOne env c a ds stake p (d, v) st = Inr (False, setQuery ?k ?q st)"
    using assms ne by (auto simp: batchOne_def Let_def DirectReveal_def SetValue_too_long)
  moreover have "\<exists>e. oracleEndBlocker env c' (setQuery ?k ?q st) = Inl e" if "qmExpiration q \<le> heightOf c'" for c'
  proof (rule unaggregated_halts)
    show "kv_ok (Query (setQuery ?k ?q st))" using assms(1) by (simp add: setQuery_def)
    show "kv_get (Query (setQuery ?k ?q st)) (?k, qmId q) = Some ?q" by (simp add: setQuery_def)
    show "kv_get (AggregateValue (setQuery ?k ?q st)) (qmId ?q) = None" using assms(3) by (simp add: setQuery_def)
  qed (use that in simp_all)
  ultimately show ?thesis by blast
qed

text \<open>The tipped query of the example, reported with 33 bytes.\<close>

definition ex_long_value :: string where
  "ex_long_value = replicate 66 (CHR ''0'')"

theorem batch_failure_halts_witness:
  "\<exists>st'. batchOne ex_orc_env (ex_block 6) ''bob'' [] 5000000 5 (''atom'', ex_long_value) ex_tipped = Inr (False, st')
    \<and> (\<exists>e. oracleEndBlocker ex_orc_env (ex_block 100) st' = Inl e)"
proof -
  obtain q where q: "CurrentQuery ex_tipped (queryIdOf ex_orc_env ''atom'') = Some q"
    and e: "qmExpiration q = 7" "qmAmount q = 49000" "qmId q = 0"
  proof -
    have "map_option (\<lambda>q. (qmExpiration q, qmAmount q, qmId q)) (CurrentQuery ex_tipped (queryIdOf ex_orc_env ''atom''))
      = Some (7, 49000, 0)" by code_simp
    then show thesis using that by auto
  qed
  have "hexDecode (regRemove0xPrefix ex_long_value) = Inr (replicate 33 (CHR 0x00))" by code_simp
  moreover have "too_long_report ex_orc_env ex_tipped ''bob'' q ''atom'' (hexEncode (replicate 33 (CHR 0x00)))"
    unfolding too_long_report_def e(3) by code_simp
  moreover have "kv_get (AggregateValue ex_tipped) 0 = None" by code_simp
  moreover have "PreventBridgeWithdrawalReport ex_orc_env ex_tipped ''atom'' = Inr False" by code_simp
  moreover have "kv_ok (Query ex_tipped)" by code_simp
  moreover have "heightOf (ex_block 6) \<le> (7 :: u64)" "(7 :: u64) \<le> heightOf (ex_block 100)" by code_simp+
  ultimately show ?thesis
    using batch_failure_halts [OF _ q, of ex_long_value "replicate 33 (CHR 0x00)" "''bob''" "ex_block 6" "[]" 5000000 5] e by auto
qed

section \<open>The cycle list\<close>

lemma SetAggregatedReport_cycle:
  assumes "SetAggregatedReport env c st = Inr st'"
  shows "Cyclelist st' = Cyclelist st \<and> CyclelistSequencer st' = CyclelistSequencer st"
proof -
  obtain n s where f: "foldR (aggregateOne env c) (expiredKeys st (heightOf c)) (0, st) = Inr (n, s)"
    and st': "st' = s \<or> (\<exists>w. st' = s\<lparr>orcWorld := w\<rparr>)"
    using assms by (auto simp: SetAggregatedReport_def split: if_splits)
  have "Cyclelist (snd (n, s)) = Cyclelist st \<and> CyclelistSequencer (snd (n, s)) = CyclelistSequencer st"
    by (rule foldR_invariant [OF f]) (auto elim!: aggregateOne_writes)
  then show ?thesis using st' by auto
qed

lemma AutoClaimDeposits_cycle:
  "AutoClaimDeposits env c st = Inr st' \<Longrightarrow> Cyclelist st' = Cyclelist st \<and> CyclelistSequencer st' = CyclelistSequencer st"
  by (auto simp: AutoClaimDeposits_def Let_def case_prod_beta split: option.splits if_splits)

lemma rotation_out_of_range:
  assumes "length (Cyclelist st) \<le> unat (CyclelistSequencer st)"
  shows "\<exists>e. oracleEndBlocker env c st = Inl e"
proof -
  have "RotateQueries env c s = Inl ErrPanic"
    if "Cyclelist s = Cyclelist st" "CyclelistSequencer s = CyclelistSequencer st" for s
    using assms that by (simp add: RotateQueries_def GetCurrentQueryInCycleList_def GetCyclelist_def indexR_def)
  then show ?thesis
    by (cases "SetAggregatedReport env c st")
      (auto simp: oracleEndBlocker_def bindR_def split: sum.splits
        dest!: SetAggregatedReport_cycle AutoClaimDeposits_cycle)
qed

text \<open>The list an update leaves has at most as many entries as the message.\<close>

lemma UpdateCyclelist_writes:
  assumes "UpdateCyclelist env a l st = Inr st'"
  shows "length (Cyclelist st') \<le> length l" and "CyclelistSequencer st' = CyclelistSequencer st"
proof -
  have len: "length (kv_set k v m) \<le> Suc (length m)" for k :: bytes and v :: bytes and m
    by (induction k v m rule: kv_set.induct) auto
  have "length (fold (\<lambda>d. kv_set (queryIdOf env d) d) l m) \<le> length l + length m" for m
  proof (induction l arbitrary: m)
    case (Cons d l)
    then show ?case using len [of "queryIdOf env d" d m] by (fastforce intro: le_trans)
  qed simp
  from this [of "[]"] show "length (Cyclelist st') \<le> length l"
    using assms by (auto simp: UpdateCyclelist_def InitCycleListQuery_def)
  show "CyclelistSequencer st' = CyclelistSequencer st"
    using assms by (auto simp: UpdateCyclelist_def InitCycleListQuery_def)
qed

text \<open>
  A shorter cycle list can stop the chain. When governance replaces the cycle list by one
  with no more entries than the position the rotation has reached, the rotation indexes the
  new list out of range: the end of every following block fails, before the reset of the
  position that \<^verbatim>\<open>RotateQueries\<close> foresees for an updated list.
\<close>

theorem shorter_cyclelist_halts:
  assumes "UpdateCyclelist env a l st = Inr st'" and "length l \<le> unat (CyclelistSequencer st)"
  shows "\<exists>e. oracleEndBlocker env c st' = Inl e"
  using UpdateCyclelist_writes [OF assms(1)] assms(2) by (intro rotation_out_of_range) simp

definition ex_short_list :: "bytes list" where
  "ex_short_list = [replicate 32 (CHR ''b''), replicate 32 (CHR ''e'')]"

theorem shorter_cyclelist_halts_witness:
  "\<exists>st' e. UpdateCyclelist ex_orc_env ''gov'' ex_short_list (ex_orc\<lparr>CyclelistSequencer := 2\<rparr>) = Inr st'
    \<and> oracleEndBlocker ex_orc_env (ex_block 9) st' = Inl e"
proof -
  have "case UpdateCyclelist ex_orc_env ''gov'' ex_short_list (ex_orc\<lparr>CyclelistSequencer := 2\<rparr>) of
      Inr _ \<Rightarrow> True | Inl _ \<Rightarrow> False" by code_simp
  then obtain st' where "UpdateCyclelist ex_orc_env ''gov'' ex_short_list (ex_orc\<lparr>CyclelistSequencer := 2\<rparr>) = Inr st'"
    by (auto split: sum.splits)
  then show ?thesis using shorter_cyclelist_halts [of ex_orc_env "''gov''" "ex_short_list"
      "ex_orc\<lparr>CyclelistSequencer := 2\<rparr>" st' "ex_block 9"] by (simp add: ex_short_list_def)
qed

end
