(* ===== verification/OracleFrames.thy ===== *)
theory OracleFrames
  imports OracleHalts
begin

text \<open>
  What the operations of the oracle leave alone. A view of the state that reads none of the
  fields an operation writes is not changed by it: the locale \<open>oracle_view\<close> states this for
  views that read only the reports and the totals of tips, its extensions for views that
  also ignore one of these. The views the later theories need are interpretations.
\<close>

locale oracle_view =
  fixes view :: "'w oracle_state \<Rightarrow> 'b"
  assumes upd [simp]: "view (st\<lparr>orcParams := x1\<rparr>) = view st" "view (st\<lparr>MaxBatchSize := x2\<rparr>) = view st"
    "view (st\<lparr>CyclelistSequencer := x3\<rparr>) = view st" "view (st\<lparr>Nonces := x4\<rparr>) = view st"
    "view (st\<lparr>QuerySequencer := x5\<rparr>) = view st" "view (st\<lparr>Query := x6\<rparr>) = view st"
    "view (st\<lparr>Aggregates := x7\<rparr>) = view st" "view (st\<lparr>Cyclelist := x8\<rparr>) = view st"
    "view (st\<lparr>QueryDataLimit := x9\<rparr>) = view st" "view (st\<lparr>Values := x10\<rparr>) = view st"
    "view (st\<lparr>AggregateValue := x11\<rparr>) = view st" "view (st\<lparr>ValuesWeightSum := x12\<rparr>) = view st"
    "view (st\<lparr>BridgeDepositQueue := x13\<rparr>) = view st" "view (st\<lparr>CycleCount := x14\<rparr>) = view st"
    "view (st\<lparr>livenessDust := x15\<rparr>) = view st" "view (st\<lparr>QueryOpportunities := x16\<rparr>) = view st"
    "view (st\<lparr>ReporterQueryShareSum := x17\<rparr>) = view st" "view (st\<lparr>ReporterStandardShareSum := x18\<rparr>) = view st"
    "view (st\<lparr>NonStandardQueries := x19\<rparr>) = view st" "view (st\<lparr>StandardOpportunities := x20\<rparr>) = view st"
    "view (st\<lparr>TotalAggregatesCount := x21\<rparr>) = view st" "view (st\<lparr>ReporterAggregatesCount := x22\<rparr>) = view st"
    "view (st\<lparr>ReporterLastReportTime := x23\<rparr>) = view st" "view (st\<lparr>orcWorld := x24\<rparr>) = view st"
begin

lemma plain_view [simp]:
  "view (setQuery k q st) = view st" "view (snd (nextQueryId st)) = view st"
  "view (IncrementQueryOpportunities k st) = view st" "view (DemoteQueryToNonStandard k st) = view st"
  "view (IncrementStandardOpportunities st) = view st" "view (IncrementTotalAggregates st) = view st"
  "view (ResetLivenessData st) = view st" "view (TrackReporterParticipation a st) = view st"
  "view (SetReporterLastReportTime a t st) = view st" "view (cleanupAggregationData i st) = view st"
  "view (setAggregateValue i v w st) = view st"
  by (simp_all add: setQuery_def nextQueryId_def IncrementQueryOpportunities_def DemoteQueryToNonStandard_def
      IncrementStandardOpportunities_def IncrementTotalAggregates_def ResetLivenessData_def
      TrackReporterParticipation_def SetReporterLastReportTime_def cleanupAggregationData_def setAggregateValue_def Let_def)

lemma removeQuery_view: "removeQuery k i st = Inr st' \<Longrightarrow> view st' = view st"
  by (auto simp: removeQuery_def)

lemma InitializeQuery_view: "InitializeQuery env d st = Inr (q, st') \<Longrightarrow> view st' = view st"
  by (auto simp: InitializeQuery_def nextQueryId_def)

lemma addWeight_view: "addWeight i v r st = (e, t, st') \<Longrightarrow> view st' = view st"
  by (auto simp: addWeight_def Let_def)

lemma traverse_view [simp]: "view (TraverseLeft i m w h st) = view st" "view (TraverseRight i m w h st) = view st"
  by (simp_all add: TraverseLeft_def TraverseRight_def split: prod.split)

lemma AddReport_view:
  assumes "AddReport i r st = Inr st'"
  shows "view st' = view st"
proof -
  obtain v where "FormatUint256 (mrValue r) = Inr v" using assms by (auto simp: AddReport_def)
  moreover obtain e t s where "addWeight i v r st = (e, t, s)" by (metis prod_cases3)
  ultimately show ?thesis using assms addWeight_view [of i v r st e t s]
    by (auto simp: AddReport_def Let_def split: option.splits if_splits)
qed

lemma AddReportWeightedMode_view:
  assumes "AddReportWeightedMode i r st = Inr st'"
  shows "view st' = view st"
proof -
  obtain e t s where "addWeight i (mrValue r) r st = (e, t, s)" by (metis prod_cases3)
  then show ?thesis using assms addWeight_view [of i "mrValue r" r st e t s]
    by (auto simp: AddReportWeightedMode_def Let_def split: option.splits if_splits)
qed

section \<open>Aggregation and rewards\<close>

lemma SetAggregate_view: "SetAggregate c r d t st = (agg, st') \<Longrightarrow> view st' = view st"
  by (auto simp: SetAggregate_def Let_def)

lemma AggregateReport_view: "AggregateReport c i d st = Inr (agg, st') \<Longrightarrow> view st' = view st"
  by (auto simp: AggregateReport_def split: option.splits dest: SetAggregate_view)

lemma TrackLiveness_view:
  "TrackLivenessForAggregateWithQueryId env agg q st = Inr st' \<Longrightarrow> view st' = view st"
  unfolding TrackLivenessForAggregateWithQueryId_def Let_def
  by (erule foldR_invariant)
    (auto simp: UpdateReporterLiveness_def AddReporterQueryShareSum_def Let_def split: if_splits)

lemma trackAggregate_view: "trackAggregate env q agg st = Inr st' \<Longrightarrow> view st' = view st"
  by (auto simp: trackAggregate_def TrackLivenessForAggregate_def TrackLivenessForTRBBridge_def
      split: if_splits dest!: TrackLiveness_view)

lemma DistributeTip_view: "DistributeTip env c agg r st = Inr st' \<Longrightarrow> view st' = view st"
  unfolding DistributeTip_def by (erule foldR_invariant) auto

lemma aggregateOne_view:
  assumes "aggregateOne env c k s = Inr s'"
  shows "view (snd s') = view (snd s)"
proof -
  obtain n st n' st' where s: "s = (n, st)" "s' = (n', st')" by (cases s, cases s')
  obtain q agg s1 s2 s3 s4 where a: "AggregateReport c (qmId q) (qmQueryData q) st = Inr (agg, s1)"
    and t: "trackAggregate env q agg (IncrementTotalAggregates s1) = Inr s2"
    and d: "(if qmAmount q = 0 then Inr (n, s2)
         else bindR (DistributeTip env c agg (dec_of (qmAmount q)) s2) (\<lambda>st. Inr (n + qmAmount q, st))) = Inr (n', s3)"
    and r: "removeQuery (fst k) (snd k) s3 = Inr s4" and st': "st' = cleanupAggregationData (qmId q) s4"
    using assms by (auto simp: s aggregateOne_def split: prod.splits)
  have "view s3 = view s2" using d DistributeTip_view by (fastforce split: if_splits)
  then show ?thesis using AggregateReport_view [OF a] trackAggregate_view [OF t] removeQuery_view [OF r]
    by (simp add: s st')
qed

lemma SetAggregatedReport_view:
  assumes "SetAggregatedReport env c st = Inr st'"
  shows "view st' = view st"
proof -
  obtain n s where f: "foldR (aggregateOne env c) (expiredKeys st (heightOf c)) (0, st) = Inr (n, s)"
    and st': "st' = s \<or> (\<exists>w. st' = s\<lparr>orcWorld := w\<rparr>)"
    using assms by (auto simp: SetAggregatedReport_def split: if_splits)
  have "view (snd (n, s)) = view st"
    by (rule foldR_invariant [where I = "\<lambda>s. view (snd s) = view st", OF f]) (auto dest!: aggregateOne_view)
  then show ?thesis using st' by auto
qed

lemma AutoClaimDeposits_view: "AutoClaimDeposits env c st = Inr st' \<Longrightarrow> view st' = view st"
  by (auto simp: AutoClaimDeposits_def Let_def case_prod_beta split: option.splits if_splits)

lemma settleRewards_view:
  assumes "settleRewards env c n t m st = Inr st'"
  shows "view st' = view st"
proof -
  obtain d s where f: "foldR (payReward env c) (oeMapOrder env m) (0, st) = Inr (d, s)" and "view st' = view s"
    using assms by (auto simp: settleRewards_def Let_def)
  moreover have "view (snd (d, s)) = view st"
    by (rule foldR_invariant [where I = "\<lambda>s. view (snd s) = view st", OF f])
      (auto simp: payReward_def AllocateTBR_def split: if_splits)
  ultimately show ?thesis by simp
qed

lemma DistributeLivenessRewards_view: "DistributeLivenessRewards env c st = Inr st' \<Longrightarrow> view st' = view st"
  by (auto simp: DistributeLivenessRewards_def Let_def split: if_splits dest: settleRewards_view)

lemma CheckAndDistribute_view: "CheckAndDistributeLivenessRewards env c st = Inr st' \<Longrightarrow> view st' = view st"
  by (auto simp: CheckAndDistributeLivenessRewards_def Let_def split: if_splits dest!: DistributeLivenessRewards_view)

lemma openCycleQuery_view: "openCycleQuery env c d st = Inr st' \<Longrightarrow> view st' = view st"
  by (auto simp: openCycleQuery_def nextQueryId_def Let_def split: option.splits if_splits
      dest!: InitializeQuery_view removeQuery_view)

lemma RotateQueries_view: "RotateQueries env c st = Inr st' \<Longrightarrow> view st' = view st"
  by (auto simp: RotateQueries_def advanceCycle_def Let_def split: if_splits dest!: openCycleQuery_view CheckAndDistribute_view)

section \<open>Messages\<close>

lemma UpdateQuery_view [simp]: "view (UpdateQuery env t w st) = view st"
proof -
  have "view (fold (\<lambda>q s. setQuery (queryIdOf env (qmQueryData q)) (q\<lparr>RegistrySpecBlockWindow := w\<rparr>) s) qs s) = view s" for qs s
    by (induction qs arbitrary: s) simp_all
  then show ?thesis by (simp add: UpdateQuery_def)
qed

lemma governance_view:
  "UpdateCyclelist env a l st = Inr st' \<Longrightarrow> view st' = view st"
  "oracleUpdateParams env a p st = Inr st' \<Longrightarrow> view st' = view st"
  "UpdateQueryDataLimit env a x st = Inr st' \<Longrightarrow> view st' = view st"
  "UpdateMaxBatchSize env a m st = Inr st' \<Longrightarrow> view st' = view st"
  "oracleAfterDataSpecUpdated env t d st = Inr st' \<Longrightarrow> view st' = view st"
  by (auto simp: UpdateCyclelist_def InitCycleListQuery_def oracleUpdateParams_def oracleSetParams_def
      UpdateQueryDataLimit_def UpdateMaxBatchSize_def oracleAfterDataSpecUpdated_def)

lemma FlagAggregateReport_view: "FlagAggregateReport env r st = Inr st' \<Longrightarrow> view st' = view st"
  by (auto simp: FlagAggregateReport_def split: sum.splits option.splits)

lemma tippedQuery_view: "tippedQuery env c d st = Inr (q, st') \<Longrightarrow> view st' = view st"
  by (auto simp: tippedQuery_def split: option.splits dest: InitializeQuery_view)

lemma reopenQuery_view: "reopenQuery c k q st = Inr (q', st') \<Longrightarrow> view st' = view st"
  by (auto simp: reopenQuery_def nextQueryId_def Let_def split: if_splits dest!: removeQuery_view)

lemma renewDeposit_view: "renewDeposit c q st = (q', st') \<Longrightarrow> view st' = view st"
  by (auto simp: renewDeposit_def nextQueryId_def Let_def split: if_splits)

lemma TokenBridgeDepositQuery_view: "TokenBridgeDepositQuery c d st = (q, st') \<Longrightarrow> view st' = view st"
  by (auto simp: TokenBridgeDepositQuery_def nextQueryId_def)

end

section \<open>Views that ignore the reports\<close>

locale oracle_view_no_reports = oracle_view +
  assumes upd_reports [simp]: "view (st\<lparr>Reports := x\<rparr>) = view st"
begin

lemma storeReport_view: "storeReport c a q k r st = (e, st') \<Longrightarrow> view st' = view st"
  by (auto simp: storeReport_def Let_def split: sum.splits if_splits dest!: AddReport_view AddReportWeightedMode_view)

lemma SetValue_view: "SetValue env c a q v d p b st = (e, st') \<Longrightarrow> view st' = view st"
  by (auto simp: SetValue_def Let_def split: sum.splits dest: storeReport_view)

lemma HandleBridgeDeposit_view:
  assumes "HandleBridgeDepositDirectReveal env c q d a v p st = (e, st')"
  shows "view st' = view st"
proof -
  obtain q1 s1 where r: "renewDeposit c q st = (q1, s1)" by (metis surj_pair)
  then show ?thesis using assms renewDeposit_view [OF r]
    by (auto simp: HandleBridgeDepositDirectReveal_def split: if_splits sum.splits dest: SetValue_view)
qed

lemma DirectReveal_view: "DirectReveal env c q d v a p b st = (e, st') \<Longrightarrow> view st' = view st"
  by (auto simp: DirectReveal_def split: if_splits dest: HandleBridgeDeposit_view SetValue_view)

lemma revealTo_view: "revealTo env c d v a p b st = Inr st' \<Longrightarrow> view st' = view st"
  by (auto simp: revealTo_def Let_def split: option.splits if_splits prod.splits
      dest!: DirectReveal_view HandleBridgeDeposit_view TokenBridgeDepositQuery_view)

lemma SubmitValue_view: "SubmitValue env c msg st = Inr st' \<Longrightarrow> view st' = view st"
  by (auto simp: SubmitValue_def Let_def dest!: revealTo_view)

lemma batchOne_view:
  assumes "batchOne env c a ds stake p x st = Inr (ok, st')"
  shows "view st' = view st"
proof -
  obtain q1 s1 where b: "TokenBridgeDepositQuery c (fst x) st = (q1, s1)" by (metis surj_pair)
  show ?thesis using assms TokenBridgeDepositQuery_view [OF b] b
    by (auto simp: batchOne_def Let_def split: sum.splits error.splits option.splits if_splits prod.splits
        dest!: DirectReveal_view HandleBridgeDeposit_view)
qed

lemma batchLoop_view: "batchLoop env c a ds stake p i xs st = Inr (f, st') \<Longrightarrow> view st' = view st"
  by (induction xs arbitrary: i st f) (auto dest!: batchOne_view)

lemma BatchSubmitValue_view: "BatchSubmitValue env c a vs st = Inr (f, st') \<Longrightarrow> view st' = view st"
  by (auto simp: BatchSubmitValue_def Let_def split: if_splits dest!: batchLoop_view)

lemma RemoveOldReports_view: "RemoveOldReports c st = Inr st' \<Longrightarrow> view st' = view st"
  unfolding RemoveOldReports_def Let_def by (erule foldR_invariant) auto

lemma oracleEndBlocker_view: "oracleEndBlocker env c st = Inr st' \<Longrightarrow> view st' = view st"
  by (auto simp: oracleEndBlocker_def dest!: SetAggregatedReport_view AutoClaimDeposits_view RotateQueries_view RemoveOldReports_view)

end

section \<open>Views that ignore the totals of tips\<close>

locale oracle_view_no_tips = oracle_view +
  assumes upd_tips [simp]: "view (st\<lparr>TipperTotal := x\<rparr>) = view st" "view (st\<lparr>TotalTips := y\<rparr>) = view st"
begin

lemma Tip_view:
  assumes "Tip env c msg st = Inr st'"
  shows "view st' = view st"
proof -
  obtain tipper q s t w q' s' where tq: "tippedQuery env c (mtQueryData msg) st = Inr (q, s)"
    and re: "(if qmExpiration q < heightOf c
          then reopenQuery c (queryIdOf env (mtQueryData msg)) (q\<lparr>qmAmount := qmAmount q + t\<rparr>) (s\<lparr>orcWorld := w\<rparr>)
          else Inr (q\<lparr>qmAmount := qmAmount q + t\<rparr>, s\<lparr>orcWorld := w\<rparr>)) = Inr (q', s')"
    and st': "st' = AddtoTotalTips c t (AddToTipperTotal c tipper t (setQuery (queryIdOf env (mtQueryData msg)) q' s'))"
    by (rule Tip_cases [OF assms])
  have "view s' = view s" using re by (auto split: if_splits dest!: reopenQuery_view)
  then show ?thesis using tippedQuery_view [OF tq] by (simp add: st' AddtoTotalTips_def AddToTipperTotal_def)
qed

end

interpretation tip_totals: oracle_view_no_reports "\<lambda>st. (TipperTotal st, TotalTips st)"
  by unfold_locales simp_all

interpretation stored_reports: oracle_view_no_tips Reports
  by unfold_locales simp_all

end
