(* ===== verification/OracleLedger.thy ===== *)
theory OracleLedger
  imports OracleFrames
begin

text \<open>
  The totals of tips as a ledger. The oracle stores running totals, one per block at which a
  tip happened; the dispute module reads them at the block of a dispute to weigh votes. The
  abstract specification is the log of all tips: a total at a block is the sum of the
  logged tips up to it.
\<close>

section \<open>The log\<close>

type_synonym tip_log = "(addr \<times> u64 \<times> int) list"

definition tipsOfBy :: "tip_log \<Rightarrow> addr \<Rightarrow> u64 \<Rightarrow> int" where
  "tipsOfBy log a b = sum_list (map (\<lambda>(x, h, n). if x = a \<and> h \<le> b then n else 0) log)"

definition tipsBy :: "tip_log \<Rightarrow> u64 \<Rightarrow> int" where
  "tipsBy log b = sum_list (map (\<lambda>(x, h, n). if h \<le> b then n else 0) log)"

lemma log_append [simp]:
  "tipsOfBy (log @ [(x, h, n)]) a b = tipsOfBy log a b + (if x = a \<and> h \<le> b then n else 0)"
  "tipsBy (log @ [(x, h, n)]) b = tipsBy log b + (if h \<le> b then n else 0)"
  by (simp_all add: tipsOfBy_def tipsBy_def)

lemma log_late:
  assumes "\<forall>e \<in> set log. fst (snd e) \<le> h" and "h \<le> b"
  shows "tipsOfBy log a b = tipsOfBy log a h" and "tipsBy log b = tipsBy log h"
  using assms by (induction log) (auto simp: tipsOfBy_def tipsBy_def)

lemma tipsBy_split:
  assumes "fst ` set log \<subseteq> A" and "finite A"
  shows "(\<Sum>a \<in> A. tipsOfBy log a b) = tipsBy log b"
  using assms
proof (induction log)
  case Nil
  then show ?case by (simp add: tipsOfBy_def tipsBy_def)
next
  case (Cons e log)
  obtain x h n where e: "e = (x, h, n)" by (cases e)
  have "(\<Sum>a \<in> A. if x = a \<and> h \<le> b then n else 0) = (if h \<le> b then n else 0)"
    using Cons.prems e by (cases "h \<le> b") (auto simp: sum.delta)
  moreover have "tipsOfBy (e # log) a b = (if x = a \<and> h \<le> b then n else 0) + tipsOfBy log a b" for a
    by (simp add: tipsOfBy_def e)
  moreover have "tipsBy (e # log) b = (if h \<le> b then n else 0) + tipsBy log b" by (simp add: tipsBy_def e)
  ultimately show ?case using Cons by (simp add: sum.distrib)
qed

section \<open>Traces\<close>

text \<open>Histories of the oracle with the log of their tips; the heights of tips do not
  decrease.\<close>

inductive tip_trace :: "'w oracle_env \<Rightarrow> u64 \<Rightarrow> tip_log \<Rightarrow> 'w oracle_state \<Rightarrow> bool" for env where
  genesis: "oracleInitGenesis env gs (emptyOracle w) = Inr st \<Longrightarrow> tip_trace env 0 [] st"
| tip: "tip_trace env h log st \<Longrightarrow> h \<le> heightOf c \<Longrightarrow> Tip env c msg st = Inr st'
    \<Longrightarrow> oeAccAddressFromBech32 env (mtTipper msg) = Inr tipper
    \<Longrightarrow> tip_trace env (heightOf c) (log @ [(tipper, heightOf c, mtAmount msg - mtAmount msg * 2 div 100)]) st'"
| quiet: "tip_trace env h log st \<Longrightarrow> quiet_step env st st' \<Longrightarrow> tip_trace env h log st'"

lemma quiet_step_totals:
  assumes "quiet_step env st st'"
  shows "TipperTotal st' = TipperTotal st \<and> TotalTips st' = TotalTips st"
  using assms
  by (cases rule: quiet_step.cases) (auto dest!: tip_totals.SubmitValue_view tip_totals.BatchSubmitValue_view
      tip_totals.oracleEndBlocker_view tip_totals.governance_view tip_totals.FlagAggregateReport_view)

lemma Tip_totals:
  assumes "Tip env c msg st = Inr st'" and "oeAccAddressFromBech32 env (mtTipper msg) = Inr tipper"
  shows "TipperTotal st' = kv_set (tipper, heightOf c)
      (GetUserTips c st tipper + (mtAmount msg - mtAmount msg * 2 div 100)) (TipperTotal st)"
    and "TotalTips st' = kv_set (heightOf c) (GetTotalTips c st + (mtAmount msg - mtAmount msg * 2 div 100)) (TotalTips st)"
proof -
  obtain tipper' q s t w q' s' where v: "validateTip env msg = Inr tipper'"
    and tq: "tippedQuery env c (mtQueryData msg) st = Inr (q, s)"
    and tr: "transfer env tipper' (mtAmount msg) (orcWorld s) = Inr (t, w)"
    and re: "(if qmExpiration q < heightOf c
          then reopenQuery c (queryIdOf env (mtQueryData msg)) (q\<lparr>qmAmount := qmAmount q + t\<rparr>) (s\<lparr>orcWorld := w\<rparr>)
          else Inr (q\<lparr>qmAmount := qmAmount q + t\<rparr>, s\<lparr>orcWorld := w\<rparr>)) = Inr (q', s')"
    and st': "st' = AddtoTotalTips c t (AddToTipperTotal c tipper' t (setQuery (queryIdOf env (mtQueryData msg)) q' s'))"
    by (rule Tip_cases [OF assms(1)])
  have "tipper' = tipper" "0 < mtAmount msg" using v assms(2) by (auto simp: validateTip_def wrapR_def)
  moreover have "t = mtAmount msg - quoT (mtAmount msg * 2) 100" using tr by (auto simp: transfer_def Let_def)
  moreover have "TipperTotal s' = TipperTotal st" "TotalTips s' = TotalTips st"
    using re tip_totals.tippedQuery_view [OF tq] by (auto split: if_splits dest!: tip_totals.reopenQuery_view)
  ultimately show "TipperTotal st' = kv_set (tipper, heightOf c)
      (GetUserTips c st tipper + (mtAmount msg - mtAmount msg * 2 div 100)) (TipperTotal st)"
    "TotalTips st' = kv_set (heightOf c) (GetTotalTips c st + (mtAmount msg - mtAmount msg * 2 div 100)) (TotalTips st)"
    by (simp_all add: st' AddtoTotalTips_def AddToTipperTotal_def setQuery_def GetUserTips_def GetTipsAtBlockForTipper_def
        GetTotalTips_def GetTotalTipsAtBlock_def quoT_nonneg)
qed

section \<open>Running totals\<close>

definition runningAt :: "(u64, int) kv \<Rightarrow> u64 \<Rightarrow> int" where
  "runningAt m b = (case firstOf (rev (filter (\<lambda>e. fst e \<le> b) m)) of None \<Rightarrow> 0 | Some (_, v) \<Rightarrow> v)"

lemma running_totals:
  "GetTipsAtBlockForTipper st b a = runningAt (kv_prefix a (TipperTotal st)) b"
  "GetTotalTipsAtBlock st b = runningAt (TotalTips st) b"
  by (simp_all add: GetTipsAtBlockForTipper_def GetTotalTipsAtBlock_def runningAt_def)

lemma runningAt_set:
  assumes "kv_ok m" and "\<forall>e \<in> set m. fst e \<le> h"
  shows "runningAt (kv_set h v m) b = (if h \<le> b then v else runningAt m b)"
proof (cases "h \<le> b")
  case True
  have "\<forall>k \<in> fst ` set (kv_set h v m). k \<le> h" unfolding keys_kv_set using assms(2) by auto
  then have "filter (\<lambda>e. fst e \<le> b) (kv_set h v m) = filter (\<lambda>e. fst e \<le> h) (kv_set h v m)"
    using True by (intro filter_cong) auto
  then show ?thesis using True kv_set_upto [OF assms(1), of h v] by (simp add: runningAt_def firstOf_def)
next
  case False
  then show ?thesis by (simp add: runningAt_def kv_set_below)
qed

text \<open>The stored totals implement the log: well-formed, nothing later than the last tip, and
  the same sums.\<close>

definition ledger_refines :: "u64 \<Rightarrow> tip_log \<Rightarrow> 'w oracle_state \<Rightarrow> bool" where
  "ledger_refines h log st \<longleftrightarrow> kv_ok (TipperTotal st) \<and> kv_ok (TotalTips st)
     \<and> (\<forall>k \<in> fst ` set (TipperTotal st). snd k \<le> h) \<and> (\<forall>k \<in> fst ` set (TotalTips st). k \<le> h)
     \<and> (\<forall>e \<in> set log. fst (snd e) \<le> h)
     \<and> (\<forall>a b. GetTipsAtBlockForTipper st b a = tipsOfBy log a b) \<and> (\<forall>b. GetTotalTipsAtBlock st b = tipsBy log b)"

lemma Tip_refines:
  assumes "ledger_refines h log st" and "h \<le> heightOf c" and "Tip env c msg st = Inr st'"
    and "oeAccAddressFromBech32 env (mtTipper msg) = Inr tipper"
  shows "ledger_refines (heightOf c) (log @ [(tipper, heightOf c, mtAmount msg - mtAmount msg * 2 div 100)]) st'"
proof -
  let ?h = "heightOf c" and ?t = "mtAmount msg - mtAmount msg * 2 div 100"
  have ok: "kv_ok (TipperTotal st)" "kv_ok (TotalTips st)"
    and le: "\<forall>k \<in> fst ` set (TipperTotal st). snd k \<le> ?h" "\<forall>k \<in> fst ` set (TotalTips st). k \<le> ?h"
      "\<forall>e \<in> set log. fst (snd e) \<le> ?h"
    and sums: "GetTipsAtBlockForTipper st b a = tipsOfBy log a b" "GetTotalTipsAtBlock st b = tipsBy log b" for a b
    using assms(1,2) by (auto simp: ledger_refines_def intro: order_trans)
  note w = Tip_totals [OF assms(3,4)]
  have own: "GetTipsAtBlockForTipper st' b a = tipsOfBy (log @ [(tipper, ?h, ?t)]) a b" for a b
  proof -
    have "\<forall>e \<in> set (kv_prefix a (TipperTotal st)). fst e \<le> ?h" using le(1) by (fastforce simp: kv_prefix_mem)
    then show ?thesis using sums(1) [of b a] log_late(1) [OF le(3), of b a] kv_prefix_ok [OF ok(1)]
      by (auto simp: running_totals w(1) kv_prefix_set [OF ok(1)] runningAt_set GetUserTips_def sums(1) [unfolded running_totals])
  qed
  have all: "GetTotalTipsAtBlock st' b = tipsBy (log @ [(tipper, ?h, ?t)]) b" for b
    using sums(2) [of b] log_late(2) [OF le(3), of b] ok(2) le(2)
    by (auto simp: running_totals w(2) runningAt_set GetTotalTips_def sums(2) [unfolded running_totals])
  show ?thesis unfolding ledger_refines_def
  proof (intro conjI allI)
    show "kv_ok (TipperTotal st')" "kv_ok (TotalTips st')" using ok by (simp_all add: w)
    show "\<forall>k \<in> fst ` set (TipperTotal st'). snd k \<le> ?h" unfolding w(1) keys_kv_set using le(1) by auto
    show "\<forall>k \<in> fst ` set (TotalTips st'). k \<le> ?h" unfolding w(2) keys_kv_set using le(2) by auto
    show "\<forall>e \<in> set (log @ [(tipper, ?h, ?t)]). fst (snd e) \<le> ?h" using le(3) by auto
  qed (rule own all)+
qed

lemma trace_refines: "tip_trace env h log st \<Longrightarrow> ledger_refines h log st"
proof (induction rule: tip_trace.induct)
  case (genesis gs w st)
  then have "TipperTotal st = []" "TotalTips st = []"
    by (auto simp: oracleInitGenesis_def oracleSetParams_def GenesisCycleList_def emptyOracle_def split: sum.splits)
  then show ?case by (simp add: ledger_refines_def running_totals runningAt_def kv_prefix_def firstOf_def tipsOfBy_def tipsBy_def)
next
  case (tip h log st c msg st' tipper)
  then show ?case by (intro Tip_refines) auto
next
  case (quiet h log st st')
  then show ?case using quiet_step_totals [OF quiet.hyps(2)]
    by (simp add: ledger_refines_def GetTipsAtBlockForTipper_def GetTotalTipsAtBlock_def)
qed

text \<open>
  C14: the totals of tips implement the log of tips. In every history, whatever happens between
  the tips, the total of a tipper at a block is the sum of what that tipper tipped up to the
  block, after the burn, the total of all tips is the sum over everybody, and the tippers'
  totals add up to it, so the votes of tippers the dispute module counts never exceed the
  total it compares them with.
\<close>

theorem tips_ledger_refines:
  assumes "tip_trace env h log st"
  shows "(\<forall>a b. GetTipsAtBlockForTipper st b a = tipsOfBy log a b) \<and> (\<forall>b. GetTotalTipsAtBlock st b = tipsBy log b)
    \<and> (\<forall>b. (\<Sum>a \<in> fst ` set log. GetTipsAtBlockForTipper st b a) = GetTotalTipsAtBlock st b)"
  using trace_refines [OF assms] by (simp add: ledger_refines_def tipsBy_split)

theorem tips_ledger_refines_witness:
  "tip_trace ex_orc_env (heightOf (ex_block 5)) [(''alice'', heightOf (ex_block 5), 49000)] ex_tipped
    \<and> GetTipsAtBlockForTipper ex_tipped 9 ''alice'' = 49000 \<and> GetTotalTipsAtBlock ex_tipped 4 = 0"
proof -
  have "tip_trace ex_orc_env (heightOf (ex_block 5))
      ([] @ [(''alice'', heightOf (ex_block 5), mtAmount ex_tip - mtAmount ex_tip * 2 div 100)]) ex_tipped"
  proof (rule tip_trace.tip [OF tip_trace.genesis [OF ex_orc_genesis] _ ex_tip_runs])
    show "oeAccAddressFromBech32 ex_orc_env (mtTipper ex_tip) = Inr ''alice''" by (simp add: ex_orc_env_def ex_tip_def)
  qed simp
  then have tr: "tip_trace ex_orc_env (heightOf (ex_block 5)) [(''alice'', heightOf (ex_block 5), 49000)] ex_tipped"
    by (simp add: ex_tip_def)
  moreover have "tipsOfBy [(''alice'', heightOf (ex_block 5), 49000)] ''alice'' 9 = 49000"
    "tipsBy [(''alice'', heightOf (ex_block 5), 49000)] 4 = 0" by code_simp+
  ultimately show ?thesis using tips_ledger_refines [OF tr] by simp
qed

end
