(* ===== verification/OracleReports.thy ===== *)
theory OracleReports
  imports OracleFrames
begin

text \<open>
  The stored reports: they match the key they are stored under, a reporter has at most one
  per query id, a submitted report is found by the dispute module, and pruning removes only
  old ones, a bounded number per block.
\<close>

section \<open>Reports match their keys\<close>

definition report_at :: "'w oracle_env \<Rightarrow> bytes \<times> addr \<times> u64 \<Rightarrow> micro_report \<Rightarrow> bool" where
  "report_at env k r \<longleftrightarrow> (case k of (queryId, reporter, i) \<Rightarrow>
     mrQueryId r = queryId \<and> mrReporter r = oeAccString env reporter \<and> mrMetaId r = i)"

definition reports_ok :: "'w oracle_env \<Rightarrow> 'w oracle_state \<Rightarrow> bool" where
  "reports_ok env st \<longleftrightarrow> kv_ok (Reports st) \<and> (\<forall>k r. kv_get (Reports st) k = Some r \<longrightarrow> report_at env k r)"

lemma reports_ok_cong: "reports_ok env st \<Longrightarrow> Reports st' = Reports st \<Longrightarrow> reports_ok env st'"
  by (simp add: reports_ok_def)

lemma storeReport_writes:
  assumes "storeReport c a q k r st = (e, st')"
  shows "Reports st' = (if e = None then kv_set (k, a, qmId q) r (Reports st) else Reports st)"
proof -
  let ?s = "setQuery k (q\<lparr>HasRevealedReports := True\<rparr>) st"
  let ?add = "if mrAggregateMethod r = WeightedMedian then AddReport (qmId q) r ?s
      else AddReportWeightedMode (qmId q) r ?s"
  show ?thesis
  proof (cases ?add)
    case (Inl x)
    then show ?thesis using assms by (auto simp: storeReport_def Let_def split: if_splits)
  next
    case (Inr s)
    then have "Reports s = Reports ?s"
      by (auto split: if_splits dest: stored_reports.AddReport_view stored_reports.AddReportWeightedMode_view)
    then show ?thesis using assms Inr by (auto simp: storeReport_def Let_def split: if_splits)
  qed
qed

lemma SetValue_writes:
  assumes "SetValue env c a q v d p b st = (e, st')"
  shows "if e = None
    then \<not> kv_has (Reports st) (queryIdOf env d, a, qmId q) \<and> (\<exists>r. Reports st' = kv_set (queryIdOf env d, a, qmId q) r (Reports st)
      \<and> report_at env (queryIdOf env d, a, qmId q) r \<and> mrValue r = v \<and> mrPower r = p \<and> mrBlockNumber r = heightOf c \<and> mrTimestamp r = BlockTime c)
    else Reports st' = Reports st"
  using assms
  by (auto simp: SetValue_def Let_def microReportOf_def report_at_def split: sum.splits dest!: storeReport_writes)

lemma SetValue_reports:
  assumes "SetValue env c a q v d p b st = (e, st')" and "reports_ok env st"
  shows "reports_ok env st'"
  using SetValue_writes [OF assms(1)] assms(2) by (auto simp: reports_ok_def split: if_splits)

lemma HandleBridgeDeposit_reports:
  assumes "HandleBridgeDepositDirectReveal env c q d a v p st = (e, st')" and "reports_ok env st"
  shows "reports_ok env st'"
proof -
  obtain q1 s1 where r: "renewDeposit c q st = (q1, s1)" by (metis surj_pair)
  have "reports_ok env s1" using stored_reports.renewDeposit_view [OF r] by (intro reports_ok_cong [OF assms(2)])
  then show ?thesis using assms(1) r
    by (auto simp: HandleBridgeDepositDirectReveal_def split: if_splits sum.splits dest: SetValue_reports)
qed

lemma DirectReveal_reports:
  "DirectReveal env c q d v a p b st = (e, st') \<Longrightarrow> reports_ok env st \<Longrightarrow> reports_ok env st'"
  by (auto simp: DirectReveal_def split: if_splits dest: HandleBridgeDeposit_reports SetValue_reports)

lemma deposit_reports:
  "TokenBridgeDepositQuery c d st = (q, st') \<Longrightarrow> reports_ok env st \<Longrightarrow> reports_ok env st' \<and> reports_ok env (setQuery k q st')"
  using stored_reports.TokenBridgeDepositQuery_view by (fastforce intro: reports_ok_cong)

lemma SubmitValue_reports:
  assumes "SubmitValue env c msg st = Inr st'" and "reports_ok env st"
  shows "reports_ok env st'"
proof -
  obtain a w v p b where run: "revealTo env c (msQueryData msg) v a p b (st\<lparr>orcWorld := w\<rparr>) = Inr st'"
    using assms(1) by (auto simp: SubmitValue_def Let_def)
  let ?s = "st\<lparr>orcWorld := w\<rparr>"
  have ok: "reports_ok env ?s" by (rule reports_ok_cong [OF assms(2)]) simp
  obtain q s where t: "TokenBridgeDepositQuery c (msQueryData msg) ?s = (q, s)" by (metis surj_pair)
  show ?thesis using run t deposit_reports [OF t ok] ok
    by (auto simp: revealTo_def Let_def split: option.splits if_splits dest: DirectReveal_reports HandleBridgeDeposit_reports)
qed

lemma batchOne_reports:
  assumes "batchOne env c a ds stake p x st = Inr (ok, st')" and "reports_ok env st"
  shows "reports_ok env st'"
proof -
  obtain q s where t: "TokenBridgeDepositQuery c (fst x) st = (q, s)" by (metis surj_pair)
  have world: "reports_ok env (s\<lparr>orcWorld := w\<rparr>)" if "reports_ok env s" for s w
    by (rule reports_ok_cong [OF that]) simp
  show ?thesis using assms(1) t deposit_reports [OF t assms(2)] assms(2)
    by (auto simp: batchOne_def Let_def intro!: world
        split: sum.splits error.splits option.splits if_splits prod.splits
        dest: DirectReveal_reports HandleBridgeDeposit_reports)
qed

lemma batchLoop_reports:
  "batchLoop env c a ds stake p i xs st = Inr (f, st') \<Longrightarrow> reports_ok env st \<Longrightarrow> reports_ok env st'"
  by (induction xs arbitrary: i st f) (auto dest!: batchOne_reports)

lemma BatchSubmitValue_reports:
  assumes "BatchSubmitValue env c a vs st = Inr (f, st')" and "reports_ok env st"
  shows "reports_ok env st'"
proof -
  obtain x ds stake p w where "batchLoop env c x ds stake p 0 vs (st\<lparr>orcWorld := w\<rparr>) = Inr (f, st')"
    using assms(1) by (auto simp: BatchSubmitValue_def Let_def split: if_splits)
  then show ?thesis by (rule batchLoop_reports) (rule reports_ok_cong [OF assms(2)], simp)
qed

lemma RemoveOldReports_reports: "RemoveOldReports c st = Inr st' \<Longrightarrow> reports_ok env st \<Longrightarrow> reports_ok env st'"
  unfolding RemoveOldReports_def Let_def
  by (erule foldR_invariant) (auto simp: reports_ok_def split: if_splits)

lemma oracleEndBlocker_reports:
  assumes "oracleEndBlocker env c st = Inr st'" and "reports_ok env st"
  shows "reports_ok env st'"
proof -
  obtain s1 s2 s3 where "SetAggregatedReport env c st = Inr s1" "AutoClaimDeposits env c s1 = Inr s2"
    "RotateQueries env c s2 = Inr s3" and p: "RemoveOldReports c s3 = Inr st'"
    using assms(1) by (auto simp: oracleEndBlocker_def)
  then have "Reports s3 = Reports st" by (metis stored_reports.SetAggregatedReport_view
        stored_reports.AutoClaimDeposits_view stored_reports.RotateQueries_view)
  then show ?thesis using RemoveOldReports_reports [OF p] reports_ok_cong [OF assms(2)] by blast
qed

lemma oracle_step_reports:
  assumes "oracle_step env st st'" and "reports_ok env st"
  shows "reports_ok env st'"
proof -
  have "reports_ok env st'" if "quiet_step env st st'"
    using that
    by (cases rule: quiet_step.cases)
      (auto dest: SubmitValue_reports [OF _ assms(2)] BatchSubmitValue_reports [OF _ assms(2)]
        oracleEndBlocker_reports [OF _ assms(2)] stored_reports.governance_view stored_reports.FlagAggregateReport_view
        intro: reports_ok_cong [OF assms(2)])
  then show ?thesis using assms(1)
    by (auto elim!: oracle_stepE intro: reports_ok_cong [OF assms(2)] stored_reports.Tip_view)
qed

text \<open>
  C36: stored reports are well typed. In every reachable state a report is stored under its own
  query id, its own reporter and the id of the query it answers, and no key occurs twice.
\<close>

theorem reports_typed:
  assumes "oracle_reachable env st"
  shows "distinct (map fst (Reports st)) \<and> (\<forall>((queryId, reporter, i), r) \<in> set (Reports st).
    mrQueryId r = queryId \<and> mrReporter r = oeAccString env reporter \<and> mrMetaId r = i)"
proof -
  have "reports_ok env st" using assms
  proof induction
    case (genesis gs w st)
    then have "Reports st = []"
      by (auto simp: oracleInitGenesis_def oracleSetParams_def GenesisCycleList_def emptyOracle_def split: sum.splits)
    then show ?case by (simp add: reports_ok_def)
  next
    case (step st st')
    show ?case by (rule oracle_step_reports [OF step.hyps(2) step.IH])
  qed
  then have ok: "kv_ok (Reports st)" and at: "\<And>k r. kv_get (Reports st) k = Some r \<Longrightarrow> report_at env k r"
    by (auto simp: reports_ok_def)
  have "report_at env (fst e) (snd e)" if "e \<in> set (Reports st)" for e
    using at [of "fst e" "snd e"] kv_get_mem [OF ok, of "fst e" "snd e"] that by simp
  then show ?thesis using kv_ok_distinct [OF ok] by (auto simp: report_at_def dest!: bspec)
qed

text \<open>A report of the example: one word for the tipped query.\<close>

definition ex_submit :: msg_submit_value where
  "ex_submit = \<lparr>msCreator = ''bob'', msQueryData = ''atom'', msValue = replicate 64 (CHR ''0'')\<rparr>"

definition ex_reported :: "ledger oracle_state" where
  "ex_reported = (case SubmitValue ex_orc_env (ex_block 6) ex_submit ex_tipped of Inr st \<Rightarrow> st | Inl _ \<Rightarrow> ex_tipped)"

lemma ex_submit_runs: "SubmitValue ex_orc_env (ex_block 6) ex_submit ex_tipped = Inr ex_reported"
proof -
  have "case SubmitValue ex_orc_env (ex_block 6) ex_submit ex_tipped of Inr _ \<Rightarrow> True | Inl _ \<Rightarrow> False" by code_simp
  then show ?thesis by (simp add: ex_reported_def split: sum.splits)
qed

lemma ex_reported_reachable: "oracle_reachable ex_orc_env ex_reported"
  by (rule oracle_reachable.step [OF ex_tipped_reachable])
    (rule oracle_step.quiet, rule quiet_step.submit, rule ex_submit_runs)

theorem reports_typed_witness:
  "\<exists>r. Reports ex_reported = [((''at'', ''bob'', 0), r)] \<and> mrQueryId r = ''at'' \<and> mrReporter r = ''bob'' \<and> mrMetaId r = 0"
proof -
  have "map fst (Reports ex_reported) = [(''at'', ''bob'', 0)]" by code_simp
  then obtain r where "Reports ex_reported = [((''at'', ''bob'', 0), r)]" by (auto simp: map_eq_Cons_conv)
  moreover have "oeAccString ex_orc_env ''bob'' = ''bob''" by (simp add: ex_orc_env_def)
  ultimately show ?thesis using reports_typed [OF ex_reported_reachable] by simp
qed

section \<open>One report per query\<close>

text \<open>
  A reporter reports once per query. After a successful submission the dispute module
  finds the report with the submitted value, the reporter's power and the height of the
  block, and a second submission of the same reporter for the same query fails without
  writing anything.
\<close>

theorem report_once:
  assumes "SetValue env c a q v d p b st = (None, st')" and "qmId q' = qmId q"
  shows "(\<exists>r. ValidateMicroReportExists st' a (qmId q) (queryIdOf env d) = Some r
      \<and> mrValue r = v \<and> mrPower r = p \<and> mrBlockNumber r = heightOf c \<and> mrReporter r = oeAccString env a)
    \<and> ValidateMicroReportExists st a (qmId q) (queryIdOf env d) = None
    \<and> SetValue env c' a q' v' d p' b' st' = (Some (Err ''reporter has already submitted a report for this query''), st')"
proof -
  obtain r where new: "\<not> kv_has (Reports st) (queryIdOf env d, a, qmId q)"
    and st': "Reports st' = kv_set (queryIdOf env d, a, qmId q) r (Reports st)"
    and r: "report_at env (queryIdOf env d, a, qmId q) r" "mrValue r = v" "mrPower r = p" "mrBlockNumber r = heightOf c"
    using SetValue_writes [OF assms(1)] by auto
  have "SetValue env c' a q' v' d p' b' st' = (Some (Err ''reporter has already submitted a report for this query''), st')"
    by (simp add: SetValue_def Let_def st' assms(2))
  then show ?thesis using new st' r by (auto simp: ValidateMicroReportExists_def kv_has_def report_at_def)
qed

definition ex_query :: query_meta where
  "ex_query = \<lparr>qmId = 0, qmAmount = 49000, qmExpiration = 7, RegistrySpecBlockWindow = 2, HasRevealedReports = False,
     qmQueryData = ''atom'', qmQueryType = '''', qmCycleList = False\<rparr>"

theorem report_once_witness:
  "\<exists>st'. SetValue ex_orc_env (ex_block 6) ''bob'' ex_query (replicate 64 (CHR ''0'')) ''atom'' 5 False ex_tipped = (None, st')
    \<and> SetValue ex_orc_env (ex_block 7) ''bob'' ex_query (replicate 64 (CHR ''1'')) ''atom'' 5 False st'
      = (Some (Err ''reporter has already submitted a report for this query''), st')"
proof -
  have "fst (SetValue ex_orc_env (ex_block 6) ''bob'' ex_query (replicate 64 (CHR ''0'')) ''atom'' 5 False ex_tipped) = None"
    by code_simp
  then obtain st' where
    "SetValue ex_orc_env (ex_block 6) ''bob'' ex_query (replicate 64 (CHR ''0'')) ''atom'' 5 False ex_tipped = (None, st')"
    by (metis prod.collapse)
  from report_once [OF this refl] this show ?thesis by blast
qed

section \<open>Pruning\<close>

lemma reportIndex_keys:
  assumes "kv_ok (Reports st)"
  shows "set (reportIndex st) = fst ` set (Reports st)" and "distinct (reportIndex st)"
proof -
  let ?xs = "map (\<lambda>((q, r, i), _). ((i, q), (q, r, i))) (Reports st)"
  have snd: "map snd ?xs = map fst (Reports st)" by (simp add: case_prod_beta)
  have "set (reportIndex st) = set (map snd ?xs)" unfolding reportIndex_def by (simp only: set_map set_sort)
  then show "set (reportIndex st) = fst ` set (Reports st)" unfolding snd by simp
  have "distinct (map snd ?xs)" unfolding snd by (rule kv_ok_distinct [OF assms])
  then show "distinct (reportIndex st)" unfolding reportIndex_def
    by (simp only: distinct_map distinct_sort set_sort)
qed

lemma remove_all:
  assumes "distinct ks" and "set ks \<subseteq> fst ` set (Reports st)"
  shows "foldR (\<lambda>k st. bindR (kv_remove k (Reports st)) (\<lambda>m. Inr (st\<lparr>Reports := m\<rparr>))) ks st
    = Inr (st\<lparr>Reports := filter (\<lambda>e. fst e \<notin> set ks) (Reports st)\<rparr>)"
  using assms
proof (induction ks arbitrary: st)
  case Nil
  then show ?case by simp
next
  case (Cons k ks)
  have "kv_has (Reports st) k" using Cons.prems(2) by (force simp: kv_has_def kv_get_def map_of_eq_None_iff)
  moreover have "set ks \<subseteq> fst ` set (kv_del k (Reports st))" using Cons.prems by (force simp: kv_del_def)
  ultimately show ?case using Cons.IH [of "st\<lparr>Reports := kv_del k (Reports st)\<rparr>"] Cons.prems(1)
    by (simp add: kv_remove_def kv_del_def conj_commute)
qed

text \<open>
  C35: pruning at the end of a block always ends with a result. It removes at most a hundred
  reports, all of them older than thirty days, and leaves the others as they are.
\<close>

theorem prune_bounded:
  assumes "kv_ok (Reports st)"
  shows "\<exists>ks. RemoveOldReports c st = Inr (st\<lparr>Reports := filter (\<lambda>e. fst e \<notin> set ks) (Reports st)\<rparr>) \<and> length ks \<le> 100
    \<and> (\<forall>(k, r) \<in> set (Reports st). k \<in> set ks \<longrightarrow> mrTimestamp r < BlockTime c - 30 * 24 * hour)"
proof -
  let ?ks = "take maxPruneSize (takeWhile (oldReport c st) (reportIndex st))"
  note keys = reportIndex_keys [OF assms]
  have sub: "set ?ks \<subseteq> set (reportIndex st)" by (auto dest!: in_set_takeD dest: set_takeWhileD)
  have "distinct ?ks" using keys(2) by (intro distinct_take distinct_takeWhile)
  then have run: "RemoveOldReports c st = Inr (st\<lparr>Reports := filter (\<lambda>e. fst e \<notin> set ?ks) (Reports st)\<rparr>)"
    unfolding RemoveOldReports_def Let_def using sub keys(1) by (intro remove_all) auto
  have old: "mrTimestamp r < BlockTime c - 30 * 24 * hour" if "(k, r) \<in> set (Reports st)" "k \<in> set ?ks" for k r
  proof -
    have "oldReport c st k" using that(2) by (auto dest!: in_set_takeD dest: set_takeWhileD)
    then show ?thesis using kv_get_mem [OF assms, of k r] that(1) by (simp add: oldReport_def pruneCutoff_def)
  qed
  show ?thesis
    by (rule exI [of _ ?ks]) (use run old in \<open>auto simp: maxPruneSize_def\<close>)
qed

theorem prune_bounded_witness:
  "\<exists>ks. RemoveOldReports (ex_block 10000000) ex_reported
      = Inr (ex_reported\<lparr>Reports := filter (\<lambda>e. fst e \<notin> set ks) (Reports ex_reported)\<rparr>) \<and> length ks \<le> 100"
proof -
  have "kv_ok (Reports ex_reported)" by code_simp
  from prune_bounded [OF this] show ?thesis by blast
qed

end
