(* ===== verification/OracleCycle.thy ===== *)
theory OracleCycle
  imports OracleReports
begin

text \<open>
  The rotation of the cycle list, and the distribution of the time-based rewards at the end
  of a period.
\<close>

section \<open>Distribution\<close>

lemma payReward_frame:
  "payReward env c e ds = Inr ds' \<Longrightarrow> \<exists>d w. ds' = (d, (snd ds)\<lparr>orcWorld := w\<rparr>)"
proof -
  assume "payReward env c e ds = Inr ds'"
  then have "(\<exists>w. snd ds' = (snd ds)\<lparr>orcWorld := w\<rparr>) \<or> snd ds' = snd ds"
    by (auto simp: payReward_def AllocateTBR_def case_prod_beta Let_def split: if_splits)
  then have "\<exists>w. snd ds' = (snd ds)\<lparr>orcWorld := w\<rparr>" by (auto intro: exI [of _ "orcWorld (snd ds)"])
  then show ?thesis by (metis prod.collapse)
qed

lemma payRewards_frame:
  assumes "foldR (payReward env c) es (d0, st) = Inr (d, s)"
  shows "\<exists>w. s = st\<lparr>orcWorld := w\<rparr>"
proof -
  have "\<exists>w. snd (d, s) = st\<lparr>orcWorld := w\<rparr>"
  proof (rule foldR_invariant [where I = "\<lambda>s. \<exists>w. snd s = st\<lparr>orcWorld := w\<rparr>", OF assms])
    show "\<exists>w. snd (d0, st) = st\<lparr>orcWorld := w\<rparr>" by (auto intro: exI [of _ "orcWorld st"])
    show "\<exists>w. snd s' = st\<lparr>orcWorld := w\<rparr>" if "payReward env c e s = Inr s'" "\<exists>w. snd s = st\<lparr>orcWorld := w\<rparr>" for e s s'
      using payReward_frame [OF that(1)] that(2) by auto
  qed
  then show ?thesis by simp
qed

lemma settleRewards_cases:
  assumes "settleRewards env c tbr t m st = Inr st'"
  obtains d w w' where "foldR (payReward env c) (oeMapOrder env m) (0, st) = Inr (d, st\<lparr>orcWorld := w\<rparr>)"
    and "bkSendCoins (oeBank env) (Module timeBasedRewards) (Module tipsEscrowPool) BondDenom tbr w = Inr w'"
    and "st' = ResetLivenessData (st\<lparr>orcWorld := w', livenessDust := Some (if 0 < t - d then TruncateInt (t - d) else 0)\<rparr>)"
proof -
  obtain d s w' where f: "foldR (payReward env c) (oeMapOrder env m) (0, st) = Inr (d, s)"
    and b: "bkSendCoins (oeBank env) (Module timeBasedRewards) (Module tipsEscrowPool) BondDenom tbr (orcWorld s) = Inr w'"
    and st': "st' = ResetLivenessData (s\<lparr>orcWorld := w', livenessDust := Some (if 0 < t - d then TruncateInt (t - d) else 0)\<rparr>)"
    using assms by (auto simp: settleRewards_def Let_def)
  obtain w where s: "s = st\<lparr>orcWorld := w\<rparr>" using payRewards_frame [OF f] by blast
  show thesis by (rule that [of d w w']) (use f b st' s in simp_all)
qed

lemma DistributeLivenessRewards_cases:
  assumes "DistributeLivenessRewards env c st = Inr st'"
  obtains (none) "GetTimeBasedRewards env st = 0 \<or> numSlotsOf st = 0" and "st' = ResetLivenessData st"
  | (paid) m where "GetTimeBasedRewards env st \<noteq> 0" and "numSlotsOf st \<noteq> 0"
    and "settleRewards env c (GetTimeBasedRewards env st)
      (dec_of (GetTimeBasedRewards env st) + dec_of (case livenessDust st of None \<Rightarrow> 0 | Some d \<Rightarrow> d)) m st = Inr st'"
  using assms by (auto simp: DistributeLivenessRewards_def Let_def split: if_splits)

text \<open>The cycle of the rotation is not touched.\<close>

lemma DistributeLivenessRewards_cycle:
  assumes "DistributeLivenessRewards env c st = Inr st'"
  shows "Cyclelist st' = Cyclelist st \<and> CyclelistSequencer st' = CyclelistSequencer st"
  using assms by (cases rule: DistributeLivenessRewards_cases)
    (auto simp: ResetLivenessData_def elim!: settleRewards_cases)

lemma CheckAndDistribute_cycle:
  "CheckAndDistributeLivenessRewards env c st = Inr st' \<Longrightarrow>
   Cyclelist st' = Cyclelist st \<and> CyclelistSequencer st' = CyclelistSequencer st"
  by (auto simp: CheckAndDistributeLivenessRewards_def IncrementStandardOpportunities_def Let_def
      split: if_splits dest!: DistributeLivenessRewards_cycle)

section \<open>Rotation\<close>

lemma stored_set: "(k, v) \<in> set (kv_set k v m)"
  by (induction k v m rule: kv_set.induct) auto

lemma stored_query: "\<exists>i q. ((d, i), q) \<in> set (kv_set (d, j) v m)"
proof (intro exI)
  show "((d, j), v) \<in> set (kv_set (d, j) v m)" by (rule stored_set)
qed

lemma CurrentQuery_mem:
  assumes "CurrentQuery st d = Some q"
  shows "\<exists>i. ((d, i), q) \<in> set (Query st)"
proof -
  obtain i where "last (kv_prefix d (Query st)) = (i, q)" and "kv_prefix d (Query st) \<noteq> []"
    using assms by (auto simp: CurrentQuery_def firstOf_rev split: if_splits prod.splits)
  then have "(i, q) \<in> set (kv_prefix d (Query st))" using last_in_set by metis
  then show ?thesis by (auto simp: kv_prefix_mem)
qed

lemma openCycleQuery_effect:
  assumes "openCycleQuery env c d st = Inr st'"
  shows "Cyclelist st' = Cyclelist st \<and> CyclelistSequencer st' = CyclelistSequencer st
    \<and> (\<exists>i q. ((queryIdOf env d, i), q) \<in> set (Query st'))"
proof (cases "CurrentQuery st (queryIdOf env d)")
  case None
  then show ?thesis using assms
    by (auto simp: openCycleQuery_def InitializeQuery_def nextQueryId_def setQuery_def Let_def intro: stored_query)
next
  case (Some q)
  obtain i where "((queryIdOf env d, i), q) \<in> set (Query st)" using CurrentQuery_mem [OF Some] by blast
  then show ?thesis using assms Some
    by (auto simp: openCycleQuery_def removeQuery_def nextQueryId_def setQuery_def Let_def split: if_splits intro: stored_query)
qed

lemma advance_position:
  assumes "unat n < m" and "m < 2 ^ 64"
  shows "(toU64 (int m - 1) \<le> n) = (unat n + 1 = m)" and "unat n + 1 < m \<Longrightarrow> unat (n + 1) = unat n + 1"
proof -
  have "int m - 1 < 2 ^ 64" using assms(2) by simp
  then have "uint (toU64 (int m - 1)) = int m - 1"
    using assms(1) by (intro uint_toU64) simp_all
  then have "unat (toU64 (int m - 1)) = m - 1" by (simp add: unat_eq_nat_uint)
  then show "(toU64 (int m - 1) \<le> n) = (unat n + 1 = m)" using assms(1) by (auto simp: word_le_nat_alt)
  show "unat (n + 1) = unat n + 1" if "unat n + 1 < m"
    using that assms(2) by (simp add: unat_word_ariths take_bit_eq_mod)
qed

lemma advanceCycle_position:
  assumes "advanceCycle env c m st = Inr (n, st')" and "unat (CyclelistSequencer st) < m" and "m < 2 ^ 64"
  shows "unat n = (unat (CyclelistSequencer st) + 1) mod m" and "CyclelistSequencer st' = n" and "Cyclelist st' = Cyclelist st"
proof -
  note pos = advance_position [OF assms(2,3)]
  consider "unat (CyclelistSequencer st) + 1 = m" | "unat (CyclelistSequencer st) + 1 < m" using assms(2) by linarith
  then have "unat n = (unat (CyclelistSequencer st) + 1) mod m \<and> CyclelistSequencer st' = n \<and> Cyclelist st' = Cyclelist st"
  proof cases
    case 1
    then show ?thesis using assms(1) pos(1) by (auto simp: advanceCycle_def Let_def dest!: CheckAndDistribute_cycle)
  next
    case 2
    then show ?thesis using assms(1) pos by (auto simp: advanceCycle_def Let_def)
  qed
  then show "unat n = (unat (CyclelistSequencer st) + 1) mod m" "CyclelistSequencer st' = n" "Cyclelist st' = Cyclelist st" by auto
qed

text \<open>
  C32: the cycle list is rotated round robin. While the query whose turn it is has not expired,
  the rotation changes nothing; then the position moves to the next entry, from the last
  back to the first, the list stays the same and a query for the new entry is stored.
\<close>

theorem rotation_round_robin:
  assumes "RotateQueries env c st = Inr st'" and "unat (CyclelistSequencer st) < length (Cyclelist st)"
    and "length (Cyclelist st) < 2 ^ 64"
  shows "if \<exists>q. CurrentQuery st (queryIdOf env (snd (Cyclelist st ! unat (CyclelistSequencer st)))) = Some q
         \<and> heightOf c < qmExpiration q
    then st' = st
    else unat (CyclelistSequencer st') = (unat (CyclelistSequencer st) + 1) mod length (Cyclelist st)
      \<and> Cyclelist st' = Cyclelist st
      \<and> (\<exists>i q. ((queryIdOf env (snd (Cyclelist st ! unat (CyclelistSequencer st'))), i), q) \<in> set (Query st'))"
proof (cases "\<exists>q. CurrentQuery st (queryIdOf env (snd (Cyclelist st ! unat (CyclelistSequencer st)))) = Some q
    \<and> heightOf c < qmExpiration q")
  case True
  then show ?thesis using assms
    by (auto simp: RotateQueries_def GetCurrentQueryInCycleList_def GetCyclelist_def indexR_def)
next
  case False
  then have "\<not> (case CurrentQuery st (queryIdOf env (snd (Cyclelist st ! unat (CyclelistSequencer st)))) of
      None \<Rightarrow> False | Some q \<Rightarrow> heightOf c < qmExpiration q)" by (auto split: option.splits)
  then obtain n s d where adv: "advanceCycle env c (length (Cyclelist st)) st = Inr (n, s)"
    and d: "indexR (map snd (Cyclelist st)) n = Inr d"
    and op: "openCycleQuery env c d (IncrementQueryOpportunities (queryIdOf env d) s) = Inr st'"
    using assms by (auto simp: RotateQueries_def GetCurrentQueryInCycleList_def GetCyclelist_def indexR_def Let_def)
  note pos = advanceCycle_position [OF adv assms(2,3)]
  have "0 < length (Cyclelist st)" using assms(2) by linarith
  then have "unat n < length (Cyclelist st)" using pos(1) by simp
  then have "d = snd (Cyclelist st ! unat n)" using d by (simp add: indexR_def)
  then show ?thesis using False openCycleQuery_effect [OF op] pos by (auto simp: IncrementQueryOpportunities_def)
qed

definition ex_rotated :: "ledger oracle_state result" where
  "ex_rotated = RotateQueries ex_orc_env (ex_block 9) (ex_orc\<lparr>CyclelistSequencer := 2\<rparr>)"

theorem rotation_round_robin_witness:
  "\<exists>st'. ex_rotated = Inr st' \<and> unat (CyclelistSequencer st') = 0 \<and> Cyclelist st' = Cyclelist ex_orc"
proof -
  let ?s = "ex_orc\<lparr>CyclelistSequencer := 2\<rparr>"
  have "case ex_rotated of Inr _ \<Rightarrow> True | Inl _ \<Rightarrow> False" by code_simp
  then obtain st' where r: "ex_rotated = Inr st'" by (auto split: sum.splits)
  have len: "length (Cyclelist ?s) = 3" and s: "CyclelistSequencer ?s = 2" by (simp_all add: ex_orc_def)
  have "Query ?s = []" by (simp add: ex_orc_def emptyOracle_def)
  then have none: "CurrentQuery ?s d = None" for d by (simp add: CurrentQuery_def kv_prefix_def firstOf_def)
  have "unat (CyclelistSequencer st') = (unat (CyclelistSequencer ?s) + 1) mod length (Cyclelist ?s) \<and> Cyclelist st' = Cyclelist ?s"
    using rotation_round_robin [OF r [unfolded ex_rotated_def]] none len s by simp
  then show ?thesis using r len s by (intro exI [of _ st']) simp
qed

section \<open>The end of a period\<close>

lemma rest_bounds:
  assumes "0 \<le> d"
  shows "0 \<le> (if 0 < dec_of n - d then TruncateInt (dec_of n - d) else 0)"
    and "(if 0 < dec_of n - d then TruncateInt (dec_of n - d) else 0) \<le> max 0 n"
proof -
  have one: "0 < dec_one" by (simp add: dec_one_def)
  have "(dec_of n - d) div dec_one \<le> dec_of n div dec_one" using assms one by (intro zdiv_mono1) simp_all
  then show "(if 0 < dec_of n - d then TruncateInt (dec_of n - d) else 0) \<le> max 0 n"
    using one by (simp add: TruncateInt_nonneg dec_of_def le_max_iff_disj)
  show "0 \<le> (if 0 < dec_of n - d then TruncateInt (dec_of n - d) else 0)"
    using one by (simp add: TruncateInt_nonneg pos_imp_zdiv_nonneg_iff)
qed

text \<open>
  The end of a reward period. When there are time-based rewards and slots, a successful
  distribution moves exactly the rewards of the period from the pool to the escrow of the
  reporters, whatever the order of payment, keeps as dust a rest that is not negative and not
  more than the rewards and the dust of the period before, and clears the shares, opportunities and demotions of the
  period; otherwise it only clears them.
\<close>

theorem period_settled:
  assumes "DistributeLivenessRewards env c st = Inr st'" and "bank_laws (oeBank env)"
    and "\<And>c a r w w' p. orkDivvyingTips (oeReporter env) c a r w = Inr w' \<Longrightarrow>
      bkGetBalance (oeBank env) w' (Module p) BondDenom = bkGetBalance (oeBank env) w (Module p) BondDenom"
  shows "(QueryOpportunities st' = [] \<and> ReporterQueryShareSum st' = [] \<and> ReporterStandardShareSum st' = []
      \<and> NonStandardQueries st' = [] \<and> StandardOpportunities st' = Some 0)
    \<and> (if numSlotsOf st = 0 then orcWorld st' = orcWorld st else GetTimeBasedRewards env st' = 0
        \<and> bkGetBalance (oeBank env) (orcWorld st') (Module tipsEscrowPool) BondDenom
            = bkGetBalance (oeBank env) (orcWorld st) (Module tipsEscrowPool) BondDenom + GetTimeBasedRewards env st)
    \<and> (numSlotsOf st = 0 \<or> GetTimeBasedRewards env st = 0 \<or> (\<exists>r. livenessDust st' = Some r
        \<and> 0 \<le> r \<and> r \<le> max 0 (GetTimeBasedRewards env st + (case livenessDust st of None \<Rightarrow> 0 | Some d \<Rightarrow> d))))"
  using assms(1)
proof (cases rule: DistributeLivenessRewards_cases)
  case none
  then show ?thesis by (auto simp: ResetLivenessData_def GetTimeBasedRewards_def)
next
  case (paid m)
  let ?T = "GetTimeBasedRewards env st" and ?old = "case livenessDust st of None \<Rightarrow> 0 | Some d \<Rightarrow> d"
  obtain d w w' where f: "foldR (payReward env c) (oeMapOrder env m) (0, st) = Inr (d, st\<lparr>orcWorld := w\<rparr>)"
    and b: "bkSendCoins (oeBank env) (Module timeBasedRewards) (Module tipsEscrowPool) BondDenom ?T w = Inr w'"
    and new: "st' = ResetLivenessData (st\<lparr>orcWorld := w', livenessDust :=
        Some (if 0 < dec_of ?T + dec_of ?old - d then TruncateInt (dec_of ?T + dec_of ?old - d) else 0)\<rparr>)"
    by (rule settleRewards_cases [OF paid(3)])
  have st': "orcWorld st' = w'" "QueryOpportunities st' = []" "ReporterQueryShareSum st' = []"
      "ReporterStandardShareSum st' = []" "NonStandardQueries st' = []" "StandardOpportunities st' = Some 0"
    by (simp_all add: new ResetLivenessData_def)
  have dust: "livenessDust st' = Some (if 0 < dec_of (?T + ?old) - d then TruncateInt (dec_of (?T + ?old) - d) else 0)"
    by (simp add: new ResetLivenessData_def dec_of_add)
  have "0 \<le> fst (d, st\<lparr>orcWorld := w\<rparr>)"
    by (rule foldR_invariant [where I = "\<lambda>s. 0 \<le> fst s", OF f]) (auto simp: payReward_def split: if_splits)
  then have "\<exists>r. livenessDust st' = Some r \<and> 0 \<le> r \<and> r \<le> max 0 (?T + ?old)"
    using rest_bounds [of d "?T + ?old"] unfolding dust by auto
  moreover have kept: "bkGetBalance (oeBank env) w (Module p) BondDenom = bkGetBalance (oeBank env) (orcWorld st) (Module p) BondDenom" for p
  proof -
    have "bkGetBalance (oeBank env) (orcWorld (snd (d, st\<lparr>orcWorld := w\<rparr>))) (Module p) BondDenom
        = bkGetBalance (oeBank env) (orcWorld st) (Module p) BondDenom"
      by (rule foldR_invariant [where I = "\<lambda>s. bkGetBalance (oeBank env) (orcWorld (snd s)) (Module p) BondDenom
            = bkGetBalance (oeBank env) (orcWorld st) (Module p) BondDenom", OF f])
        (auto simp: payReward_def AllocateTBR_def split: if_splits dest!: assms(3) [where p = p])
    then show ?thesis by simp
  qed
  note bal = bank_send [OF assms(2) b]
  moreover have "GetTimeBasedRewards env st' = 0" "bkGetBalance (oeBank env) (orcWorld st') (Module tipsEscrowPool) BondDenom
      = bkGetBalance (oeBank env) (orcWorld st) (Module tipsEscrowPool) BondDenom + ?T"
    by (simp_all add: GetTimeBasedRewards_def st'(1) bal kept moved_def timeBasedRewards_def tipsEscrowPool_def)
  ultimately show ?thesis using st' paid(2) by simp
qed

definition ex_rewards :: "ledger oracle_state" where
  "ex_rewards = ex_orc\<lparr>orcWorld := (\<lambda>h d. if h = Module timeBasedRewards \<and> d = BondDenom then 1000 else 0),
     ReporterStandardShareSum := [(''bob'', dec_one)], StandardOpportunities := Some 3\<rparr>"

theorem period_settled_witness:
  "\<exists>st'. DistributeLivenessRewards ex_orc_env (ex_block 9) ex_rewards = Inr st' \<and> GetTimeBasedRewards ex_orc_env st' = 0
    \<and> bkGetBalance ledger_bank (orcWorld st') (Module tipsEscrowPool) BondDenom = 1000 \<and> ReporterStandardShareSum st' = []"
proof -
  have "case DistributeLivenessRewards ex_orc_env (ex_block 9) ex_rewards of Inr _ \<Rightarrow> True | Inl _ \<Rightarrow> False" by code_simp
  then obtain st' where run: "DistributeLivenessRewards ex_orc_env (ex_block 9) ex_rewards = Inr st'" by (auto split: sum.splits)
  have bank: "oeBank ex_orc_env = ledger_bank" by (simp add: ex_orc_env_def)
  have divvy: "\<And>c a r w w' p. orkDivvyingTips (oeReporter ex_orc_env) c a r w = Inr w' \<Longrightarrow>
      bkGetBalance (oeBank ex_orc_env) w' (Module p) BondDenom = bkGetBalance (oeBank ex_orc_env) w (Module p) BondDenom"
    by (simp add: ex_orc_env_def)
  have vals: "numSlotsOf ex_rewards \<noteq> 0" "GetTimeBasedRewards ex_orc_env ex_rewards = 1000"
    "bkGetBalance ledger_bank (orcWorld ex_rewards) (Module tipsEscrowPool) BondDenom = 0" by code_simp+
  show ?thesis using period_settled [OF run _ divvy] ledger_bank_laws vals run bank by (intro exI [of _ st']) simp
qed

end
