(* ===== verification/OracleLookup.thy ===== *)
theory OracleLookup
  imports OracleReports
begin

text \<open>
  The lookups by which other modules and users read aggregates: the newest unflagged
  aggregate before a time, and what storing and flagging an aggregate do to it.
\<close>

section \<open>The newest entry before a key\<close>

lemma find_rev_newest:
  assumes "kv_ok m"
  shows "find P (rev m) = Some (k, v) \<longleftrightarrow> kv_get m k = Some v \<and> P (k, v) \<and> (\<forall>k' v'. kv_get m k' = Some v' \<and> P (k', v') \<longrightarrow> k' \<le> k)"
  using assms
proof (induction m rule: rev_induct)
  case Nil
  then show ?case by simp
next
  case (snoc e m)
  obtain k1 v1 where e: "e = (k1, v1)" by (cases e)
  have ok: "kv_ok m" and last: "\<forall>x \<in> fst ` set m. x < k1"
    using snoc.prems by (auto simp: kv_ok_def sorted_wrt_append e)
  have none: "kv_get m k1 = None" using last by (auto simp: kv_get_def map_of_eq_None_iff)
  have get: "kv_get (m @ [e]) k = (if k = k1 then Some v1 else kv_get m k)" for k
    using none by (auto simp: e kv_get_def map_add_def split: option.splits)
  have below: "k < k1" if "kv_get m k = Some v" for k v
    using that last by (fastforce simp: kv_get_def dest: map_of_SomeD)
  show ?case
  proof (cases "P e")
    case True
    then show ?thesis using below get by (auto simp: e split: if_splits intro: less_imp_le dest: leD)
  next
    case False
    have eq: "kv_get (m @ [e]) k = Some v \<and> P (k, v) \<longleftrightarrow> kv_get m k = Some v \<and> P (k, v)" for k v
      unfolding get using False none e by auto
    show ?thesis using snoc.IH [OF ok] False unfolding conj_assoc [symmetric] eq by simp
  qed
qed

lemma kv_ok_filter: "kv_ok m \<Longrightarrow> kv_ok (filter Q m)"
  by (simp add: kv_ok_def sorted_wrt_map sorted_wrt_filter)

lemma kv_get_filter: "kv_get (filter (\<lambda>e. Q (fst e)) m) k = (if Q k then kv_get m k else None)"
  by (induction m) (auto simp: kv_get_def)

text \<open>
  The lookup before a time returns the newest usable aggregate. A result is an aggregate
  of the query, stored under the returned timestamp, older than the given time and not
  flagged by a dispute, and no other such aggregate is newer; the lookup fails only when
  there is none.
\<close>

theorem data_before_newest:
  assumes "kv_ok (Aggregates st)"
  shows "case GetAggregateBefore st queryId t of
      Inr (a, t') \<Rightarrow> \<exists>m. kv_get (Aggregates st) (queryId, m) = Some a \<and> t' = timeOfMilli m \<and> m < toU64 (unixMilli t) \<and> \<not> Flagged a
        \<and> (\<forall>m' a'. kv_get (Aggregates st) (queryId, m') = Some a' \<and> m' < toU64 (unixMilli t) \<and> \<not> Flagged a' \<longrightarrow> m' \<le> m)
    | Inl _ \<Rightarrow> \<forall>m a. kv_get (Aggregates st) (queryId, m) = Some a \<and> m < toU64 (unixMilli t) \<longrightarrow> Flagged a"
proof -
  let ?T = "toU64 (unixMilli t)"
  let ?m = "filter (\<lambda>e. fst e < ?T) (aggregatesOf st queryId)"
  have okp: "kv_ok (aggregatesOf st queryId)" unfolding aggregatesOf_def by (rule kv_prefix_ok [OF assms])
  then have ok: "kv_ok ?m" by (rule kv_ok_filter)
  have get: "kv_get ?m k = (if k < ?T then kv_get (Aggregates st) (queryId, k) else None)" for k
    unfolding aggregatesOf_def by (simp only: kv_get_filter [of "\<lambda>k. k < ?T"] kv_prefix_get [OF assms])
  show ?thesis
  proof (cases "find (\<lambda>e. \<not> Flagged (snd e)) (rev ?m)")
    case None
    have "Flagged a" if "kv_get (Aggregates st) (queryId, k) = Some a" "k < ?T" for k a
    proof -
      have "(k, a) \<in> set ?m" using that get [of k] kv_get_mem [OF ok, of k a] by simp
      then show ?thesis using None by (auto simp: find_None_iff)
    qed
    then have "\<forall>m a. kv_get (Aggregates st) (queryId, m) = Some a \<and> m < ?T \<longrightarrow> Flagged a" by blast
    then show ?thesis using None by (simp add: GetAggregateBefore_def)
  next
    case (Some e)
    then have "find (\<lambda>e. \<not> Flagged (snd e)) (rev ?m) = Some (fst e, snd e)" by simp
    note new = this [unfolded find_rev_newest [OF ok]]
    have "GetAggregateBefore st queryId t = Inr (snd e, timeOfMilli (fst e))"
      using Some by (simp add: GetAggregateBefore_def case_prod_beta)
    then show ?thesis using new get by (auto split: if_splits intro!: exI [of _ "fst e"])
  qed
qed

definition ex_aggregate :: "bool \<Rightarrow> aggregate" where
  "ex_aggregate f = \<lparr>agQueryId = ''bt'', AggregateValueOf = ''01'', AggregateReporter = ''bob'', AggregatePower = 5,
     Flagged = f, agIndex = 1, agHeight = 1, MicroHeight = 1, agMetaId = 0\<rparr>"

definition ex_aggregated :: "ledger oracle_state" where
  "ex_aggregated = ex_orc\<lparr>Aggregates := [((''bt'', 1000), ex_aggregate False), ((''bt'', 2000), ex_aggregate True)]\<rparr>"

theorem data_before_newest_witness:
  "GetAggregateBefore ex_aggregated ''bt'' 5000000000 = Inr (ex_aggregate False, 1000000000)"
proof -
  have "kv_ok (Aggregates ex_aggregated)" by code_simp
  note new = data_before_newest [OF this, of "''bt''" 5000000000]
  have get: "kv_get (Aggregates ex_aggregated) (''bt'', m) =
      (if m = 1000 then Some (ex_aggregate False) else if m = 2000 then Some (ex_aggregate True) else None)" for m
    by (simp add: ex_aggregated_def kv_get_def)
  have f: "\<not> Flagged (ex_aggregate False)" "Flagged (ex_aggregate True)" by (simp_all add: ex_aggregate_def)
  have t: "timeOfMilli 1000 = 1000000000" "(1000 :: u64) < toU64 (unixMilli 5000000000)" by code_simp+
  show ?thesis
  proof (cases "GetAggregateBefore ex_aggregated ''bt'' 5000000000")
    case (Inl e)
    then show ?thesis using new get [of 1000] f t(2) by auto
  next
    case (Inr r)
    then show ?thesis using new get f t(1) by (cases r) (auto split: if_splits)
  qed
qed

end
