(* ===== verification/RepTypes.thy ===== *)
theory RepTypes
  imports Bank Decimal KVStore ReportTypes
begin

text \<open>
  The reporter module: stored types (\<^verbatim>\<open>proto/layer/reporter\<close>), the keeper's collections
  (\<^verbatim>\<open>x/reporter/keeper/keeper.go\<close>) and what the keeper is built with. The staking keeper
  belongs to the SDK and is a parameter, a record of the operations the code calls. Staking
  calls the hooks of this module back while it delegates or unbonds: its operations return
  the calls they made, and \<open>RepHooks\<close> applies them.
\<close>

section \<open>Stored types\<close>

record oracle_reporter =
  MinTokensRequired :: int
  CommissionRate :: dec
  Jailed :: bool
  JailedUntil :: time
  Moniker :: string
  LastUpdated :: time

definition NewReporter :: "dec \<Rightarrow> int \<Rightarrow> string \<Rightarrow> oracle_reporter" where
  "NewReporter commission minTokensRequired moniker =
     \<lparr>MinTokensRequired = minTokensRequired, CommissionRate = commission, Jailed = False,
      JailedUntil = zero_time, Moniker = moniker, LastUpdated = zero_time\<rparr>"

definition NewSelection :: "addr \<Rightarrow> u64 \<Rightarrow> selection" where
  "NewSelection reporter delegationCount =
     \<lparr>selReporter = reporter, selLockedUntilTime = zero_time, selDelegationsCount = delegationCount\<rparr>"

record delegations_amounts =
  TokenOrigins :: "token_origin_info list"
  daTotal :: int

record selector_share =
  SelectorAddress :: addr
  ssAmount :: int

record period_reward_data =
  pdSelectors :: "selector_share list"
  pdTotal :: int
  pdRewardAmount :: dec
  pdHash :: bytes

record distribution_queue_item =
  qiReporter :: addr
  qiSelectors :: "selector_share list"
  qiTotal :: int
  qiRewardAmount :: dec

record distribution_queue_counter =
  qcHead :: u64
  qcTail :: u64

record stake_tracker =
  stExpiration :: time
  stAmount :: int

record reporter_params =
  MinCommissionRate :: dec
  MinLoya :: int
  MaxSelectors :: u64
  MaxNumOfDelegations :: u64

definition reporterDefaultParams :: reporter_params where
  "reporterDefaultParams = \<lparr>MinCommissionRate = 0, MinLoya = 1000000, MaxSelectors = 100, MaxNumOfDelegations = 10\<rparr>"

section \<open>Staking\<close>

datatype bond_status = Bonded | Unbonding | Unbonded

record validator =
  vOperator :: string
  vStatus :: bond_status
  vTokens :: int
  vDelegatorShares :: dec

abbreviation IsBonded :: "validator \<Rightarrow> bool" where
  "IsBonded val \<equiv> vStatus val = Bonded"

record ubd_entry =
  ubCompletionTime :: time
  ubInitialBalance :: int
  ubBalance :: int

text \<open>The hooks staking calls: a delegation is created, removed or modified, or the set of
  bonded validators or their power changes.\<close>

datatype staking_hook = DelegationCreated addr | DelegationRemoved addr | DelegationModified addr | ValidatorsChanged

text \<open>The sentinel errors the code distinguishes.\<close>

definition ErrNoDelegation :: error where "ErrNoDelegation = Err ''ErrNoDelegation''"

definition ErrNoValidatorFound :: error where "ErrNoValidatorFound = Err ''ErrNoValidatorFound''"

definition ErrNoUnbondingDelegation :: error where "ErrNoUnbondingDelegation = Err ''ErrNoUnbondingDelegation''"

record 'w staking_keeper =
  skUnbondingTime :: "'w \<Rightarrow> time result"
  skGetValidator :: "'w \<Rightarrow> bytes \<Rightarrow> validator result"
  skDelegatorDelegations :: "'w \<Rightarrow> addr \<Rightarrow> (string \<times> dec) list result"
  skGetDelegation :: "'w \<Rightarrow> addr \<Rightarrow> bytes \<Rightarrow> dec result"
  skMaxValidators :: "'w \<Rightarrow> nat result"
  skBondedValidatorsByPower :: "'w \<Rightarrow> validator list result"
  skValidatorsPowerStore :: "'w \<Rightarrow> bytes list result"
  skTotalBondedTokens :: "'w \<Rightarrow> int result"
  skDelegate :: "ctx \<Rightarrow> addr \<Rightarrow> int \<Rightarrow> bond_status \<Rightarrow> validator \<Rightarrow> 'w \<Rightarrow> (staking_hook list \<times> 'w) result"
  skUnbond :: "ctx \<Rightarrow> addr \<Rightarrow> bytes \<Rightarrow> dec \<Rightarrow> 'w \<Rightarrow> (int \<times> staking_hook list \<times> 'w) result"
  skGetUnbondingDelegation :: "'w \<Rightarrow> addr \<Rightarrow> bytes \<Rightarrow> ubd_entry list result"
  skRemoveUnbondingDelegation :: "addr \<Rightarrow> bytes \<Rightarrow> 'w \<Rightarrow> 'w result"
  skSetUnbondingDelegation :: "addr \<Rightarrow> bytes \<Rightarrow> ubd_entry list \<Rightarrow> 'w \<Rightarrow> 'w result"
  skRedelegationsFromSrc :: "'w \<Rightarrow> bytes \<Rightarrow> (string \<times> string) list result"
  skTokensFromShares :: "validator \<Rightarrow> dec \<Rightarrow> dec result"
  skTokensFromSharesTruncated :: "validator \<Rightarrow> dec \<Rightarrow> dec result"
  skSharesFromTokens :: "validator \<Rightarrow> int \<Rightarrow> dec result"

section \<open>The keeper\<close>

record 'w reporter_state =
  repParams :: "reporter_params option"
  Tracker :: "stake_tracker option"
  Reporters :: "(addr, oracle_reporter) kv"
  SelectorTips :: "(addr, dec) kv"
  Selectors :: "(addr, selection) kv"
  DisputedDelegationAmounts :: "(bytes, delegations_amounts) kv"
  FeePaidFromStake :: "(bytes, delegations_amounts) kv"
  ReportOld :: "(bytes \<times> addr \<times> u64, delegations_amounts) kv"
  ReportByBlock :: "(addr \<times> u64 \<times> bytes, delegations_amounts) kv"
  ReporterPeriodData :: "(addr, period_reward_data) kv"
  DistributionQueue :: "(u64, distribution_queue_item) kv"
  DistributionQueueCounter :: "distribution_queue_counter option"
  LastValSetUpdateHeight :: "u64 option"
  StakeRecalcFlag :: "(addr, bool) kv"
  RecalcAtTime :: "(addr, int) kv"
  repWorld :: 'w

definition emptyReporter :: "'w \<Rightarrow> 'w reporter_state" where
  "emptyReporter w = \<lparr>repParams = None, Tracker = None, Reporters = [], SelectorTips = [], Selectors = [],
     DisputedDelegationAmounts = [], FeePaidFromStake = [], ReportOld = [], ReportByBlock = [],
     ReporterPeriodData = [], DistributionQueue = [], DistributionQueueCounter = None,
     LastValSetUpdateHeight = None, StakeRecalcFlag = [], RecalcAtTime = [], repWorld = w\<rparr>"

text \<open>
  What the keeper is built with. \<open>reHash\<close> is \<^verbatim>\<open>sha256\<close>, \<open>reRoundInt\<close> the rounding
  \<^verbatim>\<open>LegacyDec.RoundInt\<close>, \<open>reRemoveEntry\<close> \<^verbatim>\<open>UnbondingDelegation.RemoveEntry\<close> on the array
  a loop walks over and the entries of the delegation. The oracle keeper reads its own store
  and this one.
\<close>

record 'w reporter_env =
  reAuthority :: string
  reStaking :: "'w staking_keeper"
  reBank :: "'w bank_keeper"
  reDec :: dec_ops
  reRoundInt :: "dec \<Rightarrow> int"
  reHash :: "bytes \<Rightarrow> bytes"
  reAccAddressFromBech32 :: "string \<Rightarrow> addr result"
  reValAddressFromBech32 :: "string \<Rightarrow> bytes result"
  reAccString :: "addr \<Rightarrow> string"
  reRemoveEntry :: "nat \<Rightarrow> ubd_entry list \<times> ubd_entry list \<Rightarrow> (ubd_entry list \<times> ubd_entry list) result"
  reLastReportedAtTimestamp :: "ctx \<Rightarrow> 'w reporter_state \<Rightarrow> addr \<Rightarrow> u64 result"
  reBlockHeightFromTimestamp :: "'w reporter_state \<Rightarrow> time \<Rightarrow> u64 result"

definition bondedTokensPool :: holder where "bondedTokensPool = Module ''bonded_tokens_pool''"

definition notBondedTokensPool :: holder where "notBondedTokensPool = Module ''not_bonded_tokens_pool''"

definition tipsEscrow :: holder where "tipsEscrow = Module ''tips_escrow_pool''"

abbreviation tokensFromShares :: "'w reporter_env \<Rightarrow> validator \<Rightarrow> dec \<Rightarrow> dec result" where
  "tokensFromShares env \<equiv> skTokensFromShares (reStaking env)"

text \<open>\<^verbatim>\<open>Time.Unix\<close>.\<close>

definition unixSeconds :: "time \<Rightarrow> int" where
  "unixSeconds t = t div 1000000000"

section \<open>Hooks\<close>

definition FlagStakeRecalc :: "addr \<Rightarrow> 'w reporter_state \<Rightarrow> 'w reporter_state" where
  "FlagStakeRecalc reporter st = st\<lparr>StakeRecalcFlag := kv_set reporter True (StakeRecalcFlag st)\<rparr>"

definition AfterDelegationModified :: "addr \<Rightarrow> 'w reporter_state \<Rightarrow> 'w reporter_state" where
  "AfterDelegationModified delAddr st =
     (case kv_get (Selectors st) delAddr of
        None \<Rightarrow> st
      | Some selector \<Rightarrow> FlagStakeRecalc (selReporter selector) st)"

definition BeforeDelegationCreated :: "addr \<Rightarrow> 'w reporter_state \<Rightarrow> 'w reporter_state" where
  "BeforeDelegationCreated delAddr st =
     (case kv_get (Selectors st) delAddr of
        None \<Rightarrow> st
      | Some selector \<Rightarrow>
          st\<lparr>Selectors := kv_set delAddr (selector\<lparr>selDelegationsCount := selDelegationsCount selector + 1\<rparr>) (Selectors st)\<rparr>)"

definition BeforeDelegationRemoved :: "addr \<Rightarrow> 'w reporter_state \<Rightarrow> 'w reporter_state" where
  "BeforeDelegationRemoved delAddr st =
     (case kv_get (Selectors st) delAddr of
        None \<Rightarrow> st
      | Some selector \<Rightarrow>
          st\<lparr>Selectors := kv_set delAddr (selector\<lparr>selDelegationsCount := selDelegationsCount selector - 1\<rparr>) (Selectors st)\<rparr>)"

text \<open>\<^verbatim>\<open>AfterValidatorBonded\<close>, \<^verbatim>\<open>AfterValidatorBeginUnbonding\<close> and \<^verbatim>\<open>BeforeValidatorSlashed\<close> do
  the same.\<close>

definition AfterValidatorBonded :: "ctx \<Rightarrow> 'w reporter_state \<Rightarrow> 'w reporter_state" where
  "AfterValidatorBonded c st = st\<lparr>LastValSetUpdateHeight := Some (toU64 (BlockHeight c))\<rparr>"

fun RepHooks :: "ctx \<Rightarrow> staking_hook list \<Rightarrow> 'w reporter_state \<Rightarrow> 'w reporter_state" where
  "RepHooks c [] st = st"
| "RepHooks c (DelegationCreated a # hs) st = RepHooks c hs (BeforeDelegationCreated a st)"
| "RepHooks c (DelegationRemoved a # hs) st = RepHooks c hs (BeforeDelegationRemoved a st)"
| "RepHooks c (DelegationModified a # hs) st = RepHooks c hs (AfterDelegationModified a st)"
| "RepHooks c (ValidatorsChanged # hs) st = RepHooks c hs (AfterValidatorBonded c st)"

text \<open>The two operations of staking that call back.\<close>

definition delegate ::
  "'w reporter_env \<Rightarrow> ctx \<Rightarrow> addr \<Rightarrow> int \<Rightarrow> bond_status \<Rightarrow> validator \<Rightarrow> 'w reporter_state \<Rightarrow> 'w reporter_state result" where
  "delegate env c delAddr amt src val st =
     bindR (skDelegate (reStaking env) c delAddr amt src val (repWorld st)) (\<lambda>(hooks, w).
     Inr (RepHooks c hooks (st\<lparr>repWorld := w\<rparr>)))"

definition unbond ::
  "'w reporter_env \<Rightarrow> ctx \<Rightarrow> addr \<Rightarrow> bytes \<Rightarrow> dec \<Rightarrow> 'w reporter_state \<Rightarrow> (int \<times> 'w reporter_state) result" where
  "unbond env c delAddr valAddr shares st =
     bindR (skUnbond (reStaking env) c delAddr valAddr shares (repWorld st)) (\<lambda>(amount, hooks, w).
     Inr (amount, RepHooks c hooks (st\<lparr>repWorld := w\<rparr>)))"

end
