(* ===== verification/RepStake.thy ===== *)
theory RepStake
  imports RepTypes
begin

text \<open>
  A reporter's stake (\<^verbatim>\<open>x/reporter/keeper/reporter.go\<close> and the lookups of \<^verbatim>\<open>keeper.go\<close>):
  the bonded tokens of its selectors, the snapshots reports leave behind for disputes, the
  cache that avoids recomputing the stake, and the reward periods that end whenever the
  stake behind a reporter changes.
\<close>

section \<open>Delegations of an account\<close>

text \<open>The walk stops as soon as enough tokens are counted.\<close>

fun hasMinLoop :: "'w reporter_env \<Rightarrow> 'w \<Rightarrow> int \<Rightarrow> (string \<times> dec) list \<Rightarrow> int \<Rightarrow> int result" where
  "hasMinLoop env w minRequired [] tokens = Inr tokens"
| "hasMinLoop env w minRequired ((v, shares) # ds) tokens =
     bindR (reValAddressFromBech32 env v) (\<lambda>valAddr.
     bindR (skGetValidator (reStaking env) w valAddr) (\<lambda>val.
     if \<not> IsBonded val then hasMinLoop env w minRequired ds tokens
     else bindR (tokensFromShares env val shares) (\<lambda>t.
       let tokens' = tokens + TruncateInt t
       in if minRequired \<le> tokens' then Inr tokens' else hasMinLoop env w minRequired ds tokens')))"

definition HasMin :: "'w reporter_env \<Rightarrow> 'w reporter_state \<Rightarrow> addr \<Rightarrow> int \<Rightarrow> bool result" where
  "HasMin env st a minRequired =
     bindR (skDelegatorDelegations (reStaking env) (repWorld st) a) (\<lambda>ds.
     bindR (hasMinLoop env (repWorld st) minRequired ds 0) (\<lambda>tokens.
     Inr (minRequired \<le> tokens)))"

fun checkLoop :: "'w reporter_env \<Rightarrow> 'w \<Rightarrow> (string \<times> dec) list \<Rightarrow> int \<times> int \<Rightarrow> (int \<times> int) result" where
  "checkLoop env w [] acc = Inr acc"
| "checkLoop env w ((v, shares) # ds) (tokens, count) =
     bindR (reValAddressFromBech32 env v) (\<lambda>valAddr.
     bindR (skGetValidator (reStaking env) w valAddr) (\<lambda>val.
     if IsBonded val then bindR (tokensFromShares env val shares) (\<lambda>t.
       checkLoop env w ds (tokens + TruncateInt t, count + 1))
     else checkLoop env w ds (tokens, count + 1)))"

definition CheckSelectorsDelegations :: "'w reporter_env \<Rightarrow> 'w reporter_state \<Rightarrow> addr \<Rightarrow> (int \<times> int) result" where
  "CheckSelectorsDelegations env st a =
     bindR (skDelegatorDelegations (reStaking env) (repWorld st) a) (\<lambda>ds.
     checkLoop env (repWorld st) ds (0, 0))"

definition repTotalReporterPower :: "'w reporter_env \<Rightarrow> 'w reporter_state \<Rightarrow> int result" where
  "repTotalReporterPower env st = skTotalBondedTokens (reStaking env) (repWorld st)"

definition repDelegation :: "'w reporter_state \<Rightarrow> addr \<Rightarrow> selection result" where
  "repDelegation st delegator = getR (kv_get (Selectors st) delegator)"

text \<open>\<^verbatim>\<open>Selectors.Indexes.Reporter.MatchExact\<close>.\<close>

definition selectorsOf :: "addr \<Rightarrow> 'w reporter_state \<Rightarrow> addr list" where
  "selectorsOf reporter st = kv_index (\<lambda>s. selReporter s = reporter) (Selectors st)"

definition GetNumOfSelectors :: "'w reporter_state \<Rightarrow> addr \<Rightarrow> nat" where
  "GetNumOfSelectors st reporter = length (selectorsOf reporter st)"

section \<open>The stake of a reporter\<close>

text \<open>\<^verbatim>\<open>big.Int.Bytes\<close>: the absolute value, most significant byte first, no leading zero.\<close>

function posBytes :: "int \<Rightarrow> bytes" where
  "posBytes x = (if x \<le> 0 then [] else posBytes (x div 256) @ [char_of (x mod 256)])"
  by pat_completeness auto

termination posBytes
  by (relation "measure nat") auto

declare posBytes.simps [simp del]

definition bigBytes :: "int \<Rightarrow> bytes" where
  "bigBytes x = posBytes \<bar>x\<bar>"

text \<open>The tokens of one selector, by the bonded validators or by its delegations.\<close>

fun bondedOrigins :: "'w reporter_env \<Rightarrow> 'w \<Rightarrow> addr \<Rightarrow> validator list \<Rightarrow> token_origin_info list result" where
  "bondedOrigins env w selector [] = Inr []"
| "bondedOrigins env w selector (val # vals) =
     bindR (reValAddressFromBech32 env (vOperator val)) (\<lambda>valAddr.
     case skGetDelegation (reStaking env) w selector valAddr of
       Inl e \<Rightarrow> if e = ErrNoDelegation then bondedOrigins env w selector vals else Inl e
     | Inr shares \<Rightarrow> bindR (skTokensFromSharesTruncated (reStaking env) val shares) (\<lambda>t.
         bindR (bondedOrigins env w selector vals) (\<lambda>origins.
         Inr (\<lparr>DelegatorAddress = selector, ValidatorAddress = valAddr, toAmount = TruncateInt t\<rparr> # origins))))"

fun delegationOrigins :: "'w reporter_env \<Rightarrow> 'w \<Rightarrow> addr \<Rightarrow> (string \<times> dec) list \<Rightarrow> token_origin_info list result" where
  "delegationOrigins env w selector [] = Inr []"
| "delegationOrigins env w selector ((v, shares) # ds) =
     bindR (reValAddressFromBech32 env v) (\<lambda>valAddr.
     bindR (skGetValidator (reStaking env) w valAddr) (\<lambda>val.
     if IsBonded val then bindR (skTokensFromSharesTruncated (reStaking env) val shares) (\<lambda>t.
       bindR (delegationOrigins env w selector ds) (\<lambda>origins.
       Inr (\<lparr>DelegatorAddress = selector, ValidatorAddress = valAddr, toAmount = TruncateInt t\<rparr> # origins)))
     else delegationOrigins env w selector ds))"

text \<open>With more delegations than there can be bonded validators, the walk is over the bonded
  validators.\<close>

definition selectorOrigins ::
  "'w reporter_env \<Rightarrow> 'w \<Rightarrow> nat \<Rightarrow> addr \<Rightarrow> selection \<Rightarrow> token_origin_info list result" where
  "selectorOrigins env w maxValSet selectorAddr selector =
     (if int maxValSet < uint (selDelegationsCount selector)
      then bindR (skBondedValidatorsByPower (reStaking env) w) (bondedOrigins env w selectorAddr)
      else bindR (skDelegatorDelegations (reStaking env) w selectorAddr) (delegationOrigins env w selectorAddr))"

definition originsSum :: "token_origin_info list \<Rightarrow> int" where
  "originsSum origins = sum_list (map toAmount origins)"

text \<open>The local variables of the loop. \<open>saEarliest\<close> is \<^verbatim>\<open>earliestFutureLock\<close>, \<open>saHashed\<close> what
  was written to the hasher.\<close>

record stake_acc =
  saTotal :: int
  saDelegates :: "token_origin_info list"
  saShares :: "selector_share list"
  saHashed :: bytes
  saEarliest :: int

definition stakeStep ::
  "'w reporter_env \<Rightarrow> ctx \<Rightarrow> 'w reporter_state \<Rightarrow> addr \<Rightarrow> stake_acc \<Rightarrow> stake_acc result" where
  "stakeStep env c st selectorAddr acc =
     bindR (skMaxValidators (reStaking env) (repWorld st)) (\<lambda>maxValSet.
     bindR (getR (kv_get (Selectors st) selectorAddr)) (\<lambda>selector.
     if BlockTime c < selLockedUntilTime selector then
       (let lockUnix = unixSeconds (selLockedUntilTime selector)
        in Inr (if saEarliest acc = 0 \<or> lockUnix < saEarliest acc then acc\<lparr>saEarliest := lockUnix\<rparr> else acc))
     else bindR (selectorOrigins env (repWorld st) maxValSet selectorAddr selector) (\<lambda>origins.
       let selectorTotal = originsSum origins;
           acc' = acc\<lparr>saTotal := saTotal acc + selectorTotal, saDelegates := saDelegates acc @ origins\<rparr>
       in Inr (if 0 < selectorTotal
               then acc'\<lparr>saShares := saShares acc @ [\<lparr>SelectorAddress = selectorAddr, ssAmount = selectorTotal\<rparr>],
                         saHashed := saHashed acc @ selectorAddr @ bigBytes selectorTotal\<rparr>
               else acc'))))"

definition zeroStake :: stake_acc where
  "zeroStake = \<lparr>saTotal = 0, saDelegates = [], saShares = [], saHashed = [], saEarliest = 0\<rparr>"

definition ErrReporterJailed :: error where "ErrReporterJailed = Err ''ErrReporterJailed''"

record reporter_stake =
  rsTotal :: int
  rsDelegates :: "token_origin_info list"
  rsShares :: "selector_share list"
  rsHash :: bytes

definition GetReporterStake ::
  "'w reporter_env \<Rightarrow> ctx \<Rightarrow> addr \<Rightarrow> 'w reporter_state \<Rightarrow> (reporter_stake \<times> 'w reporter_state) result" where
  "GetReporterStake env c repAddr st =
     bindR (getR (kv_get (Reporters st) repAddr)) (\<lambda>reporter.
     bindR (guardR (\<not> Jailed reporter) ErrReporterJailed) (\<lambda>_.
     bindR (foldR (stakeStep env c st) (selectorsOf repAddr st) zeroStake) (\<lambda>acc.
     Inr (\<lparr>rsTotal = saTotal acc, rsDelegates = saDelegates acc, rsShares = saShares acc,
           rsHash = reHash env (saHashed acc @ bigBytes (saTotal acc))\<rparr>,
          st\<lparr>RecalcAtTime := (if saEarliest acc = 0 then kv_del repAddr (RecalcAtTime st)
                               else kv_set repAddr (saEarliest acc) (RecalcAtTime st))\<rparr>))))"

definition SetReporterStakeByQueryId ::
  "ctx \<Rightarrow> addr \<Rightarrow> token_origin_info list \<Rightarrow> int \<Rightarrow> bytes \<Rightarrow> 'w reporter_state \<Rightarrow> 'w reporter_state" where
  "SetReporterStakeByQueryId c repAddr delegates totalTokens queryId st =
     st\<lparr>ReportByBlock := kv_set (repAddr, toU64 (BlockHeight c), queryId)
          \<lparr>TokenOrigins = delegates, daTotal = totalTokens\<rparr> (ReportByBlock st)\<rparr>"

section \<open>Snapshots\<close>

text \<open>The index of the old collection orders its entries by reporter, block and query id.\<close>

definition oldByBlock :: "'w reporter_state \<Rightarrow> ((addr \<times> u64 \<times> bytes) \<times> delegations_amounts) list" where
  "oldByBlock st = sort_key fst (map (\<lambda>((queryId, reporter, block), v). ((reporter, block, queryId), v)) (ReportOld st))"

definition newestBelow ::
  "addr \<Rightarrow> u64 \<Rightarrow> ((addr \<times> u64 \<times> bytes) \<times> delegations_amounts) list \<Rightarrow> ((addr \<times> u64 \<times> bytes) \<times> delegations_amounts) option" where
  "newestBelow reporter bound entries =
     firstOf (rev (filter (\<lambda>((r, block, q), v). r = reporter \<and> block < bound) entries))"

text \<open>The newest snapshot of a reporter below a block; the old collection only counts when
  the new one has nothing.\<close>

definition latestSnapshot ::
  "'w reporter_state \<Rightarrow> addr \<Rightarrow> u64 \<Rightarrow> ((addr \<times> u64 \<times> bytes) \<times> delegations_amounts) option" where
  "latestSnapshot st reporter bound =
     (case newestBelow reporter bound (ReportByBlock st) of
        Some e \<Rightarrow> Some e
      | None \<Rightarrow> newestBelow reporter bound (oldByBlock st))"

text \<open>\<open>None\<close> is the zero value, whose total is nil.\<close>

definition GetDelegationsAmount :: "'w reporter_state \<Rightarrow> addr \<Rightarrow> u64 \<Rightarrow> delegations_amounts option" where
  "GetDelegationsAmount st reporter blockNumber = map_option snd (latestSnapshot st reporter (blockNumber + 1))"

definition GetLastReportedAtBlock :: "ctx \<Rightarrow> 'w reporter_state \<Rightarrow> addr \<Rightarrow> u64" where
  "GetLastReportedAtBlock c st reporter =
     (case latestSnapshot st reporter (toU64 (BlockHeight c + 1)) of
        None \<Rightarrow> 0
      | Some e \<Rightarrow> fst (snd (fst e)))"

definition GetReporterTokensAtBlock :: "'w reporter_state \<Rightarrow> addr \<Rightarrow> u64 \<Rightarrow> int" where
  "GetReporterTokensAtBlock st reporter blockNumber =
     (case GetDelegationsAmount st reporter blockNumber of None \<Rightarrow> 0 | Some rep \<Rightarrow> daTotal rep)"

definition GetDelegatorTokensAtBlock :: "'w reporter_state \<Rightarrow> addr \<Rightarrow> u64 \<Rightarrow> int result" where
  "GetDelegatorTokensAtBlock st delegator blockNumber =
     bindR (getR (kv_get (Selectors st) delegator)) (\<lambda>del.
     Inr (originsSum (filter (\<lambda>r. DelegatorAddress r = delegator)
       (case GetDelegationsAmount st (selReporter del) blockNumber of None \<Rightarrow> [] | Some rep \<Rightarrow> TokenOrigins rep))))"

section \<open>The cached stake and reward periods\<close>

definition needsStakeRecalc :: "ctx \<Rightarrow> addr \<Rightarrow> 'w reporter_state \<Rightarrow> bool" where
  "needsStakeRecalc c repAddr st =
     (if kv_has (StakeRecalcFlag st) repAddr then True
      else if (case kv_get (RecalcAtTime st) repAddr of
                 None \<Rightarrow> False
               | Some recalcAt \<Rightarrow> recalcAt \<le> unixSeconds (BlockTime c)) then True
      else (let lastCalcBlock = GetLastReportedAtBlock c st repAddr
            in if lastCalcBlock = 0 then True
               else (case LastValSetUpdateHeight st of
                       None \<Rightarrow> True
                     | Some valSetUpdateHeight \<Rightarrow> lastCalcBlock \<le> valSetUpdateHeight)))"

definition emptyCounter :: distribution_queue_counter where
  "emptyCounter = \<lparr>qcHead = 0, qcTail = 0\<rparr>"

definition counterOf :: "'w reporter_state \<Rightarrow> distribution_queue_counter" where
  "counterOf st = (case DistributionQueueCounter st of None \<Rightarrow> emptyCounter | Some counter \<Rightarrow> counter)"

definition itemOf :: "addr \<Rightarrow> period_reward_data \<Rightarrow> distribution_queue_item" where
  "itemOf reporter data = \<lparr>qiReporter = reporter, qiSelectors = pdSelectors data, qiTotal = pdTotal data,
     qiRewardAmount = pdRewardAmount data\<rparr>"

definition queueForDistribution :: "addr \<Rightarrow> period_reward_data \<Rightarrow> 'w reporter_state \<Rightarrow> 'w reporter_state" where
  "queueForDistribution reporter data st =
     (let counter = counterOf st
      in st\<lparr>DistributionQueue := kv_set (qcTail counter) (itemOf reporter data) (DistributionQueue st),
            DistributionQueueCounter := Some (counter\<lparr>qcTail := qcTail counter + 1\<rparr>)\<rparr>)"

definition newPeriod :: "selector_share list \<Rightarrow> int \<Rightarrow> bytes \<Rightarrow> period_reward_data" where
  "newPeriod selectorShares totalTokens newHash =
     \<lparr>pdSelectors = selectorShares, pdTotal = totalTokens, pdRewardAmount = 0, pdHash = newHash\<rparr>"

definition handlePeriodTracking ::
  "addr \<Rightarrow> selector_share list \<Rightarrow> int \<Rightarrow> bytes \<Rightarrow> 'w reporter_state \<Rightarrow> bool \<times> 'w reporter_state" where
  "handlePeriodTracking repAddr selectorShares totalTokens newHash st =
     (let fresh = (\<lambda>st. st\<lparr>ReporterPeriodData :=
                    kv_set repAddr (newPeriod selectorShares totalTokens newHash) (ReporterPeriodData st)\<rparr>)
      in case kv_get (ReporterPeriodData st) repAddr of
           None \<Rightarrow> (True, fresh st)
         | Some prevData \<Rightarrow>
             if pdHash prevData = newHash then (False, st)
             else (True, fresh (if 0 < pdRewardAmount prevData then queueForDistribution repAddr prevData st else st)))"

definition recalculateStake ::
  "'w reporter_env \<Rightarrow> ctx \<Rightarrow> addr \<Rightarrow> bytes \<Rightarrow> 'w reporter_state \<Rightarrow> (int \<times> 'w reporter_state) result" where
  "recalculateStake env c repAddr queryId st =
     bindR (GetReporterStake env c repAddr st) (\<lambda>(stake, st1).
     let st2 = st1\<lparr>StakeRecalcFlag := kv_del repAddr (StakeRecalcFlag st1)\<rparr>;
         (changed, st3) = handlePeriodTracking repAddr (rsShares stake) (rsTotal stake) (rsHash stake) st2
     in Inr (rsTotal stake,
             if changed then SetReporterStakeByQueryId c repAddr (rsDelegates stake) (rsTotal stake) queryId st3
             else st3))"

definition ReporterStake ::
  "'w reporter_env \<Rightarrow> ctx \<Rightarrow> addr \<Rightarrow> bytes \<Rightarrow> 'w reporter_state \<Rightarrow> (int \<times> 'w reporter_state) result" where
  "ReporterStake env c repAddr queryId st =
     (if needsStakeRecalc c repAddr st then recalculateStake env c repAddr queryId st
      else case GetDelegationsAmount st repAddr (toU64 (BlockHeight c)) of
             Some cached \<Rightarrow> if 0 < daTotal cached then Inr (daTotal cached, st)
                             else recalculateStake env c repAddr queryId st
           | None \<Rightarrow> recalculateStake env c repAddr queryId st)"

section \<open>What the stake is made of\<close>

text \<open>Staking never turns shares into a negative number of tokens.\<close>

definition tokens_law :: "'w reporter_env \<Rightarrow> bool" where
  "tokens_law env \<longleftrightarrow>
     (\<forall>val shares t. skTokensFromSharesTruncated (reStaking env) val shares = Inr t \<longrightarrow> 0 \<le> t)"

definition sharesSum :: "selector_share list \<Rightarrow> int" where
  "sharesSum shares = sum_list (map ssAmount shares)"

lemma sum_simps [simp]:
  "originsSum [] = 0" "originsSum (x # xs) = toAmount x + originsSum xs" "originsSum (xs @ ys) = originsSum xs + originsSum ys"
  "sharesSum [] = 0" "sharesSum (s # ss) = ssAmount s + sharesSum ss" "sharesSum (ss @ ss') = sharesSum ss + sharesSum ss'"
  by (simp_all add: originsSum_def sharesSum_def)

text \<open>Every origin found for a selector is its own and, under the law, no debt.\<close>

abbreviation own_origins :: "addr \<Rightarrow> token_origin_info list \<Rightarrow> bool" where
  "own_origins a origins \<equiv> \<forall>x \<in> set origins. DelegatorAddress x = a \<and> 0 \<le> toAmount x"

lemma TruncateInt_pos: "0 \<le> t \<Longrightarrow> 0 \<le> TruncateInt t"
  by (simp add: TruncateInt_nonneg pos_imp_zdiv_nonneg_iff)

lemma bondedOrigins_own:
  "tokens_law env \<Longrightarrow> bondedOrigins env w a vals = Inr origins \<Longrightarrow> own_origins a origins"
proof (induction vals arbitrary: origins)
  case Nil
  then show ?case by simp
next
  case (Cons val vals)
  obtain valAddr where "reValAddressFromBech32 env (vOperator val) = Inr valAddr"
    using Cons.prems(2) by auto
  then show ?case using Cons
    by (cases "skGetDelegation (reStaking env) w a valAddr")
      (auto simp: tokens_law_def TruncateInt_pos split: if_splits)
qed

lemma delegationOrigins_own:
  "tokens_law env \<Longrightarrow> delegationOrigins env w a ds = Inr origins \<Longrightarrow> own_origins a origins"
proof (induction ds arbitrary: origins)
  case Nil
  then show ?case by simp
next
  case (Cons d ds)
  then show ?case
    by (cases d) (auto simp: tokens_law_def TruncateInt_pos split: if_splits)
qed

lemma selectorOrigins_own:
  "tokens_law env \<Longrightarrow> selectorOrigins env w n a s = Inr origins \<Longrightarrow> own_origins a origins"
  by (cases "int n < uint (selDelegationsCount s)")
    (auto simp: selectorOrigins_def dest: bondedOrigins_own delegationOrigins_own)

lemma own_sum_nonneg: "own_origins a origins \<Longrightarrow> 0 \<le> originsSum origins"
  by (induction origins) auto

text \<open>A selector that takes part: chosen reporter, no lock left.\<close>

definition takes_part :: "ctx \<Rightarrow> 'w reporter_state \<Rightarrow> addr \<Rightarrow> addr \<Rightarrow> bool" where
  "takes_part c st repAddr a \<longleftrightarrow>
     (\<exists>s. kv_get (Selectors st) a = Some s \<and> selReporter s = repAddr \<and> selLockedUntilTime s \<le> BlockTime c)"

text \<open>The tokens the origins attribute to one account.\<close>

definition tokensOf :: "addr \<Rightarrow> token_origin_info list \<Rightarrow> int" where
  "tokensOf a origins = originsSum (filter (\<lambda>x. DelegatorAddress x = a) origins)"

definition shareOf :: "addr \<Rightarrow> selector_share list \<Rightarrow> int" where
  "shareOf a shares = sharesSum (filter (\<lambda>s. SelectorAddress s = a) shares)"

lemma tokensOf_append [simp]: "tokensOf a (xs @ ys) = tokensOf a xs + tokensOf a ys"
  by (simp add: tokensOf_def)

lemma shareOf_append [simp]: "shareOf a (xs @ ys) = shareOf a xs + shareOf a ys"
  by (simp add: shareOf_def)

lemma tokensOf_own: "own_origins b origins \<Longrightarrow> tokensOf a origins = (if a = b then originsSum origins else 0)"
  by (induction origins) (auto simp: tokensOf_def)

text \<open>The invariant of the loop over the selectors already walked.\<close>

definition stake_inv :: "ctx \<Rightarrow> 'w reporter_state \<Rightarrow> addr \<Rightarrow> stake_acc \<Rightarrow> bool" where
  "stake_inv c st repAddr acc \<longleftrightarrow>
     saTotal acc = originsSum (saDelegates acc) \<and> sharesSum (saShares acc) = saTotal acc
     \<and> (\<forall>x \<in> set (saDelegates acc). takes_part c st repAddr (DelegatorAddress x) \<and> 0 \<le> toAmount x)
     \<and> (\<forall>s \<in> set (saShares acc). 0 < ssAmount s)
     \<and> (\<forall>a. shareOf a (saShares acc) = tokensOf a (saDelegates acc))"

lemma stake_inv_zero: "stake_inv c st repAddr zeroStake"
  by (simp add: stake_inv_def zeroStake_def shareOf_def tokensOf_def)

lemma stakeStep_inv:
  assumes "tokens_law env" and "kv_ok (Selectors st)" and "a \<in> set (selectorsOf repAddr st)"
    and "stake_inv c st repAddr acc" and "stakeStep env c st a acc = Inr acc'"
  shows "stake_inv c st repAddr acc'"
proof -
  obtain s where s: "kv_get (Selectors st) a = Some s" and "selReporter s = repAddr"
    using assms(2,3) by (auto simp: selectorsOf_def kv_index_mem)
  show ?thesis
  proof (cases "BlockTime c < selLockedUntilTime s")
    case True
    then show ?thesis using assms(4,5) s
      by (auto simp: stakeStep_def Let_def stake_inv_def split: if_splits)
  next
    case False
    then have part: "takes_part c st repAddr a" using s \<open>selReporter s = repAddr\<close> by (simp add: takes_part_def)
    obtain n origins where origins: "selectorOrigins env (repWorld st) n a s = Inr origins"
      and acc': "acc' = (let selectorTotal = originsSum origins;
           acc' = acc\<lparr>saTotal := saTotal acc + selectorTotal, saDelegates := saDelegates acc @ origins\<rparr>
         in if 0 < selectorTotal
            then acc'\<lparr>saShares := saShares acc @ [\<lparr>SelectorAddress = a, ssAmount = selectorTotal\<rparr>],
                      saHashed := saHashed acc @ a @ bigBytes selectorTotal\<rparr>
            else acc')"
      using assms(5) s False by (auto simp: stakeStep_def Let_def)
    have own: "own_origins a origins" by (rule selectorOrigins_own [OF assms(1) origins])
    have zero: "originsSum origins = 0" if "\<not> 0 < originsSum origins"
      using own_sum_nonneg [OF own] that by simp
    show ?thesis using assms(4) part own zero unfolding acc' Let_def stake_inv_def
      by (auto simp: tokensOf_own [OF own]) (auto simp: shareOf_def)
  qed
qed

lemma GetReporterStake_run:
  assumes "GetReporterStake env c repAddr st = Inr (stake, st')"
  obtains acc reporter where "kv_get (Reporters st) repAddr = Some reporter" "\<not> Jailed reporter"
    "foldR (stakeStep env c st) (selectorsOf repAddr st) zeroStake = Inr acc"
    "rsTotal stake = saTotal acc" "rsDelegates stake = saDelegates acc" "rsShares stake = saShares acc"
    "\<exists>recalc. st' = st\<lparr>RecalcAtTime := recalc\<rparr>"
proof -
  from assms obtain reporter acc where run: "kv_get (Reporters st) repAddr = Some reporter" "\<not> Jailed reporter"
    "foldR (stakeStep env c st) (selectorsOf repAddr st) zeroStake = Inr acc"
    and result: "(stake, st') = (\<lparr>rsTotal = saTotal acc, rsDelegates = saDelegates acc, rsShares = saShares acc,
           rsHash = reHash env (saHashed acc @ bigBytes (saTotal acc))\<rparr>,
          st\<lparr>RecalcAtTime := (if saEarliest acc = 0 then kv_del repAddr (RecalcAtTime st)
                               else kv_set repAddr (saEarliest acc) (RecalcAtTime st))\<rparr>)"
    unfolding GetReporterStake_def bindR_eq_Inr getR_eq_Inr guardR_eq_Inr by (elim exE conjE) simp
  show ?thesis by (rule that [OF run]) (use result in auto)
qed

lemma recalculateStake_run:
  assumes "recalculateStake env c repAddr queryId st = Inr (n, st')"
  obtains stake st1 changed st3 where "GetReporterStake env c repAddr st = Inr (stake, st1)"
    "handlePeriodTracking repAddr (rsShares stake) (rsTotal stake) (rsHash stake)
       (st1\<lparr>StakeRecalcFlag := kv_del repAddr (StakeRecalcFlag st1)\<rparr>) = (changed, st3)"
    "st' = (if changed then SetReporterStakeByQueryId c repAddr (rsDelegates stake) (rsTotal stake) queryId st3 else st3)"
    "n = rsTotal stake"
proof -
  from assms obtain stake st1 where "GetReporterStake env c repAddr st = Inr (stake, st1)"
    by (auto simp: recalculateStake_def)
  then show ?thesis using assms
    by (intro that [OF _ surjective_pairing]) (auto simp: recalculateStake_def Let_def case_prod_beta)
qed

lemma GetReporterStake_inv:
  assumes "tokens_law env" and "kv_ok (Selectors st)"
    and "GetReporterStake env c repAddr st = Inr (stake, st')"
  obtains acc where "stake_inv c st repAddr acc"
    "rsTotal stake = saTotal acc" "rsDelegates stake = saDelegates acc" "rsShares stake = saShares acc"
proof -
  from assms(3) obtain acc where acc: "foldR (stakeStep env c st) (selectorsOf repAddr st) zeroStake = Inr acc"
    and eqs: "rsTotal stake = saTotal acc" "rsDelegates stake = saDelegates acc" "rsShares stake = saShares acc"
    by (rule GetReporterStake_run)
  have "stake_inv c st repAddr acc"
    by (rule foldR_invariant [where I = "stake_inv c st repAddr", OF acc stake_inv_zero])
      (rule stakeStep_inv [OF assms(1,2)])
  then show ?thesis using that eqs by blast
qed

text \<open>C18: the stake a reporter reports with is the sum of the tokens of its origins and of the
  shares its selectors are rewarded by; every origin belongs to a selector that chose this
  reporter and whose lock, if it ever switched, has ended; and every account is rewarded by
  exactly the tokens it stands behind the report with.\<close>

theorem stake_accounted:
  assumes "tokens_law env" and "kv_ok (Selectors st)"
    and "GetReporterStake env c repAddr st = Inr (stake, st')"
  shows "rsTotal stake = originsSum (rsDelegates stake) \<and> rsTotal stake = sharesSum (rsShares stake)
    \<and> (\<forall>x \<in> set (rsDelegates stake). takes_part c st repAddr (DelegatorAddress x) \<and> 0 \<le> toAmount x)
    \<and> (\<forall>s \<in> set (rsShares stake). 0 < ssAmount s)
    \<and> (\<forall>a. shareOf a (rsShares stake) = tokensOf a (rsDelegates stake))"
  using GetReporterStake_inv [OF assms] unfolding stake_inv_def by metis

end
