(* ===== verification/RepEscrow.thy ===== *)
theory RepEscrow
  imports RepStake
begin

text \<open>
  Stake in disputes (\<^verbatim>\<open>x/reporter/keeper/withdraw.go\<close> and the returns of \<^verbatim>\<open>distribution.go\<close>):
  paying a dispute fee out of the stake behind a reporter, escrowing the stake behind a
  disputed report wherever it has gone since (delegated, unbonding, redelegated), and giving
  both back. The tokens move in staking and bank, the SDK's; the reporter keeps the record
  of who paid what.
\<close>

definition disputePool :: holder where "disputePool = Module ''dispute''"

definition tokensToDispute :: "'w reporter_env \<Rightarrow> holder \<Rightarrow> int \<Rightarrow> 'w reporter_state \<Rightarrow> 'w reporter_state result" where
  "tokensToDispute env fromPool amount st =
     bindR (bkSendCoins (reBank env) fromPool disputePool BondDenom amount (repWorld st)) (\<lambda>w.
     Inr (st\<lparr>repWorld := w\<rparr>))"

section \<open>Fees paid from stake\<close>

record selector_shares =
  shValAddr :: bytes
  shValidator :: validator
  shShares :: dec

record selectors_info =
  siDelAddr :: addr
  siTotalTokens :: dec
  siInfo :: "selector_shares list"

text \<open>The walk over a selector's delegations stops silently at an address or a validator that
  cannot be resolved.\<close>

fun feeDelegations :: "'w reporter_env \<Rightarrow> 'w \<Rightarrow> (string \<times> dec) list \<Rightarrow> (dec \<times> selector_shares list) result" where
  "feeDelegations env w [] = Inr (0, [])"
| "feeDelegations env w ((v, shares) # ds) =
     (case reValAddressFromBech32 env v of Inl _ \<Rightarrow> Inr (0, []) | Inr valAddr \<Rightarrow>
      case skGetValidator (reStaking env) w valAddr of Inl _ \<Rightarrow> Inr (0, []) | Inr val \<Rightarrow>
      if IsBonded val then
        bindR (tokensFromShares env val shares) (\<lambda>delTokens.
        bindR (feeDelegations env w ds) (\<lambda>(tot, infos).
        Inr (delTokens + tot, \<lparr>shValAddr = valAddr, shValidator = val, shShares = shares\<rparr> # infos)))
      else feeDelegations env w ds)"

fun feeSelectors :: "'w reporter_env \<Rightarrow> 'w \<Rightarrow> addr list \<Rightarrow> (dec \<times> selectors_info list) result" where
  "feeSelectors env w [] = Inr (0, [])"
| "feeSelectors env w (a # as) =
     bindR (skDelegatorDelegations (reStaking env) w a) (\<lambda>ds.
     bindR (feeDelegations env w ds) (\<lambda>(tot, infos).
     bindR (feeSelectors env w as) (\<lambda>(reporterTotal, selectorsList).
     Inr (tot + reporterTotal, \<lparr>siDelAddr = a, siTotalTokens = tot, siInfo = infos\<rparr> # selectorsList))))"

text \<open>The accumulated state of the payment loop: \<^verbatim>\<open>feeTracker\<close>, \<^verbatim>\<open>totalTrackedAmount\<close> and the
  chain.\<close>

type_synonym 'w fee_acc = "token_origin_info list \<times> int \<times> 'w reporter_state"

fun feeFromSelector ::
  "'w reporter_env \<Rightarrow> ctx \<Rightarrow> addr \<Rightarrow> selector_shares list \<Rightarrow> dec \<Rightarrow> 'w fee_acc \<Rightarrow> 'w fee_acc result" where
  "feeFromSelector env c delAddr [] unbondAmt acc = Inr acc"
| "feeFromSelector env c delAddr (info # infos) unbondAmt (tracker, tot, st) =
     bindR (tokensFromShares env (shValidator info) (shShares info)) (\<lambda>stakeWithValidator.
     if unbondAmt \<le> stakeWithValidator then
       bindR (skSharesFromTokens (reStaking env) (shValidator info) (TruncateInt unbondAmt)) (\<lambda>sharesToUnbond.
       bindR (unbond env c delAddr (shValAddr info) sharesToUnbond st) (\<lambda>(escrowedAmt, st').
       Inr (tracker @ [\<lparr>DelegatorAddress = delAddr, ValidatorAddress = shValAddr info, toAmount = TruncateInt unbondAmt\<rparr>],
            tot + escrowedAmt, st')))
     else
       bindR (unbond env c delAddr (shValAddr info) (shShares info) st) (\<lambda>(escrowedAmt, st').
       let acc' = (tracker @ [\<lparr>DelegatorAddress = delAddr, ValidatorAddress = shValAddr info, toAmount = escrowedAmt\<rparr>],
                   tot + escrowedAmt, st')
       in if unbondAmt - stakeWithValidator = 0 then Inr acc'
          else feeFromSelector env c delAddr infos (unbondAmt - stakeWithValidator) acc'))"

definition feeStep ::
  "'w reporter_env \<Rightarrow> ctx \<Rightarrow> dec \<Rightarrow> dec \<Rightarrow> selectors_info \<Rightarrow> 'w fee_acc \<Rightarrow> 'w fee_acc result" where
  "feeStep env c reporterTotalTokens fee selectors acc =
     bindR (decQuo (reDec env) (siTotalTokens selectors) reporterTotalTokens) (\<lambda>part.
     feeFromSelector env c (siDelAddr selectors) (siInfo selectors) (dmul (reDec env) part fee) acc)"

definition FeefromReporterStake ::
  "'w reporter_env \<Rightarrow> ctx \<Rightarrow> addr \<Rightarrow> int \<Rightarrow> bytes \<Rightarrow> bool \<Rightarrow> 'w reporter_state \<Rightarrow> 'w reporter_state result" where
  "FeefromReporterStake env c reporterAddr amt hashId isFirstRound st =
     bindR (feeSelectors env (repWorld st) (selectorsOf reporterAddr st)) (\<lambda>(reporterTotalTokens, selectorsList).
     bindR (guardR (dec_of amt \<le> reporterTotalTokens) (Err ''insufficient stake to pay fee'')) (\<lambda>_.
     bindR (foldR (feeStep env c reporterTotalTokens (dec_of amt)) selectorsList ([], 0, st)) (\<lambda>(feeTracker, totalTracked, st1).
     let prev = kv_get (FeePaidFromStake st1) hashId;
         origins = feeTracker @ (case prev of None \<Rightarrow> [] | Some p \<Rightarrow> TokenOrigins p);
         prevTotal = (case prev of None \<Rightarrow> 0 | Some p \<Rightarrow> daTotal p)
     in bindR (tokensToDispute env bondedTokensPool totalTracked st1) (\<lambda>st2.
        Inr (if isFirstRound
             then st2\<lparr>FeePaidFromStake := kv_set hashId \<lparr>TokenOrigins = origins, daTotal = totalTracked + prevTotal\<rparr>
                        (FeePaidFromStake st2)\<rparr>
             else st2)))))"

section \<open>Escrow of a disputed stake\<close>

fun findRedelegation :: "'w reporter_env \<Rightarrow> addr \<Rightarrow> (string \<times> string) list \<Rightarrow> bytes result" where
  "findRedelegation env delAddr [] = Inl (Err ''redelegation to destination validator not found'')"
| "findRedelegation env delAddr ((delegator, dst) # reds) =
     (if equalFold delegator (reAccString env delAddr) then reValAddressFromBech32 env dst
      else findRedelegation env delAddr reds)"

definition getDstValidator :: "'w reporter_env \<Rightarrow> addr \<Rightarrow> bytes \<Rightarrow> 'w reporter_state \<Rightarrow> bytes result" where
  "getDstValidator env delAddr valAddr st =
     bindR (skRedelegationsFromSrc (reStaking env) (repWorld st) valAddr) (findRedelegation env delAddr)"

text \<open>
  The loop ranges over the array of entries as it was at the start, while \<^verbatim>\<open>RemoveEntry\<close>
  shifts the entries of the delegation inside the same array: the model carries both, the
  array the loop reads (\<open>arr\<close>) and the entries the delegation has left (\<open>ents\<close>).
\<close>

fun ubdLoop ::
  "'w reporter_env \<Rightarrow> nat list \<Rightarrow> ubd_entry list \<times> ubd_entry list \<Rightarrow> int \<Rightarrow> int \<Rightarrow> (ubd_entry list \<times> int \<times> int) result" where
  "ubdLoop env [] (arr, ents) tokens removeAmt = Inr (ents, tokens, removeAmt)"
| "ubdLoop env (i # is) (arr, ents) tokens removeAmt =
     (let u = arr ! i in
      if ubBalance u < tokens then
        bindR (reRemoveEntry env i (arr, ents)) (\<lambda>ae.
        ubdLoop env is ae (tokens - ubBalance u) (removeAmt + ubBalance u))
      else bindR (guardR (i < length ents) ErrPanic) (\<lambda>_.
        Inr (ents[i := u\<lparr>ubBalance := ubBalance u - tokens, ubInitialBalance := ubInitialBalance u - tokens\<rparr>],
             0, removeAmt + tokens)))"

definition deductUnbondingDelegation ::
  "'w reporter_env \<Rightarrow> addr \<Rightarrow> bytes \<Rightarrow> int \<Rightarrow> 'w reporter_state \<Rightarrow> (int \<times> 'w reporter_state) result" where
  "deductUnbondingDelegation env delAddr valAddr tokens st =
     bindR (skGetUnbondingDelegation (reStaking env) (repWorld st) delAddr valAddr) (\<lambda>entries.
     bindR (guardR (entries \<noteq> []) (Err ''ErrNoUnbondingDelegationEntries'')) (\<lambda>_.
     bindR (ubdLoop env [0..<length entries] (entries, entries) tokens 0) (\<lambda>(ents, tokens', removeAmt).
     bindR (if ents = [] then skRemoveUnbondingDelegation (reStaking env) delAddr valAddr (repWorld st)
            else skSetUnbondingDelegation (reStaking env) delAddr valAddr ents (repWorld st)) (\<lambda>w.
     bindR (tokensToDispute env notBondedTokensPool removeAmt (st\<lparr>repWorld := w\<rparr>)) (\<lambda>st'.
     Inr (tokens', st'))))))"

definition MoveTokensFromValidator ::
  "'w reporter_env \<Rightarrow> validator \<Rightarrow> int \<Rightarrow> 'w reporter_state \<Rightarrow> 'w reporter_state result" where
  "MoveTokensFromValidator env val amount st =
     (case vStatus val of
        Bonded \<Rightarrow> tokensToDispute env bondedTokensPool amount st
      | Unbonding \<Rightarrow> tokensToDispute env notBondedTokensPool amount st
      | Unbonded \<Rightarrow> Inl (Err ''unknown validator status''))"

definition deductFromdelegation ::
  "'w reporter_env \<Rightarrow> ctx \<Rightarrow> addr \<Rightarrow> bytes \<Rightarrow> dec \<Rightarrow> 'w reporter_state \<Rightarrow> (dec \<times> 'w reporter_state) result" where
  "deductFromdelegation env c delAddr valAddr delTokens st =
     (case skGetDelegation (reStaking env) (repWorld st) delAddr valAddr of
        Inl e \<Rightarrow> if e = ErrNoDelegation then Inr (delTokens, st) else Inl e
      | Inr delShares \<Rightarrow>
          bindR (skGetValidator (reStaking env) (repWorld st) valAddr) (\<lambda>val.
          bindR (tokensFromShares env val delShares) (\<lambda>currentTokens.
          bindR (if delTokens \<le> currentTokens
                 then bindR (skSharesFromTokens (reStaking env) val (reRoundInt env delTokens)) (\<lambda>shares. Inr (shares, 0))
                 else Inr (delShares, delTokens - currentTokens)) (\<lambda>(shares, rest).
          if shares = 0 then Inr (rest, st)
          else bindR (unbond env c delAddr valAddr shares st) (\<lambda>(removedTokens, st1).
               bindR (MoveTokensFromValidator env val removedTokens st1) (\<lambda>st2.
               Inr (rest, st2)))))))"

definition undelegate ::
  "'w reporter_env \<Rightarrow> ctx \<Rightarrow> addr \<Rightarrow> bytes \<Rightarrow> dec \<Rightarrow> 'w reporter_state \<Rightarrow> (int \<times> 'w reporter_state) result" where
  "undelegate env c delAddr valAddr delTokens st =
     bindR (deductFromdelegation env c delAddr valAddr delTokens st) (\<lambda>(remainingFromdel, st1).
     if remainingFromdel = 0 then Inr (0, st1)
     else case deductUnbondingDelegation env delAddr valAddr (TruncateInt remainingFromdel) st1 of
            Inl e \<Rightarrow> if e = ErrNoUnbondingDelegation then Inr (TruncateInt remainingFromdel, st1) else Inl e
          | Inr r \<Rightarrow> Inr r)"

definition recordOrigin :: "addr \<Rightarrow> bytes \<Rightarrow> int \<Rightarrow> token_origin_info list \<Rightarrow> token_origin_info list" where
  "recordOrigin delAddr valAddr amount origins =
     (if amount = 0 then origins
      else origins @ [\<lparr>DelegatorAddress = delAddr, ValidatorAddress = valAddr, toAmount = amount\<rparr>])"

definition escrowShare ::
  "'w reporter_env \<Rightarrow> ctx \<Rightarrow> token_origin_info \<Rightarrow> int \<Rightarrow> token_origin_info list \<Rightarrow> 'w reporter_state \<Rightarrow>
   (token_origin_info list \<times> 'w reporter_state) result" where
  "escrowShare env c del delegatorShare disputeTokens st =
     (let delAddr = DelegatorAddress del; valAddr = ValidatorAddress del in
      bindR (undelegate env c delAddr valAddr (dec_of delegatorShare) st) (\<lambda>(remaining, st1).
      let disputeTokens = recordOrigin delAddr valAddr (delegatorShare - remaining) disputeTokens
      in if remaining = 0 then Inr (disputeTokens, st1)
         else bindR (getDstValidator env delAddr valAddr st1) (\<lambda>dstVal.
              bindR (undelegate env c delAddr dstVal (dec_of remaining) st1) (\<lambda>(_, st2).
              Inr (recordOrigin delAddr dstVal remaining disputeTokens, st2)))))"

fun escrowLoop ::
  "'w reporter_env \<Rightarrow> ctx \<Rightarrow> int \<Rightarrow> int \<Rightarrow> token_origin_info list \<Rightarrow> int \<Rightarrow> token_origin_info list \<Rightarrow> 'w reporter_state \<Rightarrow>
   (token_origin_info list \<times> 'w reporter_state) result" where
  "escrowLoop env c totalTokens amt [] leftover disputeTokens st = Inr (disputeTokens, st)"
| "escrowLoop env c totalTokens amt (del # dels) leftover disputeTokens st =
     bindR (decQuo (reDec env) (dec_of (toAmount del)) (dec_of totalTokens)) (\<lambda>part.
     let share = reRoundInt env (dmul (reDec env) part (dec_of amt));
         leftover = leftover - share;
         delegatorShare = (if dels = [] then share + leftover else share)
     in bindR (escrowShare env c del delegatorShare disputeTokens st) (\<lambda>(disputeTokens, st).
        escrowLoop env c totalTokens amt dels leftover disputeTokens st))"

definition EscrowReporterStake ::
  "'w reporter_env \<Rightarrow> ctx \<Rightarrow> addr \<Rightarrow> u64 \<Rightarrow> u64 \<Rightarrow> int \<Rightarrow> bytes \<Rightarrow> bytes \<Rightarrow> 'w reporter_state \<Rightarrow> 'w reporter_state result" where
  "EscrowReporterStake env c reporterAddr reportPower height amt queryId hashId st =
     (let origins = (case GetDelegationsAmount st reporterAddr height of None \<Rightarrow> [] | Some report \<Rightarrow> TokenOrigins report);
          totalTokens = PowerReduction * i64 (uint reportPower)
      in bindR (escrowLoop env c totalTokens amt origins amt [] st) (\<lambda>(disputeTokens, st1).
         Inr (st1\<lparr>DisputedDelegationAmounts := kv_set hashId \<lparr>TokenOrigins = disputeTokens, daTotal = amt\<rparr>
                (DisputedDelegationAmounts st1)\<rparr>)))"

section \<open>Returning tokens\<close>

fun bondedLoop :: "'w reporter_env \<Rightarrow> 'w \<Rightarrow> nat \<Rightarrow> bytes list \<Rightarrow> validator list result" where
  "bondedLoop env w 0 addrs = Inr []"
| "bondedLoop env w (Suc n) [] = Inr []"
| "bondedLoop env w (Suc n) (a # addrs) =
     bindR (wrapR ''validator record not found'' (skGetValidator (reStaking env) w a)) (\<lambda>val.
     if IsBonded val then bindR (bondedLoop env w n addrs) (\<lambda>vals. Inr (val # vals))
     else bondedLoop env w (Suc n) addrs)"

definition GetBondedValidators :: "'w reporter_env \<Rightarrow> nat \<Rightarrow> 'w reporter_state \<Rightarrow> validator list result" where
  "GetBondedValidators env maxVals st =
     bindR (skValidatorsPowerStore (reStaking env) (repWorld st)) (bondedLoop env (repWorld st) maxVals)"

definition firstBonded :: "'w reporter_env \<Rightarrow> error \<Rightarrow> 'w reporter_state \<Rightarrow> validator result" where
  "firstBonded env none st =
     bindR (GetBondedValidators env 1 st) (\<lambda>vals.
     case vals of [] \<Rightarrow> Inl none | val # _ \<Rightarrow> Inr val)"

definition noValidators :: error where
  "noValidators = Err ''no validators found in staking module to return tokens to''"

definition slashReturnShare :: "dec_ops \<Rightarrow> int \<Rightarrow> int \<Rightarrow> int \<Rightarrow> dec result" where
  "slashReturnShare D amt tot sourceAmount =
     (if 0 < amt - tot
      then bindR (decQuo D (dec_of sourceAmount) (dec_of tot)) (\<lambda>part. Inr (dmul D part (dec_of amt)))
      else Inr (dec_of sourceAmount))"

definition returnOrigin ::
  "'w reporter_env \<Rightarrow> ctx \<Rightarrow> int \<Rightarrow> int \<Rightarrow> token_origin_info \<Rightarrow> string \<times> 'w reporter_state \<Rightarrow> (string \<times> 'w reporter_state) result" where
  "returnOrigin env c amt tot source acc =
     (let st = snd acc in
      bindR (case skGetValidator (reStaking env) (repWorld st) (ValidatorAddress source) of
               Inr val \<Rightarrow> Inr val
             | Inl e \<Rightarrow> if e = ErrNoValidatorFound then firstBonded env noValidators st else Inl e) (\<lambda>val.
      bindR (slashReturnShare (reDec env) amt tot (toAmount source)) (\<lambda>shareAmt.
      let (tokenSrc, pool) = (if IsBonded val then (Bonded, ''bonded_tokens_pool'') else (Unbonded, ''not_bonded_tokens_pool''))
      in bindR (delegate env c (DelegatorAddress source) (TruncateInt shareAmt) tokenSrc val st) (\<lambda>st'.
         Inr (pool, st')))))"

definition repReturnSlashedTokens ::
  "'w reporter_env \<Rightarrow> ctx \<Rightarrow> int \<Rightarrow> bytes \<Rightarrow> 'w reporter_state \<Rightarrow> (string \<times> 'w reporter_state) result" where
  "repReturnSlashedTokens env c amt hashId st =
     bindR (getR (kv_get (DisputedDelegationAmounts st) hashId)) (\<lambda>snapshot.
     bindR (foldR (returnOrigin env c amt (daTotal snapshot)) (TokenOrigins snapshot) ([], st)) (\<lambda>(pool, st').
     Inr (pool, st'\<lparr>DisputedDelegationAmounts := kv_del hashId (DisputedDelegationAmounts st')\<rparr>)))"

definition refundOrigin ::
  "'w reporter_env \<Rightarrow> ctx \<Rightarrow> int \<Rightarrow> int \<Rightarrow> token_origin_info \<Rightarrow> 'w reporter_state \<Rightarrow> 'w reporter_state result" where
  "refundOrigin env c amt tot source st =
     bindR (case skGetValidator (reStaking env) (repWorld st) (ValidatorAddress source) of
              Inl e \<Rightarrow> if e = ErrNoValidatorFound then firstBonded env noValidators st else Inl e
            | Inr val \<Rightarrow> if IsBonded val then Inr val else firstBonded env ErrPanic st) (\<lambda>val.
     bindR (decQuo (reDec env) (dmul (reDec env) (dec_of (toAmount source)) (dec_of amt)) (dec_of tot)) (\<lambda>shareAmtDec.
     delegate env c (DelegatorAddress source) (TruncateInt shareAmtDec) Bonded val st))"

definition FeeRefund :: "'w reporter_env \<Rightarrow> ctx \<Rightarrow> bytes \<Rightarrow> int \<Rightarrow> 'w reporter_state \<Rightarrow> 'w reporter_state result" where
  "FeeRefund env c hashId amt st =
     bindR (getR (kv_get (FeePaidFromStake st) hashId)) (\<lambda>trackedFees.
     bindR (foldR (refundOrigin env c amt (daTotal trackedFees)) (TokenOrigins trackedFees) st) (\<lambda>st'.
     Inr (st'\<lparr>FeePaidFromStake := kv_del hashId (FeePaidFromStake st')\<rparr>)))"

text \<open>The first delegation to a bonded validator takes the amount; an error of that delegation
  only ends the walk. \<open>True\<close> in the result is \<^verbatim>\<open>isDelegated\<close>.\<close>

fun addToFirst ::
  "'w reporter_env \<Rightarrow> ctx \<Rightarrow> addr \<Rightarrow> int \<Rightarrow> (string \<times> dec) list \<Rightarrow> 'w reporter_state \<Rightarrow> bool \<times> 'w reporter_state" where
  "addToFirst env c acc amt [] st = (False, st)"
| "addToFirst env c acc amt ((v, shares) # ds) st =
     (case reValAddressFromBech32 env v of Inl _ \<Rightarrow> (False, st) | Inr valAddr \<Rightarrow>
      case skGetValidator (reStaking env) (repWorld st) valAddr of Inl _ \<Rightarrow> (False, st) | Inr val \<Rightarrow>
      if IsBonded val then
        (case delegate env c acc amt Bonded val st of Inl _ \<Rightarrow> (True, st) | Inr st' \<Rightarrow> (True, st'))
      else addToFirst env c acc amt ds st)"

definition AddAmountToStake :: "'w reporter_env \<Rightarrow> ctx \<Rightarrow> addr \<Rightarrow> int \<Rightarrow> 'w reporter_state \<Rightarrow> 'w reporter_state result" where
  "AddAmountToStake env c acc amt st =
     bindR (skDelegatorDelegations (reStaking env) (repWorld st) acc) (\<lambda>ds.
     let (isDelegated, st') = addToFirst env c acc amt ds st
     in if isDelegated then Inr st'
        else bindR (firstBonded env ErrPanic st') (\<lambda>val. delegate env c acc amt Bonded val st'))"

end
