(* ===== verification/RepFrames.thy ===== *)
theory RepFrames
  imports RepEscrow
begin

text \<open>
  What the operations that only move stake leave alone. Staking calls the hooks of the
  module back, and the hooks touch nothing but the count of a selector's delegations and
  the marks that make a reporter's stake be recomputed; so every operation of the escrow
  keeps who selected whom, the reporters, the rewards and the snapshots.
\<close>

section \<open>The selectors of a reporter, counted\<close>

definition selectorCount :: "addr \<Rightarrow> (addr, selection) kv \<Rightarrow> int" where
  "selectorCount a m = kv_total (\<lambda>e. if selReporter (snd e) = a then 1 else 0) m"

lemma selectorCount_length: "int (length (selectorsOf a st)) = selectorCount a (Selectors st)"
proof -
  have "int (length (kv_index (\<lambda>s. selReporter s = a) m)) = selectorCount a m" for m
    by (induction m) (auto simp: selectorCount_def kv_index_def kv_total_def)
  then show ?thesis by (simp add: selectorsOf_def)
qed

lemma selectorCount_nonneg: "0 \<le> selectorCount a m"
  by (induction m) (auto simp: selectorCount_def kv_total_def)

lemma selectorCount_set:
  "kv_ok m \<Longrightarrow> selectorCount a (kv_set k s m) = selectorCount a m + (if selReporter s = a then 1 else 0)
     - (case kv_get m k of None \<Rightarrow> 0 | Some u \<Rightarrow> if selReporter u = a then 1 else 0)"
  by (simp add: selectorCount_def kv_total_set split: option.split)

lemma selectorCount_del:
  "kv_ok m \<Longrightarrow> selectorCount a (kv_del k m) = selectorCount a m
     - (case kv_get m k of None \<Rightarrow> 0 | Some u \<Rightarrow> if selReporter u = a then 1 else 0)"
  by (simp add: selectorCount_def kv_total_del split: option.split)

section \<open>The frame\<close>

definition staking_frame :: "'w reporter_state \<Rightarrow> 'w reporter_state \<Rightarrow> bool" where
  "staking_frame st st' \<longleftrightarrow>
     repParams st' = repParams st \<and> Tracker st' = Tracker st \<and> Reporters st' = Reporters st
     \<and> SelectorTips st' = SelectorTips st \<and> ReporterPeriodData st' = ReporterPeriodData st
     \<and> DistributionQueue st' = DistributionQueue st \<and> DistributionQueueCounter st' = DistributionQueueCounter st
     \<and> ReportOld st' = ReportOld st \<and> ReportByBlock st' = ReportByBlock st \<and> RecalcAtTime st' = RecalcAtTime st
     \<and> (kv_ok (Selectors st) \<longrightarrow> kv_ok (Selectors st')
          \<and> (\<forall>a. map_option (\<lambda>s. s\<lparr>selDelegationsCount := 0\<rparr>) (kv_get (Selectors st') a)
               = map_option (\<lambda>s. s\<lparr>selDelegationsCount := 0\<rparr>) (kv_get (Selectors st) a))
          \<and> (\<forall>a. selectorCount a (Selectors st') = selectorCount a (Selectors st)))"

lemma staking_frame_refl [simp]: "staking_frame st st"
  by (simp add: staking_frame_def)

lemma staking_frame_trans [trans]: "staking_frame st st' \<Longrightarrow> staking_frame st' st'' \<Longrightarrow> staking_frame st st''"
  by (simp add: staking_frame_def)

lemma staking_frame_world [simp]: "staking_frame st (st\<lparr>repWorld := w\<rparr>)"
  by (simp add: staking_frame_def)

lemma staking_frame_selector:
  assumes "kv_get (Selectors st) a = Some s"
  shows "staking_frame st (st\<lparr>Selectors := kv_set a (s\<lparr>selDelegationsCount := n\<rparr>) (Selectors st)\<rparr>)"
  using assms by (auto simp: staking_frame_def selectorCount_set)

text \<open>The fields of a selection other than the count are kept.\<close>

lemma staking_frame_field:
  assumes "staking_frame st st'" and "kv_ok (Selectors st)" and "\<And>s. f (s\<lparr>selDelegationsCount := 0\<rparr>) = f s"
  shows "map_option f (kv_get (Selectors st') a) = map_option f (kv_get (Selectors st) a)"
proof -
  have "map_option (\<lambda>s. s\<lparr>selDelegationsCount := 0\<rparr>) (kv_get (Selectors st') a)
      = map_option (\<lambda>s. s\<lparr>selDelegationsCount := 0\<rparr>) (kv_get (Selectors st) a)"
    using assms(1,2) by (simp add: staking_frame_def)
  from arg_cong [OF this, of "map_option f"] show ?thesis by (simp add: option.map_comp o_def assms(3))
qed

lemma hook_frames:
  "staking_frame st (AfterDelegationModified a st)"
  "staking_frame st (BeforeDelegationCreated a st)"
  "staking_frame st (BeforeDelegationRemoved a st)"
  "staking_frame st (AfterValidatorBonded c st)"
  by (auto simp: AfterDelegationModified_def BeforeDelegationCreated_def BeforeDelegationRemoved_def
      AfterValidatorBonded_def FlagStakeRecalc_def staking_frame_selector split: option.split)
    (simp_all add: staking_frame_def)

lemma RepHooks_frame: "staking_frame st (RepHooks c hs st)"
proof (induction c hs st rule: RepHooks.induct)
  case (1 c st)
  then show ?case by simp
qed (use hook_frames staking_frame_trans in \<open>simp; blast\<close>)+

lemma staking_frame_hooks: "staking_frame st (RepHooks c hs (st\<lparr>repWorld := w\<rparr>))"
  by (rule staking_frame_trans [OF staking_frame_world RepHooks_frame])

lemma delegate_frame: "delegate env c a n src val st = Inr st' \<Longrightarrow> staking_frame st st'"
  by (auto simp: delegate_def staking_frame_hooks)

lemma unbond_frame: "unbond env c a v n st = Inr (x, st') \<Longrightarrow> staking_frame st st'"
  by (auto simp: unbond_def staking_frame_hooks)

lemma tokensToDispute_frame: "tokensToDispute env p n st = Inr st' \<Longrightarrow> staking_frame st st'"
  by (auto simp: tokensToDispute_def)

section \<open>The operations of the escrow\<close>

lemma feeFromSelector_frame:
  "feeFromSelector env c a infos x acc = Inr acc' \<Longrightarrow> staking_frame (snd (snd acc)) (snd (snd acc'))"
proof (induction infos arbitrary: x acc)
  case Nil
  then show ?case by simp
next
  case (Cons info infos)
  obtain tracker tracked st where acc: "acc = (tracker, tracked, st)" by (cases acc)
  from Cons.prems obtain have_amt where have_amt: "tokensFromShares env (shValidator info) (shShares info) = Inr have_amt"
    unfolding acc by auto
  show ?case
  proof (cases "x \<le> have_amt")
    case True
    then show ?thesis using Cons.prems have_amt unfolding acc by (auto dest: unbond_frame)
  next
    case False
    then obtain n st1 tracker1 where st1: "unbond env c a (shValAddr info) (shShares info) st = Inr (n, st1)"
      and rest: "(if x - have_amt = 0 then Inr (tracker1, tracked + n, st1)
        else feeFromSelector env c a infos (x - have_amt) (tracker1, tracked + n, st1)) = Inr acc'"
      using Cons.prems have_amt unfolding acc by (auto simp: Let_def)
    have "staking_frame st1 (snd (snd acc'))"
      using rest Cons.IH [of "x - have_amt" "(tracker1, tracked + n, st1)"] by (auto split: if_splits)
    then show ?thesis using staking_frame_trans [OF unbond_frame [OF st1]] by (simp add: acc)
  qed
qed

lemma feeStep_frame: "feeStep env c r f s acc = Inr acc' \<Longrightarrow> staking_frame (snd (snd acc)) (snd (snd acc'))"
  by (auto simp: feeStep_def dest: feeFromSelector_frame)

lemma foldR_frame:
  assumes "foldR f xs acc = Inr acc'" and "\<And>x acc acc'. f x acc = Inr acc' \<Longrightarrow> staking_frame (g acc) (g acc')"
  shows "staking_frame (g acc) (g acc')"
  by (rule foldR_invariant [where I = "\<lambda>t. staking_frame (g acc) (g t)", OF assms(1)])
    (simp, meson assms(2) staking_frame_trans)

lemma FeefromReporterStake_frame:
  assumes "FeefromReporterStake env c a n h b st = Inr st'"
  shows "staking_frame st st'"
proof -
  from assms obtain r ss acc st2 where
    run: "foldR (feeStep env c r (dec_of n)) ss ([], 0, st) = Inr acc"
    and send: "tokensToDispute env bondedTokensPool (fst (snd acc)) (snd (snd acc)) = Inr st2"
    and st': "\<exists>fees. st' = st2\<lparr>FeePaidFromStake := fees\<rparr>"
    by (force simp: FeefromReporterStake_def Let_def case_prod_beta intro: exI [of _ "FeePaidFromStake st'"] split: if_splits)
  have "staking_frame st (snd (snd acc))"
    using foldR_frame [where g = "\<lambda>acc. snd (snd acc)", OF run feeStep_frame] by simp
  also have "staking_frame \<dots> st2" by (rule tokensToDispute_frame [OF send])
  also have "staking_frame st2 st'" using st' by (auto simp: staking_frame_def)
  finally show ?thesis .
qed

lemma deductUnbonding_frame:
  "deductUnbondingDelegation env a v n st = Inr (x, st') \<Longrightarrow> staking_frame st st'"
  by (auto simp: deductUnbondingDelegation_def dest!: tokensToDispute_frame intro: staking_frame_trans [OF staking_frame_world])

lemma MoveTokens_frame: "MoveTokensFromValidator env val n st = Inr st' \<Longrightarrow> staking_frame st st'"
  by (auto simp: MoveTokensFromValidator_def split: bond_status.splits dest: tokensToDispute_frame)

lemma deductFromdelegation_frame:
  assumes "deductFromdelegation env c a v n st = Inr (x, st')"
  shows "staking_frame st st'"
proof (cases "skGetDelegation (reStaking env) (repWorld st) a v")
  case (Inl e)
  then show ?thesis using assms by (auto simp: deductFromdelegation_def split: if_splits)
next
  case (Inr sh)
  from assms obtain val shares rest where
    "(if shares = 0 then Inr (rest, st)
      else bindR (unbond env c a v shares st) (\<lambda>(removedTokens, st1).
           bindR (MoveTokensFromValidator env val removedTokens st1) (\<lambda>st2. Inr (rest, st2)))) = Inr (x, st')"
    unfolding deductFromdelegation_def Inr sum.case bindR_eq_Inr [of "skGetValidator _ _ _"] bindR_eq_Inr [of "tokensFromShares _ _ _"]
    by (elim exE conjE, unfold bindR_eq_Inr [of "if _ then _ else _"]) (auto simp only: split: prod.splits)
  then show ?thesis
    by (auto split: if_splits dest!: unbond_frame MoveTokens_frame intro: staking_frame_trans)
qed

lemma undelegate_frame:
  assumes "undelegate env c a v n st = Inr (x, st')"
  shows "staking_frame st st'"
proof -
  from assms obtain r st1 where del: "deductFromdelegation env c a v n st = Inr (r, st1)"
    and rest: "(if r = 0 then Inr (0, st1)
      else case deductUnbondingDelegation env a v (TruncateInt r) st1 of
            Inl e \<Rightarrow> if e = ErrNoUnbondingDelegation then Inr (TruncateInt r, st1) else Inl e
          | Inr r \<Rightarrow> Inr r) = Inr (x, st')"
    by (auto simp: undelegate_def)
  have "staking_frame st1 st'"
    using rest by (auto split: if_splits sum.splits dest: deductUnbonding_frame)
  then show ?thesis by (rule staking_frame_trans [OF deductFromdelegation_frame [OF del]])
qed

lemma escrowShare_frame:
  assumes "escrowShare env c del n toks st = Inr (toks', st')"
  shows "staking_frame st st'"
proof -
  from assms obtain r st1 where und: "undelegate env c (DelegatorAddress del) (ValidatorAddress del) (dec_of n) st = Inr (r, st1)"
    unfolding escrowShare_def Let_def by auto
  have "staking_frame st1 st'"
    using assms und by (cases "r = 0") (auto simp: escrowShare_def Let_def dest: undelegate_frame)
  then show ?thesis by (rule staking_frame_trans [OF undelegate_frame [OF und]])
qed

lemma escrowLoop_frame:
  "escrowLoop env c t n dels left toks st = Inr (toks', st') \<Longrightarrow> staking_frame st st'"
proof (induction dels arbitrary: left toks st)
  case Nil
  then show ?case by simp
next
  case (Cons del dels)
  then obtain share toks1 st1 left1 where "escrowShare env c del share toks st = Inr (toks1, st1)"
    and "escrowLoop env c t n dels left1 toks1 st1 = Inr (toks', st')"
    by (auto simp: Let_def)
  then show ?case using Cons.IH escrowShare_frame staking_frame_trans by blast
qed

lemma EscrowReporterStake_frame:
  "EscrowReporterStake env c a p h n q i st = Inr st' \<Longrightarrow> staking_frame st st'"
  unfolding EscrowReporterStake_def Let_def
  by (auto dest!: escrowLoop_frame) (simp add: staking_frame_def)

lemma returnOrigin_frame: "returnOrigin env c n t s acc = Inr acc' \<Longrightarrow> staking_frame (snd acc) (snd acc')"
  by (auto simp: returnOrigin_def Let_def dest: delegate_frame split: if_splits)

lemma ReturnSlashed_frame:
  assumes "repReturnSlashedTokens env c n i st = Inr (pool, st')"
  shows "staking_frame st st'"
proof -
  from assms obtain t os acc where run: "foldR (returnOrigin env c n t) os ([], st) = Inr acc"
    and st': "\<exists>d. st' = (snd acc)\<lparr>DisputedDelegationAmounts := d\<rparr>"
    by (fastforce simp: repReturnSlashedTokens_def)
  have "staking_frame st (snd acc)" using foldR_frame [where g = snd, OF run returnOrigin_frame] by simp
  also have "staking_frame \<dots> st'" using st' by (auto simp: staking_frame_def)
  finally show ?thesis .
qed

lemma refundOrigin_frame: "refundOrigin env c n t s st = Inr st' \<Longrightarrow> staking_frame st st'"
  by (auto simp: refundOrigin_def dest: delegate_frame)

lemma FeeRefund_frame:
  assumes "FeeRefund env c i n st = Inr st'"
  shows "staking_frame st st'"
proof -
  from assms obtain t os st1 where run: "foldR (refundOrigin env c n t) os st = Inr st1"
    and st': "\<exists>d. st' = st1\<lparr>FeePaidFromStake := d\<rparr>"
    by (fastforce simp: FeeRefund_def)
  have "staking_frame st st1" using foldR_frame [where g = "\<lambda>s. s", OF run refundOrigin_frame] by simp
  also have "staking_frame \<dots> st'" using st' by (auto simp: staking_frame_def)
  finally show ?thesis .
qed

lemma addToFirst_frame: "addToFirst env c a n ds st = (b, st') \<Longrightarrow> staking_frame st st'"
  by (induction env c a n ds st rule: addToFirst.induct) (auto split: sum.splits if_splits dest: delegate_frame)

lemma AddAmountToStake_frame:
  assumes "AddAmountToStake env c a n st = Inr st'"
  shows "staking_frame st st'"
proof -
  from assms obtain ds b st1 where first: "addToFirst env c a n ds st = (b, st1)"
    and rest: "st' = st1 \<or> (\<exists>val. delegate env c a n Bonded val st1 = Inr st')"
    unfolding AddAmountToStake_def Let_def case_prod_beta bindR_eq_Inr
    by (metis (no_types, lifting) bindR_eq_Inr prod.collapse Inr_inject)
  have "staking_frame st1 st'" using rest by (auto dest: delegate_frame)
  then show ?thesis by (rule staking_frame_trans [OF addToFirst_frame [OF first]])
qed

lemmas escrow_frames = delegate_frame FeefromReporterStake_frame EscrowReporterStake_frame ReturnSlashed_frame
  FeeRefund_frame AddAmountToStake_frame staking_frame_hooks

end
