(* ===== verification/RepRewards.thy ===== *)
theory RepRewards
  imports RepStake
begin

text \<open>
  Rewards of reporters and selectors (\<^verbatim>\<open>x/reporter/keeper/distribution.go\<close> and the message
  \<^verbatim>\<open>WithdrawTip\<close>): a reward adds the commission to the reporter's tips and the rest to its
  current period; ended periods wait in a queue the end of a block works off, and a
  withdrawal settles the current period at once.
\<close>

section \<open>Accumulating rewards\<close>

definition addSelectorTips :: "addr \<Rightarrow> dec \<Rightarrow> 'w reporter_state \<Rightarrow> 'w reporter_state" where
  "addSelectorTips a amount st =
     st\<lparr>SelectorTips := kv_set a (kv_get_or 0 (SelectorTips st) a + amount) (SelectorTips st)\<rparr>"

definition DivvyingTips :: "'w reporter_env \<Rightarrow> addr \<Rightarrow> dec \<Rightarrow> 'w reporter_state \<Rightarrow> 'w reporter_state result" where
  "DivvyingTips env reporterAddr reward st =
     bindR (getR (kv_get (Reporters st) reporterAddr)) (\<lambda>reporter.
     let commission = dmul (reDec env) reward (CommissionRate reporter);
         netReward = reward - commission;
         st1 = (if 0 < commission then addSelectorTips reporterAddr commission st else st)
     in case kv_get (ReporterPeriodData st1) reporterAddr of
          None \<Rightarrow> Inr st1
        | Some periodData \<Rightarrow>
            Inr (st1\<lparr>ReporterPeriodData := kv_set reporterAddr
                   (periodData\<lparr>pdRewardAmount := pdRewardAmount periodData + netReward\<rparr>) (ReporterPeriodData st1)\<rparr>))"

section \<open>Distribution\<close>

definition paySelector ::
  "'w reporter_env \<Rightarrow> distribution_queue_item \<Rightarrow> selector_share \<Rightarrow> 'w reporter_state \<Rightarrow> 'w reporter_state result" where
  "paySelector env item sel st =
     bindR (decQuo (reDec env) (dec_of (ssAmount sel)) (dec_of (qiTotal item))) (\<lambda>shareRatio.
     let selectorReward = dmul (reDec env) (qiRewardAmount item) shareRatio
     in Inr (if selectorReward = 0 then st else addSelectorTips (SelectorAddress sel) selectorReward st))"

definition distributeQueueItem ::
  "'w reporter_env \<Rightarrow> distribution_queue_item \<Rightarrow> 'w reporter_state \<Rightarrow> 'w reporter_state result" where
  "distributeQueueItem env item st =
     (if qiRewardAmount item = 0 \<or> qiTotal item = 0 then Inr st
      else foldR (paySelector env item) (qiSelectors item) st)"

definition removeQueued :: "u64 \<Rightarrow> 'w reporter_state \<Rightarrow> 'w reporter_state" where
  "removeQueued head st = st\<lparr>DistributionQueue := kv_del head (DistributionQueue st)\<rparr>"

text \<open>\<open>left\<close> is \<^verbatim>\<open>maxItems - processed\<close>. A missing item does not count as processed, so the
  loop is bounded by the distance from head to tail.\<close>

function processLoop ::
  "'w reporter_env \<Rightarrow> u64 \<Rightarrow> u64 \<Rightarrow> nat \<Rightarrow> 'w reporter_state \<Rightarrow> (u64 \<times> 'w reporter_state) result" where
  "processLoop env tail head left st =
     (if head < tail \<and> 0 < left then
        (case kv_get (DistributionQueue st) head of
           None \<Rightarrow> processLoop env tail (head + 1) left st
         | Some item \<Rightarrow>
             bindR (distributeQueueItem env item st) (\<lambda>st'.
             processLoop env tail (head + 1) (left - 1) (removeQueued head st')))
      else Inr (head, st))"
  by pat_completeness auto

lemma queue_distance_decreases:
  assumes "head < (tail :: u64)"
  shows "unat (tail - (head + 1)) < unat (tail - head)"
proof -
  have "tail - head \<noteq> 0" using assms by simp
  then have "unat (tail - head - 1) < unat (tail - head)"
    by (metis unat_gt_0 measure_unat)
  then show ?thesis by (simp add: algebra_simps)
qed

termination processLoop
  by (relation "measure (\<lambda>(env, tail, head, left, st). unat (tail - head))")
    (simp_all add: queue_distance_decreases)

declare processLoop.simps [simp del]

definition ProcessDistributionQueue ::
  "'w reporter_env \<Rightarrow> nat \<Rightarrow> 'w reporter_state \<Rightarrow> 'w reporter_state result" where
  "ProcessDistributionQueue env maxItems st =
     (case DistributionQueueCounter st of
        None \<Rightarrow> Inr st
      | Some counter \<Rightarrow>
          bindR (processLoop env (qcTail counter) (qcHead counter) maxItems st) (\<lambda>(head, st').
          Inr (st'\<lparr>DistributionQueueCounter := Some (counter\<lparr>qcHead := head\<rparr>)\<rparr>)))"

definition SettleReporter :: "'w reporter_env \<Rightarrow> addr \<Rightarrow> 'w reporter_state \<Rightarrow> 'w reporter_state result" where
  "SettleReporter env reporterAddr st =
     (case kv_get (ReporterPeriodData st) reporterAddr of
        None \<Rightarrow> Inr st
      | Some periodData \<Rightarrow>
          if \<not> 0 < pdRewardAmount periodData then Inr st
          else bindR (distributeQueueItem env (itemOf reporterAddr periodData) st) (\<lambda>st'.
            Inr (st'\<lparr>ReporterPeriodData :=
              kv_set reporterAddr (periodData\<lparr>pdRewardAmount := 0\<rparr>) (ReporterPeriodData st')\<rparr>)))"

section \<open>Withdrawal\<close>

record msg_withdraw_tip =
  wtSelectorAddress :: string
  wtValidatorAddress :: string

text \<open>\<^verbatim>\<open>DelegateCoinsFromAccountToModule\<close> is a send to a module account that also tracks
  vesting.\<close>

definition payOutTips ::
  "'w reporter_env \<Rightarrow> ctx \<Rightarrow> addr \<Rightarrow> dec \<Rightarrow> validator \<Rightarrow> 'w reporter_state \<Rightarrow> 'w reporter_state result" where
  "payOutTips env c selectorAddr shares val st =
     (let amtToDelegate = TruncateInt shares;
          remainder = shares - dec_of (TruncateInt shares)
      in bindR (guardR (amtToDelegate \<noteq> 0) (Err ''no tips to withdraw'')) (\<lambda>_.
         bindR (delegate env c selectorAddr amtToDelegate (vStatus val) val st) (\<lambda>st1.
         let st2 = st1\<lparr>SelectorTips := (if remainder = 0 then kv_del selectorAddr (SelectorTips st1)
                                          else kv_set selectorAddr remainder (SelectorTips st1))\<rparr>
         in bindR (Uint64 amtToDelegate) (\<lambda>amt.
            bindR (bkSendCoins (reBank env) tipsEscrow bondedTokensPool BondDenom (i64 (uint amt)) (repWorld st2)) (\<lambda>w.
            Inr (st2\<lparr>repWorld := w\<rparr>))))))"

definition settleSelector :: "'w reporter_env \<Rightarrow> addr \<Rightarrow> 'w reporter_state \<Rightarrow> 'w reporter_state result" where
  "settleSelector env selectorAddr st =
     (case kv_get (Selectors st) selectorAddr of
        None \<Rightarrow> Inr st
      | Some selection \<Rightarrow> SettleReporter env (selReporter selection) st)"

definition WithdrawTip ::
  "'w reporter_env \<Rightarrow> ctx \<Rightarrow> msg_withdraw_tip \<Rightarrow> 'w reporter_state \<Rightarrow> 'w reporter_state result" where
  "WithdrawTip env c msg st =
     bindR (wrapR ''invalid selector address'' (reAccAddressFromBech32 env (wtSelectorAddress msg))) (\<lambda>selectorAddr.
     bindR (settleSelector env selectorAddr st) (\<lambda>st1.
     bindR (getR (kv_get (SelectorTips st1) selectorAddr)) (\<lambda>shares.
     bindR (reValAddressFromBech32 env (wtValidatorAddress msg)) (\<lambda>valAddr.
     bindR (skGetValidator (reStaking env) (repWorld st1) valAddr) (\<lambda>val.
     bindR (guardR (IsBonded val) (Err ''chosen validator must be bonded'')) (\<lambda>_.
     payOutTips env c selectorAddr shares val st1))))))"

end
