(* ===== verification/RepQueue.thy ===== *)
theory RepQueue
  imports RepRewards
begin

text \<open>
  Correctness of the reward distribution: the stored queue with its head and tail counters
  is a first-in first-out queue, stated as a locale and interpreted on the model's own
  operations; distribution never fails and pays a period's reward to its selectors up to a
  rounding error that is bounded here; no reward is lost between a report and its
  withdrawal as long as the reporter has a period.
\<close>

section \<open>Paying a period\<close>

definition itemRewards :: "'w reporter_env \<Rightarrow> distribution_queue_item \<Rightarrow> (addr \<times> dec) list" where
  "itemRewards env item =
     (if qiRewardAmount item = 0 \<or> qiTotal item = 0 then []
      else map (\<lambda>sel. (SelectorAddress sel,
             dmul (reDec env) (qiRewardAmount item) (dquo (reDec env) (dec_of (ssAmount sel)) (dec_of (qiTotal item)))))
           (qiSelectors item))"

fun creditAll :: "(addr \<times> dec) list \<Rightarrow> (addr, dec) kv \<Rightarrow> (addr, dec) kv" where
  "creditAll [] tips = tips"
| "creditAll ((a, x) # ps) tips = creditAll ps (if x = 0 then tips else kv_set a (kv_get_or 0 tips a + x) tips)"

definition paidTo :: "(addr \<times> dec) list \<Rightarrow> addr \<Rightarrow> dec" where
  "paidTo ps a = sum_list (map snd (filter (\<lambda>p. fst p = a) ps))"

lemma creditAll_append [simp]: "creditAll (ps @ qs) tips = creditAll qs (creditAll ps tips)"
  by (induction ps tips rule: creditAll.induct) simp_all

lemma creditAll_ok [simp]: "kv_ok tips \<Longrightarrow> kv_ok (creditAll ps tips)"
  by (induction ps tips rule: creditAll.induct) simp_all

lemma creditAll_get: "kv_get_or 0 (creditAll ps tips) a = kv_get_or 0 tips a + paidTo ps a"
  by (induction ps tips rule: creditAll.induct) (auto simp: paidTo_def kv_get_or_def)

lemma creditAll_total: "kv_ok tips \<Longrightarrow> kv_total snd (creditAll ps tips) = kv_total snd tips + sum_list (map snd ps)"
  by (induction ps tips rule: creditAll.induct) (auto simp: kv_total_set kv_get_or_def split: option.splits)

lemma distribute_run:
  "distributeQueueItem env item st = Inr (st\<lparr>SelectorTips := creditAll (itemRewards env item) (SelectorTips st)\<rparr>)"
proof -
  let ?f = "\<lambda>sel. (SelectorAddress sel,
      dmul (reDec env) (qiRewardAmount item) (dquo (reDec env) (dec_of (ssAmount sel)) (dec_of (qiTotal item))))"
  have "foldR (paySelector env item) ss st = Inr (st\<lparr>SelectorTips := creditAll (map ?f ss) (SelectorTips st)\<rparr>)"
    if "qiTotal item \<noteq> 0" for ss
    using that by (induction ss arbitrary: st) (simp_all add: paySelector_def decQuo_def addSelectorTips_def Let_def)
  then show ?thesis by (simp add: distributeQueueItem_def itemRewards_def)
qed

text \<open>A period whose shares add up to its total.\<close>

definition fair_item :: "distribution_queue_item \<Rightarrow> bool" where
  "fair_item item \<longleftrightarrow> 0 \<le> qiRewardAmount item \<and> sharesSum (qiSelectors item) = qiTotal item
     \<and> (\<forall>s \<in> set (qiSelectors item). 0 < ssAmount s)"

lemma abs_diff_add: "\<bar>a - c\<bar> \<le> p \<Longrightarrow> \<bar>b - d\<bar> \<le> q \<Longrightarrow> \<bar>(a + b) - (c + d)\<bar> \<le> p + (q :: int)"
  by linarith

lemma abs_diff_add_twice: "2 * \<bar>a - c\<bar> \<le> p \<Longrightarrow> 2 * \<bar>b - d\<bar> \<le> q \<Longrightarrow> 2 * \<bar>(a + b) - (c + d)\<bar> \<le> p + (q :: int)"
  using abs_triangle_ineq [of "a - c" "b - d"] by (simp add: algebra_simps)

lemma abs_diff_chain: "2 * \<bar>a - b\<bar> \<le> p \<Longrightarrow> \<bar>b - c\<bar> \<le> q \<Longrightarrow> 2 * \<bar>a - c\<bar> \<le> p + 2 * (q :: int)"
  using abs_triangle_ineq [of "a - b" "b - c"] by simp

lemma ratio_sum:
  assumes "dec_laws D" and "0 < m"
  shows "\<bar>sum_list (map (\<lambda>s. dquo D (dec_of (ssAmount s)) (dec_of m)) ss) * m - sharesSum ss * dec_one\<bar> \<le> int (length ss) * m"
proof (induction ss)
  case Nil
  then show ?case by simp
next
  case (Cons s ss)
  moreover have "\<bar>dquo D (dec_of (ssAmount s)) (dec_of m) * m - ssAmount s * dec_one\<bar> \<le> m"
    using dquo_of_bounds [OF assms, of "ssAmount s"] by linarith
  ultimately show ?case using abs_diff_add by (simp add: distrib_right)
qed

lemma product_sum:
  assumes "dec_laws D"
  shows "2 * \<bar>sum_list (map (\<lambda>r. dmul D x r) rs) * dec_one - x * sum_list rs\<bar> \<le> int (length rs) * dec_one"
proof (induction rs)
  case Nil
  then show ?case by simp
next
  case (Cons r rs)
  have "2 * \<bar>dmul D x r * dec_one - x * r\<bar> \<le> dec_one" using assms by (simp add: dec_laws_def)
  then show ?case using Cons abs_diff_add_twice by (simp add: distrib_right distrib_left)
qed

lemma sharesSum_pos: "\<forall>s \<in> set ss. 0 < ssAmount s \<Longrightarrow> 0 \<le> sharesSum ss \<and> (sharesSum ss = 0 \<longrightarrow> ss = [])"
  by (induction ss) auto

definition roundingBound :: "distribution_queue_item \<Rightarrow> int" where
  "roundingBound item = int (length (qiSelectors item)) * (dec_one + 2 * qiRewardAmount item)"

lemma item_reward_bound:
  assumes "dec_laws (reDec env)" and "fair_item item" and "qiSelectors item \<noteq> []"
  shows "2 * dec_one * \<bar>sum_list (map snd (itemRewards env item)) - qiRewardAmount item\<bar> \<le> roundingBound item"
proof -
  let ?D = "reDec env" and ?x = "qiRewardAmount item" and ?m = "qiTotal item" and ?ss = "qiSelectors item"
  let ?rs = "map (\<lambda>s. dquo ?D (dec_of (ssAmount s)) (dec_of ?m)) ?ss"
  let ?paid = "sum_list (map snd (itemRewards env item))"
  have m: "0 < ?m" using assms(2,3) sharesSum_pos [of ?ss] by (auto simp: fair_item_def)
  have x: "0 \<le> ?x" using assms(2) by (simp add: fair_item_def)
  have "2 * dec_one * \<bar>?paid - ?x\<bar> \<le> int (length ?ss) * (dec_one + 2 * ?x)"
  proof (cases "?x = 0")
    case True
    then show ?thesis by (simp add: itemRewards_def less_imp_le)
  next
    case False
    then have paid: "?paid = sum_list (map (dmul ?D ?x) ?rs)" using m by (simp add: itemRewards_def o_def)
    have "2 * \<bar>?paid * dec_one - ?x * sum_list ?rs\<bar> \<le> int (length ?ss) * dec_one"
      using product_sum [OF assms(1), of ?x ?rs] unfolding paid by simp
    moreover have "\<bar>sum_list ?rs - dec_one\<bar> \<le> int (length ?ss)"
    proof -
      have "\<bar>(sum_list ?rs - dec_one) * ?m\<bar> \<le> int (length ?ss) * ?m"
        using ratio_sum [OF assms(1) m, of ?ss] assms(2) by (simp add: fair_item_def algebra_simps)
      then have "\<bar>sum_list ?rs - dec_one\<bar> * ?m \<le> int (length ?ss) * ?m" using m by (simp add: abs_mult)
      then show ?thesis using m by simp
    qed
    then have "\<bar>?x * sum_list ?rs - ?x * dec_one\<bar> \<le> ?x * int (length ?ss)"
      using x by (simp add: right_diff_distrib [symmetric] abs_mult mult_left_mono)
    ultimately have "2 * \<bar>?paid * dec_one - ?x * dec_one\<bar> \<le> int (length ?ss) * dec_one + 2 * (?x * int (length ?ss))"
      by (rule abs_diff_chain)
    moreover have "\<bar>?paid * dec_one - ?x * dec_one\<bar> = dec_one * \<bar>?paid - ?x\<bar>"
      by (simp add: left_diff_distrib [symmetric] abs_mult less_imp_le)
    ultimately show ?thesis by (simp add: algebra_simps)
  qed
  then show ?thesis by (simp add: roundingBound_def)
qed

text \<open>C21: distributing a period never fails, credits each selector with its share, and hands
  out its reward up to rounding: per selector at most half a unit of the last decimal and
  that part of the reward which one unit of the last decimal in the ratio makes.\<close>

theorem distribution_conserves:
  assumes "dec_laws (reDec env)" and "fair_item item" and "kv_ok (SelectorTips st)" and "qiSelectors item \<noteq> []"
  shows "\<exists>st'. distributeQueueItem env item st = Inr st'
    \<and> st' = st\<lparr>SelectorTips := SelectorTips st'\<rparr>
    \<and> (\<forall>a. kv_get_or 0 (SelectorTips st') a = kv_get_or 0 (SelectorTips st) a + paidTo (itemRewards env item) a)
    \<and> 2 * dec_one * \<bar>kv_total snd (SelectorTips st') - (kv_total snd (SelectorTips st) + qiRewardAmount item)\<bar>
        \<le> roundingBound item"
  using item_reward_bound [OF assms(1,2,4)] by (simp add: distribute_run creditAll_get creditAll_total [OF assms(3)])

text \<open>The same bound for a batch.\<close>

lemma served_bound:
  assumes "dec_laws (reDec env)" and "\<forall>item \<in> set its. fair_item item \<and> qiSelectors item \<noteq> []"
  shows "2 * dec_one * \<bar>sum_list (map snd (concat (map (itemRewards env) its))) - sum_list (map qiRewardAmount its)\<bar>
    \<le> sum_list (map roundingBound its)"
  using assms(2)
proof (induction its)
  case Nil
  then show ?case by simp
next
  case (Cons item its)
  let ?a = "sum_list (map snd (itemRewards env item)) - qiRewardAmount item"
  let ?b = "sum_list (map snd (concat (map (itemRewards env) its))) - sum_list (map qiRewardAmount its)"
  have "2 * dec_one * \<bar>?a + ?b\<bar> \<le> 2 * dec_one * (\<bar>?a\<bar> + \<bar>?b\<bar>)"
    by (intro mult_left_mono abs_triangle_ineq) (simp add: less_imp_le)
  also have "\<dots> = 2 * dec_one * \<bar>?a\<bar> + 2 * dec_one * \<bar>?b\<bar>" by (simp add: distrib_left)
  also have "\<dots> \<le> roundingBound item + sum_list (map roundingBound its)"
    using item_reward_bound [OF assms(1)] Cons by (intro add_mono) simp_all
  finally show ?case by (simp add: algebra_simps)
qed

section \<open>The queue\<close>

text \<open>The contract of a queue that is served a batch at a time.\<close>

locale batch_queue =
  fixes items :: "'s \<Rightarrow> 'a list"
    and ok :: "'s \<Rightarrow> bool"
    and room :: "'s \<Rightarrow> bool"
    and item :: "'b \<Rightarrow> 'a"
    and enqueue :: "'b \<Rightarrow> 's \<Rightarrow> 's"
    and serve :: "nat \<Rightarrow> 's \<Rightarrow> 's"
  assumes ok_enqueue: "ok s \<Longrightarrow> room s \<Longrightarrow> ok (enqueue x s)"
    and items_enqueue: "ok s \<Longrightarrow> room s \<Longrightarrow> items (enqueue x s) = items s @ [item x]"
    and ok_serve: "ok s \<Longrightarrow> ok (serve n s)"
    and items_serve: "ok s \<Longrightarrow> items (serve n s) = drop n (items s)"
begin

lemma serve_rounds: "ok s \<Longrightarrow> ok ((serve n ^^ k) s) \<and> items ((serve n ^^ k) s) = drop (k * n) (items s)"
  by (induction k) (auto simp: ok_serve items_serve add.commute)

text \<open>What is enqueued behind \<open>p\<close> others is at the front after \<open>p div n\<close> rounds of \<open>n > 0\<close>
  and gone after the next.\<close>

lemma served_in_turn:
  assumes "ok s" and "0 < n" and "p < length (items s)"
  shows "items ((serve n ^^ (p div n)) s) ! (p mod n) = items s ! p"
    and "items ((serve n ^^ Suc (p div n)) s) = drop (n + p div n * n) (items s)"
proof -
  have "p div n * n + p mod n = p" and "p div n * n \<le> length (items s)"
    using div_times_less_eq_dividend [of p n] assms(3) by (simp, linarith)
  then show "items ((serve n ^^ (p div n)) s) ! (p mod n) = items s ! p"
    using serve_rounds [OF assms(1), where n = n and k = "p div n"] by (simp only: nth_drop)
  show "items ((serve n ^^ Suc (p div n)) s) = drop (n + p div n * n) (items s)"
    using serve_rounds [OF assms(1), where n = n and k = "Suc (p div n)"] by simp
qed

lemma drained: "ok s \<Longrightarrow> length (items s) \<le> k * n \<Longrightarrow> items ((serve n ^^ k) s) = []"
  by (simp add: serve_rounds)

end

definition queuedItems :: "'w reporter_state \<Rightarrow> distribution_queue_item list" where
  "queuedItems st = map snd (DistributionQueue st)"

text \<open>The stored queue holds consecutive keys from head to tail.\<close>

definition keyed :: "nat \<Rightarrow> 'a list \<Rightarrow> (u64 \<times> 'a) list" where
  "keyed h its = map (\<lambda>(i, x). (word_of_nat i, x)) (enumerate h its)"

definition queue_ok :: "'w reporter_state \<Rightarrow> bool" where
  "queue_ok st \<longleftrightarrow> unat (qcHead (counterOf st)) + length (queuedItems st) = unat (qcTail (counterOf st))
     \<and> DistributionQueue st = keyed (unat (qcHead (counterOf st))) (queuedItems st)"

definition queue_room :: "'w reporter_state \<Rightarrow> bool" where
  "queue_room st \<longleftrightarrow> qcTail (counterOf st) + 1 \<noteq> 0"

lemma keyed_simps [simp]:
  "keyed h [] = []" "keyed h (x # xs) = (word_of_nat h, x) # keyed (Suc h) xs"
  "keyed h (xs @ ys) = keyed h xs @ keyed (h + length xs) ys" "map snd (keyed h xs) = xs"
  by (simp_all add: keyed_def enumerate_append_eq case_prod_beta o_def)

lemma drop_keyed: "drop n (keyed h xs) = keyed (h + min n (length xs)) (drop n xs)"
proof (induction n arbitrary: h xs)
  case 0
  then show ?case by simp
next
  case (Suc n)
  then show ?case by (cases xs) simp_all
qed

lemma keyed_keys: "e \<in> set (keyed h xs) \<Longrightarrow> h + length xs \<le> 2 ^ 64 \<Longrightarrow> h \<le> unat (fst e) \<and> unat (fst e) < h + length xs"
  by (auto simp: keyed_def in_set_enumerate_eq unat_of_nat)

lemma unat_less_64: "unat (w :: u64) < 2 ^ 64"
  using unsigned_less [of w, where 'a = nat] by simp

lemma unat_succ:
  assumes "(h :: u64) < t"
  shows "unat (h + 1) = Suc (unat h)"
proof -
  have "Suc (unat h) < 2 ^ 64" using assms unat_less_64 [of t] by (simp add: word_less_nat_alt)
  then show ?thesis by (simp add: unat_word_ariths)
qed

lemma keyed_rest:
  assumes "Suc (unat h) + length xs \<le> 2 ^ 64"
  shows "kv_del (h :: u64) (keyed (Suc (unat h)) xs) = keyed (Suc (unat h)) xs"
  unfolding kv_del_def using keyed_keys [OF _ assms] by (force intro!: filter_True)

definition servedRewards :: "'w reporter_env \<Rightarrow> distribution_queue_item list \<Rightarrow> (addr \<times> dec) list" where
  "servedRewards env its = concat (map (itemRewards env) its)"

lemma processLoop_run:
  assumes "unat head + length its = unat tail" and "DistributionQueue st = keyed (unat head) its"
  shows "processLoop env tail head left st = Inr (head + word_of_nat (min left (length its)),
    st\<lparr>SelectorTips := creditAll (servedRewards env (take left its)) (SelectorTips st),
       DistributionQueue := drop left (DistributionQueue st)\<rparr>)"
  using assms
proof (induction its arbitrary: head left st)
  case Nil
  then have "head = tail" by (simp add: word_unat_eq_iff)
  then show ?case using Nil(2) by (simp add: processLoop.simps servedRewards_def)
next
  case (Cons it its)
  have less: "head < tail" using Cons.prems(1) by (simp add: word_less_nat_alt)
  have succ: "unat (head + 1) = Suc (unat head)" by (rule unat_succ [OF less])
  have bound: "Suc (unat head) + length its \<le> 2 ^ 64" using Cons.prems(1) unat_less_64 [of tail] by simp
  let ?st = "removeQueued head (st\<lparr>SelectorTips := creditAll (itemRewards env it) (SelectorTips st)\<rparr>)"
  have queue: "DistributionQueue st = (head, it) # keyed (Suc (unat head)) its" using Cons.prems(2) by simp
  then have rest: "DistributionQueue ?st = keyed (unat (head + 1)) its"
    using keyed_rest [OF bound] by (simp add: removeQueued_def kv_del_def succ)
  show ?case
  proof (cases left)
    case 0
    then show ?thesis by (simp add: processLoop.simps servedRewards_def)
  next
    case (Suc n)
    have "processLoop env tail head left st = processLoop env tail (head + 1) n ?st"
      using less Suc queue by (subst processLoop.simps) (simp add: kv_get_def distribute_run)
    also have "\<dots> = Inr (head + 1 + word_of_nat (min n (length its)),
        ?st\<lparr>SelectorTips := creditAll (servedRewards env (take n its)) (SelectorTips ?st),
            DistributionQueue := drop n (DistributionQueue ?st)\<rparr>)"
      using Cons.prems(1) succ by (intro Cons.IH [OF _ rest]) simp
    finally show ?thesis using rest queue Suc succ
      by (simp add: removeQueued_def servedRewards_def min_def add.assoc)
  qed
qed

lemma ProcessDistributionQueue_run:
  assumes "queue_ok st"
  obtains counter where "ProcessDistributionQueue env n st = Inr (st\<lparr>
      SelectorTips := creditAll (servedRewards env (take n (queuedItems st))) (SelectorTips st),
      DistributionQueue := drop n (DistributionQueue st), DistributionQueueCounter := counter\<rparr>)"
    "(case counter of None \<Rightarrow> emptyCounter | Some k \<Rightarrow> k) =
       (counterOf st)\<lparr>qcHead := qcHead (counterOf st) + word_of_nat (min n (length (queuedItems st)))\<rparr>"
proof (cases "DistributionQueueCounter st")
  case None
  then have "DistributionQueue st = []" "queuedItems st = []"
    using assms by (simp_all add: queue_ok_def counterOf_def emptyCounter_def)
  then show ?thesis using None
    by (intro that [of None]) (simp_all add: ProcessDistributionQueue_def servedRewards_def counterOf_def emptyCounter_def)
next
  case (Some k)
  then have "unat (qcHead k) + length (queuedItems st) = unat (qcTail k)"
    "DistributionQueue st = keyed (unat (qcHead k)) (queuedItems st)"
    using assms by (simp_all add: queue_ok_def counterOf_def)
  from processLoop_run [OF this, of env n] Some show ?thesis
    by (intro that [of "Some (k\<lparr>qcHead := qcHead k + word_of_nat (min n (length (queuedItems st)))\<rparr>)"])
      (simp_all add: ProcessDistributionQueue_def counterOf_def)
qed

text \<open>The queue as the end of a block and the stake of a reporter use it.\<close>

definition serveQueue :: "'w reporter_env \<Rightarrow> nat \<Rightarrow> 'w reporter_state \<Rightarrow> 'w reporter_state" where
  "serveQueue env n st = (case ProcessDistributionQueue env n st of Inl _ \<Rightarrow> st | Inr st' \<Rightarrow> st')"

definition enqueuePeriod :: "addr \<times> period_reward_data \<Rightarrow> 'w reporter_state \<Rightarrow> 'w reporter_state" where
  "enqueuePeriod p st = queueForDistribution (fst p) (snd p) st"

lemma serveQueue_run:
  assumes "queue_ok st"
  shows "queue_ok (serveQueue env n st) \<and> queuedItems (serveQueue env n st) = drop n (queuedItems st)
    \<and> SelectorTips (serveQueue env n st) = creditAll (servedRewards env (take n (queuedItems st))) (SelectorTips st)"
proof -
  let ?its = "queuedItems st" and ?h = "qcHead (counterOf st)" and ?t = "qcTail (counterOf st)"
  let ?m = "min n (length ?its)"
  have ok: "unat ?h + length ?its = unat ?t" "DistributionQueue st = keyed (unat ?h) ?its"
    using assms by (simp_all add: queue_ok_def)
  obtain counter where run: "serveQueue env n st = st\<lparr>
        SelectorTips := creditAll (servedRewards env (take n ?its)) (SelectorTips st),
        DistributionQueue := drop n (DistributionQueue st), DistributionQueueCounter := counter\<rparr>"
    and counter: "counterOf (serveQueue env n st) = (counterOf st)\<lparr>qcHead := ?h + word_of_nat ?m\<rparr>"
    by (rule ProcessDistributionQueue_run [OF assms, of env n]) (simp add: serveQueue_def counterOf_def)
  have items: "queuedItems (serveQueue env n st) = drop n ?its" by (simp add: run queuedItems_def drop_map)
  have "unat ?h + ?m < 2 ^ 64" using ok(1) unat_less_64 [of ?t] by simp
  then have "unat (?h + word_of_nat ?m) = unat ?h + ?m"
    by (simp add: unat_word_ariths unat_of_nat)
  then have "queue_ok (serveQueue env n st)" using ok items unfolding queue_ok_def counter
    by (auto simp: run drop_keyed min_def)
  then show ?thesis using items by (simp add: run)
qed

lemma enqueuePeriod_run:
  assumes "queue_ok st" and "queue_room st"
  shows "queue_ok (enqueuePeriod p st) \<and> queuedItems (enqueuePeriod p st) = queuedItems st @ [itemOf (fst p) (snd p)]"
proof -
  let ?its = "queuedItems st" and ?h = "qcHead (counterOf st)" and ?t = "qcTail (counterOf st)"
  have ok: "unat ?h + length ?its = unat ?t" "DistributionQueue st = keyed (unat ?h) ?its"
    using assms(1) by (simp_all add: queue_ok_def)
  have "\<forall>x \<in> set (DistributionQueue st). fst x < ?t"
    using keyed_keys [of _ "unat ?h" ?its] ok unat_less_64 [of ?t] by (auto simp: word_less_nat_alt)
  then have queue: "DistributionQueue (enqueuePeriod p st) = DistributionQueue st @ [(?t, itemOf (fst p) (snd p))]"
    by (simp add: enqueuePeriod_def queueForDistribution_def Let_def kv_set_snoc)
  have counter: "counterOf (enqueuePeriod p st) = (counterOf st)\<lparr>qcTail := ?t + 1\<rparr>"
    by (simp add: enqueuePeriod_def queueForDistribution_def Let_def counterOf_def)
  have items: "queuedItems (enqueuePeriod p st) = ?its @ [itemOf (fst p) (snd p)]"
    by (simp add: queuedItems_def queue)
  have "unat (?t + 1) = Suc (unat ?t)"
    using assms(2) u64_less_succ(1) [of ?t] unat_succ by (simp add: queue_room_def)
  then show ?thesis using ok items by (simp add: queue_ok_def counter queue)
qed

interpretation rewardQueue: batch_queue queuedItems queue_ok queue_room "\<lambda>p. itemOf (fst p) (snd p)" enqueuePeriod "serveQueue env"
  for env
  by unfold_locales (simp_all add: serveQueue_run enqueuePeriod_run)

text \<open>The distribution queue is first in, first out and never stalls. An ended period goes
  to the end of the queue; processing never fails, pays the oldest \<open>n\<close> periods in order and
  leaves the others; so a period behind \<open>p\<close> others is paid by the \<open>(p div n + 1)\<close>-th time a
  block processes \<open>n\<close> items, and an empty queue is reached after as many blocks as the queue
  has batches.\<close>

theorem distribution_queue_fifo:
  assumes "queue_ok st" and "0 < n"
  shows "(\<exists>st'. ProcessDistributionQueue env n st = Inr st' \<and> queue_ok st' \<and> queuedItems st' = drop n (queuedItems st)
      \<and> SelectorTips st' = creditAll (servedRewards env (take n (queuedItems st))) (SelectorTips st))
    \<and> (queue_room st \<longrightarrow> queue_ok (queueForDistribution a data st)
        \<and> queuedItems (queueForDistribution a data st) = queuedItems st @ [itemOf a data])
    \<and> (p < length (queuedItems st) \<longrightarrow>
        queuedItems ((serveQueue env n ^^ (p div n)) st) ! (p mod n) = queuedItems st ! p
        \<and> queuedItems ((serveQueue env n ^^ Suc (p div n)) st) = drop (n + p div n * n) (queuedItems st))
    \<and> (length (queuedItems st) \<le> k * n \<longrightarrow> queuedItems ((serveQueue env n ^^ k) st) = [])"
proof (intro conjI impI)
  obtain st' where "ProcessDistributionQueue env n st = Inr st'"
    by (rule ProcessDistributionQueue_run [OF assms(1)]) blast
  then show "\<exists>st'. ProcessDistributionQueue env n st = Inr st' \<and> queue_ok st' \<and> queuedItems st' = drop n (queuedItems st)
      \<and> SelectorTips st' = creditAll (servedRewards env (take n (queuedItems st))) (SelectorTips st)"
    using serveQueue_run [OF assms(1), of env n] by (simp add: serveQueue_def)
  show "queue_ok (queueForDistribution a data st)" if "queue_room st"
    using enqueuePeriod_run [OF assms(1) that, of "(a, data)"] by (simp add: enqueuePeriod_def)
  show "queuedItems (queueForDistribution a data st) = queuedItems st @ [itemOf a data]" if "queue_room st"
    using enqueuePeriod_run [OF assms(1) that, of "(a, data)"] by (simp add: enqueuePeriod_def)
qed (use assms rewardQueue.served_in_turn rewardQueue.drained in \<open>blast+\<close>)

end
