(* ===== verification/RepMsgs.thy ===== *)
theory RepMsgs
  imports RepRewards
begin

text \<open>
  Messages of the reporter module (\<^verbatim>\<open>x/reporter/keeper/msg_server.go\<close>, \<^verbatim>\<open>msg_update_params.go\<close>),
  jailing (\<^verbatim>\<open>jail.go\<close>), the end of a block (\<^verbatim>\<open>module/module.go\<close>, with the pruning and the stake
  tracker of \<^verbatim>\<open>keeper.go\<close>) and genesis (\<^verbatim>\<open>module/genesis.go\<close>).
\<close>

section \<open>Creating and editing a reporter\<close>

record msg_create_reporter =
  crReporterAddress :: string
  crCommissionRate :: dec
  crMinTokensRequired :: int
  crMoniker :: string

definition accAddress :: "'w reporter_env \<Rightarrow> string \<Rightarrow> addr result" where
  "accAddress env s = wrapR ''ErrInvalidAddress'' (reAccAddressFromBech32 env s)"

definition validateCreateReporter :: "'w reporter_env \<Rightarrow> msg_create_reporter \<Rightarrow> addr result" where
  "validateCreateReporter env msg =
     bindR (accAddress env (crReporterAddress msg)) (\<lambda>reporter.
     bindR (guardR (0 < crMinTokensRequired msg) (Err ''MinTokensRequired must be positive'')) (\<lambda>_.
     bindR (guardR (crMoniker msg \<noteq> []) (Err ''moniker cannot be empty'')) (\<lambda>_.
     Inr reporter)))"

text \<open>A selector that leaves a reporter with a report on record is locked for the unbonding time.\<close>

definition lockAfterReport ::
  "'w reporter_env \<Rightarrow> ctx \<Rightarrow> addr \<Rightarrow> selection \<Rightarrow> 'w reporter_state \<Rightarrow> selection result" where
  "lockAfterReport env c prevReporter selection st =
     (if GetReporterTokensAtBlock st prevReporter (toU64 (BlockHeight c)) \<noteq> 0
      then bindR (skUnbondingTime (reStaking env) (repWorld st)) (\<lambda>unbondingTime.
           Inr (selection\<lparr>selLockedUntilTime := BlockTime c + unbondingTime\<rparr>))
      else Inr selection)"

definition CreateReporter ::
  "'w reporter_env \<Rightarrow> ctx \<Rightarrow> msg_create_reporter \<Rightarrow> 'w reporter_state \<Rightarrow> 'w reporter_state result" where
  "CreateReporter env c msg st =
     bindR (validateCreateReporter env msg) (\<lambda>a.
     bindR (getR (repParams st)) (\<lambda>params.
     bindR (CheckSelectorsDelegations env st a) (\<lambda>(bondedTokens, count).
     bindR (guardR (MinLoya params \<le> bondedTokens) (Err ''address does not have min tokens'')) (\<lambda>_.
     bindR (guardR (MinLoya params \<le> crMinTokensRequired msg) (Err ''min tokens below the min requirement'')) (\<lambda>_.
     bindR (guardR (crCommissionRate msg \<le> dec_one \<and> MinCommissionRate params \<le> crCommissionRate msg)
              (Err ''commission rate must be between 0 and 1'')) (\<lambda>_.
     let register = (\<lambda>selection. Inr (st\<lparr>
           Selectors := kv_set a selection (Selectors st),
           Reporters := kv_set a (NewReporter (crCommissionRate msg) (crMinTokensRequired msg) (crMoniker msg)) (Reporters st)\<rparr>))
     in case kv_get (Selectors st) a of
          Some selection \<Rightarrow>
            bindR (guardR (selReporter selection \<noteq> a) (Err ''address is already a reporter'')) (\<lambda>_.
            bindR (lockAfterReport env c (selReporter selection) selection st) (\<lambda>selection.
            register (selection\<lparr>selReporter := a\<rparr>)))
        | None \<Rightarrow> register (NewSelection a (toU64 count))))))))"

record msg_edit_reporter =
  erReporterAddress :: string
  erCommissionRate :: dec
  erMinTokensRequired :: int
  erMoniker :: string

definition validateEditReporter :: "'w reporter_env \<Rightarrow> msg_edit_reporter \<Rightarrow> addr result" where
  "validateEditReporter env msg =
     bindR (accAddress env (erReporterAddress msg)) (\<lambda>reporter.
     bindR (guardR (0 < erMinTokensRequired msg) (Err ''MinTokensRequired must be positive'')) (\<lambda>_.
     bindR (guardR (erMoniker msg \<noteq> []) (Err ''moniker cannot be empty'')) (\<lambda>_.
     Inr reporter)))"

text \<open>\<^verbatim>\<open>LegacyMustNewDecFromStr("0.01")\<close> and \<^verbatim>\<open>("0.10")\<close>.\<close>

definition dec_percent :: dec where "dec_percent = 10 ^ 16"

definition dec_tenth :: dec where "dec_tenth = 10 ^ 17"

definition EditReporter ::
  "'w reporter_env \<Rightarrow> ctx \<Rightarrow> msg_edit_reporter \<Rightarrow> 'w reporter_state \<Rightarrow> 'w reporter_state result" where
  "EditReporter env c msg st =
     bindR (validateEditReporter env msg) (\<lambda>a.
     bindR (getR (repParams st)) (\<lambda>params.
     bindR (guardR (erCommissionRate msg \<le> dec_one \<and> MinCommissionRate params \<le> erCommissionRate msg)
              (Err ''commission rate must be between 0 and 1'')) (\<lambda>_.
     bindR (getR (kv_get (Reporters st) a)) (\<lambda>reporter.
     bindR (guardR (12 * hour \<le> BlockTime c - LastUpdated reporter) (Err ''can only update reporters every 12 hours'')) (\<lambda>_.
     bindR (guardR (\<bar>CommissionRate reporter - erCommissionRate msg\<bar> \<le> dec_percent)
              (Err ''commission rate cannot change by more than 1%'')) (\<lambda>_.
     bindR (decQuo (reDec env) (dec_of \<bar>erMinTokensRequired msg - MinTokensRequired reporter\<bar>)
              (dec_of (MinTokensRequired reporter))) (\<lambda>change.
     bindR (guardR (change \<le> dec_tenth) (Err ''MinTokensRequired cannot change more than 10%'')) (\<lambda>_.
     Inr (st\<lparr>Reporters := kv_set a (reporter\<lparr>CommissionRate := erCommissionRate msg,
            MinTokensRequired := erMinTokensRequired msg, Moniker := erMoniker msg, LastUpdated := BlockTime c\<rparr>)
            (Reporters st)\<rparr>)))))))))"

section \<open>Selecting a reporter\<close>

record msg_select_reporter =
  slSelectorAddress :: string
  slReporterAddress :: string

definition validateSelectReporter :: "'w reporter_env \<Rightarrow> msg_select_reporter \<Rightarrow> (addr \<times> addr) result" where
  "validateSelectReporter env msg =
     bindR (accAddress env (slSelectorAddress msg)) (\<lambda>selector.
     bindR (accAddress env (slReporterAddress msg)) (\<lambda>reporter.
     Inr (selector, reporter)))"

text \<open>\<^verbatim>\<open>len(selectors) >= int(params.MaxSelectors)\<close>.\<close>

definition selectorsFull :: "reporter_params \<Rightarrow> addr \<Rightarrow> 'w reporter_state \<Rightarrow> bool" where
  "selectorsFull params reporter st \<longleftrightarrow> i64 (uint (MaxSelectors params)) \<le> int (length (selectorsOf reporter st))"

definition SelectReporter ::
  "'w reporter_env \<Rightarrow> msg_select_reporter \<Rightarrow> 'w reporter_state \<Rightarrow> 'w reporter_state result" where
  "SelectReporter env msg st =
     bindR (validateSelectReporter env msg) (\<lambda>(selectorAddr, reporterAddr).
     bindR (guardR (\<not> kv_has (Selectors st) selectorAddr) (Err ''selector already exists'')) (\<lambda>_.
     bindR (getR (kv_get (Reporters st) reporterAddr)) (\<lambda>reporter.
     bindR (getR (repParams st)) (\<lambda>params.
     bindR (guardR (\<not> selectorsFull params reporterAddr st) (Err ''reporter has reached max selectors'')) (\<lambda>_.
     bindR (CheckSelectorsDelegations env st selectorAddr) (\<lambda>(bondedTokens, count).
     bindR (guardR (MinTokensRequired reporter \<le> bondedTokens) (Err ''min requirement not met'')) (\<lambda>_.
     Inr (FlagStakeRecalc reporterAddr
           (st\<lparr>Selectors := kv_set selectorAddr (NewSelection reporterAddr (toU64 count)) (Selectors st)\<rparr>)))))))))"

definition TwentyOneDaysInMs :: u64 where
  "TwentyOneDaysInMs = 21 * 24 * 60 * 60 * 1000"

definition validateSwitchReporter :: "'w reporter_env \<Rightarrow> msg_select_reporter \<Rightarrow> (addr \<times> addr) result" where
  "validateSwitchReporter env msg =
     bindR (accAddress env (slSelectorAddress msg)) (\<lambda>selector.
     bindR (accAddress env (slReporterAddress msg)) (\<lambda>reporter.
     bindR (guardR (selector \<noteq> reporter) (Err ''selector and reporter cannot be the same address'')) (\<lambda>_.
     Inr (selector, reporter))))"

text \<open>A reporter that becomes a selector gives up its place if its last report is old enough.\<close>

definition resignReporter ::
  "'w reporter_env \<Rightarrow> ctx \<Rightarrow> addr \<Rightarrow> 'w reporter_state \<Rightarrow> 'w reporter_state result" where
  "resignReporter env c selectorAddr st =
     bindR (reLastReportedAtTimestamp env c st selectorAddr) (\<lambda>lastReportTimestamp.
     let currentBlocktime = toU64 (unixMilli (BlockTime c))
     in bindR (guardR (\<not> currentBlocktime - lastReportTimestamp < TwentyOneDaysInMs)
                 (Err ''reporter has reported in the last 21 days'')) (\<lambda>_.
        Inr (st\<lparr>Reporters := kv_del selectorAddr (Reporters st)\<rparr>)))"

text \<open>The cache of the new reporter is renewed when the lock ends.\<close>

definition recalcAfterLock :: "addr \<Rightarrow> selection \<Rightarrow> 'w reporter_state \<Rightarrow> 'w reporter_state" where
  "recalcAfterLock reporterAddr selector st =
     (let lockUnix = unixSeconds (selLockedUntilTime selector)
      in if (case kv_get (RecalcAtTime st) reporterAddr of None \<Rightarrow> True | Some existing \<Rightarrow> lockUnix < existing)
         then st\<lparr>RecalcAtTime := kv_set reporterAddr lockUnix (RecalcAtTime st)\<rparr> else st)"

definition moveSelector ::
  "'w reporter_env \<Rightarrow> ctx \<Rightarrow> addr \<Rightarrow> selection \<Rightarrow> addr \<Rightarrow> 'w reporter_state \<Rightarrow> 'w reporter_state result" where
  "moveSelector env c selectorAddr selector reporterAddr st =
     (let prevReporter = selReporter selector in
      bindR (lockAfterReport env c prevReporter selector st) (\<lambda>locked.
      let st1 = (if GetReporterTokensAtBlock st prevReporter (toU64 (BlockHeight c)) \<noteq> 0
                 then recalcAfterLock reporterAddr locked st else st);
          st2 = st1\<lparr>Selectors := kv_set selectorAddr (locked\<lparr>selReporter := reporterAddr\<rparr>) (Selectors st1)\<rparr>
      in Inr (FlagStakeRecalc reporterAddr (FlagStakeRecalc prevReporter st2))))"

definition SwitchReporter ::
  "'w reporter_env \<Rightarrow> ctx \<Rightarrow> msg_select_reporter \<Rightarrow> 'w reporter_state \<Rightarrow> 'w reporter_state result" where
  "SwitchReporter env c msg st =
     bindR (validateSwitchReporter env msg) (\<lambda>(selectorAddr, reporterAddr).
     bindR (getR (kv_get (Selectors st) selectorAddr)) (\<lambda>selector.
     bindR (guardR (selReporter selector \<noteq> reporterAddr) (Err ''selector is already assigned to this reporter'')) (\<lambda>_.
     bindR (getR (kv_get (Reporters st) reporterAddr)) (\<lambda>reporter.
     bindR (if selReporter selector = selectorAddr then resignReporter env c selectorAddr st else Inr st) (\<lambda>st.
     bindR (getR (repParams st)) (\<lambda>params.
     bindR (guardR (\<not> selectorsFull params reporterAddr st) (Err ''reporter has reached max selectors'')) (\<lambda>_.
     bindR (HasMin env st selectorAddr (MinTokensRequired reporter)) (\<lambda>hasMin.
     bindR (guardR hasMin (Err ''min requirement not met'')) (\<lambda>_.
     moveSelector env c selectorAddr selector reporterAddr st)))))))))"

record msg_remove_selector =
  rmAnyAddress :: string
  rmSelectorAddress :: string

definition validateRemoveSelector :: "'w reporter_env \<Rightarrow> msg_remove_selector \<Rightarrow> addr result" where
  "validateRemoveSelector env msg =
     bindR (accAddress env (rmAnyAddress msg)) (\<lambda>_. accAddress env (rmSelectorAddress msg))"

definition RemoveSelector ::
  "'w reporter_env \<Rightarrow> msg_remove_selector \<Rightarrow> 'w reporter_state \<Rightarrow> 'w reporter_state result" where
  "RemoveSelector env msg st =
     bindR (validateRemoveSelector env msg) (\<lambda>selectorAddr.
     bindR (getR (kv_get (Selectors st) selectorAddr)) (\<lambda>selector.
     bindR (getR (kv_get (Reporters st) (selReporter selector))) (\<lambda>reporter.
     bindR (guardR (selReporter selector \<noteq> selectorAddr) (Err ''selector is the reporter's own address'')) (\<lambda>_.
     bindR (HasMin env st selectorAddr (MinTokensRequired reporter)) (\<lambda>hasMin.
     bindR (guardR (\<not> hasMin) (Err ''min requirement is met'')) (\<lambda>_.
     bindR (getR (repParams st)) (\<lambda>params.
     bindR (guardR (selectorsFull params (selReporter selector) st) (Err ''reporter has not reached max selectors'')) (\<lambda>_.
     Inr (FlagStakeRecalc (selReporter selector)
           (st\<lparr>Selectors := kv_del selectorAddr (Selectors st)\<rparr>))))))))))"

section \<open>Jailing\<close>

definition MaxInt64 :: u64 where "MaxInt64 = 2 ^ 63 - 1"

definition JailReporter :: "ctx \<Rightarrow> addr \<Rightarrow> u64 \<Rightarrow> 'w reporter_state \<Rightarrow> 'w reporter_state result" where
  "JailReporter c reporterAddr jailDuration st =
     bindR (getR (kv_get (Reporters st) reporterAddr)) (\<lambda>reporter.
     bindR (guardR (\<not> Jailed reporter) ErrReporterJailed) (\<lambda>_.
     let jailedUntil = (if jailDuration = MaxInt64 then uint jailDuration
                        else BlockTime c + i64 (1000000000 * i64 (uint jailDuration)))
     in Inr (st\<lparr>Reporters := kv_set reporterAddr (reporter\<lparr>JailedUntil := jailedUntil, Jailed := True\<rparr>) (Reporters st)\<rparr>)))"

definition keeperUnjailReporter ::
  "ctx \<Rightarrow> addr \<Rightarrow> oracle_reporter \<Rightarrow> 'w reporter_state \<Rightarrow> 'w reporter_state result" where
  "keeperUnjailReporter c reporterAddr reporter st =
     bindR (guardR (Jailed reporter) (Err ''ErrReporterNotJailed'')) (\<lambda>_.
     bindR (guardR (JailedUntil reporter \<le> BlockTime c) ErrReporterJailed) (\<lambda>_.
     Inr (st\<lparr>Reporters := kv_set reporterAddr (reporter\<lparr>Jailed := False, JailedUntil := zero_time\<rparr>) (Reporters st)\<rparr>)))"

definition UnjailReporter ::
  "'w reporter_env \<Rightarrow> ctx \<Rightarrow> string \<Rightarrow> 'w reporter_state \<Rightarrow> 'w reporter_state result" where
  "UnjailReporter env c reporterStr st =
     bindR (accAddress env reporterStr) (\<lambda>reporterAddr.
     bindR (getR (kv_get (Reporters st) reporterAddr)) (\<lambda>reporter.
     keeperUnjailReporter c reporterAddr reporter st))"

definition UpdateJailedUntilOnFailedDispute :: "ctx \<Rightarrow> addr \<Rightarrow> 'w reporter_state \<Rightarrow> 'w reporter_state result" where
  "UpdateJailedUntilOnFailedDispute c reporterAddr st =
     bindR (getR (kv_get (Reporters st) reporterAddr)) (\<lambda>reporter.
     Inr (if \<not> Jailed reporter then st
          else st\<lparr>Reporters := kv_set reporterAddr (reporter\<lparr>JailedUntil := BlockTime c - 1000000000\<rparr>) (Reporters st)\<rparr>))"

section \<open>Parameters\<close>

definition repUpdateParams ::
  "'w reporter_env \<Rightarrow> string \<Rightarrow> reporter_params \<Rightarrow> 'w reporter_state \<Rightarrow> 'w reporter_state result" where
  "repUpdateParams env authority params st =
     bindR (wrapR ''invalid authority address'' (reAccAddressFromBech32 env authority)) (\<lambda>_.
     bindR (guardR (authority = reAuthority env) (Err ''ErrInvalidSigner'')) (\<lambda>_.
     Inr (st\<lparr>repParams := Some params\<rparr>)))"

section \<open>End of a block\<close>

definition TrackStakeChange :: "'w reporter_env \<Rightarrow> ctx \<Rightarrow> 'w reporter_state \<Rightarrow> 'w reporter_state result" where
  "TrackStakeChange env c st =
     bindR (getR (Tracker st)) (\<lambda>maxStake.
     if BlockTime c < stExpiration maxStake then Inr st
     else bindR (skTotalBondedTokens (reStaking env) (repWorld st)) (\<lambda>total.
       Inr (st\<lparr>Tracker := Some \<lparr>stExpiration = BlockTime c + 12 * hour, stAmount = total\<rparr>\<rparr>)))"

text \<open>The greatest block a reporter has among the entries to delete: the map \<^verbatim>\<open>oldLatest\<close>,
  \<^verbatim>\<open>newLatest\<close>, whose missing entries read as zero.\<close>

definition latestBlock :: "addr \<Rightarrow> (addr \<times> u64 \<times> bytes) list \<Rightarrow> u64" where
  "latestBlock reporter keys = fold (\<lambda>(r, block, q) m. if r = reporter \<and> m < block then block else m) keys 0"

definition prunable :: "(addr \<times> u64 \<times> bytes) list \<Rightarrow> (addr \<times> u64 \<times> bytes) list" where
  "prunable keys = filter (\<lambda>(r, block, q). block \<noteq> latestBlock r keys) keys"

text \<open>The keys of the old collection come in the order of their query ids, at most a batch of
  them; those of the new one in the order of their blocks, up to the cutoff.\<close>

definition oldPrunable :: "u64 \<Rightarrow> nat \<Rightarrow> 'w reporter_state \<Rightarrow> (addr \<times> u64 \<times> bytes) list" where
  "oldPrunable cutoffBlock maxBatchSize st =
     prunable (filter (\<lambda>(r, block, q). block < cutoffBlock)
       (map (\<lambda>((q, r, block), v). (r, block, q)) (take maxBatchSize (ReportOld st))))"

definition newPrunable :: "u64 \<Rightarrow> nat \<Rightarrow> 'w reporter_state \<Rightarrow> (addr \<times> u64 \<times> bytes) list" where
  "newPrunable cutoffBlock remaining st =
     prunable (take remaining (takeWhile (\<lambda>(r, block, q). block < cutoffBlock)
       (sort_key (\<lambda>(r, block, q). (block, r, q)) (map fst (ReportByBlock st)))))"

definition PruneOldReports ::
  "'w reporter_env \<Rightarrow> ctx \<Rightarrow> nat \<Rightarrow> 'w reporter_state \<Rightarrow> 'w reporter_state result" where
  "PruneOldReports env c maxBatchSize st =
     (case reBlockHeightFromTimestamp env st (BlockTime c - 30 * 24 * hour) of
        Inl _ \<Rightarrow> Inr st
      | Inr cutoffBlock \<Rightarrow>
          let oldToDelete = oldPrunable cutoffBlock maxBatchSize st;
              remaining = maxBatchSize - length oldToDelete;
              newToDelete = (if 0 < remaining then newPrunable cutoffBlock remaining st else [])
          in Inr (st\<lparr>ReportOld := filter (\<lambda>((q, r, block), v). (r, block, q) \<notin> set oldToDelete) (ReportOld st),
                     ReportByBlock := filter (\<lambda>(k, v). k \<notin> set newToDelete) (ReportByBlock st)\<rparr>))"

definition repEndBlock :: "'w reporter_env \<Rightarrow> ctx \<Rightarrow> 'w reporter_state \<Rightarrow> 'w reporter_state result" where
  "repEndBlock env c st =
     bindR (ProcessDistributionQueue env 10 st) (\<lambda>st.
     bindR (PruneOldReports env c 100 st) (\<lambda>st.
     TrackStakeChange env c st))"

section \<open>Genesis\<close>

record reporter_genesis =
  rgParams :: reporter_params
  rgSelectorTips :: "(addr \<times> dec) list"
  rgDisputedDelegationAmounts :: "(bytes \<times> delegations_amounts) list"
  rgFeePaidFromStake :: "(bytes \<times> delegations_amounts) list"

definition repInitGenesis :: "ctx \<Rightarrow> reporter_genesis \<Rightarrow> 'w reporter_state \<Rightarrow> 'w reporter_state" where
  "repInitGenesis c g st =
     st\<lparr>repParams := Some (rgParams g), Tracker := Some \<lparr>stExpiration = BlockTime c, stAmount = 0\<rparr>,
        SelectorTips := setAll (rgSelectorTips g) (SelectorTips st),
        DisputedDelegationAmounts := setAll (rgDisputedDelegationAmounts g) (DisputedDelegationAmounts st),
        FeePaidFromStake := setAll (rgFeePaidFromStake g) (FeePaidFromStake st)\<rparr>"

text \<open>The collections are walked from the greatest key down.\<close>

definition repExportGenesis :: "'w reporter_state \<Rightarrow> reporter_genesis result" where
  "repExportGenesis st =
     (case repParams st of
        None \<Rightarrow> Inl ErrPanic
      | Some params \<Rightarrow> Inr \<lparr>rgParams = params, rgSelectorTips = rev (SelectorTips st),
          rgDisputedDelegationAmounts = rev (DisputedDelegationAmounts st),
          rgFeePaidFromStake = rev (FeePaidFromStake st)\<rparr>)"

end
