(* ===== verification/RepInvariant.thy ===== *)
theory RepInvariant
  imports RepFrames RepQueue RepMsgs
begin

text \<open>
  The invariant of the reporter module over every sequence of its messages, of the calls of
  the oracle and the dispute module, of the hooks of staking and of ends of blocks: reporters
  are exactly the accounts that selected themselves, no reporter has more selectors than
  allowed, commissions and minimum stakes stay in range, and rewards waiting anywhere are
  fairly split and never negative.
\<close>

section \<open>The invariant\<close>

definition members_ok :: "'w reporter_state \<Rightarrow> bool" where
  "members_ok st \<longleftrightarrow> kv_ok (Reporters st) \<and> kv_ok (Selectors st)
     \<and> (\<forall>a. kv_has (Reporters st) a \<longleftrightarrow> map_option selReporter (kv_get (Selectors st) a) = Some a)"

definition terms_ok :: "'w reporter_state \<Rightarrow> bool" where
  "terms_ok st \<longleftrightarrow> (\<forall>a r. kv_get (Reporters st) a = Some r \<longrightarrow>
     0 \<le> CommissionRate r \<and> CommissionRate r \<le> dec_one \<and> 0 < MinTokensRequired r)"

text \<open>A place is kept free for a former reporter that still has selectors.\<close>

definition cap_ok :: "int \<Rightarrow> 'w reporter_state \<Rightarrow> bool" where
  "cap_ok N st \<longleftrightarrow> (\<forall>a. selectorCount a (Selectors st) + (if kv_has (Reporters st) a then 0 else 1) \<le> N)"

definition params_ok :: "int \<Rightarrow> reporter_params \<Rightarrow> bool" where
  "params_ok N p \<longleftrightarrow> 0 \<le> MinCommissionRate p \<and> i64 (uint (MaxSelectors p)) \<le> N"

definition rewards_ok :: "'w reporter_state \<Rightarrow> bool" where
  "rewards_ok st \<longleftrightarrow> kv_ok (SelectorTips st) \<and> kv_ok (ReporterPeriodData st)
     \<and> (\<forall>a x. kv_get (SelectorTips st) a = Some x \<longrightarrow> 0 \<le> x)
     \<and> (\<forall>a d. kv_get (ReporterPeriodData st) a = Some d \<longrightarrow> fair_item (itemOf a d))
     \<and> queue_ok st \<and> (\<forall>item \<in> set (queuedItems st). fair_item item)"

definition rep_inv :: "int \<Rightarrow> 'w reporter_state \<Rightarrow> bool" where
  "rep_inv N st \<longleftrightarrow> members_ok st \<and> terms_ok st \<and> cap_ok N st \<and> (\<forall>p. repParams st = Some p \<longrightarrow> params_ok N p)
     \<and> rewards_ok st"

lemma rep_inv_parts:
  assumes "rep_inv N st"
  shows "members_ok st" "terms_ok st" "cap_ok N st" "rewards_ok st" "kv_ok (Selectors st)" "kv_ok (Reporters st)"
    and "repParams st = Some p \<Longrightarrow> params_ok N p"
  using assms by (simp_all add: rep_inv_def members_ok_def)

lemma rep_invI:
  assumes "members_ok st" and "terms_ok st" and "cap_ok N st" and "\<And>p. repParams st = Some p \<Longrightarrow> params_ok N p"
    and "rewards_ok st"
  shows "rep_inv N st"
  using assms by (simp add: rep_inv_def)

lemma members_mem: "members_ok st \<Longrightarrow> kv_has (Reporters st) a \<longleftrightarrow> map_option selReporter (kv_get (Selectors st) a) = Some a"
  by (simp add: members_ok_def)

lemma rewards_ok_same:
  assumes "rewards_ok st"
    and "SelectorTips st' = SelectorTips st" and "ReporterPeriodData st' = ReporterPeriodData st"
    and "DistributionQueue st' = DistributionQueue st" and "DistributionQueueCounter st' = DistributionQueueCounter st"
  shows "rewards_ok st'"
  using assms by (simp add: rewards_ok_def queue_ok_def queuedItems_def counterOf_def)

lemma rep_inv_view:
  assumes "rep_inv N st" and "Reporters st' = Reporters st" and "kv_ok (Selectors st')"
    and "\<And>a. map_option selReporter (kv_get (Selectors st') a) = map_option selReporter (kv_get (Selectors st) a)"
    and "\<And>a. selectorCount a (Selectors st') = selectorCount a (Selectors st)"
    and "repParams st' = repParams st" and "rewards_ok st'"
  shows "rep_inv N st'"
proof -
  have "members_ok st'" using rep_inv_parts(1) [OF assms(1)] assms(2-4) by (simp only: members_ok_def simp_thms)
  moreover have "terms_ok st'" using rep_inv_parts(2) [OF assms(1)] assms(2) by (simp only: terms_ok_def simp_thms)
  moreover have "cap_ok N st'" using rep_inv_parts(3) [OF assms(1)] assms(2,5) by (simp only: cap_ok_def simp_thms)
  ultimately show ?thesis using assms(1,6,7) by (simp add: rep_inv_def)
qed

lemma rep_inv_frame:
  assumes "rep_inv N st" and "staking_frame st st'"
  shows "rep_inv N st'"
proof -
  have ok: "kv_ok (Selectors st)" by (rule rep_inv_parts [OF assms(1)])
  have "rewards_ok st'"
    using assms(2) by (intro rewards_ok_same [OF rep_inv_parts(4) [OF assms(1)]]) (simp_all add: staking_frame_def)
  moreover have "Reporters st' = Reporters st" "repParams st' = repParams st" "kv_ok (Selectors st')"
    "\<And>a. selectorCount a (Selectors st') = selectorCount a (Selectors st)"
    using assms(2) ok by (simp_all add: staking_frame_def)
  moreover have "map_option selReporter (kv_get (Selectors st') a) = map_option selReporter (kv_get (Selectors st) a)" for a
    by (rule staking_frame_field [OF assms(2) ok]) simp
  ultimately show ?thesis by (intro rep_inv_view [OF assms(1)])
qed

text \<open>Marks and snapshots do not matter to the invariant.\<close>

lemma rep_inv_cong:
  assumes "rep_inv N st" and "Reporters st' = Reporters st" and "Selectors st' = Selectors st"
    and "repParams st' = repParams st" and "rewards_ok st'"
  shows "rep_inv N st'"
  using assms(2-5) rep_inv_parts(5) [OF assms(1)] by (intro rep_inv_view [OF assms(1)]) simp_all

section \<open>Messages\<close>

lemma register_inv:
  assumes "rep_inv N st" and "\<not> kv_has (Reporters st) a" and "selReporter s = a"
    and "0 \<le> CommissionRate r \<and> CommissionRate r \<le> dec_one \<and> 0 < MinTokensRequired r"
  shows "rep_inv N (st\<lparr>Selectors := kv_set a s (Selectors st), Reporters := kv_set a r (Reporters st)\<rparr>)"
    (is "rep_inv N ?st")
proof -
  note parts = rep_inv_parts [OF assms(1)]
  have other: "map_option selReporter (kv_get (Selectors st) a) \<noteq> Some a"
    using assms(2) parts(1) by (simp add: members_ok_def)
  have "selectorCount b (kv_set a s (Selectors st)) + (if kv_has (kv_set a r (Reporters st)) b then 0 else 1) \<le> N" for b
  proof -
    have "selectorCount b (Selectors st) + (if kv_has (Reporters st) b then 0 else 1) \<le> N"
      using parts(3) by (simp add: cap_ok_def)
    then show ?thesis using assms(2,3) other
      by (auto simp: selectorCount_set [OF parts(5)] split: option.splits if_splits)
  qed
  then have "cap_ok N ?st" by (simp add: cap_ok_def)
  moreover have "members_ok ?st"
    unfolding members_ok_def using parts(5,6) assms(3) members_mem [OF parts(1)] by simp
  moreover have "terms_ok ?st" using parts(2) assms(4) by (simp add: terms_ok_def)
  moreover have "rewards_ok ?st" by (rule rewards_ok_same [OF parts(4)]) simp_all
  ultimately show ?thesis using parts(7) by (intro rep_invI) simp_all
qed

lemma CreateReporter_cases:
  assumes "CreateReporter env c msg st = Inr st'"
  obtains a params s where "repParams st = Some params" "0 < crMinTokensRequired msg"
    "crCommissionRate msg \<le> dec_one" "MinCommissionRate params \<le> crCommissionRate msg"
    "selReporter s = a" "map_option selReporter (kv_get (Selectors st) a) \<noteq> Some a"
    "st' = st\<lparr>Selectors := kv_set a s (Selectors st),
      Reporters := kv_set a (NewReporter (crCommissionRate msg) (crMinTokensRequired msg) (crMoniker msg)) (Reporters st)\<rparr>"
proof -
  let ?register = "\<lambda>a s. st\<lparr>Selectors := kv_set a s (Selectors st),
      Reporters := kv_set a (NewReporter (crCommissionRate msg) (crMinTokensRequired msg) (crMoniker msg)) (Reporters st)\<rparr>"
  from assms obtain a params n where base: "repParams st = Some params" "0 < crMinTokensRequired msg"
      "crCommissionRate msg \<le> dec_one" "MinCommissionRate params \<le> crCommissionRate msg"
    and body: "(case kv_get (Selectors st) a of
        Some selection \<Rightarrow>
            bindR (guardR (selReporter selection \<noteq> a) (Err ''address is already a reporter'')) (\<lambda>_.
            bindR (lockAfterReport env c (selReporter selection) selection st) (\<lambda>selection.
            Inr (?register a (selection\<lparr>selReporter := a\<rparr>))))
      | None \<Rightarrow> Inr (?register a (NewSelection a n))) = Inr st'"
    by (auto simp: CreateReporter_def validateCreateReporter_def Let_def)
  show ?thesis
  proof (cases "kv_get (Selectors st) a")
    case None
    then show ?thesis using body by (intro that [OF base, of "NewSelection a n" a]) (simp_all add: NewSelection_def)
  next
    case (Some s)
    then obtain s' where "selReporter s \<noteq> a" "st' = ?register a (s'\<lparr>selReporter := a\<rparr>)" using body by auto
    then show ?thesis using Some by (intro that [OF base, of "s'\<lparr>selReporter := a\<rparr>" a]) simp_all
  qed
qed

lemma CreateReporter_inv:
  assumes "rep_inv N st" and "CreateReporter env c msg st = Inr st'"
  shows "rep_inv N st'"
  using assms(2)
proof (rule CreateReporter_cases)
  fix a params s
  assume params: "repParams st = Some params"
    and valid: "0 < crMinTokensRequired msg" "crCommissionRate msg \<le> dec_one" "MinCommissionRate params \<le> crCommissionRate msg"
    and s: "selReporter s = a" "map_option selReporter (kv_get (Selectors st) a) \<noteq> Some a"
    and st': "st' = st\<lparr>Selectors := kv_set a s (Selectors st),
      Reporters := kv_set a (NewReporter (crCommissionRate msg) (crMinTokensRequired msg) (crMoniker msg)) (Reporters st)\<rparr>"
  have "\<not> kv_has (Reporters st) a" using s(2) rep_inv_parts(1) [OF assms(1)] by (simp add: members_ok_def)
  moreover have "0 \<le> crCommissionRate msg"
    using valid(3) rep_inv_parts(7) [OF assms(1) params] by (simp add: params_ok_def)
  ultimately show ?thesis unfolding st' using s(1) valid
    by (intro register_inv [OF assms(1)]) (simp_all add: NewReporter_def)
qed

text \<open>A reporter's record is replaced.\<close>

lemma reporter_update_inv:
  assumes "rep_inv N st" and "kv_get (Reporters st) a = Some r"
    and "0 \<le> CommissionRate r' \<and> CommissionRate r' \<le> dec_one \<and> 0 < MinTokensRequired r'"
  shows "rep_inv N (st\<lparr>Reporters := kv_set a r' (Reporters st)\<rparr>)" (is "rep_inv N ?st")
proof -
  note parts = rep_inv_parts [OF assms(1)]
  have same: "kv_has (kv_set a r' (Reporters st)) b = kv_has (Reporters st) b" for b
    using assms(2) by (auto simp: kv_has_def)
  have "members_ok ?st" unfolding members_ok_def using parts(5,6) members_mem [OF parts(1)] same by simp
  moreover have "cap_ok N ?st" using parts(3) same by (simp add: cap_ok_def)
  moreover have "terms_ok ?st" using parts(2) assms(3) by (simp add: terms_ok_def)
  moreover have "rewards_ok ?st" by (rule rewards_ok_same [OF parts(4)]) simp_all
  ultimately show ?thesis using parts(7) by (intro rep_invI) simp_all
qed

lemma terms_of: "rep_inv N st \<Longrightarrow> kv_get (Reporters st) a = Some r \<Longrightarrow>
    0 \<le> CommissionRate r \<and> CommissionRate r \<le> dec_one \<and> 0 < MinTokensRequired r"
  by (simp add: rep_inv_def terms_ok_def)

lemma EditReporter_inv:
  assumes "rep_inv N st" and "EditReporter env c msg st = Inr st'"
  shows "rep_inv N st'"
proof -
  from assms(2) obtain a params r where params: "repParams st = Some params"
    and valid: "0 < erMinTokensRequired msg" "erCommissionRate msg \<le> dec_one" "MinCommissionRate params \<le> erCommissionRate msg"
    and r: "kv_get (Reporters st) a = Some r"
    and st': "st' = st\<lparr>Reporters := kv_set a (r\<lparr>CommissionRate := erCommissionRate msg,
            MinTokensRequired := erMinTokensRequired msg, Moniker := erMoniker msg, LastUpdated := BlockTime c\<rparr>) (Reporters st)\<rparr>"
    by (auto simp: EditReporter_def validateEditReporter_def)
  have "0 \<le> erCommissionRate msg"
    using valid(3) rep_inv_parts(7) [OF assms(1) params] by (simp add: params_ok_def)
  then show ?thesis unfolding st' using valid by (intro reporter_update_inv [OF assms(1) r]) simp
qed

lemma jail_invs:
  assumes "rep_inv N st"
  shows "JailReporter c a d st = Inr st' \<Longrightarrow> rep_inv N st'"
    and "UnjailReporter env c s st = Inr st' \<Longrightarrow> rep_inv N st'"
    and "UpdateJailedUntilOnFailedDispute c a st = Inr st' \<Longrightarrow> rep_inv N st'"
  using assms
  by (auto simp: JailReporter_def UnjailReporter_def keeperUnjailReporter_def UpdateJailedUntilOnFailedDispute_def
      Let_def reporter_update_inv terms_of)

text \<open>A selector is moved from nowhere or from another reporter to a reporter with room.\<close>

lemma selection_inv:
  assumes "rep_inv N st" and "kv_has (Reporters st) b" and "selectorCount b (Selectors st) < N" and "a \<noteq> b"
    and "selReporter s = b" and "map_option selReporter (kv_get (Selectors st) a) \<noteq> Some b"
  shows "rep_inv N (st\<lparr>Reporters := kv_del a (Reporters st), Selectors := kv_set a s (Selectors st)\<rparr>)"
    (is "rep_inv N ?st")
proof -
  note parts = rep_inv_parts [OF assms(1)]
  have has: "kv_has (kv_del a (Reporters st)) x \<longleftrightarrow> x \<noteq> a \<and> kv_has (Reporters st) x" for x
    by (simp add: kv_has_def)
  have "selectorCount x (kv_set a s (Selectors st)) + (if kv_has (kv_del a (Reporters st)) x then 0 else 1) \<le> N" for x
  proof -
    have cap: "selectorCount x (Selectors st) + (if kv_has (Reporters st) x then 0 else 1) \<le> N"
      using parts(3) by (simp add: cap_ok_def)
    have self: "kv_has (Reporters st) a \<Longrightarrow> kv_get (Selectors st) a \<noteq> None \<and> selReporter (the (kv_get (Selectors st) a)) = a"
      using members_mem [OF parts(1), of a] by auto
    show ?thesis using cap self assms(2-6) unfolding has selectorCount_set [OF parts(5)]
      by (cases "kv_get (Selectors st) a") (auto split: if_splits)
  qed
  then have "cap_ok N ?st" by (simp add: cap_ok_def)
  moreover have "members_ok ?st"
    unfolding members_ok_def using parts(5,6) assms(4,5) members_mem [OF parts(1)] has by simp
  moreover have "terms_ok ?st" using parts(2) by (simp add: terms_ok_def)
  moreover have "rewards_ok ?st" by (rule rewards_ok_same [OF parts(4)]) simp_all
  ultimately show ?thesis using parts(7) by (intro rep_invI) simp_all
qed

lemma not_full:
  assumes "rep_inv N st" and "repParams st = Some params" and "\<not> selectorsFull params b st"
  shows "selectorCount b (Selectors st) < N"
  using assms(3) rep_inv_parts(7) [OF assms(1,2)] selectorCount_length [of b st] by (simp add: selectorsFull_def params_ok_def)

lemma kv_del_absent: "\<not> kv_has m k \<Longrightarrow> kv_ok m \<Longrightarrow> kv_del k m = m"
  by (rule kv_list_eqI) (auto simp: kv_has_def)

lemma rep_inv_same:
  assumes "rep_inv N st" and "Reporters st' = Reporters st" and "Selectors st' = Selectors st"
    and "repParams st' = repParams st" and "SelectorTips st' = SelectorTips st"
    and "ReporterPeriodData st' = ReporterPeriodData st" and "DistributionQueue st' = DistributionQueue st"
    and "DistributionQueueCounter st' = DistributionQueueCounter st"
  shows "rep_inv N st'"
  by (rule rep_inv_cong [OF assms(1-4)]) (rule rewards_ok_same [OF rep_inv_parts(4) [OF assms(1)] assms(5-8)])

lemma FlagStakeRecalc_inv: "rep_inv N st \<Longrightarrow> rep_inv N (FlagStakeRecalc a st)"
  by (rule rep_inv_same) (simp_all add: FlagStakeRecalc_def)

lemma SelectReporter_inv:
  assumes "rep_inv N st" and "SelectReporter env msg st = Inr st'"
  shows "rep_inv N st'"
proof -
  note parts = rep_inv_parts [OF assms(1)]
  from assms(2) obtain a b params reporter n where fresh: "\<not> kv_has (Selectors st) a"
    and b: "kv_get (Reporters st) b = Some reporter"
    and room: "repParams st = Some params" "\<not> selectorsFull params b st"
    and st': "st' = FlagStakeRecalc b (st\<lparr>Selectors := kv_set a (NewSelection b n) (Selectors st)\<rparr>)"
    by (auto simp: SelectReporter_def)
  have none: "kv_get (Selectors st) a = None" using fresh by (simp add: kv_has_def)
  have hasb: "kv_has (Reporters st) b" using b by (simp add: kv_has_def)
  have "\<not> kv_has (Reporters st) a" using members_mem [OF parts(1), of a] none by simp
  then have del: "kv_del a (Reporters st) = Reporters st" by (rule kv_del_absent [OF _ parts(6)])
  have "a \<noteq> b" using members_mem [OF parts(1), of b] none hasb by auto
  then have "rep_inv N (st\<lparr>Reporters := kv_del a (Reporters st), Selectors := kv_set a (NewSelection b n) (Selectors st)\<rparr>)"
    using hasb not_full [OF assms(1) room] none by (intro selection_inv [OF assms(1)]) (simp_all add: NewSelection_def)
  then show ?thesis unfolding st' using del by (intro FlagStakeRecalc_inv) simp
qed

lemma moveSelector_writes:
  assumes "moveSelector env c a s b st = Inr st'"
  obtains locked where "selReporter locked = b" "Selectors st' = kv_set a locked (Selectors st)" "Reporters st' = Reporters st"
    "repParams st' = repParams st" "SelectorTips st' = SelectorTips st"
    "ReporterPeriodData st' = ReporterPeriodData st" "DistributionQueue st' = DistributionQueue st"
    "DistributionQueueCounter st' = DistributionQueueCounter st"
proof -
  from assms obtain locked st1 where
    st': "st' = FlagStakeRecalc b (FlagStakeRecalc (selReporter s)
      (st1\<lparr>Selectors := kv_set a (locked\<lparr>selReporter := b\<rparr>) (Selectors st1)\<rparr>))"
    and st1: "\<exists>r. st1 = st\<lparr>RecalcAtTime := r\<rparr>"
  proof -
    have "\<exists>r. (if x then recalcAfterLock b l st else st) = st\<lparr>RecalcAtTime := r\<rparr>" for x l
      by (cases x) (auto simp: recalcAfterLock_def Let_def intro: exI [of _ "RecalcAtTime st"])
    then show thesis using assms that by (auto simp: moveSelector_def Let_def)
  qed
  then show thesis by (intro that [of "locked\<lparr>selReporter := b\<rparr>"]) (auto simp: FlagStakeRecalc_def)
qed

lemma SwitchReporter_writes:
  assumes "members_ok st" and "SwitchReporter env c msg st = Inr st'"
  obtains a b s locked params where "a \<noteq> b" "kv_get (Selectors st) a = Some s" "selReporter s \<noteq> b"
    "kv_has (Reporters st) b" "repParams st = Some params" "\<not> selectorsFull params b st" "selReporter locked = b"
    "Selectors st' = kv_set a locked (Selectors st)" "Reporters st' = kv_del a (Reporters st)"
    "repParams st' = repParams st" "SelectorTips st' = SelectorTips st"
    "ReporterPeriodData st' = ReporterPeriodData st" "DistributionQueue st' = DistributionQueue st"
    "DistributionQueueCounter st' = DistributionQueueCounter st"
proof -
  from assms(2) obtain a b s reporter st1 params where ab: "a \<noteq> b" "kv_get (Selectors st) a = Some s" "selReporter s \<noteq> b"
    and b: "kv_get (Reporters st) b = Some reporter"
    and resign: "(if selReporter s = a then resignReporter env c a st else Inr st) = Inr st1"
    and room: "repParams st1 = Some params" "\<not> selectorsFull params b st1"
    and move: "moveSelector env c a s b st1 = Inr st'"
    by (auto simp: SwitchReporter_def validateSwitchReporter_def)
  have st1: "st1 = st\<lparr>Reporters := kv_del a (Reporters st)\<rparr>"
  proof (cases "selReporter s = a")
    case True
    then show ?thesis using resign by (auto simp: resignReporter_def Let_def)
  next
    case False
    then have "\<not> kv_has (Reporters st) a" using members_mem [OF assms(1), of a] ab(2) by simp
    then have "kv_del a (Reporters st) = Reporters st" using assms(1) by (simp add: kv_del_absent members_ok_def)
    then show ?thesis using resign False by simp
  qed
  have "kv_has (Reporters st) b" using b by (simp add: kv_has_def)
  moreover have "repParams st = Some params" "\<not> selectorsFull params b st"
    using room unfolding st1 by (simp_all add: selectorsFull_def selectorsOf_def)
  ultimately show ?thesis using move ab
    by (elim moveSelector_writes) (rule that [OF ab], auto simp: st1)
qed

lemma SwitchReporter_inv:
  assumes "rep_inv N st" and "SwitchReporter env c msg st = Inr st'"
  shows "rep_inv N st'"
proof -
  note parts = rep_inv_parts [OF assms(1)]
  show ?thesis
    using parts(1) assms(2)
  proof (rule SwitchReporter_writes)
    fix a b s locked params
    assume ab: "a \<noteq> b" "kv_get (Selectors st) a = Some s" "selReporter s \<noteq> b"
      and b: "kv_has (Reporters st) b" "repParams st = Some params" "\<not> selectorsFull params b st" "selReporter locked = b"
      and st': "Selectors st' = kv_set a locked (Selectors st)" "Reporters st' = kv_del a (Reporters st)"
        "repParams st' = repParams st" "SelectorTips st' = SelectorTips st"
        "ReporterPeriodData st' = ReporterPeriodData st" "DistributionQueue st' = DistributionQueue st"
        "DistributionQueueCounter st' = DistributionQueueCounter st"
    have "rep_inv N (st\<lparr>Reporters := kv_del a (Reporters st), Selectors := kv_set a locked (Selectors st)\<rparr>)"
      using ab b not_full [OF assms(1) b(2,3)] by (intro selection_inv [OF assms(1)]) simp_all
    then show "rep_inv N st'" by (rule rep_inv_same) (simp_all add: st')
  qed
qed

lemma RemoveSelector_inv:
  assumes "rep_inv N st" and "RemoveSelector env msg st = Inr st'"
  shows "rep_inv N st'"
proof -
  note parts = rep_inv_parts [OF assms(1)]
  from assms(2) obtain a s where a: "kv_get (Selectors st) a = Some s" "selReporter s \<noteq> a"
    and st': "st' = FlagStakeRecalc (selReporter s) (st\<lparr>Selectors := kv_del a (Selectors st)\<rparr>)"
    by (auto simp: RemoveSelector_def)
  let ?st = "st\<lparr>Selectors := kv_del a (Selectors st)\<rparr>"
  have fewer: "selectorCount b (kv_del a (Selectors st)) \<le> selectorCount b (Selectors st)" for b
    by (simp add: selectorCount_del [OF parts(5)] split: option.split)
  have "selectorCount b (kv_del a (Selectors st)) + (if kv_has (Reporters st) b then 0 else 1) \<le> N" for b
    using fewer [of b] parts(3) [unfolded cap_ok_def, rule_format, of b] by linarith
  then have "cap_ok N ?st" by (simp add: cap_ok_def)
  moreover have "members_ok ?st"
    unfolding members_ok_def using parts(5,6) a members_mem [OF parts(1)] by simp
  moreover have "terms_ok ?st" using parts(2) by (simp add: terms_ok_def)
  moreover have "rewards_ok ?st" by (rule rewards_ok_same [OF parts(4)]) simp_all
  ultimately have "rep_inv N ?st" using parts(7) by (intro rep_invI) simp_all
  then show ?thesis unfolding st' by (rule FlagStakeRecalc_inv)
qed

section \<open>Stake and rewards\<close>

definition env_laws :: "'w reporter_env \<Rightarrow> bool" where
  "env_laws env \<longleftrightarrow> dec_laws (reDec env) \<and> tokens_law env"

lemma fair_newPeriod:
  assumes "tokens_law env" and "kv_ok (Selectors st)" and "GetReporterStake env c a st = Inr (stake, st')"
  shows "fair_item (itemOf a (newPeriod (rsShares stake) (rsTotal stake) h))"
  using assms(3)
proof (rule GetReporterStake_inv [OF assms(1,2)])
  fix acc
  assume "stake_inv c st a acc" "rsTotal stake = saTotal acc" "rsShares stake = saShares acc"
  then show ?thesis by (simp add: stake_inv_def fair_item_def itemOf_def newPeriod_def)
qed

lemma handlePeriodTracking_rewards:
  assumes "rewards_ok st" and "queue_room st" and "fair_item (itemOf a (newPeriod ss n h))"
    and "handlePeriodTracking a ss n h st = (b, st')"
  shows "rewards_ok st' \<and> Reporters st' = Reporters st \<and> Selectors st' = Selectors st \<and> repParams st' = repParams st"
proof -
  have set_ok: "rewards_ok (t\<lparr>ReporterPeriodData := kv_set a (newPeriod ss n h) (ReporterPeriodData t)\<rparr>)" if "rewards_ok t"
    for t :: "'a reporter_state"
    using that assms(3) by (auto simp: rewards_ok_def queue_ok_def queuedItems_def counterOf_def)
  have enq: "rewards_ok (queueForDistribution a d st)" if "kv_get (ReporterPeriodData st) a = Some d" for d
  proof -
    have "fair_item (itemOf a d)" using assms(1) that by (simp add: rewards_ok_def)
    then show ?thesis using enqueuePeriod_run [OF _ assms(2), of "(a, d)"] assms(1)
      by (auto simp: rewards_ok_def enqueuePeriod_def) (auto simp: queueForDistribution_def Let_def)
  qed
  show ?thesis
  proof (cases "kv_get (ReporterPeriodData st) a")
    case None
    then show ?thesis using assms(4) set_ok [OF assms(1)] by (auto simp: handlePeriodTracking_def)
  next
    case (Some d)
    let ?t = "if 0 < pdRewardAmount d then queueForDistribution a d st else st"
    have t: "rewards_ok ?t" "Reporters ?t = Reporters st" "Selectors ?t = Selectors st" "repParams ?t = repParams st"
      using enq [OF Some] assms(1) by (simp_all add: queueForDistribution_def Let_def)
    then show ?thesis using assms(1,4) Some set_ok [OF t(1)]
      by (cases "pdHash d = h") (auto simp: handlePeriodTracking_def Let_def)
  qed
qed

lemma ReporterStake_inv:
  assumes "env_laws env" and "rep_inv N st" and "queue_room st" and "ReporterStake env c a q st = Inr (n, st')"
  shows "rep_inv N st'"
proof -
  note parts = rep_inv_parts [OF assms(2)]
  have recalc: "rep_inv N st'" if run: "recalculateStake env c a q st = Inr (n, st')"
  proof -
    obtain stake st1 b st3 where get: "GetReporterStake env c a st = Inr (stake, st1)"
      and track: "handlePeriodTracking a (rsShares stake) (rsTotal stake) (rsHash stake)
          (st1\<lparr>StakeRecalcFlag := kv_del a (StakeRecalcFlag st1)\<rparr>) = (b, st3)"
      and st': "st' = (if b then SetReporterStakeByQueryId c a (rsDelegates stake) (rsTotal stake) q st3 else st3)"
      using run by (rule recalculateStake_run)
    obtain recalc where st1: "st1 = st\<lparr>RecalcAtTime := recalc\<rparr>" using get by (rule GetReporterStake_run) blast
    let ?st2 = "st1\<lparr>StakeRecalcFlag := kv_del a (StakeRecalcFlag st1)\<rparr>"
    have "rewards_ok ?st2" by (rule rewards_ok_same [OF parts(4)]) (simp_all add: st1)
    moreover have "queue_room ?st2" using assms(3) by (simp add: queue_room_def st1 counterOf_def)
    moreover have "fair_item (itemOf a (newPeriod (rsShares stake) (rsTotal stake) (rsHash stake)))"
      using assms(1) fair_newPeriod [OF _ parts(5) get] by (simp add: env_laws_def)
    ultimately have st3: "rewards_ok st3" "Reporters st3 = Reporters st" "Selectors st3 = Selectors st" "repParams st3 = repParams st"
      using handlePeriodTracking_rewards [OF _ _ _ track] by (simp_all add: st1)
    have "rep_inv N st3" by (rule rep_inv_cong [OF assms(2) st3(2-4,1)])
    then show ?thesis unfolding st' by (auto simp: SetReporterStakeByQueryId_def intro: rep_inv_same)
  qed
  show ?thesis using assms(2,4) recalc by (auto simp: ReporterStake_def split: if_splits option.splits)
qed

lemma GetReporterStake_inv_kept:
  assumes "rep_inv N st" and "GetReporterStake env c a st = Inr (stake, st')"
  shows "rep_inv N st'"
  using assms(2)
proof (rule GetReporterStake_run)
  assume "\<exists>recalc. st' = st\<lparr>RecalcAtTime := recalc\<rparr>"
  then show ?thesis using assms(1) by (auto intro: rep_inv_same)
qed

lemma SetReporterStakeByQueryId_inv: "rep_inv N st \<Longrightarrow> rep_inv N (SetReporterStakeByQueryId c a d n q st)"
  by (rule rep_inv_same) (simp_all add: SetReporterStakeByQueryId_def)

text \<open>Tips are only ever raised by credits and lowered to the fraction that is left.\<close>

lemma rewards_tips:
  assumes "rewards_ok st" and "kv_ok tips" and "\<And>a x. kv_get tips a = Some x \<Longrightarrow> 0 \<le> x"
  shows "rewards_ok (st\<lparr>SelectorTips := tips\<rparr>)"
  using assms by (simp add: rewards_ok_def queue_ok_def queuedItems_def counterOf_def)

lemma itemRewards_nonneg:
  assumes "dec_laws (reDec env)" and "fair_item item" and "(a, x) \<in> set (itemRewards env item)"
  shows "0 \<le> x"
proof -
  have "0 < qiTotal item" using assms(2,3) sharesSum_pos [of "qiSelectors item"]
    by (auto simp: fair_item_def itemRewards_def split: if_splits)
  then show ?thesis using assms dmul_nonneg [OF assms(1)] dquo_nonneg [OF assms(1)]
    by (auto simp: itemRewards_def fair_item_def less_imp_le split: if_splits)
qed

lemma creditAll_nonneg:
  assumes "\<forall>p \<in> set ps. 0 \<le> snd p" and "\<And>a x. kv_get tips a = Some x \<Longrightarrow> 0 \<le> x" and "kv_get (creditAll ps tips) a = Some x"
  shows "0 \<le> x"
  using assms
proof (induction ps tips rule: creditAll.induct)
  case (1 tips)
  then show ?case by auto
next
  case (2 b y ps tips)
  have "0 \<le> z" if "kv_get (if y = 0 then tips else kv_set b (kv_get_or 0 tips b + y) tips) k = Some z" for k z
    using that 2(2,3) by (auto simp: kv_get_or_def split: if_splits option.splits)
  then show ?case using 2 by simp
qed

lemma distribute_rewards:
  assumes "dec_laws (reDec env)" and "rewards_ok st" and "\<forall>item \<in> set items. fair_item item"
  shows "rewards_ok (st\<lparr>SelectorTips := creditAll (servedRewards env items) (SelectorTips st)\<rparr>)"
proof (rule rewards_tips [OF assms(2)])
  show "kv_ok (creditAll (servedRewards env items) (SelectorTips st))" using assms(2) by (simp add: rewards_ok_def)
  have "\<forall>p \<in> set (servedRewards env items). 0 \<le> snd p"
    using itemRewards_nonneg [OF assms(1)] assms(3) by (fastforce simp: servedRewards_def)
  then show "0 \<le> x" if "kv_get (creditAll (servedRewards env items) (SelectorTips st)) a = Some x" for a x
    using creditAll_nonneg [OF _ _ that] assms(2) by (simp add: rewards_ok_def)
qed

lemma DivvyingTips_inv:
  assumes "env_laws env" and "rep_inv N st" and "0 \<le> reward" and "DivvyingTips env a reward st = Inr st'"
  shows "rep_inv N st'"
proof -
  have D: "dec_laws (reDec env)" using assms(1) by (simp add: env_laws_def)
  have rew: "rewards_ok st" by (rule rep_inv_parts [OF assms(2)])
  from assms(4) obtain r where r: "kv_get (Reporters st) a = Some r" by (auto simp: DivvyingTips_def)
  let ?k = "dmul (reDec env) reward (CommissionRate r)"
  let ?st1 = "if 0 < ?k then addSelectorTips a ?k st else st"
  have k: "0 \<le> ?k" "?k \<le> reward"
    using terms_of [OF assms(2) r] assms(3) dmul_nonneg [OF D] dmul_le [OF D] by simp_all
  have tips: "rewards_ok (addSelectorTips a ?k st)" unfolding addSelectorTips_def
    using rew k(1) by (intro rewards_tips) (auto simp: rewards_ok_def kv_get_or_def split: if_splits option.splits)
  then have st1: "rewards_ok ?st1" using rew by simp
  have "rewards_ok st' \<and> Reporters st' = Reporters st \<and> Selectors st' = Selectors st \<and> repParams st' = repParams st"
  proof (cases "kv_get (ReporterPeriodData ?st1) a")
    case None
    then show ?thesis using assms(4) r st1 by (auto simp: DivvyingTips_def Let_def addSelectorTips_def)
  next
    case (Some d)
    let ?d = "d\<lparr>pdRewardAmount := pdRewardAmount d + (reward - ?k)\<rparr>"
    have st': "st' = ?st1\<lparr>ReporterPeriodData := kv_set a ?d (ReporterPeriodData ?st1)\<rparr>"
      using assms(4) r Some by (simp add: DivvyingTips_def Let_def)
    have "fair_item (itemOf a d)" using st1 Some by (simp add: rewards_ok_def)
    then have "fair_item (itemOf a ?d)" using k(2) by (simp add: fair_item_def itemOf_def)
    then have "rewards_ok st'" using st1 unfolding st'
      by (simp add: rewards_ok_def queue_ok_def queuedItems_def counterOf_def)
    then show ?thesis by (simp add: st' addSelectorTips_def)
  qed
  then show ?thesis by (intro rep_inv_cong [OF assms(2)]) simp_all
qed

lemma ProcessDistributionQueue_inv:
  assumes "env_laws env" and "rep_inv N st" and "ProcessDistributionQueue env n st = Inr st'"
  shows "rep_inv N st'"
proof -
  have rew: "rewards_ok st" by (rule rep_inv_parts [OF assms(2)])
  then have queue: "queue_ok st" and fair: "\<forall>item \<in> set (queuedItems st). fair_item item" by (simp_all add: rewards_ok_def)
  have st': "serveQueue env n st = st'" using assms(3) by (simp add: serveQueue_def)
  obtain counter where run: "st' = st\<lparr>
      SelectorTips := creditAll (servedRewards env (take n (queuedItems st))) (SelectorTips st),
      DistributionQueue := drop n (DistributionQueue st), DistributionQueueCounter := counter\<rparr>"
    by (rule ProcessDistributionQueue_run [OF queue, of env n]) (use assms(3) in auto)
  have "\<forall>item \<in> set (take n (queuedItems st)). fair_item item" using fair by (meson in_set_takeD)
  then have paid: "rewards_ok (st\<lparr>SelectorTips := creditAll (servedRewards env (take n (queuedItems st))) (SelectorTips st)\<rparr>)"
    using assms(1) by (intro distribute_rewards [OF _ rew]) (simp_all add: env_laws_def)
  have queue': "queue_ok st'" "queuedItems st' = drop n (queuedItems st)"
    using serveQueue_run [OF queue, of env n] unfolding st' by simp_all
  have same: "SelectorTips st' = creditAll (servedRewards env (take n (queuedItems st))) (SelectorTips st)"
    "ReporterPeriodData st' = ReporterPeriodData st" by (simp_all add: run)
  have "\<forall>item \<in> set (queuedItems st'). fair_item item" unfolding queue'(2) using fair by (meson in_set_dropD)
  then have "rewards_ok st'" using paid queue'(1) unfolding rewards_ok_def same by simp
  then show ?thesis by (intro rep_inv_cong [OF assms(2)]) (simp_all add: run)
qed

lemma SettleReporter_inv:
  assumes "env_laws env" and "rep_inv N st" and "SettleReporter env a st = Inr st'"
  shows "rep_inv N st'"
proof (cases "kv_get (ReporterPeriodData st) a")
  case None
  then show ?thesis using assms by (simp add: SettleReporter_def)
next
  case (Some d)
  have rew: "rewards_ok st" by (rule rep_inv_parts [OF assms(2)])
  then have fair: "fair_item (itemOf a d)" using Some by (simp add: rewards_ok_def)
  let ?st1 = "st\<lparr>SelectorTips := creditAll (servedRewards env [itemOf a d]) (SelectorTips st)\<rparr>"
  have st1: "rewards_ok ?st1" using assms(1) fair by (intro distribute_rewards [OF _ rew]) (simp_all add: env_laws_def)
  have "fair_item (itemOf a (d\<lparr>pdRewardAmount := 0\<rparr>))" using fair by (simp add: fair_item_def itemOf_def)
  then have "rewards_ok (?st1\<lparr>ReporterPeriodData := kv_set a (d\<lparr>pdRewardAmount := 0\<rparr>) (ReporterPeriodData st)\<rparr>)"
    using st1 by (simp add: rewards_ok_def queue_ok_def queuedItems_def counterOf_def)
  from rep_inv_cong [OF assms(2) _ _ _ this] show ?thesis using assms(2,3) Some
    by (cases "0 < pdRewardAmount d") (auto simp: SettleReporter_def distribute_run servedRewards_def)
qed

lemma WithdrawTip_inv:
  assumes "env_laws env" and "rep_inv N st" and "WithdrawTip env c msg st = Inr st'"
  shows "rep_inv N st'"
proof -
  from assms(3) obtain a st1 shares val where settle: "settleSelector env a st = Inr st1"
    and shares: "kv_get (SelectorTips st1) a = Some shares" and pay: "payOutTips env c a shares val st1 = Inr st'"
    by (auto simp: WithdrawTip_def)
  have st1: "rep_inv N st1"
    using settle assms(1,2) SettleReporter_inv by (auto simp: settleSelector_def split: option.splits)
  from pay obtain st2 w where del: "delegate env c a (TruncateInt shares) (vStatus val) val st1 = Inr st2"
    and st': "st' = st2\<lparr>SelectorTips := (if shares - dec_of (TruncateInt shares) = 0 then kv_del a (SelectorTips st2)
        else kv_set a (shares - dec_of (TruncateInt shares)) (SelectorTips st2)), repWorld := w\<rparr>"
    by (auto simp: payOutTips_def Let_def)
  have st2: "rep_inv N st2" by (rule rep_inv_frame [OF st1 delegate_frame [OF del]])
  have "0 \<le> shares" using shares rep_inv_parts(4) [OF st1] by (simp add: rewards_ok_def)
  then have "0 \<le> shares - dec_of (TruncateInt shares)"
    by (simp add: TruncateInt_nonneg dec_of_def minus_div_mult_eq_mod)
  then have paid: "rewards_ok (st2\<lparr>SelectorTips := SelectorTips st'\<rparr>)" using rep_inv_parts(4) [OF st2]
    by (intro rewards_tips) (auto simp: st' rewards_ok_def split: if_splits)
  have "rewards_ok st'" by (rule rewards_ok_same [OF paid]) (simp_all add: st')
  then show ?thesis by (intro rep_inv_cong [OF st2]) (simp_all add: st')
qed

lemma repUpdateParams_inv:
  assumes "rep_inv N st" and "params_ok N p" and "repUpdateParams env a p st = Inr st'"
  shows "rep_inv N st'"
proof -
  have st': "st' = st\<lparr>repParams := Some p\<rparr>" using assms(3) by (auto simp: repUpdateParams_def)
  have "rewards_ok st'" by (rule rewards_ok_same [OF rep_inv_parts(4) [OF assms(1)]]) (simp_all add: st')
  moreover have "members_ok st'" using rep_inv_parts(1) [OF assms(1)] by (simp add: members_ok_def st')
  moreover have "terms_ok st'" using rep_inv_parts(2) [OF assms(1)] by (simp add: terms_ok_def st')
  moreover have "cap_ok N st'" using rep_inv_parts(3) [OF assms(1)] by (simp add: cap_ok_def st')
  ultimately show ?thesis using assms(2) by (intro rep_invI) (simp_all add: st')
qed

lemma PruneOldReports_inv:
  assumes "rep_inv N st" and "PruneOldReports env c n st = Inr st'"
  shows "rep_inv N st'"
  using assms by (auto simp: PruneOldReports_def Let_def split: sum.splits intro: rep_inv_same)

lemma TrackStakeChange_inv:
  assumes "rep_inv N st" and "TrackStakeChange env c st = Inr st'"
  shows "rep_inv N st'"
  using assms by (auto simp: TrackStakeChange_def split: if_splits intro: rep_inv_same)

lemma repEndBlock_inv:
  assumes "env_laws env" and "rep_inv N st" and "repEndBlock env c st = Inr st'"
  shows "rep_inv N st'"
proof -
  from assms(3) obtain st1 st2 where "ProcessDistributionQueue env 10 st = Inr st1"
    and prune: "PruneOldReports env c 100 st1 = Inr st2" and track: "TrackStakeChange env c st2 = Inr st'"
    by (auto simp: repEndBlock_def)
  then have "rep_inv N st1" by (intro ProcessDistributionQueue_inv [OF assms(1,2)])
  then show ?thesis using PruneOldReports_inv [OF _ prune] TrackStakeChange_inv [OF _ track] by simp
qed

section \<open>Reachable states\<close>

text \<open>
  A step is a message, a call of the oracle or the dispute module, the end of a block, or
  anything that happens elsewhere on the chain, which this module sees as hooks and a
  changed world. Governance keeps the parameters in range; rewards are not negative; and
  the counter of the queue, 64 bits wide, does not wrap.
\<close>

inductive reporter_step :: "'w reporter_env \<Rightarrow> int \<Rightarrow> 'w reporter_state \<Rightarrow> 'w reporter_state \<Rightarrow> bool" for env N where
  createReporter: "CreateReporter env c create st = Inr st' \<Longrightarrow> reporter_step env N st st'"
| editReporter: "EditReporter env c edit st = Inr st' \<Longrightarrow> reporter_step env N st st'"
| selectReporter: "SelectReporter env sel st = Inr st' \<Longrightarrow> reporter_step env N st st'"
| switchReporter: "SwitchReporter env c sel st = Inr st' \<Longrightarrow> reporter_step env N st st'"
| removeSelector: "RemoveSelector env rem st = Inr st' \<Longrightarrow> reporter_step env N st st'"
| withdrawTip: "WithdrawTip env c wd st = Inr st' \<Longrightarrow> reporter_step env N st st'"
| unjailReporter: "UnjailReporter env c s st = Inr st' \<Longrightarrow> reporter_step env N st st'"
| updateParams: "repUpdateParams env s p st = Inr st' \<Longrightarrow> params_ok N p \<Longrightarrow> reporter_step env N st st'"
| reporterStake: "ReporterStake env c a q st = Inr (n, st') \<Longrightarrow> queue_room st \<Longrightarrow> reporter_step env N st st'"
| getStake: "GetReporterStake env c a st = Inr (stake, st') \<Longrightarrow> reporter_step env N st st'"
| setStake: "reporter_step env N st (SetReporterStakeByQueryId c a d n q st)"
| divvyingTips: "DivvyingTips env a reward st = Inr st' \<Longrightarrow> 0 \<le> reward \<Longrightarrow> reporter_step env N st st'"
| jailReporter: "JailReporter c a d st = Inr st' \<Longrightarrow> reporter_step env N st st'"
| failedDispute: "UpdateJailedUntilOnFailedDispute c a st = Inr st' \<Longrightarrow> reporter_step env N st st'"
| feeFromStake: "FeefromReporterStake env c a n i b st = Inr st' \<Longrightarrow> reporter_step env N st st'"
| escrowStake: "EscrowReporterStake env c a pw h n q i st = Inr st' \<Longrightarrow> reporter_step env N st st'"
| returnSlashed: "repReturnSlashedTokens env c n i st = Inr (pool, st') \<Longrightarrow> reporter_step env N st st'"
| feeRefund: "FeeRefund env c i n st = Inr st' \<Longrightarrow> reporter_step env N st st'"
| addToStake: "AddAmountToStake env c a n st = Inr st' \<Longrightarrow> reporter_step env N st st'"
| endBlock: "repEndBlock env c st = Inr st' \<Longrightarrow> reporter_step env N st st'"
| elsewhere: "reporter_step env N st (RepHooks c hs (st\<lparr>repWorld := w\<rparr>))"

lemma reporter_step_inv:
  assumes "env_laws env" and "reporter_step env N st st'" and "rep_inv N st"
  shows "rep_inv N st'"
  using assms(2,3)
proof cases
  case (createReporter c create)
  then show ?thesis by (intro CreateReporter_inv [OF assms(3)])
next
  case (editReporter c edit)
  then show ?thesis by (intro EditReporter_inv [OF assms(3)])
next
  case (selectReporter sel)
  then show ?thesis by (intro SelectReporter_inv [OF assms(3)])
next
  case (switchReporter c sel)
  then show ?thesis by (intro SwitchReporter_inv [OF assms(3)])
next
  case (removeSelector rem)
  then show ?thesis by (intro RemoveSelector_inv [OF assms(3)])
next
  case (withdrawTip c wd)
  then show ?thesis by (intro WithdrawTip_inv [OF assms(1,3)])
next
  case (unjailReporter c s)
  then show ?thesis by (intro jail_invs(2) [OF assms(3)])
next
  case (updateParams s p)
  then show ?thesis by (intro repUpdateParams_inv [OF assms(3)])
next
  case (reporterStake c a q n)
  then show ?thesis by (intro ReporterStake_inv [OF assms(1,3)])
next
  case (getStake c a stake)
  then show ?thesis by (intro GetReporterStake_inv_kept [OF assms(3)])
next
  case (setStake c a d n q)
  then show ?thesis using SetReporterStakeByQueryId_inv [OF assms(3)] by simp
next
  case (divvyingTips a reward)
  then show ?thesis by (intro DivvyingTips_inv [OF assms(1,3)])
next
  case (jailReporter c a d)
  then show ?thesis by (intro jail_invs(1) [OF assms(3)])
next
  case (failedDispute c a)
  then show ?thesis by (intro jail_invs(3) [OF assms(3)])
next
  case (endBlock c)
  then show ?thesis by (intro repEndBlock_inv [OF assms(1,3)])
next
  case (elsewhere c hs w)
  then show ?thesis using rep_inv_frame [OF assms(3) staking_frame_hooks] by simp
next
  case (feeFromStake c a n i b)
  then show ?thesis by (intro rep_inv_frame [OF assms(3)] FeefromReporterStake_frame)
next
  case (escrowStake c a pw h n q i)
  then show ?thesis by (intro rep_inv_frame [OF assms(3)] EscrowReporterStake_frame)
next
  case (returnSlashed c n i pool)
  then show ?thesis by (intro rep_inv_frame [OF assms(3)] ReturnSlashed_frame)
next
  case (feeRefund c i n)
  then show ?thesis by (intro rep_inv_frame [OF assms(3)] FeeRefund_frame)
next
  case (addToStake c a n)
  then show ?thesis by (intro rep_inv_frame [OF assms(3)] AddAmountToStake_frame)
qed

inductive reporter_reachable :: "'w reporter_env \<Rightarrow> int \<Rightarrow> 'w reporter_state \<Rightarrow> bool" for env N where
  genesis: "params_ok N (rgParams g) \<Longrightarrow> \<forall>e \<in> set (rgSelectorTips g). 0 \<le> snd e \<Longrightarrow>
    reporter_reachable env N (repInitGenesis c g (emptyReporter w))"
| step: "reporter_reachable env N st \<Longrightarrow> reporter_step env N st st' \<Longrightarrow> reporter_reachable env N st'"

lemma setAll_kept:
  assumes "kv_ok m" and "\<And>k v. kv_get m k = Some v \<Longrightarrow> P v" and "\<forall>e \<in> set es. P (snd e)"
  shows "kv_ok (setAll es m) \<and> (\<forall>k v. kv_get (setAll es m) k = Some v \<longrightarrow> P v)"
  using assms
proof (induction es arbitrary: m)
  case Nil
  then show ?case by (simp add: setAll_def)
next
  case (Cons e es)
  obtain k v where e: "e = (k, v)" by (cases e)
  have "kv_ok (setAll es (kv_set k v m)) \<and> (\<forall>k' v'. kv_get (setAll es (kv_set k v m)) k' = Some v' \<longrightarrow> P v')"
    using Cons.prems e by (intro Cons.IH) (auto split: if_splits)
  then show ?case by (simp add: setAll_def e)
qed

lemma genesis_inv:
  assumes "0 < N" and "params_ok N (rgParams g)" and "\<forall>e \<in> set (rgSelectorTips g). 0 \<le> snd e"
  shows "rep_inv N (repInitGenesis c g (emptyReporter w))" (is "rep_inv N ?st")
proof -
  have "kv_ok (setAll (rgSelectorTips g) []) \<and> (\<forall>k v. kv_get (setAll (rgSelectorTips g) []) k = Some v \<longrightarrow> 0 \<le> v)"
    using assms(3) by (intro setAll_kept) simp_all
  then have "rewards_ok ?st"
    by (simp add: rewards_ok_def queue_ok_def queuedItems_def counterOf_def emptyCounter_def repInitGenesis_def emptyReporter_def)
  moreover have "members_ok ?st" "terms_ok ?st"
    by (simp_all add: members_ok_def terms_ok_def repInitGenesis_def emptyReporter_def kv_has_def)
  moreover have "cap_ok N ?st" using assms(1)
    by (simp add: cap_ok_def repInitGenesis_def emptyReporter_def kv_has_def selectorCount_def)
  ultimately show ?thesis using assms(2) by (intro rep_invI) (simp_all add: repInitGenesis_def)
qed

lemma reachable_inv:
  assumes "reporter_reachable env N st" and "env_laws env" and "0 < N"
  shows "rep_inv N st"
  using assms(1)
proof induction
  case (genesis g c w)
  then show ?case by (intro genesis_inv [OF assms(3)])
next
  case (step st st')
  show ?case by (rule reporter_step_inv [OF assms(2) step(2) step(3)])
qed

end
