(* ===== verification/RepExample.thy ===== *)
theory RepExample
  imports RepInvariant
begin

text \<open>
  A concrete staking module for evaluations of the reporter model: one share is one token,
  delegations are a list per account, delegating and unbonding call the hooks the SDK
  documents (an existing delegation that stays is modified, a delegation that ends is removed).
\<close>

record rep_world =
  rwBank :: ledger
  rwDels :: "(addr \<times> (string \<times> dec) list) list"

definition delsOf :: "rep_world \<Rightarrow> addr \<Rightarrow> (string \<times> dec) list" where
  "delsOf w a = (case map_of (rwDels w) a of None \<Rightarrow> [] | Some ds \<Rightarrow> ds)"

definition setDels :: "addr \<Rightarrow> (string \<times> dec) list \<Rightarrow> rep_world \<Rightarrow> rep_world" where
  "setDels a ds w = w\<lparr>rwDels := (a, ds) # filter (\<lambda>e. fst e \<noteq> a) (rwDels w)\<rparr>"

definition ex_validators :: "validator list" where
  "ex_validators =
     [\<lparr>vOperator = ''v1'', vStatus = Bonded, vTokens = 0, vDelegatorShares = 0\<rparr>,
      \<lparr>vOperator = ''v2'', vStatus = Unbonding, vTokens = 0, vDelegatorShares = 0\<rparr>]"

definition ex_validator :: "bytes \<Rightarrow> validator result" where
  "ex_validator v = (case filter (\<lambda>val. vOperator val = v) ex_validators of [] \<Rightarrow> Inl ErrNoValidatorFound | val # _ \<Rightarrow> Inr val)"

definition ex_delegate :: "addr \<Rightarrow> int \<Rightarrow> validator \<Rightarrow> rep_world \<Rightarrow> (staking_hook list \<times> rep_world) result" where
  "ex_delegate a n val w =
     (let ds = delsOf w a; old = map_of ds (vOperator val);
          ds' = (vOperator val, dec_of n + (case old of None \<Rightarrow> 0 | Some x \<Rightarrow> x)) # filter (\<lambda>d. fst d \<noteq> vOperator val) ds
      in Inr ((if old = None then [DelegationCreated a] else []) @ [DelegationModified a], setDels a ds' w))"

definition ex_unbond :: "addr \<Rightarrow> bytes \<Rightarrow> dec \<Rightarrow> rep_world \<Rightarrow> (int \<times> staking_hook list \<times> rep_world) result" where
  "ex_unbond a v shares w =
     (let ds = delsOf w a; rest = filter (\<lambda>d. fst d \<noteq> v) ds
      in case map_of ds v of
           None \<Rightarrow> Inl ErrNoDelegation
         | Some x \<Rightarrow>
             if x < shares then Inl (Err ''not enough delegation shares'')
             else if x = shares then Inr (TruncateInt shares, [DelegationRemoved a], setDels a rest w)
             else Inr (TruncateInt shares, [DelegationModified a], setDels a ((v, x - shares) # rest) w))"

definition ex_staking :: "rep_world staking_keeper" where
  "ex_staking = \<lparr>
     skUnbondingTime = (\<lambda>w. Inr (21 * 24 * hour)),
     skGetValidator = (\<lambda>w v. ex_validator v),
     skDelegatorDelegations = (\<lambda>w a. Inr (delsOf w a)),
     skGetDelegation = (\<lambda>w a v. case map_of (delsOf w a) v of None \<Rightarrow> Inl ErrNoDelegation | Some x \<Rightarrow> Inr x),
     skMaxValidators = (\<lambda>w. Inr 100),
     skBondedValidatorsByPower = (\<lambda>w. Inr (filter IsBonded ex_validators)),
     skValidatorsPowerStore = (\<lambda>w. Inr [''v1'', ''v2'']),
     skTotalBondedTokens = (\<lambda>w. Inr 0),
     skDelegate = (\<lambda>c a n src val w. ex_delegate a n val w),
     skUnbond = (\<lambda>c a v x w. ex_unbond a v x w),
     skGetUnbondingDelegation = (\<lambda>w a v. Inl ErrNoUnbondingDelegation),
     skRemoveUnbondingDelegation = (\<lambda>a v w. Inr w),
     skSetUnbondingDelegation = (\<lambda>a v es w. Inr w),
     skRedelegationsFromSrc = (\<lambda>w v. Inr []),
     skTokensFromShares = (\<lambda>val x. if x < 0 then Inl ErrPanic else Inr x),
     skTokensFromSharesTruncated = (\<lambda>val x. if x < 0 then Inl ErrPanic else Inr x),
     skSharesFromTokens = (\<lambda>val n. Inr (dec_of n))\<rparr>"

text \<open>\<^verbatim>\<open>append(entries[:i], entries[i+1:]...)\<close>: the tail moves one place down in the array.\<close>

definition ex_removeEntry ::
  "nat \<Rightarrow> ubd_entry list \<times> ubd_entry list \<Rightarrow> (ubd_entry list \<times> ubd_entry list) result" where
  "ex_removeEntry i ae =
     (let (arr, ents) = ae; ents' = take i ents @ drop (Suc i) ents
      in if length ents \<le> i then Inl ErrPanic
         else Inr (ents' @ drop (length ents') arr, ents'))"

definition ex_rep_env :: "rep_world reporter_env" where
  "ex_rep_env = \<lparr>reAuthority = ''gov'', reStaking = ex_staking,
     reBank = lift_bank rwBank (\<lambda>b w. w\<lparr>rwBank := b\<rparr>) ledger_bank,
     reDec = ref_dec, reRoundInt = half_even, reHash = (\<lambda>b. b),
     reAccAddressFromBech32 = Inr, reValAddressFromBech32 = Inr, reAccString = (\<lambda>a. a),
     reRemoveEntry = ex_removeEntry,
     reLastReportedAtTimestamp = (\<lambda>c st a. Inr 0), reBlockHeightFromTimestamp = (\<lambda>st t. Inr 0)\<rparr>"

lemma ex_env_laws: "env_laws ex_rep_env"
  by (simp add: env_laws_def ex_rep_env_def ref_dec_laws tokens_law_def ex_staking_def)

text \<open>Two accounts with five and three million tokens staked; the first becomes a reporter, the
  second selects it; the first reports and is rewarded.\<close>

definition ex_rep_world :: rep_world where
  "ex_rep_world = \<lparr>rwBank = (\<lambda>h d. if h = tipsEscrow \<and> d = BondDenom then 1000000 else 0),
     rwDels = [(''A'', [(''v1'', dec_of 5000000)]), (''B'', [(''v1'', dec_of 3000000)])]\<rparr>"

definition ex_ctx :: "int \<Rightarrow> ctx" where
  "ex_ctx n = \<lparr>BlockTime = n * hour, BlockHeight = n\<rparr>"

definition ex_rep_genesis :: reporter_genesis where
  "ex_rep_genesis = \<lparr>rgParams = reporterDefaultParams, rgSelectorTips = [], rgDisputedDelegationAmounts = [],
     rgFeePaidFromStake = []\<rparr>"

definition ex_create :: msg_create_reporter where
  "ex_create = \<lparr>crReporterAddress = ''A'', crCommissionRate = dec_percent, crMinTokensRequired = 1000000, crMoniker = ''a''\<rparr>"

definition ex_select :: msg_select_reporter where
  "ex_select = \<lparr>slSelectorAddress = ''B'', slReporterAddress = ''A''\<rparr>"

definition ex_rep_start :: "rep_world reporter_state" where
  "ex_rep_start = repInitGenesis (ex_ctx 1000) ex_rep_genesis (emptyReporter ex_rep_world)"

definition ex_setup :: "rep_world reporter_state result" where
  "ex_setup =
     bindR (CreateReporter ex_rep_env (ex_ctx 1000) ex_create ex_rep_start) (\<lambda>st.
     SelectReporter ex_rep_env ex_select st)"

definition ex_reporting :: "rep_world reporter_state result" where
  "ex_reporting =
     bindR ex_setup (\<lambda>st.
     bindR (ReporterStake ex_rep_env (ex_ctx 1001) ''A'' ''q'' (AfterValidatorBonded (ex_ctx 1000) st)) (\<lambda>(n, st).
     Inr st))"

definition ex_rewarded :: "rep_world reporter_state result" where
  "ex_rewarded = bindR ex_reporting (DivvyingTips ex_rep_env ''A'' (dec_of 800000))"

definition the_state :: "'a result \<Rightarrow> 'a \<Rightarrow> 'a" where
  "the_state r d = (case r of Inl _ \<Rightarrow> d | Inr x \<Rightarrow> x)"

definition succeeds :: "'a result \<Rightarrow> bool" where
  "succeeds r = (case r of Inl _ \<Rightarrow> False | Inr _ \<Rightarrow> True)"

lemma succeedsE: "succeeds r \<Longrightarrow> (\<And>x. r = Inr x \<Longrightarrow> P) \<Longrightarrow> P"
  by (cases r) (simp_all add: succeeds_def)

lemma ex_setup_runs: "succeeds ex_setup"
  by code_simp

lemma ex_rewarded_runs: "succeeds ex_rewarded"
  by code_simp

lemma ex_room: "case ex_setup of Inl _ \<Rightarrow> False | Inr st \<Rightarrow> queue_room (AfterValidatorBonded (ex_ctx 1000) st)"
  by code_simp

lemma ex_rewarded_reachable:
  obtains st where "ex_rewarded = Inr st" "reporter_reachable ex_rep_env 100 st"
proof -
  from ex_rewarded_runs obtain st1 st2 n st3 st4 where
    create: "CreateReporter ex_rep_env (ex_ctx 1000) ex_create ex_rep_start = Inr st1"
    and select: "SelectReporter ex_rep_env ex_select st1 = Inr st2"
    and stake: "ReporterStake ex_rep_env (ex_ctx 1001) ''A'' ''q'' (AfterValidatorBonded (ex_ctx 1000) st2) = Inr (n, st3)"
    and divvy: "DivvyingTips ex_rep_env ''A'' (dec_of 800000) st3 = Inr st4" and final: "ex_rewarded = Inr st4"
    by (elim succeedsE) (auto simp: ex_rewarded_def ex_reporting_def ex_setup_def)
  have room: "queue_room (AfterValidatorBonded (ex_ctx 1000) st2)"
    using ex_room create select by (simp add: ex_setup_def)
  have "reporter_reachable ex_rep_env 100 ex_rep_start" unfolding ex_rep_start_def
    by (rule genesis) (simp_all add: ex_rep_genesis_def params_ok_def reporterDefaultParams_def i64_def)
  then have "reporter_reachable ex_rep_env 100 st2"
    using create select by (blast intro: step reporter_step.intros)
  moreover have "reporter_step ex_rep_env 100 st2 (AfterValidatorBonded (ex_ctx 1000) st2)"
    using elsewhere [of ex_rep_env 100 st2 "ex_ctx 1000" "[ValidatorsChanged]" "repWorld st2"] by simp
  ultimately have "reporter_reachable ex_rep_env 100 st3" using reporterStake [OF stake room] by (blast intro: step)
  then have "reporter_reachable ex_rep_env 100 st4" by (rule step [OF _ divvyingTips [OF divvy]]) simp
  then show ?thesis using final that by blast
qed

text \<open>A property of a run that does not fail, evaluated.\<close>

definition holds :: "('a \<Rightarrow> bool) \<Rightarrow> 'a result \<Rightarrow> bool" where
  "holds P r = (case r of Inl _ \<Rightarrow> False | Inr x \<Rightarrow> P x)"

lemma holdsE:
  assumes "holds P r"
  obtains x where "r = Inr x" "P x"
  using assms by (cases r) (simp_all add: holds_def)

lemma holds_Inr: "holds P r \<Longrightarrow> r = Inr x \<Longrightarrow> P x"
  by (simp add: holds_def)

end
