(* ===== verification/RepProps.thy ===== *)
theory RepProps
  imports RepExample
begin

text \<open>
  Properties of the reporter module: who is a reporter, how far its terms can move, that no
  reward is lost between a report and its withdrawal, and where the cached stake goes stale.
\<close>

section \<open>Reporters and their terms\<close>



text \<open>An edit of a reporter's terms moves its commission by at most one percent point and
  its required minimum by at most a tenth, keeps the commission between the minimum rate and
  one, and is followed by twelve hours without another; everything else stays as it was.\<close>

theorem edit_rate_limited:
  assumes "reporter_reachable env N st" and "env_laws env" and "0 < N"
    and "EditReporter env c msg st = Inr st'" and "accAddress env (erReporterAddress msg) = Inr a"
  shows "\<exists>r r'. kv_get (Reporters st) a = Some r \<and> kv_get (Reporters st') a = Some r'
    \<and> st' = st\<lparr>Reporters := kv_set a r' (Reporters st)\<rparr>
    \<and> \<bar>CommissionRate r' - CommissionRate r\<bar> \<le> dec_percent \<and> 0 \<le> CommissionRate r' \<and> CommissionRate r' \<le> dec_one
    \<and> 0 < MinTokensRequired r'
    \<and> (MinTokensRequired r \<le> dec_tenth \<longrightarrow> 10 * \<bar>MinTokensRequired r' - MinTokensRequired r\<bar> \<le> MinTokensRequired r)
    \<and> Jailed r' = Jailed r \<and> JailedUntil r' = JailedUntil r
    \<and> 12 * hour \<le> BlockTime c - LastUpdated r \<and> LastUpdated r' = BlockTime c
    \<and> (\<forall>c' msg'. accAddress env (erReporterAddress msg') = Inr a \<and> BlockTime c' < BlockTime c + 12 * hour
        \<longrightarrow> \<not> succeeds (EditReporter env c' msg' st'))"
proof -
  have inv: "rep_inv N st" by (rule reachable_inv [OF assms(1-3)])
  from assms(4,5) obtain r change where r: "kv_get (Reporters st) a = Some r"
    and old: "12 * hour \<le> BlockTime c - LastUpdated r" and rate: "\<bar>CommissionRate r - erCommissionRate msg\<bar> \<le> dec_percent"
    and change: "decQuo (reDec env) (dec_of \<bar>erMinTokensRequired msg - MinTokensRequired r\<bar>) (dec_of (MinTokensRequired r)) = Inr change"
      "change \<le> dec_tenth"
    and st': "st' = st\<lparr>Reporters := kv_set a (r\<lparr>CommissionRate := erCommissionRate msg,
            MinTokensRequired := erMinTokensRequired msg, Moniker := erMoniker msg, LastUpdated := BlockTime c\<rparr>) (Reporters st)\<rparr>"
    by (auto simp: EditReporter_def validateEditReporter_def)
  let ?r' = "r\<lparr>CommissionRate := erCommissionRate msg, MinTokensRequired := erMinTokensRequired msg,
      Moniker := erMoniker msg, LastUpdated := BlockTime c\<rparr>"
  let ?d = "\<bar>erMinTokensRequired msg - MinTokensRequired r\<bar>" and ?m = "MinTokensRequired r"
  have r': "kv_get (Reporters st') a = Some ?r'" by (simp add: st')
  have range: "0 \<le> erCommissionRate msg" "erCommissionRate msg \<le> dec_one" "0 < erMinTokensRequired msg"
    using terms_of [OF EditReporter_inv [OF inv assms(4)] r'] by simp_all
  have m: "0 < ?m" using terms_of [OF inv r] by simp
  have tenth: "10 * ?d \<le> ?m" if "?m \<le> dec_tenth"
  proof -
    have "change = dquo (reDec env) (dec_of ?d) (dec_of ?m)" using change(1) m by (simp add: decQuo_def)
    then have "?d * dec_one - ?m < change * ?m"
      using dquo_of_bounds [of "reDec env" ?m ?d] m assms(2) by (simp add: env_laws_def)
    also have "\<dots> \<le> dec_tenth * ?m" using change(2) m by (intro mult_right_mono) simp_all
    finally have "?d * dec_one < dec_tenth * ?m + ?m" by simp
    then show ?thesis using that by (simp add: dec_tenth_def dec_one_def)
  qed
  have again: "\<not> succeeds (EditReporter env c' msg' st')"
    if "accAddress env (erReporterAddress msg') = Inr a" "BlockTime c' < BlockTime c + 12 * hour" for c' msg'
    using that r' by (auto simp: EditReporter_def validateEditReporter_def succeeds_def guardR_def bindR_def split: sum.splits if_splits)
  show ?thesis using r r' old rate range tenth again
    by (intro exI [of _ r] exI [of _ ?r']) (simp add: st' abs_minus_commute)
qed

definition ex_edit :: msg_edit_reporter where
  "ex_edit = \<lparr>erReporterAddress = ''A'', erCommissionRate = 2 * dec_percent, erMinTokensRequired = 1050000, erMoniker = ''b''\<rparr>"

theorem edit_rate_limited_witness:
  "\<exists>st st' r'. ex_rewarded = Inr st \<and> EditReporter ex_rep_env (ex_ctx 2000) ex_edit st = Inr st'
    \<and> kv_get (Reporters st') ''A'' = Some r' \<and> LastUpdated r' = 2000 * hour
    \<and> \<not> succeeds (EditReporter ex_rep_env (ex_ctx 2011) ex_edit st')"
proof (rule ex_rewarded_reachable)
  fix st
  assume st: "ex_rewarded = Inr st" and reach: "reporter_reachable ex_rep_env 100 st"
  have "holds (\<lambda>st. succeeds (EditReporter ex_rep_env (ex_ctx 2000) ex_edit st)) ex_rewarded" by code_simp
  then obtain st' where st': "EditReporter ex_rep_env (ex_ctx 2000) ex_edit st = Inr st'"
    using holds_Inr [OF _ st] by (blast elim: succeedsE)
  have a: "accAddress ex_rep_env (erReporterAddress ex_edit) = Inr ''A''" by code_simp
  obtain r' where "kv_get (Reporters st') ''A'' = Some r'" "LastUpdated r' = BlockTime (ex_ctx 2000)"
    "\<not> succeeds (EditReporter ex_rep_env (ex_ctx 2011) ex_edit st')"
    using edit_rate_limited [OF reach ex_env_laws _ st' a] a by (auto simp: ex_ctx_def)
  then show ?thesis using st st' by (intro exI [of _ st] exI [of _ st'] exI [of _ r']) (simp add: ex_ctx_def)
qed

section \<open>Rewards\<close>

text \<open>Everything credited and not yet withdrawn.\<close>

definition outstanding :: "'w reporter_state \<Rightarrow> dec" where
  "outstanding st = kv_total snd (SelectorTips st) + kv_total (\<lambda>e. pdRewardAmount (snd e)) (ReporterPeriodData st)
     + sum_list (map qiRewardAmount (queuedItems st))"

lemma queued_same: "queuedItems (st\<lparr>ReporterPeriodData := x\<rparr>) = queuedItems st"
  by (simp add: queuedItems_def)

lemma DivvyingTips_outstanding:
  assumes "env_laws env" and "rep_inv N st" and "0 \<le> reward" and "DivvyingTips env a reward st = Inr st'"
    and "kv_get (Reporters st) a = Some r"
  shows "outstanding st' = outstanding st
    + (if kv_has (ReporterPeriodData st) a then reward else dmul (reDec env) reward (CommissionRate r))"
proof -
  let ?k = "dmul (reDec env) reward (CommissionRate r)"
  have rew: "rewards_ok st" by (rule rep_inv_parts [OF assms(2)])
  have k: "0 \<le> ?k" using terms_of [OF assms(2,5)] assms(1,3) by (intro dmul_nonneg) (simp_all add: env_laws_def)
  have tips: "kv_total snd (kv_set a (kv_get_or 0 (SelectorTips st) a + ?k) (SelectorTips st)) = kv_total snd (SelectorTips st) + ?k"
    using rew by (simp add: rewards_ok_def kv_total_set kv_get_or_def split: option.split)
  have st1: "kv_total snd (SelectorTips (if 0 < ?k then addSelectorTips a ?k st else st)) = kv_total snd (SelectorTips st) + ?k"
    using k tips by (simp add: addSelectorTips_def)
  show ?thesis
  proof (cases "kv_get (ReporterPeriodData st) a")
    case None
    then have "st' = (if 0 < ?k then addSelectorTips a ?k st else st)"
      using assms(4,5) by (auto simp: DivvyingTips_def Let_def addSelectorTips_def)
    then show ?thesis using st1 None
      by (simp add: outstanding_def kv_has_def addSelectorTips_def queuedItems_def)
  next
    case (Some d)
    then have st': "st' = (if 0 < ?k then addSelectorTips a ?k st else st)\<lparr>ReporterPeriodData := kv_set a
        (d\<lparr>pdRewardAmount := pdRewardAmount d + (reward - ?k)\<rparr>) (ReporterPeriodData st)\<rparr>"
      using assms(4,5) by (auto simp: DivvyingTips_def Let_def addSelectorTips_def)
    have "kv_total (\<lambda>e. pdRewardAmount (snd e)) (ReporterPeriodData st')
        = kv_total (\<lambda>e. pdRewardAmount (snd e)) (ReporterPeriodData st) + (reward - ?k)"
      using rew Some by (simp add: st' rewards_ok_def kv_total_set)
    moreover have "SelectorTips st' = SelectorTips (if 0 < ?k then addSelectorTips a ?k st else st)"
      "queuedItems st' = queuedItems st" by (simp_all add: st' addSelectorTips_def queuedItems_def)
    ultimately show ?thesis using st1 Some by (simp add: outstanding_def kv_has_def)
  qed
qed

lemma handlePeriodTracking_outstanding:
  assumes "rewards_ok st" and "queue_room st" and "handlePeriodTracking a ss n h st = (b, st')"
  shows "outstanding st' = outstanding st"
proof (cases "kv_get (ReporterPeriodData st) a")
  case None
  then show ?thesis using assms(1,3)
    by (auto simp: handlePeriodTracking_def outstanding_def rewards_ok_def kv_total_set newPeriod_def queuedItems_def)
next
  case (Some d)
  let ?t = "if 0 < pdRewardAmount d then queueForDistribution a d st else st"
  have d: "0 \<le> pdRewardAmount d" using assms(1) Some by (auto simp: rewards_ok_def fair_item_def itemOf_def)
  have "queuedItems (queueForDistribution a d st) = queuedItems st @ [itemOf a d]"
    using enqueuePeriod_run [OF _ assms(2), of "(a, d)"] assms(1) by (simp add: rewards_ok_def enqueuePeriod_def)
  then have "outstanding (?t\<lparr>ReporterPeriodData := kv_set a (newPeriod ss n h) (ReporterPeriodData st)\<rparr>) = outstanding st"
    using d assms(1) Some unfolding outstanding_def queued_same
    by (simp add: rewards_ok_def kv_total_set newPeriod_def itemOf_def)
      (simp add: queueForDistribution_def Let_def)
  moreover have "ReporterPeriodData ?t = ReporterPeriodData st" by (simp add: queueForDistribution_def Let_def)
  ultimately show ?thesis using assms(3) Some
    by (cases "pdHash d = h") (auto simp: handlePeriodTracking_def Let_def)
qed

lemma ReporterStake_outstanding:
  assumes "rep_inv N st" and "queue_room st" and "ReporterStake env c a q st = Inr (n, st')"
  shows "outstanding st' = outstanding st"
proof -
  have "outstanding st' = outstanding st" if run: "recalculateStake env c a q st = Inr (n, st')"
    using run
  proof (rule recalculateStake_run)
    fix stake st1 b st3
    assume get: "GetReporterStake env c a st = Inr (stake, st1)"
      and track: "handlePeriodTracking a (rsShares stake) (rsTotal stake) (rsHash stake)
          (st1\<lparr>StakeRecalcFlag := kv_del a (StakeRecalcFlag st1)\<rparr>) = (b, st3)"
      and st': "st' = (if b then SetReporterStakeByQueryId c a (rsDelegates stake) (rsTotal stake) q st3 else st3)"
    obtain recalc where st1: "st1 = st\<lparr>RecalcAtTime := recalc\<rparr>" using get by (rule GetReporterStake_run) blast
    let ?st2 = "st1\<lparr>StakeRecalcFlag := kv_del a (StakeRecalcFlag st1)\<rparr>"
    have "rewards_ok ?st2" by (rule rewards_ok_same [OF rep_inv_parts(4) [OF assms(1)]]) (simp_all add: st1)
    moreover have "queue_room ?st2" using assms(2) by (simp add: queue_room_def st1 counterOf_def)
    ultimately have "outstanding st3 = outstanding ?st2" by (rule handlePeriodTracking_outstanding [OF _ _ track])
    then show ?thesis by (simp add: st' st1 outstanding_def queuedItems_def SetReporterStakeByQueryId_def)
  qed
  then show ?thesis using assms(3) by (auto simp: ReporterStake_def split: if_splits option.splits)
qed

lemma ProcessDistributionQueue_outstanding:
  assumes "env_laws env" and "rep_inv N st" and "ProcessDistributionQueue env n st = Inr st'"
    and "\<forall>item \<in> set (take n (queuedItems st)). qiSelectors item \<noteq> []"
  shows "2 * dec_one * \<bar>outstanding st' - outstanding st\<bar> \<le> sum_list (map roundingBound (take n (queuedItems st)))"
proof -
  let ?its = "take n (queuedItems st)"
  have rew: "rewards_ok st" by (rule rep_inv_parts [OF assms(2)])
  then have queue: "queue_ok st" and fair: "\<forall>item \<in> set ?its. fair_item item"
    by (auto simp: rewards_ok_def dest: in_set_takeD)
  have run: "SelectorTips st' = creditAll (servedRewards env ?its) (SelectorTips st)" "queuedItems st' = drop n (queuedItems st)"
    using serveQueue_run [OF queue, of env n] assms(3) by (simp_all add: serveQueue_def)
  have same: "ReporterPeriodData st' = ReporterPeriodData st"
    by (rule ProcessDistributionQueue_run [OF queue, of env n]) (use assms(3) in auto)
  have "sum_list (map qiRewardAmount (queuedItems st)) = sum_list (map qiRewardAmount ?its) + sum_list (map qiRewardAmount (drop n (queuedItems st)))"
    by (metis append_take_drop_id map_append sum_list_append)
  moreover have "kv_total snd (SelectorTips st') = kv_total snd (SelectorTips st) + sum_list (map snd (servedRewards env ?its))"
    using rew by (simp add: run creditAll_total rewards_ok_def)
  ultimately have "outstanding st' - outstanding st = sum_list (map snd (servedRewards env ?its)) - sum_list (map qiRewardAmount ?its)"
    by (simp add: outstanding_def run(2) same)
  then show ?thesis using served_bound [of env ?its] assms(1,4) fair by (simp add: env_laws_def servedRewards_def)
qed



section \<open>Withdrawal\<close>

text \<open>Told to take no tokens from an account and given a source of the validator's own status,
  staking moves no coins.\<close>

definition delegate_law :: "'w reporter_env \<Rightarrow> bool" where
  "delegate_law env \<longleftrightarrow> (\<forall>c a n val w hooks w' h d. skDelegate (reStaking env) c a n (vStatus val) val w = Inr (hooks, w')
     \<longrightarrow> bkGetBalance (reBank env) w' h d = bkGetBalance (reBank env) w h d)"

text \<open>What a withdrawal settles first: the running period of the selector's reporter.\<close>

definition settledRewards :: "'w reporter_env \<Rightarrow> addr \<Rightarrow> 'w reporter_state \<Rightarrow> (addr \<times> dec) list" where
  "settledRewards env a st =
     (case kv_get (Selectors st) a of None \<Rightarrow> [] | Some s \<Rightarrow>
      case kv_get (ReporterPeriodData st) (selReporter s) of None \<Rightarrow> [] | Some d \<Rightarrow>
      if 0 < pdRewardAmount d then itemRewards env (itemOf (selReporter s) d) else [])"

lemma settleSelector_effect:
  assumes "settleSelector env a st = Inr st'"
  shows "SelectorTips st' = creditAll (settledRewards env a st) (SelectorTips st) \<and> repWorld st' = repWorld st"
  using assms by (auto simp: settleSelector_def SettleReporter_def settledRewards_def distribute_run split: option.splits if_splits)

lemma RepHooks_world: "repWorld (RepHooks c hs st) = repWorld st"
  by (induction c hs st rule: RepHooks.induct)
    (auto simp: AfterDelegationModified_def BeforeDelegationCreated_def BeforeDelegationRemoved_def AfterValidatorBonded_def
      FlagStakeRecalc_def split: option.split)

lemma delegate_balance:
  assumes "delegate_law env" and "delegate env c a n (vStatus val) val st = Inr st'"
  shows "bkGetBalance (reBank env) (repWorld st') h d = bkGetBalance (reBank env) (repWorld st) h d"
  using assms unfolding delegate_def delegate_law_def by (fastforce simp: RepHooks_world)

lemma i64_large:
  assumes "uint (w :: u64) \<ge> 2 ^ 63"
  shows "i64 (uint w) < 0"
  using assms uint_u64_bounds [of w] by (simp add: i64_def mod_pos_geq)

text \<open>A withdrawal pays out the whole tokens of a selector's tips, its share of its reporter's
  running period included, and leaves exactly the fraction: the tips escrow falls and the
  bonded pool rises by that amount, the same that is delegated for the selector, and the tips
  of everybody else change only by the settled period.\<close>

theorem withdraw_tip_exact:
  assumes "reporter_reachable env N st" and "env_laws env" and "0 < N"
    and "bank_laws (reBank env)" and "delegate_law env"
    and "WithdrawTip env c msg st = Inr st'" and "reAccAddressFromBech32 env (wtSelectorAddress msg) = Inr a"
  shows "\<exists>s. s = kv_get_or 0 (SelectorTips st) a + paidTo (settledRewards env a st) a
    \<and> 1 \<le> TruncateInt s \<and> TruncateInt s < 2 ^ 63
    \<and> kv_get_or 0 (SelectorTips st') a = s - dec_of (TruncateInt s)
    \<and> 0 \<le> s - dec_of (TruncateInt s) \<and> s - dec_of (TruncateInt s) < dec_one
    \<and> (\<forall>b. b \<noteq> a \<longrightarrow> kv_get_or 0 (SelectorTips st') b = kv_get_or 0 (SelectorTips st) b + paidTo (settledRewards env a st) b)
    \<and> (\<forall>h d. bkGetBalance (reBank env) (repWorld st') h d = bkGetBalance (reBank env) (repWorld st) h d
         + moved tipsEscrow bondedTokensPool BondDenom (TruncateInt s) h d)"
proof -
  have inv: "rep_inv N st" by (rule reachable_inv [OF assms(1-3)])
  from assms(6,7) obtain st1 s val where settle: "settleSelector env a st = Inr st1"
    and s: "kv_get (SelectorTips st1) a = Some s" and pay: "payOutTips env c a s val st1 = Inr st'"
    by (auto simp: WithdrawTip_def)
  let ?t = "TruncateInt s"
  have st1: "rep_inv N st1"
    using settle assms(2) inv SettleReporter_inv by (auto simp: settleSelector_def split: option.splits)
  have eff: "SelectorTips st1 = creditAll (settledRewards env a st) (SelectorTips st)" "repWorld st1 = repWorld st"
    using settleSelector_effect [OF settle] by simp_all
  have total: "s = kv_get_or 0 (SelectorTips st) a + paidTo (settledRewards env a st) a"
    using s creditAll_get [of "settledRewards env a st" "SelectorTips st" a] by (simp add: eff(1) kv_get_or_def)
  have "0 \<le> s" using s rep_inv_parts(4) [OF st1] by (simp add: rewards_ok_def)
  then have frac: "0 \<le> s - dec_of ?t" "s - dec_of ?t < dec_one" "0 \<le> ?t"
    by (simp_all add: TruncateInt_nonneg dec_of_def minus_div_mult_eq_mod pos_imp_zdiv_nonneg_iff)
  from pay obtain st2 amt w where nz: "?t \<noteq> 0" and del: "delegate env c a ?t (vStatus val) val st1 = Inr st2"
    and amt: "Uint64 ?t = Inr amt"
    and send: "bkSendCoins (reBank env) tipsEscrow bondedTokensPool BondDenom (i64 (uint amt)) (repWorld st2) = Inr w"
    and st': "st' = st2\<lparr>SelectorTips := (if s - dec_of ?t = 0 then kv_del a (SelectorTips st2)
        else kv_set a (s - dec_of ?t) (SelectorTips st2)), repWorld := w\<rparr>"
    by (auto simp: payOutTips_def Let_def)
  have "0 \<le> i64 (uint amt)" using bank_send_amount [OF assms(4) send] by simp
  then have small: "uint amt < 2 ^ 63" using i64_large [of amt] by linarith
  then have n: "i64 (uint amt) = ?t" "?t < 2 ^ 63" using Uint64_uint [OF amt] i64_uint [OF small] by simp_all
  have tips: "SelectorTips st2 = SelectorTips st1" using delegate_frame [OF del] by (simp add: staking_frame_def)
  have bal: "bkGetBalance (reBank env) (repWorld st') h d = bkGetBalance (reBank env) (repWorld st) h d
         + moved tipsEscrow bondedTokensPool BondDenom ?t h d" for h d
    using bank_send [OF assms(4) send] delegate_balance [OF assms(5) del] by (simp add: st' n eff)
  have own: "kv_get_or 0 (SelectorTips st') a = s - dec_of ?t" by (simp add: st' kv_get_or_def)
  have others: "kv_get_or 0 (SelectorTips st') b = kv_get_or 0 (SelectorTips st) b + paidTo (settledRewards env a st) b"
    if "b \<noteq> a" for b
    using that creditAll_get [of "settledRewards env a st" "SelectorTips st" b] by (simp add: st' tips eff kv_get_or_def)
  show ?thesis using total nz frac n(2) own others bal by (intro exI [of _ s]) auto
qed

definition ex_withdraw :: msg_withdraw_tip where
  "ex_withdraw = \<lparr>wtSelectorAddress = ''B'', wtValidatorAddress = ''v1''\<rparr>"

lemma ex_bank_laws: "bank_laws (reBank ex_rep_env)"
  by (simp add: ex_rep_env_def lift_bank_laws ledger_bank_laws)

lemma ex_delegate_law: "delegate_law ex_rep_env"
  by (auto simp: delegate_law_def ex_rep_env_def ex_staking_def ex_delegate_def Let_def setDels_def lift_bank_def)

theorem withdraw_tip_exact_witness:
  "\<exists>st st'. ex_rewarded = Inr st \<and> WithdrawTip ex_rep_env (ex_ctx 1002) ex_withdraw st = Inr st'
    \<and> rwBank (repWorld st') tipsEscrow BondDenom = 1000000 - 297000"
proof (rule ex_rewarded_reachable)
  fix st
  assume st: "ex_rewarded = Inr st" and reach: "reporter_reachable ex_rep_env 100 st"
  have "holds (\<lambda>st. succeeds (WithdrawTip ex_rep_env (ex_ctx 1002) ex_withdraw st)
      \<and> kv_get_or 0 (SelectorTips st) ''B'' + paidTo (settledRewards ex_rep_env ''B'' st) ''B'' = dec_of 297000
      \<and> rwBank (repWorld st) tipsEscrow BondDenom = 1000000) ex_rewarded" by code_simp
  from holds_Inr [OF this st] obtain st' where run: "WithdrawTip ex_rep_env (ex_ctx 1002) ex_withdraw st = Inr st'"
    and s: "kv_get_or 0 (SelectorTips st) ''B'' + paidTo (settledRewards ex_rep_env ''B'' st) ''B'' = dec_of 297000"
    and bal: "rwBank (repWorld st) tipsEscrow BondDenom = 1000000"
    by (blast elim: succeedsE)
  have a: "reAccAddressFromBech32 ex_rep_env (wtSelectorAddress ex_withdraw) = Inr ''B''" by code_simp
  have "bkGetBalance (reBank ex_rep_env) (repWorld st') tipsEscrow BondDenom = bkGetBalance (reBank ex_rep_env) (repWorld st) tipsEscrow BondDenom
      + moved tipsEscrow bondedTokensPool BondDenom 297000 tipsEscrow BondDenom"
    using withdraw_tip_exact [OF reach ex_env_laws _ ex_bank_laws ex_delegate_law run a] s by auto
  then have "rwBank (repWorld st') tipsEscrow BondDenom = 1000000 - 297000"
    using bal by (simp add: ex_rep_env_def lift_bank_def ledger_bank_def moved_def tipsEscrow_def bondedTokensPool_def)
  then show ?thesis using st run by blast
qed

section \<open>Evaluations\<close>

theorem stake_accounted_witness:
  "\<exists>st stake st'. ex_setup = Inr st \<and> GetReporterStake ex_rep_env (ex_ctx 1001) ''A'' st = Inr (stake, st')
    \<and> rsTotal stake = 8000000 \<and> sharesSum (rsShares stake) = 8000000 \<and> shareOf ''B'' (rsShares stake) = tokensOf ''B'' (rsDelegates stake)"
proof -
  have "holds (\<lambda>st. kv_ok (Selectors st)
      \<and> holds (\<lambda>r. rsTotal (fst r) = 8000000) (GetReporterStake ex_rep_env (ex_ctx 1001) ''A'' st)) ex_setup" by code_simp
  then obtain st where st: "ex_setup = Inr st" and both: "kv_ok (Selectors st)
      \<and> holds (\<lambda>r. rsTotal (fst r) = 8000000) (GetReporterStake ex_rep_env (ex_ctx 1001) ''A'' st)"
    by (rule holdsE)
  then obtain stake st' where stake: "GetReporterStake ex_rep_env (ex_ctx 1001) ''A'' st = Inr (stake, st')" "rsTotal stake = 8000000"
    by (auto elim!: holdsE)
  note ok = both [THEN conjunct1]
  have "tokens_law ex_rep_env" using ex_env_laws by (simp add: env_laws_def)
  then show ?thesis using stake_accounted [OF _ ok stake(1)] st stake by (metis (no_types))
qed

definition ex_item :: distribution_queue_item where
  "ex_item = \<lparr>qiReporter = ''A'', qiSelectors = [\<lparr>SelectorAddress = ''A'', ssAmount = 1\<rparr>, \<lparr>SelectorAddress = ''B'', ssAmount = 2\<rparr>],
     qiTotal = 3, qiRewardAmount = dec_of 100\<rparr>"

theorem distribution_conserves_witness:
  "\<exists>st'. distributeQueueItem ex_rep_env ex_item ex_rep_start = Inr st'
    \<and> 2 * dec_one * \<bar>kv_total snd (SelectorTips st') - dec_of 100\<bar> \<le> 2 * (dec_one + 2 * dec_of 100)"
proof -
  have "fair_item ex_item" "kv_ok (SelectorTips ex_rep_start)" "qiSelectors ex_item \<noteq> []" "dec_laws (reDec ex_rep_env)"
    using ex_env_laws by (simp_all add: fair_item_def ex_item_def ex_rep_start_def repInitGenesis_def emptyReporter_def
        ex_rep_genesis_def setAll_def env_laws_def)
  from distribution_conserves [OF this(4,1,2,3)] show ?thesis
    by (simp add: roundingBound_def ex_item_def ex_rep_start_def repInitGenesis_def emptyReporter_def ex_rep_genesis_def setAll_def)
      blast
qed

definition ex_period :: period_reward_data where
  "ex_period = \<lparr>pdSelectors = qiSelectors ex_item, pdTotal = 3, pdRewardAmount = dec_of 100, pdHash = []\<rparr>"

definition ex_queue :: "rep_world reporter_state" where
  "ex_queue = queueForDistribution ''B'' ex_period (queueForDistribution ''A'' ex_period ex_rep_start)"

theorem distribution_queue_fifo_witness:
  "queue_ok ex_queue \<and> length (queuedItems ex_queue) = 2
    \<and> (\<exists>st'. ProcessDistributionQueue ex_rep_env 1 ex_queue = Inr st' \<and> queuedItems st' = [itemOf ''B'' ex_period])
    \<and> queuedItems ((serveQueue ex_rep_env 1 ^^ 2) ex_queue) = []"
proof -
  have start: "queue_ok ex_rep_start" "queue_room ex_rep_start"
    by (simp_all add: queue_ok_def queue_room_def queuedItems_def counterOf_def emptyCounter_def ex_rep_start_def repInitGenesis_def
        emptyReporter_def)
  let ?st = "queueForDistribution ''A'' ex_period ex_rep_start"
  have one: "queue_ok ?st" "queuedItems ?st = [itemOf ''A'' ex_period]"
    using distribution_queue_fifo [OF start(1), of 1 ex_rep_env "''A''" ex_period] start(2)
    by (simp_all add: queuedItems_def ex_rep_start_def repInitGenesis_def emptyReporter_def)
  have "queue_room ?st" by (simp add: queue_room_def queueForDistribution_def Let_def counterOf_def emptyCounter_def
        ex_rep_start_def repInitGenesis_def emptyReporter_def)
  then have two: "queue_ok ex_queue" "queuedItems ex_queue = [itemOf ''A'' ex_period, itemOf ''B'' ex_period]"
    using distribution_queue_fifo [OF one(1), of 1 ex_rep_env "''B''" ex_period] one(2) by (simp_all add: ex_queue_def)
  obtain st' where "ProcessDistributionQueue ex_rep_env 1 ex_queue = Inr st'" "queuedItems st' = [itemOf ''B'' ex_period]"
    using distribution_queue_fifo [OF two(1), where n = 1 and env = ex_rep_env, THEN conjunct1] two(2) by auto
  moreover have "queuedItems ((serveQueue ex_rep_env 1 ^^ 2) ex_queue) = []"
    using distribution_queue_fifo [OF two(1), where n = 1 and env = ex_rep_env and k = 2] two(2) by simp
  ultimately show ?thesis using two by simp
qed

end
