(* ===== verification/RepCache.thy ===== *)
theory RepCache
  imports RepExample
begin

text \<open>
  The cached stake of a reporter and the snapshots behind it: which changes make the next
  report recompute the stake, which do not although the stake has changed, and that pruning
  old snapshots keeps the power of every reporter at every block a dispute can still ask for.
\<close>

section \<open>Changes that are noticed\<close>

lemma flagged_recalc: "kv_has (StakeRecalcFlag st) r \<Longrightarrow> needsStakeRecalc c r st"
  by (simp add: needsStakeRecalc_def)

lemma flag_has [simp]: "kv_has (StakeRecalcFlag (FlagStakeRecalc a st)) b \<longleftrightarrow> b = a \<or> kv_has (StakeRecalcFlag st) b"
  by (auto simp: FlagStakeRecalc_def)

text \<open>Whoever joins, leaves or is removed from a reporter by a message of its own, or changes a
  delegation that stays, makes the reporters concerned recompute their stake at their next
  report.\<close>

theorem selection_changes_recalculated:
  "(SelectReporter env sel st = Inr st1 \<and> accAddress env (slReporterAddress sel) = Inr r \<longrightarrow> needsStakeRecalc c r st1)
    \<and> (SwitchReporter env c0 sel st = Inr st2 \<and> accAddress env (slReporterAddress sel) = Inr r
        \<and> accAddress env (slSelectorAddress sel) = Inr a \<and> kv_get (Selectors st) a = Some s
       \<longrightarrow> needsStakeRecalc c r st2 \<and> needsStakeRecalc c (selReporter s) st2)
    \<and> (RemoveSelector env rem st = Inr st3 \<and> accAddress env (rmSelectorAddress rem) = Inr a \<and> kv_get (Selectors st) a = Some s
       \<longrightarrow> needsStakeRecalc c (selReporter s) st3)
    \<and> (kv_get (Selectors st) a = Some s \<longrightarrow> needsStakeRecalc c (selReporter s) (AfterDelegationModified a st))"
proof (intro conjI impI; (elim conjE)?)
  show "needsStakeRecalc c r st1" if "SelectReporter env sel st = Inr st1" "accAddress env (slReporterAddress sel) = Inr r"
    using that by (auto simp: SelectReporter_def validateSelectReporter_def intro: flagged_recalc)
  show "needsStakeRecalc c r st2" "needsStakeRecalc c (selReporter s) st2"
    if "SwitchReporter env c0 sel st = Inr st2" "accAddress env (slReporterAddress sel) = Inr r"
      "accAddress env (slSelectorAddress sel) = Inr a" "kv_get (Selectors st) a = Some s"
    using that by (auto simp: SwitchReporter_def validateSwitchReporter_def moveSelector_def Let_def intro!: flagged_recalc)
  show "needsStakeRecalc c (selReporter s) st3"
    if "RemoveSelector env rem st = Inr st3" "accAddress env (rmSelectorAddress rem) = Inr a" "kv_get (Selectors st) a = Some s"
    using that by (auto simp: RemoveSelector_def validateRemoveSelector_def intro: flagged_recalc)
  show "needsStakeRecalc c (selReporter s) (AfterDelegationModified a st)" if "kv_get (Selectors st) a = Some s"
    using that by (auto simp: AfterDelegationModified_def intro: flagged_recalc)
qed

theorem selection_changes_recalculated_witness:
  "\<exists>st. ex_setup = Inr st \<and> needsStakeRecalc (ex_ctx 1001) ''A'' st
    \<and> needsStakeRecalc (ex_ctx 1001) ''A'' (AfterDelegationModified ''B'' st)"
proof -
  have "holds (\<lambda>st. map_option selReporter (kv_get (Selectors st) ''B'') = Some ''A'') ex_setup" by code_simp
  then obtain st s where st: "ex_setup = Inr st" and s: "kv_get (Selectors st) ''B'' = Some s" "selReporter s = ''A''"
    by (elim holdsE) auto
  obtain st0 where "SelectReporter ex_rep_env ex_select st0 = Inr st" using st by (auto simp: ex_setup_def)
  moreover have "accAddress ex_rep_env (slReporterAddress ex_select) = Inr ''A''" by code_simp
  ultimately have "needsStakeRecalc (ex_ctx 1001) ''A'' st"
    using selection_changes_recalculated [where env = ex_rep_env and sel = ex_select and st = st0 and ?st1.0 = st and r = "''A''"]
    by blast
  moreover have "needsStakeRecalc (ex_ctx 1001) ''A'' (AfterDelegationModified ''B'' st)"
    using selection_changes_recalculated [where st = st and a = "''B''" and s = s and c = "ex_ctx 1001"] s by metis
  ultimately show ?thesis using st by blast
qed

section \<open>Changes that are not\<close>

lemma cached_stake:
  assumes "\<not> needsStakeRecalc c r st" and "GetDelegationsAmount st r (toU64 (BlockHeight c)) = Some cached" and "0 < daTotal cached"
  shows "ReporterStake env c r q st = Inr (daTotal cached, st)"
  using assms by (simp add: ReporterStake_def)

text \<open>What the decision to recompute and the cached value depend on.\<close>

lemma cache_same:
  assumes "StakeRecalcFlag st' = StakeRecalcFlag st" and "RecalcAtTime st' = RecalcAtTime st"
    and "ReportByBlock st' = ReportByBlock st" and "ReportOld st' = ReportOld st"
    and "LastValSetUpdateHeight st' = LastValSetUpdateHeight st"
  shows "needsStakeRecalc c r st' = needsStakeRecalc c r st" and "GetDelegationsAmount st' r n = GetDelegationsAmount st r n"
proof -
  have "oldByBlock st' = oldByBlock st" using assms(4) by (simp add: oldByBlock_def)
  then have snap: "latestSnapshot st' x y = latestSnapshot st x y" for x y using assms(3) by (simp add: latestSnapshot_def split: option.split)
  then have "GetLastReportedAtBlock c st' r = GetLastReportedAtBlock c st r" by (simp add: GetLastReportedAtBlock_def)
  then show "needsStakeRecalc c r st' = needsStakeRecalc c r st" using assms(1,2,5) by (simp add: needsStakeRecalc_def)
  show "GetDelegationsAmount st' r n = GetDelegationsAmount st r n" using snap by (simp add: GetDelegationsAmount_def)
qed

lemma removal_hooks_same:
  assumes "\<forall>h \<in> set hs. \<exists>a. h = DelegationRemoved a"
  shows "\<exists>sels. RepHooks c hs st = st\<lparr>Selectors := sels\<rparr>"
  using assms
proof (induction hs arbitrary: st)
  case Nil
  then show ?case by (auto intro: exI [of _ "Selectors st"])
next
  case (Cons h hs)
  then obtain a where h: "h = DelegationRemoved a" by auto
  obtain sels where "BeforeDelegationRemoved a st = st\<lparr>Selectors := sels\<rparr>"
    by (cases "kv_get (Selectors st) a") (auto simp: BeforeDelegationRemoved_def intro: that [of "Selectors st"] that)
  then show ?case using Cons.IH [of "st\<lparr>Selectors := sels\<rparr>"] Cons.prems h by auto
qed

text \<open>Staking tells this module that a delegation is gone only through the removal hook, and
  that hook does not mark the reporter. So tokens that are unbonded completely still count: as
  long as nothing else asks for a new computation, the reporter reports with the cached total,
  whatever its selectors' delegations have become.\<close>

theorem unbonded_tokens_still_counted:
  assumes "\<not> needsStakeRecalc c r st" and "GetDelegationsAmount st r (toU64 (BlockHeight c)) = Some cached" and "0 < daTotal cached"
    and "\<forall>h \<in> set hs. \<exists>a. h = DelegationRemoved a"
  shows "ReporterStake env c r q (RepHooks c0 hs (st\<lparr>repWorld := w\<rparr>))
    = Inr (daTotal cached, RepHooks c0 hs (st\<lparr>repWorld := w\<rparr>))"
proof -
  obtain sels where st': "RepHooks c0 hs (st\<lparr>repWorld := w\<rparr>) = st\<lparr>repWorld := w, Selectors := sels\<rparr>"
    using removal_hooks_same [OF assms(4)] by blast
  show ?thesis unfolding st' using assms(1-3) cache_same [of "st\<lparr>repWorld := w, Selectors := sels\<rparr>" st]
    by (intro cached_stake) simp_all
qed

text \<open>The second account of the example unbonds everything. The reporter's stake is five million,
  it reports with eight.\<close>

definition ex_unbonded :: "rep_world reporter_state result" where
  "ex_unbonded = bindR ex_reporting (\<lambda>st.
     bindR (unbond ex_rep_env (ex_ctx 1002) ''B'' ''v1'' (dec_of 3000000) st) (\<lambda>(n, st). Inr st))"

theorem unbonded_tokens_still_counted_witness:
  "\<exists>st. ex_unbonded = Inr st
    \<and> holds (\<lambda>r. rsTotal (fst r) = 5000000) (GetReporterStake ex_rep_env (ex_ctx 1003) ''A'' st)
    \<and> ReporterStake ex_rep_env (ex_ctx 1003) ''A'' ''q2'' st = Inr (8000000, st)"
proof -
  have "holds (\<lambda>st. \<not> needsStakeRecalc (ex_ctx 1003) ''A'' st
      \<and> map_option daTotal (GetDelegationsAmount st ''A'' (toU64 (BlockHeight (ex_ctx 1003)))) = Some 8000000
      \<and> delsOf (repWorld st) ''B'' = [(''v1'', dec_of 3000000)]) ex_reporting" by code_simp
  then obtain st0 cached where st0: "ex_reporting = Inr st0" and recalc: "\<not> needsStakeRecalc (ex_ctx 1003) ''A'' st0"
    and cached: "GetDelegationsAmount st0 ''A'' (toU64 (BlockHeight (ex_ctx 1003))) = Some cached" "daTotal cached = 8000000"
    and dels: "delsOf (repWorld st0) ''B'' = [(''v1'', dec_of 3000000)]"
    by (elim holdsE) auto
  let ?st = "RepHooks (ex_ctx 1002) [DelegationRemoved ''B''] (st0\<lparr>repWorld := setDels ''B'' [] (repWorld st0)\<rparr>)"
  have "unbond ex_rep_env (ex_ctx 1002) ''B'' ''v1'' (dec_of 3000000) st0 = Inr (TruncateInt (dec_of 3000000), ?st)"
    unfolding unbond_def by (simp add: ex_rep_env_def ex_staking_def ex_unbond_def Let_def dels bindR_def)
  then have run: "ex_unbonded = Inr ?st" unfolding ex_unbonded_def st0 by (simp add: bindR_def)
  have "holds (\<lambda>st. holds (\<lambda>r. rsTotal (fst r) = 5000000) (GetReporterStake ex_rep_env (ex_ctx 1003) ''A'' st)) ex_unbonded"
    by code_simp
  moreover have "ReporterStake ex_rep_env (ex_ctx 1003) ''A'' ''q2'' ?st = Inr (daTotal cached, ?st)"
    using cached(2) by (intro unbonded_tokens_still_counted [OF recalc cached(1)]) simp_all
  ultimately have "holds (\<lambda>r. rsTotal (fst r) = 5000000) (GetReporterStake ex_rep_env (ex_ctx 1003) ''A'' ?st)"
    "ReporterStake ex_rep_env (ex_ctx 1003) ''A'' ''q2'' ?st = Inr (8000000, ?st)"
    unfolding run holds_def [of _ "Inr ?st"] cached(2) by simp_all
  with run show ?thesis by blast
qed

text \<open>A selector that becomes a reporter itself takes its tokens along, but its former reporter
  is not marked: it keeps reporting with the total that includes them.\<close>

theorem create_keeps_cached_stake:
  assumes "CreateReporter env c0 msg st = Inr st'"
    and "\<not> needsStakeRecalc c r st" and "GetDelegationsAmount st r (toU64 (BlockHeight c)) = Some cached" and "0 < daTotal cached"
  shows "ReporterStake env c r q st' = Inr (daTotal cached, st')"
  using assms(1)
proof (rule CreateReporter_cases)
  fix a params s
  assume st': "st' = st\<lparr>Selectors := kv_set a s (Selectors st),
      Reporters := kv_set a (NewReporter (crCommissionRate msg) (crMinTokensRequired msg) (crMoniker msg)) (Reporters st)\<rparr>"
  show ?thesis using assms(2-4) cache_same [of st' st] by (intro cached_stake) (simp_all add: st')
qed

definition ex_create_B :: msg_create_reporter where
  "ex_create_B = \<lparr>crReporterAddress = ''B'', crCommissionRate = 0, crMinTokensRequired = 1000000, crMoniker = ''b''\<rparr>"

theorem create_keeps_cached_stake_witness:
  "\<exists>st st'. ex_reporting = Inr st \<and> CreateReporter ex_rep_env (ex_ctx 1002) ex_create_B st = Inr st'
    \<and> map_option selReporter (kv_get (Selectors st') ''B'') = Some ''B''
    \<and> ReporterStake ex_rep_env (ex_ctx 1003) ''A'' ''q2'' st' = Inr (8000000, st')"
proof -
  have "holds (\<lambda>st. \<not> needsStakeRecalc (ex_ctx 1003) ''A'' st
      \<and> map_option daTotal (GetDelegationsAmount st ''A'' (toU64 (BlockHeight (ex_ctx 1003)))) = Some 8000000
      \<and> holds (\<lambda>st'. map_option selReporter (kv_get (Selectors st') ''B'') = Some ''B'')
          (CreateReporter ex_rep_env (ex_ctx 1002) ex_create_B st)) ex_reporting" by code_simp
  then obtain st cached st' where st: "ex_reporting = Inr st" and recalc: "\<not> needsStakeRecalc (ex_ctx 1003) ''A'' st"
    and cached: "GetDelegationsAmount st ''A'' (toU64 (BlockHeight (ex_ctx 1003))) = Some cached" "daTotal cached = 8000000"
    and run: "CreateReporter ex_rep_env (ex_ctx 1002) ex_create_B st = Inr st'"
    and B: "map_option selReporter (kv_get (Selectors st') ''B'') = Some ''B''"
    by (elim holdsE conjE) auto
  have "ReporterStake ex_rep_env (ex_ctx 1003) ''A'' ''q2'' st' = Inr (daTotal cached, st')"
    using cached(2) by (intro create_keeps_cached_stake [OF run recalc cached(1)]) simp
  with cached(2) have "ReporterStake ex_rep_env (ex_ctx 1003) ''A'' ''q2'' st' = Inr (8000000, st')" by (simp only:)
  then show ?thesis using st run B by blast
qed

section \<open>Pruning\<close>

lemma latestBlock_fold:
  "(let m = fold (\<lambda>(r, block, q) m. if r = reporter \<and> m < block then block else m) keys (m0 :: u64)
    in m0 \<le> m \<and> (\<forall>block q. (reporter, block, q) \<in> set keys \<longrightarrow> block \<le> m) \<and> (m = m0 \<or> (\<exists>q. (reporter, m, q) \<in> set keys)))"
proof (induction keys arbitrary: m0)
  case Nil
  show ?case by simp
next
  case (Cons k keys)
  obtain r block q where k: "k = (r, block, q)" by (cases k)
  show ?case using Cons.IH [of "if r = reporter \<and> m0 < block then block else m0"]
    by (auto simp: k Let_def split: if_splits intro: order.trans)
qed

lemma latestBlock_ge: "(r, block, q) \<in> set keys \<Longrightarrow> block \<le> latestBlock r keys"
  and latestBlock_attained: "latestBlock r keys \<noteq> 0 \<Longrightarrow> \<exists>q. (r, latestBlock r keys, q) \<in> set keys"
  using latestBlock_fold [of r keys 0] by (auto simp: latestBlock_def Let_def)

lemma last_filter: "xs \<noteq> [] \<Longrightarrow> P (last xs) \<Longrightarrow> firstOf (rev (filter P xs)) = firstOf (rev xs)"
  by (cases xs rule: rev_cases) (simp_all add: firstOf_def)

text \<open>Deleting what a batch names, all of it below the cutoff, keeps the newest snapshot below any
  block from the cutoff on.\<close>

lemma newestBelow_prune:
  assumes sorted: "sorted (map fst es)" and batch: "set batch \<subseteq> fst ` set es"
    and cutoff: "\<forall>(r, block, q) \<in> set batch. block < cutoff" "cutoff \<le> bound"
  shows "newestBelow a bound (filter (\<lambda>e. fst e \<notin> set (prunable batch)) es) = newestBelow a bound es"
proof -
  let ?own = "filter (\<lambda>((r, block, q), v). r = a \<and> block < bound) es"
  have kept: "fst (last ?own) \<notin> set (prunable batch)" if "?own \<noteq> []"
  proof
    assume del: "fst (last ?own) \<in> set (prunable batch)"
    obtain block q v where last: "last ?own = ((a, block, q), v)"
      using last_in_set [OF \<open>?own \<noteq> []\<close>] by auto
    let ?m = "latestBlock a batch"
    from del last have "(a, block, q) \<in> set batch" "block \<noteq> ?m" by (auto simp: prunable_def)
    then have less: "block < ?m" using latestBlock_ge by (metis order.not_eq_order_implies_strict)
    then obtain q' where q': "(a, ?m, q') \<in> set batch" using latestBlock_attained [of a batch] by force
    then obtain v' where "((a, ?m, q'), v') \<in> set es" using batch by force
    moreover have "?m < bound" using q' cutoff by (auto intro: less_le_trans)
    ultimately have mem: "((a, ?m, q'), v') \<in> set ?own" by simp
    have "sorted (map fst ?own)" using sorted by (rule sorted_filter)
    then have "fst ((a, ?m, q'), v') \<le> fst (last ?own)" using mem
      by (cases ?own rule: rev_cases) (auto simp: sorted_append)
    then show False using last less by (auto simp: less_eq_prod_def dest: order.asym leD)
  qed
  have "newestBelow a bound (filter (\<lambda>e. fst e \<notin> set (prunable batch)) es)
      = firstOf (rev (filter (\<lambda>e. fst e \<notin> set (prunable batch)) ?own))"
    by (simp add: newestBelow_def conj_commute case_prod_beta)
  also have "\<dots> = newestBelow a bound es"
    using kept last_filter [of ?own] by (cases "?own = []") (simp_all add: newestBelow_def)
  finally show ?thesis .
qed

lemma kv_ok_sorted: "kv_ok m \<Longrightarrow> sorted (map fst m)"
  by (auto simp: kv_ok_def strict_sorted_iff)

lemma prunable_subset: "set (prunable keys) \<subseteq> set keys"
  by (auto simp: prunable_def)

lemma few_deleted:
  assumes "distinct (map f es)"
  shows "length es \<le> length (filter (\<lambda>e. f e \<notin> set ks) es) + length ks"
proof -
  have "length (filter (\<lambda>e. f e \<in> set ks) es) = card (f ` set (filter (\<lambda>e. f e \<in> set ks) es))"
    using assms by (simp add: distinct_map card_image inj_on_def distinct_card [symmetric])
  also have "\<dots> \<le> card (set ks)" by (rule card_mono) auto
  also have "\<dots> \<le> length ks" by (rule card_length)
  finally show ?thesis using sum_length_filter_compl [of "\<lambda>e. f e \<in> set ks" es] by simp
qed

lemma oldByBlock_filter:
  "oldByBlock (st\<lparr>ReportOld := filter (\<lambda>((q, r, block), v). (r, block, q) \<notin> K) (ReportOld st), ReportByBlock := es\<rparr>)
    = filter (\<lambda>e. fst e \<notin> K) (oldByBlock st)"
  by (simp add: oldByBlock_def filter_sort filter_map case_prod_unfold comp_def)

lemma oldByBlock_sorted: "sorted (map fst (oldByBlock st))"
  by (simp add: oldByBlock_def)

lemma oldBatch:
  defines "batch \<equiv> \<lambda>cutoff m st. filter (\<lambda>(r, block, q). block < cutoff)
       (map (\<lambda>((q, r, block), v). (r, block, q)) (take m (ReportOld st)))"
  shows "oldPrunable cutoff m st = prunable (batch cutoff m st)" and "set (batch cutoff m st) \<subseteq> fst ` set (oldByBlock st)"
    and "\<forall>(r, block, q) \<in> set (batch cutoff m st). block < cutoff" and "length (batch cutoff m st) \<le> m"
proof -
  show "oldPrunable cutoff m st = prunable (batch cutoff m st)" by (simp add: oldPrunable_def batch_def)
  show "set (batch cutoff m st) \<subseteq> fst ` set (oldByBlock st)"
    by (force simp: batch_def oldByBlock_def dest: in_set_takeD)
  show "\<forall>(r, block, q) \<in> set (batch cutoff m st). block < cutoff" by (auto simp: batch_def)
  show "length (batch cutoff m st) \<le> m" unfolding batch_def by (rule order.trans [OF length_filter_le]) simp
qed

lemma newBatch:
  defines "batch \<equiv> \<lambda>cutoff m st. take m (takeWhile (\<lambda>(r, block, q). block < cutoff)
       (sort_key (\<lambda>(r, block, q). (block, r, q)) (map fst (ReportByBlock st))))"
  shows "newPrunable cutoff m st = prunable (batch cutoff m st)" and "set (batch cutoff m st) \<subseteq> fst ` set (ReportByBlock st)"
    and "\<forall>(r, block, q) \<in> set (batch cutoff m st). block < cutoff" and "length (batch cutoff m st) \<le> m"
proof -
  show "newPrunable cutoff m st = prunable (batch cutoff m st)" by (simp add: newPrunable_def batch_def)
  show "set (batch cutoff m st) \<subseteq> fst ` set (ReportByBlock st)"
    by (auto simp: batch_def dest!: in_set_takeD set_takeWhileD)
  show "\<forall>(r, block, q) \<in> set (batch cutoff m st). block < cutoff"
    by (auto simp: batch_def dest!: in_set_takeD set_takeWhileD)
  show "length (batch cutoff m st) \<le> m" by (simp add: batch_def)
qed

lemma prunable_length: "length (prunable keys) \<le> length keys"
  by (simp add: prunable_def)

lemma oldPrunable_length: "length (oldPrunable cutoff m st) \<le> m"
  unfolding oldBatch(1) by (rule order.trans [OF prunable_length oldBatch(4)])

lemma newPrunable_length: "length (newPrunable cutoff m st) \<le> m"
  unfolding newBatch(1) by (rule order.trans [OF prunable_length newBatch(4)])

lemma PruneOldReports_run:
  assumes "PruneOldReports env c m st = Inr st'"
    and "reBlockHeightFromTimestamp env st (BlockTime c - 30 * 24 * hour) = Inr cutoff"
  obtains old new where "old = oldPrunable cutoff m st"
    "new = (if length old < m then newPrunable cutoff (m - length old) st else [])"
    "st' = st\<lparr>ReportOld := filter (\<lambda>((q, r, block), v). (r, block, q) \<notin> set old) (ReportOld st),
              ReportByBlock := filter (\<lambda>e. fst e \<notin> set new) (ReportByBlock st)\<rparr>"
  by (rule that [OF refl refl]) 
    (use assms in \<open>cases "length (oldPrunable cutoff m st) < m"; simp add: PruneOldReports_def Let_def case_prod_unfold\<close>)

text \<open>Pruning removes at most a batch of snapshots and never the power of a reporter: asked
  for any block from the cutoff on, the block of an open dispute in particular, every
  reporter has the same delegations before and after. Without a cutoff nothing is pruned.\<close>

theorem prune_keeps_power:
  assumes "kv_ok (ReportByBlock st)" and "kv_ok (ReportOld st)" and "PruneOldReports env c m st = Inr st'"
  shows "case reBlockHeightFromTimestamp env st (BlockTime c - 30 * 24 * hour) of
      Inl e \<Rightarrow> st' = st
    | Inr cutoff \<Rightarrow> length (ReportOld st) + length (ReportByBlock st) \<le> length (ReportOld st') + length (ReportByBlock st') + m
        \<and> (cutoff \<le> n + 1 \<longrightarrow> GetDelegationsAmount st' a n = GetDelegationsAmount st a n)"
proof (cases "reBlockHeightFromTimestamp env st (BlockTime c - 30 * 24 * hour)")
  case (Inl e)
  then show ?thesis using assms(3) by (simp add: PruneOldReports_def)
next
  case (Inr cutoff)
  obtain old new where old: "old = oldPrunable cutoff m st"
    and new: "new = (if length old < m then newPrunable cutoff (m - length old) st else [])"
    and st': "st' = st\<lparr>ReportOld := filter (\<lambda>((q, r, block), v). (r, block, q) \<notin> set old) (ReportOld st),
              ReportByBlock := filter (\<lambda>e. fst e \<notin> set new) (ReportByBlock st)\<rparr>"
    by (rule PruneOldReports_run [OF assms(3) Inr])
  have "length old \<le> m" by (simp add: old oldPrunable_length)
  moreover have "length new \<le> m - length old"
    by (simp add: new newPrunable_length)
  moreover have "distinct (map (\<lambda>((q, r, block), v). (r, block, q)) (ReportOld st))"
    using kv_ok_distinct [OF assms(2)] by (force simp: distinct_map inj_on_def)
  then have "length (ReportOld st) \<le> length (ReportOld st') + length old"
    using few_deleted [of "\<lambda>((q, r, block), v). (r, block, q)" "ReportOld st" old] by (simp add: st' case_prod_unfold)
  moreover have "length (ReportByBlock st) \<le> length (ReportByBlock st') + length new"
    using few_deleted [of fst "ReportByBlock st" new] kv_ok_distinct [OF assms(1)] by (simp add: st')
  ultimately have few: "length (ReportOld st) + length (ReportByBlock st) \<le> length (ReportOld st') + length (ReportByBlock st') + m"
    by simp
  have "GetDelegationsAmount st' a n = GetDelegationsAmount st a n" if "cutoff \<le> n + 1"
  proof -
    have "newestBelow a (n + 1) (ReportByBlock st') = newestBelow a (n + 1) (ReportByBlock st)"
      using newestBelow_prune [OF kv_ok_sorted [OF assms(1)] newBatch(2,3) that]
      by (cases "length old < m") (simp_all add: st' new newBatch(1))
    moreover have "newestBelow a (n + 1) (oldByBlock st') = newestBelow a (n + 1) (oldByBlock st)"
      using newestBelow_prune [OF oldByBlock_sorted oldBatch(2,3) that] by (simp add: st' oldByBlock_filter old oldBatch(1))
    ultimately show ?thesis by (simp only: GetDelegationsAmount_def latestSnapshot_def)
  qed
  then show ?thesis using few Inr by simp
qed

definition ex_snapshot :: "int \<Rightarrow> delegations_amounts" where
  "ex_snapshot n = \<lparr>TokenOrigins = [], daTotal = n\<rparr>"

definition ex_snapshots :: "rep_world reporter_state" where
  "ex_snapshots = (emptyReporter ex_rep_world)\<lparr>
     ReportOld := [((''q1'', ''A'', 100), ex_snapshot 1), ((''q1'', ''B'', 100), ex_snapshot 5), ((''q2'', ''A'', 200), ex_snapshot 2)],
     ReportByBlock := [((''A'', 210, ''q1''), ex_snapshot 3), ((''A'', 300, ''q1''), ex_snapshot 4)]\<rparr>"

definition ex_prune_env :: "rep_world reporter_env" where
  "ex_prune_env = ex_rep_env\<lparr>reBlockHeightFromTimestamp := (\<lambda>st t. Inr 250)\<rparr>"

theorem prune_keeps_power_witness:
  "\<exists>st'. PruneOldReports ex_prune_env (ex_ctx 1000) 10 ex_snapshots = Inr st' \<and> length (ReportOld st') = 2
    \<and> GetDelegationsAmount st' ''A'' 249 = GetDelegationsAmount ex_snapshots ''A'' 249
    \<and> map_option daTotal (GetDelegationsAmount ex_snapshots ''A'' 249) = Some 3"
proof -
  have "holds (\<lambda>st'. length (ReportOld st') = 2) (PruneOldReports ex_prune_env (ex_ctx 1000) 10 ex_snapshots)" by code_simp
  then obtain st' where run: "PruneOldReports ex_prune_env (ex_ctx 1000) 10 ex_snapshots = Inr st'" "length (ReportOld st') = 2"
    by (elim holdsE)
  have ok: "kv_ok (ReportByBlock ex_snapshots)" "kv_ok (ReportOld ex_snapshots)" by code_simp+
  have "GetDelegationsAmount st' ''A'' 249 = GetDelegationsAmount ex_snapshots ''A'' 249"
    using prune_keeps_power [OF ok run(1), of 249 "''A''"] by (simp add: ex_prune_env_def)
  moreover have "map_option daTotal (GetDelegationsAmount ex_snapshots ''A'' 249) = Some 3" by code_simp
  ultimately show ?thesis using run by blast
qed

end
