(* ===== verification/RepAnte.thy ===== *)
theory RepAnte
  imports RepExample
begin

text \<open>
  The ante handler of the reporter module (\<^verbatim>\<open>x/reporter/ante/ante.go\<close>): a transaction whose messages
  move the bonded stake too far from the amount the stake tracker noted is refused before it
  runs. The messages are those of the SDK's staking and authz modules.
\<close>

section \<open>Messages\<close>

text \<open>\<open>MsgExecUnreadable\<close> is an \<^verbatim>\<open>authz.MsgExec\<close> whose \<^verbatim>\<open>GetMessages\<close> fails. Addresses are strings
  as in the messages: delegator, validator (source, destination) and amount.\<close>

datatype staking_msg =
    MsgCreateValidator int
  | MsgDelegate string string int
  | MsgBeginRedelegate string string string int
  | MsgCancelUnbondingDelegation string int
  | MsgUndelegate string int
  | MsgExec "staking_msg list"
  | MsgExecUnreadable error
  | OtherMsg

section \<open>The checks\<close>

definition MaxNestedMsgCount :: int where
  "MaxNestedMsgCount = 7"

definition mustAccAddress :: "'w reporter_env \<Rightarrow> string \<Rightarrow> addr result" where
  "mustAccAddress env s = (case reAccAddressFromBech32 env s of Inl _ \<Rightarrow> Inl ErrPanic | Inr a \<Rightarrow> Inr a)"

definition checkAmountOfDelegationsByAddressDoesNotExceedMax ::
  "'w reporter_env \<Rightarrow> 'w reporter_state \<Rightarrow> staking_msg \<Rightarrow> bool result" where
  "checkAmountOfDelegationsByAddressDoesNotExceedMax env st msg =
     (case repParams st of
        None \<Rightarrow> Inr True
      | Some params \<Rightarrow>
          case msg of
            MsgDelegate delegator _ _ \<Rightarrow>
              bindR (mustAccAddress env delegator) (\<lambda>addr.
              bindR (skDelegatorDelegations (reStaking env) (repWorld st) addr) (\<lambda>delegations.
              Inr (int (length delegations) \<noteq> i64 (uint (MaxNumOfDelegations params)))))
          | MsgBeginRedelegate delegator src _ amount \<Rightarrow>
              bindR (mustAccAddress env delegator) (\<lambda>addr.
              bindR (skDelegatorDelegations (reStaking env) (repWorld st) addr) (\<lambda>delegations.
              if int (length delegations) = i64 (uint (MaxNumOfDelegations params))
              then (case find (\<lambda>d. equalFold (fst d) src) delegations of
                      None \<Rightarrow> Inr True
                    | Some d \<Rightarrow> Inr (amount = TruncateInt (snd d)))
              else Inr True))
          | _ \<Rightarrow> Inr True)"

text \<open>What a message adds to the bonded stake. \<open>NilChange\<close> is the \<^verbatim>\<open>math.Int\<close> no branch has set.\<close>

datatype stake_change = NoChange | Change int | NilChange

definition validatorOf :: "'w reporter_env \<Rightarrow> 'w reporter_state \<Rightarrow> string \<Rightarrow> validator result" where
  "validatorOf env st s =
     bindR (reValAddressFromBech32 env s) (\<lambda>valAddr. skGetValidator (reStaking env) (repWorld st) valAddr)"

definition changeIfBonded :: "'w reporter_env \<Rightarrow> 'w reporter_state \<Rightarrow> string \<Rightarrow> int \<Rightarrow> stake_change result" where
  "changeIfBonded env st s amount =
     bindR (validatorOf env st s) (\<lambda>val. Inr (if IsBonded val then Change amount else NoChange))"

definition allowedDelegations :: "'w reporter_env \<Rightarrow> 'w reporter_state \<Rightarrow> staking_msg \<Rightarrow> unit result" where
  "allowedDelegations env st msg =
     bindR (checkAmountOfDelegationsByAddressDoesNotExceedMax env st msg) (\<lambda>isAllowed.
     guardR isAllowed (Err ''ErrExceedsMaxDelegations''))"

definition stakeChangeOf :: "'w reporter_env \<Rightarrow> 'w reporter_state \<Rightarrow> staking_msg \<Rightarrow> stake_change result" where
  "stakeChangeOf env st msg =
     (case msg of
        MsgCreateValidator amount \<Rightarrow> Inr (Change amount)
      | MsgDelegate _ v amount \<Rightarrow>
          bindR (allowedDelegations env st msg) (\<lambda>_. changeIfBonded env st v amount)
      | MsgBeginRedelegate _ src dst amount \<Rightarrow>
          bindR (allowedDelegations env st msg) (\<lambda>_.
          bindR (reValAddressFromBech32 env src) (\<lambda>srcValAddr.
          bindR (reValAddressFromBech32 env dst) (\<lambda>dstValAddr.
          bindR (skGetValidator (reStaking env) (repWorld st) srcValAddr) (\<lambda>sourceVal.
          bindR (skGetValidator (reStaking env) (repWorld st) dstValAddr) (\<lambda>destVal.
          Inr (if IsBonded sourceVal \<and> \<not> IsBonded destVal then Change (- amount)
               else if vStatus sourceVal = vStatus destVal then NoChange
               else if \<not> IsBonded sourceVal \<and> IsBonded destVal then Change amount
               else NilChange))))))
      | MsgCancelUnbondingDelegation v amount \<Rightarrow> changeIfBonded env st v amount
      | MsgUndelegate v amount \<Rightarrow> changeIfBonded env st v (- amount)
      | _ \<Rightarrow> Inr NoChange)"

definition checkStakeChange :: "'w reporter_env \<Rightarrow> 'w reporter_state \<Rightarrow> staking_msg \<Rightarrow> unit result" where
  "checkStakeChange env st msg =
     bindR (stakeChangeOf env st msg) (\<lambda>change.
     if change = NoChange then Inr ()
     else case Tracker st of
            None \<Rightarrow> Inr ()
          | Some lastupdated \<Rightarrow>
              bindR (skTotalBondedTokens (reStaking env) (repWorld st)) (\<lambda>currentAmount.
              case change of
                Change msgAmount \<Rightarrow>
                  let changeAmt = currentAmount + msgAmount; amount = stAmount lastupdated in
                  if msgAmount < 0
                  then guardR (amount - quoT amount 20 \<le> changeAmt) (Err ''total stake decrease exceeds the allowed 5% threshold'')
                  else guardR (changeAmt \<le> amount + quoT amount 20) (Err ''total stake increase exceeds the allowed 5% threshold'')
              | _ \<Rightarrow> Inl ErrPanic))"

text \<open>The counter goes up with every message of an \<^verbatim>\<open>Exec\<close>, and those messages see the count.\<close>

fun processMessage :: "'w reporter_env \<Rightarrow> 'w reporter_state \<Rightarrow> int \<Rightarrow> staking_msg \<Rightarrow> unit result"
  and processInner :: "'w reporter_env \<Rightarrow> 'w reporter_state \<Rightarrow> int \<Rightarrow> staking_msg list \<Rightarrow> unit result" where
  "processMessage env st nestedMsgCount msg =
     (if MaxNestedMsgCount < nestedMsgCount then Inl (Err ''nested message count exceeds the maximum allowed'')
      else case msg of
             MsgExec innerMsgs \<Rightarrow> processInner env st nestedMsgCount innerMsgs
           | MsgExecUnreadable e \<Rightarrow> Inl e
           | _ \<Rightarrow> checkStakeChange env st msg)"
| "processInner env st nestedMsgCount [] = Inr ()"
| "processInner env st nestedMsgCount (innerMsg # innerMsgs) =
     bindR (processMessage env st (nestedMsgCount + 1) innerMsg) (\<lambda>_.
     processInner env st (nestedMsgCount + 1) innerMsgs)"

declare processMessage.simps [simp del]

text \<open>\<open>next\<close> is the rest of the chain of handlers.\<close>

definition AnteHandle :: "'w reporter_env \<Rightarrow> 'w reporter_state \<Rightarrow> staking_msg list \<Rightarrow> 'a result \<Rightarrow> 'a result" where
  "AnteHandle env st msgs nextResult =
     bindR (foldR (\<lambda>msg _. processMessage env st 1 msg) msgs ()) (\<lambda>_. nextResult)"

section \<open>Properties\<close>

text \<open>The messages a transaction runs, those inside \<^verbatim>\<open>Exec\<close> too.\<close>

fun leaves :: "staking_msg \<Rightarrow> staking_msg list" where
  "leaves (MsgExec msgs) = concat (map leaves msgs)"
| "leaves msg = [msg]"

lemma processed_leaves:
  "processMessage env st n msg = Inr () \<Longrightarrow> leaf \<in> set (leaves msg) \<Longrightarrow> checkStakeChange env st leaf = Inr ()"
  "processInner env st n msgs = Inr () \<Longrightarrow> msg' \<in> set msgs \<Longrightarrow> leaf \<in> set (leaves msg')
    \<Longrightarrow> checkStakeChange env st leaf = Inr ()"
proof (induction env st n msg and env st n msgs arbitrary: leaf and msg' leaf rule: processMessage_processInner.induct)
  case (1 env st n msg)
  show ?case
  proof (cases msg)
    case (MsgExec ms)
    then show ?thesis using 1 by (auto simp: processMessage.simps [of _ _ _ "MsgExec ms"] split: if_splits)
  qed (use 1(2,3) in \<open>auto simp: processMessage.simps split: if_splits\<close>)
qed auto

lemma processed_exec_length:
  "processInner env st n msgs = Inr () \<Longrightarrow> msgs \<noteq> [] \<Longrightarrow> n + int (length msgs) \<le> MaxNestedMsgCount"
proof (induction msgs arbitrary: n)
  case (Cons m ms)
  then show ?case by (cases "ms = []") (fastforce simp: processMessage.simps split: if_splits)+
qed simp

lemma foldR_unit: "foldR (\<lambda>m _. f m) ms () = Inr () \<longleftrightarrow> (\<forall>m \<in> set ms. f m = Inr ())"
  by (induction ms) auto

lemma AnteHandle_Inr:
  "AnteHandle env st msgs nxt = Inr x \<longleftrightarrow> (\<forall>msg \<in> set msgs. processMessage env st 1 msg = Inr ()) \<and> nxt = Inr x"
  by (auto simp: AnteHandle_def foldR_unit)

lemma AnteHandle_Inl:
  assumes "processMessage env st 1 msg = Inl e"
  shows "AnteHandle env st (msg # msgs) nxt = Inl e"
  using assms by (simp add: AnteHandle_def)


text \<open>The limit is one of messages, not of transactions: all messages of a transaction are compared
  with the stake as it is before any of them runs, so what is accepted once is accepted any
  number of times in one transaction.\<close>

theorem stake_limit_not_per_transaction:
  assumes "AnteHandle env st [msg] nxt = Inr x"
  shows "AnteHandle env st (replicate k msg) nxt = Inr x"
  using assms by (auto simp: AnteHandle_Inr)

text \<open>A redelegation between two validators that are not bonded, one of them unbonding and the
  other unbonded, changes no bonded stake, but the handler panics on it: no branch sets the
  amount that is added.\<close>

theorem unbonded_redelegation_panics:
  assumes "checkAmountOfDelegationsByAddressDoesNotExceedMax env st (MsgBeginRedelegate del src dst n) = Inr True"
    and "reValAddressFromBech32 env src = Inr a" and "skGetValidator (reStaking env) (repWorld st) a = Inr sourceVal"
    and "reValAddressFromBech32 env dst = Inr b" and "skGetValidator (reStaking env) (repWorld st) b = Inr destVal"
    and "vStatus sourceVal \<noteq> Bonded" and "vStatus destVal \<noteq> Bonded" and "vStatus sourceVal \<noteq> vStatus destVal"
    and "Tracker st = Some t" and "skTotalBondedTokens (reStaking env) (repWorld st) = Inr tot"
  shows "AnteHandle env st (MsgBeginRedelegate del src dst n # msgs) nxt = Inl ErrPanic"
  using assms
  by (intro AnteHandle_Inl) (simp add: processMessage.simps MaxNestedMsgCount_def checkStakeChange_def stakeChangeOf_def allowedDelegations_def)

section \<open>Evaluations\<close>

text \<open>Twenty delegations of one twentieth each double the stake in one transaction.\<close>

definition ex_ante_env :: "rep_world reporter_env" where
  "ex_ante_env = ex_rep_env\<lparr>reStaking := ex_staking\<lparr>skTotalBondedTokens := (\<lambda>w. Inr 1000),
     skGetValidator := (\<lambda>w v. if v = ''v3''
       then Inr \<lparr>vOperator = ''v3'', vStatus = Unbonded, vTokens = 0, vDelegatorShares = 0\<rparr> else ex_validator v)\<rparr>\<rparr>"

definition ex_ante_state :: "rep_world reporter_state" where
  "ex_ante_state = (emptyReporter ex_rep_world)\<lparr>Tracker := Some \<lparr>stExpiration = 0, stAmount = 1000\<rparr>\<rparr>"


theorem stake_limit_not_per_transaction_witness:
  "AnteHandle ex_ante_env ex_ante_state (replicate 20 (MsgDelegate ''a'' ''v1'' 50)) (Inr ()) = Inr ()"
  by (rule stake_limit_not_per_transaction) code_simp

theorem unbonded_redelegation_panics_witness:
  "AnteHandle ex_ante_env ex_ante_state [MsgBeginRedelegate ''a'' ''v2'' ''v3'' 5] (Inr ()) = (Inl ErrPanic :: unit result)"
  by (rule unbonded_redelegation_panics
      [where a = "''v2''" and b = "''v3''" and sourceVal = "\<lparr>vOperator = ''v2'', vStatus = Unbonding, vTokens = 0, vDelegatorShares = 0\<rparr>"
        and destVal = "\<lparr>vOperator = ''v3'', vStatus = Unbonded, vTokens = 0, vDelegatorShares = 0\<rparr>"
        and t = "\<lparr>stExpiration = 0, stAmount = 1000\<rparr>" and tot = 1000]) code_simp+

end
