(* ===== verification/BridgeTypes.thy ===== *)
theory BridgeTypes
  imports OracleAggregate
begin

text \<open>
  Data of the bridge module (\<^verbatim>\<open>x/bridge\<close>): its stored types, the keeper's collections, its
  parameters, and what the keeper is built with. Wrapper messages with one field
  (\<^verbatim>\<open>EVMAddress\<close>, \<^verbatim>\<open>OperatorAddress\<close>, \<^verbatim>\<open>CheckpointIdx\<close>, \<dots>) are their field. The staking
  keeper, the ABI codec, the hash functions, the recovery of an address from a signature and
  the address formats are code of the SDK and of \<^verbatim>\<open>go-ethereum\<close> and are parameters. The
  oracle's part in an operation is the oracle's state.
\<close>

section \<open>Stored types\<close>

record bridge_validator =
  EthereumAddress :: bytes
  bvPower :: u64

type_synonym bridge_valset = "bridge_validator list"

record validator_checkpoint_params =
  vcpCheckpoint :: bytes
  vcpValsetHash :: bytes
  vcpTimestamp :: u64
  vcpPowerThreshold :: u64
  vcpBlockHeight :: u64

record attestation_snapshot_data =
  asdValidatorCheckpoint :: bytes
  asdAttestationTimestamp :: u64
  asdPrevReportTimestamp :: u64
  asdNextReportTimestamp :: u64
  asdQueryId :: bytes
  asdTimestamp :: u64
  asdLastConsensusTimestamp :: u64

record bridge_params =
  AttestSlashPercentage :: dec
  AttestRateLimitWindow :: u64
  ValsetSlashPercentage :: dec
  ValsetRateLimitWindow :: u64
  AttestPenaltyTimeCutoff :: u64
  MainnetChainId :: string

definition bridgeDefaultParams :: bridge_params where
  "bridgeDefaultParams = \<lparr>AttestSlashPercentage = dec_one div 100, AttestRateLimitWindow = 10 * 60 * 1000,
     ValsetSlashPercentage = 5 * (dec_one div 100), ValsetRateLimitWindow = 10 * 60 * 1000, AttestPenaltyTimeCutoff = 0,
     MainnetChainId = ''tellor-1''\<rparr>"

definition validateSlashPercentage :: "dec \<Rightarrow> unit result" where
  "validateSlashPercentage slashPct =
     (if slashPct < 0 then Inl (Err ''slash percentage cannot be negative'')
      else if dec_one < slashPct then Inl (Err ''slash percentage too high'')
      else Inr ())"

definition validateRateLimitWindow :: "u64 \<Rightarrow> unit result" where
  "validateRateLimitWindow window =
     (if window < 1000 then Inl (Err ''rate limit window too small'')
      else if 21 * 24 * 60 * 60 * 1000 < window then Inl (Err ''rate limit window too large'')
      else Inr ())"

definition validateMainnetChainId :: "string \<Rightarrow> unit result" where
  "validateMainnetChainId chainId = guardR (chainId \<noteq> []) (Err ''mainnet chain ID cannot be empty'')"

definition validateBridgeParams :: "bridge_params \<Rightarrow> unit result" where
  "validateBridgeParams p =
     bindR (validateSlashPercentage (AttestSlashPercentage p)) (\<lambda>_.
     bindR (validateRateLimitWindow (AttestRateLimitWindow p)) (\<lambda>_.
     bindR (validateSlashPercentage (ValsetSlashPercentage p)) (\<lambda>_.
     bindR (validateRateLimitWindow (ValsetRateLimitWindow p)) (\<lambda>_.
     validateMainnetChainId (MainnetChainId p)))))"

section \<open>The keeper's state\<close>

record 'w bridge_state =
  brParams :: "bridge_params option"
  BridgeValset :: "bridge_valset option"
  ValidatorCheckpoint :: "bytes option"
  WithdrawalId :: "u64 option"
  OperatorToEVMAddressMap :: "(string, bytes) kv"
  EVMToOperatorAddressMap :: "(string, bytes) kv"
  EVMAddressRegisteredMap :: "(string, bool) kv"
  BridgeValsetSignaturesMap :: "(u64, bytes list) kv"
  ValidatorCheckpointParamsMap :: "(u64, validator_checkpoint_params) kv"
  ValidatorCheckpointIdxMap :: "(u64, u64) kv"
  LatestCheckpointIdx :: "u64 option"
  BridgeValsetByTimestampMap :: "(u64, bridge_valset) kv"
  ValsetTimestampToIdxMap :: "(u64, u64) kv"
  AttestSnapshotsByReportMap :: "(bytes, bytes list) kv"
  AttestSnapshotDataMap :: "(bytes, attestation_snapshot_data) kv"
  SnapshotToAttestationsMap :: "(bytes, bytes list) kv"
  AttestRequestsByHeightMap :: "(u64, bytes list) kv"
  DepositIdClaimedMap :: "(u64, bool) kv"
  SnapshotLimit :: "u64 option"
  AttestationEvidenceSubmitted :: "(bytes \<times> u64, bool) kv"
  ValsetSignatureEvidenceSubmitted :: "(bytes \<times> u64, bool) kv"
  ValsetCheckpointDomainSeparator :: "bytes option"
  brWorld :: 'w

definition emptyBridge :: "'w \<Rightarrow> 'w bridge_state" where
  "emptyBridge w = \<lparr>brParams = None, BridgeValset = None, ValidatorCheckpoint = None, WithdrawalId = None,
     OperatorToEVMAddressMap = [], EVMToOperatorAddressMap = [], EVMAddressRegisteredMap = [],
     BridgeValsetSignaturesMap = [], ValidatorCheckpointParamsMap = [], ValidatorCheckpointIdxMap = [],
     LatestCheckpointIdx = None, BridgeValsetByTimestampMap = [], ValsetTimestampToIdxMap = [],
     AttestSnapshotsByReportMap = [], AttestSnapshotDataMap = [], SnapshotToAttestationsMap = [],
     AttestRequestsByHeightMap = [], DepositIdClaimedMap = [], SnapshotLimit = None,
     AttestationEvidenceSubmitted = [], ValsetSignatureEvidenceSubmitted = [],
     ValsetCheckpointDomainSeparator = None, brWorld = w\<rparr>"

section \<open>Interfaces\<close>

text \<open>A validator of the staking module, by what the bridge asks of it: \<^verbatim>\<open>GetOperator\<close>,
  \<^verbatim>\<open>GetConsensusPower(PowerReduction)\<close>, \<^verbatim>\<open>GetConsAddr\<close> and \<^verbatim>\<open>Jailed\<close>.\<close>

record staking_validator =
  svOperator :: string
  svConsensusPower :: int
  svConsAddr :: "bytes result"
  svJailed :: bool

record 'w b_staking_iface =
  bskGetAllValidators :: "'w \<Rightarrow> staking_validator list result"
  bskGetValidator :: "'w \<Rightarrow> bytes \<Rightarrow> staking_validator result"
  bskGetValidatorByConsAddr :: "'w \<Rightarrow> bytes \<Rightarrow> staking_validator result"
  bskTotalBondedTokens :: "'w \<Rightarrow> int result"
  bskUnbondingTime :: "'w \<Rightarrow> int result"
  bskMaxValidators :: "'w \<Rightarrow> nat result"
  bskSlash :: "ctx \<Rightarrow> bytes \<Rightarrow> int \<Rightarrow> int \<Rightarrow> dec \<Rightarrow> 'w \<Rightarrow> (int \<times> 'w) result"
  bskJail :: "ctx \<Rightarrow> bytes \<Rightarrow> 'w \<Rightarrow> 'w result"

type_synonym abi_pack = "abi_arg list \<Rightarrow> abi_value list \<Rightarrow> bytes result"

text \<open>
  \<open>beRecover\<close> is \<^verbatim>\<open>crypto.SigToPub\<close> followed by \<^verbatim>\<open>crypto.PubkeyToAddress\<close>, of a hash and a
  signature with its recovery id; \<open>beBytesToAddress\<close> and \<open>beBytes2Hex\<close> are those of
  \<^verbatim>\<open>go-ethereum/common\<close>; \<open>beBech32Val\<close> prints a validator address with the configured
  prefix; \<open>beTeamAddress\<close> is the dispute keeper's.
\<close>

record 'w bridge_env =
  beAuthority :: string
  beChainID :: string
  beStaking :: "'w b_staking_iface"
  beBank :: "'w bank_keeper"
  beTeamAddress :: "'w \<Rightarrow> addr result"
  bePack :: abi_pack
  beUnpack :: abi_unpack
  beKeccak :: "bytes \<Rightarrow> bytes"
  beSha256 :: "bytes \<Rightarrow> bytes"
  beRecover :: "bytes \<Rightarrow> bytes \<Rightarrow> bytes result"
  beBytesToAddress :: "bytes \<Rightarrow> bytes"
  beBytes2Hex :: "bytes \<Rightarrow> string"
  beAccAddressFromBech32 :: "string \<Rightarrow> addr result"
  beValAddressFromBech32 :: "string \<Rightarrow> bytes result"
  beBech32Val :: "bytes \<Rightarrow> string result"
  beAccString :: "addr \<Rightarrow> string"

abbreviation bridgeModule :: string where
  "bridgeModule \<equiv> ''bridge''"

section \<open>Fixed-size values\<close>

text \<open>\<^verbatim>\<open>var x [32]byte; copy(x[:], b)\<close>: cut or padded with zeros at the end.\<close>

definition bytes32 :: "bytes \<Rightarrow> bytes" where
  "bytes32 b = take 32 (b @ replicate 32 (CHR 0x00))"

text \<open>A 32-byte slice with a \<^verbatim>\<open>uint64\<close> in its last eight bytes, big endian.\<close>

definition bigEndian64 :: "u64 \<Rightarrow> bytes" where
  "bigEndian64 n = map (\<lambda>i. char_of (nat (uint n div 256 ^ i mod 256))) (rev [0..<8])"

definition word32 :: "u64 \<Rightarrow> bytes" where
  "word32 n = replicate 24 (CHR 0x00) @ bigEndian64 n"

lemma bigEndian64_code [code]:
  "bigEndian64 n = map (\<lambda>i. char_of (uint n div i mod 256)) [256 ^ 7, 256 ^ 6, 256 ^ 5, 256 ^ 4, 256 ^ 3, 256 ^ 2, 256, 1]"
proof -
  have "char_of (nat k) = char_of k" if "0 \<le> k" for k :: int
    using that char_of_nat [of "nat k", where 'a = int] by simp
  moreover have "rev [0..<8] = [7, 6, 5, 4, 3, 2, 1, 0 :: nat]" by code_simp
  ultimately show ?thesis by (simp add: bigEndian64_def)
qed

lemma bytes32_length [simp]: "length (bytes32 b) = 32"
  by (simp add: bytes32_def)

lemma bytes32_id: "length b = 32 \<Longrightarrow> bytes32 b = b"
  by (simp add: bytes32_def)

abbreviation abiArg :: "string \<Rightarrow> abi_arg" where
  "abiArg t \<equiv> AbiArg '''' t []"

end
