(* ===== verification/BridgeValset.thy ===== *)
theory BridgeValset
  imports BridgeTypes
begin

text \<open>
  Validator sets and their checkpoints (\<^verbatim>\<open>x/bridge/keeper/keeper.go\<close>): the current set in EVM
  form, when a new one is saved, the checkpoint the EVM contracts verify, the registration of
  EVM addresses and the signatures of the previous set under the next checkpoint.
\<close>

section \<open>Parameters and lookups\<close>

definition GetAttestSlashPercentage :: "'w bridge_state \<Rightarrow> dec result" where
  "GetAttestSlashPercentage st = bindR (getR (brParams st)) (\<lambda>p. Inr (AttestSlashPercentage p))"

definition GetAttestRateLimitWindow :: "'w bridge_state \<Rightarrow> u64 result" where
  "GetAttestRateLimitWindow st = bindR (getR (brParams st)) (\<lambda>p. Inr (AttestRateLimitWindow p))"

definition GetValsetSlashPercentage :: "'w bridge_state \<Rightarrow> dec result" where
  "GetValsetSlashPercentage st = bindR (getR (brParams st)) (\<lambda>p. Inr (ValsetSlashPercentage p))"

definition GetValsetRateLimitWindow :: "'w bridge_state \<Rightarrow> u64 result" where
  "GetValsetRateLimitWindow st = bindR (getR (brParams st)) (\<lambda>p. Inr (ValsetRateLimitWindow p))"

definition GetAttestPenaltyTimeCutoff :: "'w bridge_state \<Rightarrow> u64 result" where
  "GetAttestPenaltyTimeCutoff st = bindR (getR (brParams st)) (\<lambda>p. Inr (AttestPenaltyTimeCutoff p))"

definition GetMainnetChainId :: "'w bridge_state \<Rightarrow> string result" where
  "GetMainnetChainId st = bindR (getR (brParams st)) (\<lambda>p. Inr (MainnetChainId p))"

definition GetValidatorCheckpointFromStorage :: "'w bridge_state \<Rightarrow> bytes result" where
  "GetValidatorCheckpointFromStorage st = getR (ValidatorCheckpoint st)"

definition GetValidatorTimestampByIdxFromStorage :: "'w bridge_state \<Rightarrow> u64 \<Rightarrow> u64 result" where
  "GetValidatorTimestampByIdxFromStorage st i = getR (kv_get (ValidatorCheckpointIdxMap st) i)"

definition GetValidatorSetIndexByTimestamp :: "'w bridge_state \<Rightarrow> u64 \<Rightarrow> u64 result" where
  "GetValidatorSetIndexByTimestamp st t = getR (kv_get (ValsetTimestampToIdxMap st) t)"

definition GetLatestCheckpointIndex :: "'w bridge_state \<Rightarrow> u64 result" where
  "GetLatestCheckpointIndex st = getR (LatestCheckpointIdx st)"

definition GetCurrentValidatorSetTimestamp :: "'w bridge_state \<Rightarrow> u64 result" where
  "GetCurrentValidatorSetTimestamp st =
     bindR (getR (LatestCheckpointIdx st)) (\<lambda>checkpointIdx.
     getR (kv_get (ValidatorCheckpointIdxMap st) checkpointIdx))"

definition GetValidatorSetSignaturesFromStorage :: "'w bridge_state \<Rightarrow> u64 \<Rightarrow> bytes list result" where
  "GetValidatorSetSignaturesFromStorage st t = getR (kv_get (BridgeValsetSignaturesMap st) t)"

definition GetEVMAddressByOperator :: "'w bridge_state \<Rightarrow> string \<Rightarrow> bytes result" where
  "GetEVMAddressByOperator st op = getR (kv_get (OperatorToEVMAddressMap st) op)"

definition GetBridgeValsetByTimestamp :: "'w bridge_state \<Rightarrow> u64 \<Rightarrow> bridge_valset result" where
  "GetBridgeValsetByTimestamp st t = getR (kv_get (BridgeValsetByTimestampMap st) t)"

definition GetValidatorCheckpointParamsFromStorage ::
  "'w bridge_state \<Rightarrow> u64 \<Rightarrow> validator_checkpoint_params result" where
  "GetValidatorCheckpointParamsFromStorage st t = getR (kv_get (ValidatorCheckpointParamsMap st) t)"

text \<open>The first entry of a descending walk below a timestamp.\<close>

definition checkpointBefore :: "'w bridge_state \<Rightarrow> u64 \<Rightarrow> (u64 \<times> validator_checkpoint_params) option" where
  "checkpointBefore st t = firstOf (rev (filter (\<lambda>e. fst e < t) (ValidatorCheckpointParamsMap st)))"

definition GetValidatorSetTimestampBefore :: "'w bridge_state \<Rightarrow> u64 \<Rightarrow> u64 result" where
  "GetValidatorSetTimestampBefore st targetTimestamp =
     (let mostRecentTimestamp = (case checkpointBefore st targetTimestamp of None \<Rightarrow> 0 | Some e \<Rightarrow> fst e)
      in if mostRecentTimestamp = 0 then Inl (Err ''no validator set timestamp found before'')
         else Inr mostRecentTimestamp)"

definition GetCheckpointParamsBefore :: "'w bridge_state \<Rightarrow> u64 \<Rightarrow> validator_checkpoint_params result" where
  "GetCheckpointParamsBefore st t =
     (case checkpointBefore st t of
        None \<Rightarrow> Inl (Err ''no checkpoint params found before timestamp'')
      | Some e \<Rightarrow> Inr (snd e))"

text \<open>The unique index by checkpoint: the entry with a checkpoint, and the conflict of a new entry
  with one under another key.\<close>

definition GetCheckpointParamsByCheckpoint :: "'w bridge_state \<Rightarrow> bytes \<Rightarrow> validator_checkpoint_params result" where
  "GetCheckpointParamsByCheckpoint st checkpoint =
     (case find (\<lambda>e. vcpCheckpoint (snd e) = checkpoint) (ValidatorCheckpointParamsMap st) of
        None \<Rightarrow> Inl (Err ''checkpoint not found'')
      | Some e \<Rightarrow> Inr (snd e))"

definition setCheckpointParams ::
  "u64 \<Rightarrow> validator_checkpoint_params \<Rightarrow> 'w bridge_state \<Rightarrow> 'w bridge_state result" where
  "setCheckpointParams t p st =
     (if \<exists>e \<in> set (ValidatorCheckpointParamsMap st). fst e \<noteq> t \<and> vcpCheckpoint (snd e) = vcpCheckpoint p
      then Inl (Err ''uniqueness constrain violation'')
      else Inr (st\<lparr>ValidatorCheckpointParamsMap := kv_set t p (ValidatorCheckpointParamsMap st)\<rparr>))"

section \<open>The current validator set\<close>

definition evmValidator :: "'w bridge_state \<Rightarrow> staking_validator \<Rightarrow> bridge_validator option" where
  "evmValidator st v =
     (case kv_get (OperatorToEVMAddressMap st) (svOperator v) of
        None \<Rightarrow> None
      | Some evm \<Rightarrow> if svConsensusPower v = 0 then None
                    else Some \<lparr>EthereumAddress = evm, bvPower = toU64 (svConsensusPower v)\<rparr>)"

text \<open>By power, the highest first, then by address.\<close>

definition valsetOrder :: "bridge_validator \<Rightarrow> int \<times> bytes" where
  "valsetOrder v = (- uint (bvPower v), EthereumAddress v)"

definition GetCurrentValidatorsEVMCompatible :: "'w bridge_env \<Rightarrow> 'w bridge_state \<Rightarrow> bridge_valset result" where
  "GetCurrentValidatorsEVMCompatible env st =
     bindR (bskGetAllValidators (beStaking env) (brWorld st)) (\<lambda>validators.
     let bridgeValset = List.map_filter (evmValidator st) validators
     in if bridgeValset = [] then Inl (Err ''no validators found'')
        else Inr (sort_key valsetOrder bridgeValset))"

text \<open>\<^verbatim>\<open>PowerDiff\<close>: the sum over all addresses of the change of power, in millionths of the old
  total, in \<^verbatim>\<open>int64\<close> arithmetic. A Go map is walked in any order; the sum does not depend on it.\<close>

definition absInt64 :: "int \<Rightarrow> int" where
  "absInt64 x = (if x < 0 then i64 (- x) else x)"

definition oldPower :: "bridge_validator \<Rightarrow> (bytes, int) kv \<times> int \<Rightarrow> (bytes, int) kv \<times> int" where
  "oldPower bv acc =
     (let (powers, totalPower) = acc; p = i64 (uint (bvPower bv))
      in (kv_set (EthereumAddress bv) p powers, i64 (totalPower + p)))"

definition newPower :: "bridge_validator \<Rightarrow> (bytes, int) kv \<Rightarrow> (bytes, int) kv" where
  "newPower bv powers =
     (let p = i64 (uint (bvPower bv))
      in case kv_get powers (EthereumAddress bv) of
           Some val \<Rightarrow> kv_set (EthereumAddress bv) (i64 (val - p)) powers
         | None \<Rightarrow> kv_set (EthereumAddress bv) (i64 (- p)) powers)"

definition PowerDiff :: "bridge_valset \<Rightarrow> bridge_valset \<Rightarrow> int" where
  "PowerDiff b c =
     (let (powers, totalPower) = fold oldPower b ([], 0);
          powers = fold newPower c powers;
          delta = fold (\<lambda>(_, v) delta. i64 (delta + absInt64 v)) powers 0
      in if totalPower = 0 then 0 else i64 (quoT (i64 (delta * 1000000)) totalPower))"

text \<open>More than two weeks old, counted from one second after the block.\<close>

definition LastSavedValidatorSetStale :: "ctx \<Rightarrow> 'w bridge_state \<Rightarrow> bool result" where
  "LastSavedValidatorSetStale c st =
     (let blockTime = BlockTime c + 1000000000 in
      bindR (GetValidatorSetTimestampBefore st (toU64 (unixMilli blockTime))) (\<lambda>valsetTimestamp.
      Inr (valsetTimestamp < toU64 (unixMilli (blockTime - 2 * hour * 24 * 7)))))"

section \<open>Checkpoints\<close>

definition EncodeAndHashValidatorSet :: "'w bridge_env \<Rightarrow> bridge_valset \<Rightarrow> (bytes \<times> bytes) result" where
  "EncodeAndHashValidatorSet env validatorSet =
     bindR (foldR (\<lambda>v enc.
       bindR (bePack env [abiArg ''address'', abiArg ''uint256'']
                [AbiAddress (beBytesToAddress env (EthereumAddress v)), AbiUint (uint (bvPower v))]) (\<lambda>encodedVal.
       Inr (enc @ encodedVal))) validatorSet []) (\<lambda>encodedVals.
     let finalEncoded = word32 32 @ word32 (of_nat (length validatorSet)) @ encodedVals
     in Inr (finalEncoded, beKeccak env finalEncoded))"

definition EncodeValsetCheckpoint ::
  "'w bridge_env \<Rightarrow> u64 \<Rightarrow> u64 \<Rightarrow> bytes \<Rightarrow> 'w bridge_state \<Rightarrow> bytes result" where
  "EncodeValsetCheckpoint env powerThreshold validatorTimestamp validatorSetHash st =
     bindR (getR (ValsetCheckpointDomainSeparator st)) (\<lambda>domainSeparator.
     bindR (bePack env [abiArg ''bytes32'', abiArg ''uint256'', abiArg ''uint256'', abiArg ''bytes32'']
        [AbiBytes (bytes32 domainSeparator), AbiUint (uint powerThreshold), AbiUint (uint validatorTimestamp),
         AbiBytes (bytes32 validatorSetHash)]) (\<lambda>encodedCheckpointData.
     Inr (beKeccak env encodedCheckpointData)))"

definition CalculateValidatorSetCheckpoint ::
  "'w bridge_env \<Rightarrow> ctx \<Rightarrow> u64 \<Rightarrow> u64 \<Rightarrow> bytes \<Rightarrow> 'w bridge_state \<Rightarrow> (bytes \<times> 'w bridge_state) result" where
  "CalculateValidatorSetCheckpoint env c powerThreshold validatorTimestamp validatorSetHash st =
     bindR (EncodeValsetCheckpoint env powerThreshold validatorTimestamp validatorSetHash st) (\<lambda>checkpoint.
     bindR (setCheckpointParams validatorTimestamp
        \<lparr>vcpCheckpoint = checkpoint, vcpValsetHash = validatorSetHash, vcpTimestamp = validatorTimestamp,
         vcpPowerThreshold = powerThreshold, vcpBlockHeight = heightOf c\<rparr> st) (\<lambda>st.
     let checkpointIdx = (case LatestCheckpointIdx st of None \<Rightarrow> 0 | Some lastIdx \<Rightarrow> lastIdx + 1)
     in Inr (checkpoint, st\<lparr>
          ValidatorCheckpointIdxMap := kv_set checkpointIdx validatorTimestamp (ValidatorCheckpointIdxMap st),
          LatestCheckpointIdx := Some checkpointIdx,
          ValsetTimestampToIdxMap := kv_set validatorTimestamp checkpointIdx (ValsetTimestampToIdxMap st)\<rparr>)))"

definition NewBridgeValsetSignatures :: "nat \<Rightarrow> bytes list" where
  "NewBridgeValsetSignatures valsetSize = replicate valsetSize []"

text \<open>A new set is signed by the one before it; the first set is not signed, its list has the
  length of the set itself.\<close>

definition signersOf :: "bridge_valset \<Rightarrow> 'w bridge_state \<Rightarrow> bridge_valset result" where
  "signersOf bridgeValidatorSet st =
     bindR (getR (LatestCheckpointIdx st)) (\<lambda>valsetIdx.
     if valsetIdx = 0 then Inr bridgeValidatorSet
     else bindR (getR (kv_get (ValidatorCheckpointIdxMap st) (valsetIdx - 1))) (\<lambda>previousValsetTimestamp.
          getR (kv_get (BridgeValsetByTimestampMap st) previousValsetTimestamp)))"

definition SetBridgeValidatorParams ::
  "'w bridge_env \<Rightarrow> ctx \<Rightarrow> bridge_valset \<Rightarrow> 'w bridge_state \<Rightarrow> 'w bridge_state result" where
  "SetBridgeValidatorParams env c bridgeValidatorSet st =
     (let totalPower = fold (\<lambda>v s. s + bvPower v) bridgeValidatorSet 0;
          powerThreshold = totalPower * 2 div 3;
          validatorTimestamp = toU64 (unixMilli (BlockTime c)) in
      bindR (EncodeAndHashValidatorSet env bridgeValidatorSet) (\<lambda>(_, validatorSetHash).
      bindR (CalculateValidatorSetCheckpoint env c powerThreshold validatorTimestamp validatorSetHash st) (\<lambda>(checkpoint, st).
      let st = st\<lparr>ValidatorCheckpoint := Some checkpoint,
                  BridgeValsetByTimestampMap := kv_set validatorTimestamp bridgeValidatorSet (BridgeValsetByTimestampMap st)\<rparr> in
      bindR (signersOf bridgeValidatorSet st) (\<lambda>signers.
      Inr (st\<lparr>BridgeValsetSignaturesMap :=
             kv_set validatorTimestamp (NewBridgeValsetSignatures (length signers)) (BridgeValsetSignaturesMap st)\<rparr>)))))"

definition CompareAndSetBridgeValidators ::
  "'w bridge_env \<Rightarrow> ctx \<Rightarrow> 'w bridge_state \<Rightarrow> (bool \<times> 'w bridge_state) result" where
  "CompareAndSetBridgeValidators env c st =
     bindR (GetCurrentValidatorsEVMCompatible env st) (\<lambda>current.
     case BridgeValset st of
       None \<Rightarrow>
         bindR (SetBridgeValidatorParams env c current (st\<lparr>BridgeValset := Some current\<rparr>)) (\<lambda>st. Inr (False, st))
     | Some lastSaved \<Rightarrow>
         bindR (LastSavedValidatorSetStale c st) (\<lambda>stale.
         if lastSaved = current \<and> \<not> stale then Inr (False, st)
         else if PowerDiff lastSaved current < 50000 \<and> \<not> stale then Inr (False, st)
         else bindR (SetBridgeValidatorParams env c current (st\<lparr>BridgeValset := Some current\<rparr>)) (\<lambda>st. Inr (True, st))))"

text \<open>\<^verbatim>\<open>SetValsetCheckpointDomainSeparator\<close> panics on every error.\<close>

definition SetValsetCheckpointDomainSeparator :: "'w bridge_env \<Rightarrow> 'w bridge_state \<Rightarrow> 'w bridge_state result" where
  "SetValsetCheckpointDomainSeparator env st =
     (case GetMainnetChainId st of
        Inl _ \<Rightarrow> Inl ErrPanic
      | Inr mainnetChainId \<Rightarrow>
          if beChainID env = mainnetChainId
          then Inr (st\<lparr>ValsetCheckpointDomainSeparator := Some (bytes32 ''checkpoint'')\<rparr>)
          else case bePack env [abiArg ''string'', abiArg ''string''] [AbiString ''checkpoint'', AbiString (beChainID env)] of
                 Inl _ \<Rightarrow> Inl ErrPanic
               | Inr encoded \<Rightarrow> Inr (st\<lparr>ValsetCheckpointDomainSeparator := Some (beKeccak env encoded)\<rparr>))"

section \<open>EVM addresses\<close>

definition TryRecoverAddressWithBothIDs :: "'w bridge_env \<Rightarrow> bytes \<Rightarrow> bytes \<Rightarrow> (bytes \<times> bytes) result" where
  "TryRecoverAddressWithBothIDs env sig msgHash =
     bindR (guardR (length sig = 64) (Err ''signature length is not 64'')) (\<lambda>_.
     bindR (beRecover env msgHash (sig @ [CHR 0x00])) (\<lambda>a0.
     bindR (beRecover env msgHash (sig @ [CHR 0x01])) (\<lambda>a1.
     Inr (a0, a1))))"

text \<open>The two messages a validator signs to register, hashed twice: once by the validator, once by
  the keyring.\<close>

definition initialMessage :: "char \<Rightarrow> string \<Rightarrow> bytes" where
  "initialMessage x operatorAddress = ''TellorLayer: Initial bridge signature '' @ [x] @ '' for operator '' @ operatorAddress"

definition EVMAddressFromSignatures :: "'w bridge_env \<Rightarrow> bytes \<Rightarrow> bytes \<Rightarrow> string \<Rightarrow> bytes result" where
  "EVMAddressFromSignatures env sigA sigB operatorAddress =
     bindR (TryRecoverAddressWithBothIDs env sigA
        (beSha256 env (beSha256 env (initialMessage (CHR ''A'') operatorAddress)))) (\<lambda>(a0, a1).
     bindR (TryRecoverAddressWithBothIDs env sigB
        (beSha256 env (beSha256 env (initialMessage (CHR ''B'') operatorAddress)))) (\<lambda>(b0, b1).
     if a0 = b0 \<or> a0 = b1 then Inr a0
     else if a1 = b0 \<or> a1 = b1 then Inr a1
     else Inl (Err ''EVM addresses do not match'')))"

text \<open>An address somebody registered already is skipped without an error.\<close>

definition SetEVMAddressByOperator ::
  "'w bridge_env \<Rightarrow> string \<Rightarrow> bytes \<Rightarrow> 'w bridge_state \<Rightarrow> 'w bridge_state result" where
  "SetEVMAddressByOperator env operatorAddr evmAddr st =
     bindR (beValAddressFromBech32 env operatorAddr) (\<lambda>sdkValAddr.
     let evmAddressString = beBytes2Hex env evmAddr
     in if kv_has (EVMAddressRegisteredMap st) evmAddressString then Inr st
        else Inr (st\<lparr>OperatorToEVMAddressMap := kv_set operatorAddr evmAddr (OperatorToEVMAddressMap st),
                     EVMToOperatorAddressMap := kv_set evmAddressString sdkValAddr (EVMToOperatorAddressMap st),
                     EVMAddressRegisteredMap := kv_set evmAddressString True (EVMAddressRegisteredMap st)\<rparr>))"

section \<open>Signatures of validator sets\<close>

definition SetSignature :: "nat \<Rightarrow> bytes \<Rightarrow> bytes list \<Rightarrow> bytes list" where
  "SetSignature validatorIndex signature sigs =
     (if validatorIndex < length sigs then sigs[validatorIndex := signature] else sigs)"

text \<open>The loop over a set: the signature goes to every place with the signer's address.\<close>

fun placeSignature :: "bytes \<Rightarrow> bytes \<Rightarrow> nat \<Rightarrow> bridge_valset \<Rightarrow> bytes list \<Rightarrow> bytes list" where
  "placeSignature evm sig i [] sigs = sigs"
| "placeSignature evm sig i (v # vs) sigs =
     placeSignature evm sig (Suc i) vs (if EthereumAddress v = evm then SetSignature i sig sigs else sigs)"

definition SetBridgeValsetSignature ::
  "string \<Rightarrow> u64 \<Rightarrow> string \<Rightarrow> 'w bridge_state \<Rightarrow> 'w bridge_state result" where
  "SetBridgeValsetSignature operatorAddress timestamp signature st =
     bindR (getR (kv_get (BridgeValsetSignaturesMap st) timestamp)) (\<lambda>valsetSigs.
     bindR (getR (kv_get (OperatorToEVMAddressMap st) operatorAddress)) (\<lambda>ethAddress.
     bindR (getR (kv_get (ValsetTimestampToIdxMap st) timestamp)) (\<lambda>valsetIdx.
     if valsetIdx = 0 then Inr st
     else bindR (getR (kv_get (ValidatorCheckpointIdxMap st) (valsetIdx - 1))) (\<lambda>previousValsetTimestamp.
          bindR (getR (kv_get (BridgeValsetByTimestampMap st) previousValsetTimestamp)) (\<lambda>previousValset.
          bindR (hexDecode (regRemove0xPrefix signature)) (\<lambda>signatureBytes.
          Inr (st\<lparr>BridgeValsetSignaturesMap :=
             kv_set timestamp (placeSignature ethAddress signatureBytes 0 previousValset valsetSigs)
               (BridgeValsetSignaturesMap st)\<rparr>)))))))"

text \<open>The first place of the address in the previous set; reading the signature there panics beyond
  the list.\<close>

fun signedAt :: "bytes \<Rightarrow> bytes list \<Rightarrow> nat \<Rightarrow> bridge_valset \<Rightarrow> (bool \<times> int) result" where
  "signedAt evm sigs i [] = Inr (False, -1)"
| "signedAt evm sigs i (v # vs) =
     (if EthereumAddress v = evm
      then if i < length sigs then Inr (sigs ! i \<noteq> [], int i) else Inl ErrPanic
      else signedAt evm sigs (Suc i) vs)"

definition GetValidatorDidSignCheckpoint ::
  "'w bridge_state \<Rightarrow> string \<Rightarrow> u64 \<Rightarrow> (bool \<times> int) result" where
  "GetValidatorDidSignCheckpoint st operatorAddr checkpointTimestamp =
     bindR (getR (kv_get (ValsetTimestampToIdxMap st) checkpointTimestamp)) (\<lambda>valsetIdx.
     if valsetIdx = 0 then Inr (False, -1)
     else bindR (getR (kv_get (ValidatorCheckpointIdxMap st) (valsetIdx - 1))) (\<lambda>previousValsetTimestamp.
          bindR (getR (kv_get (BridgeValsetByTimestampMap st) previousValsetTimestamp)) (\<lambda>previousValset.
          bindR (getR (kv_get (OperatorToEVMAddressMap st) operatorAddr)) (\<lambda>ethAddress.
          bindR (getR (kv_get (BridgeValsetSignaturesMap st) checkpointTimestamp)) (\<lambda>valsetSigs.
          signedAt ethAddress valsetSigs 0 previousValset)))))"

end
