(* ===== verification/BridgeSnapshots.thy ===== *)
theory BridgeSnapshots
  imports BridgeValset
begin

text \<open>
  Attestations of oracle reports (\<^verbatim>\<open>x/bridge/keeper/keeper.go\<close>): the snapshot of an aggregate
  that the validators sign, the snapshots made at the end of a block and on request, and the
  signatures under them; and the end of the block.
\<close>

section \<open>Formatting\<close>

text \<open>\<^verbatim>\<open>fmt.Sprint\<close> of an \<^verbatim>\<open>int64\<close>, and \<^verbatim>\<open>strings.Contains\<close>.\<close>

fun printNat :: "nat \<Rightarrow> string" where
  "printNat n = (if n < 10 then [char_of (48 + n)] else printNat (n div 10) @ [char_of (48 + n mod 10)])"

declare printNat.simps [simp del]

definition printInt :: "int \<Rightarrow> string" where
  "printInt x = (if x < 0 then ''-'' @ printNat (nat (- x)) else printNat (nat x))"

definition containsString :: "string \<Rightarrow> string \<Rightarrow> bool" where
  "containsString s sub = list_ex (\<lambda>i. take (length sub) (drop i s) = sub) [0..<Suc (length s)]"

definition saysNoData :: "error \<Rightarrow> bool" where
  "saysNoData e = (case e of Err s \<Rightarrow> containsString s ''no data before timestamp'' | _ \<Rightarrow> False)"

section \<open>Encoding\<close>

record attestation_data =
  adQueryId :: bytes
  adValue :: string
  adTimestamp :: u64
  adAggregatePower :: u64
  adPreviousTimestamp :: u64
  adNextTimestamp :: u64
  adValsetCheckpoint :: bytes
  adAttestationTimestamp :: u64
  adLastConsensusTimestamp :: u64

definition EncodeOracleAttestationData :: "'w bridge_env \<Rightarrow> attestation_data \<Rightarrow> bytes result" where
  "EncodeOracleAttestationData env d =
     bindR (hexDecode (regRemove0xPrefix (adValue d))) (\<lambda>valueBytes.
     bindR (bePack env
        [abiArg ''bytes32'', abiArg ''bytes32'', abiArg ''bytes'', abiArg ''uint256'', abiArg ''uint256'', abiArg ''uint256'',
         abiArg ''uint256'', abiArg ''bytes32'', abiArg ''uint256'', abiArg ''uint256'']
        [AbiBytes (bytes32 ''tellorCurrentAttestation''), AbiBytes (bytes32 (adQueryId d)), AbiBytes valueBytes,
         AbiUint (uint (adTimestamp d)), AbiUint (uint (adAggregatePower d)), AbiUint (uint (adPreviousTimestamp d)),
         AbiUint (uint (adNextTimestamp d)), AbiBytes (bytes32 (adValsetCheckpoint d)),
         AbiUint (uint (adAttestationTimestamp d)), AbiUint (uint (adLastConsensusTimestamp d))]) (\<lambda>encodedData.
     Inr (beKeccak env encodedData)))"

text \<open>The key of a report: \<^verbatim>\<open>keccak(hex(queryId) + timestamp)\<close>.\<close>

definition reportKey :: "'w bridge_env \<Rightarrow> bytes \<Rightarrow> time \<Rightarrow> bytes" where
  "reportKey env queryId t = beKeccak env (hexEncode queryId @ printInt (unixMilli t))"

section \<open>Snapshots\<close>

text \<open>What the first snapshot of a past report says.\<close>

definition consensusOfReport :: "'w bridge_env \<Rightarrow> bytes \<Rightarrow> time \<Rightarrow> 'w bridge_state \<Rightarrow> u64 result" where
  "consensusOfReport env queryId pastReportTimestamp st =
     bindR (getR (kv_get (AttestSnapshotsByReportMap st) (reportKey env queryId pastReportTimestamp))) (\<lambda>snapshots.
     case snapshots of
       [] \<Rightarrow> Inr 0
     | snapshot # _ \<Rightarrow>
         bindR (getR (kv_get (AttestSnapshotDataMap st) snapshot)) (\<lambda>snapshotData.
         Inr (asdLastConsensusTimestamp snapshotData)))"

definition GetLastConsensusTimestamp ::
  "'w bridge_env \<Rightarrow> 'o oracle_state \<Rightarrow> bytes \<Rightarrow> time \<Rightarrow> u64 \<Rightarrow> bool \<Rightarrow> 'w bridge_state \<Rightarrow> u64 result" where
  "GetLastConsensusTimestamp env orc queryId timestamp aggregatePower isExternalRequest st =
     (if \<not> isExternalRequest
      then bindR (GetCurrentValidatorSetTimestamp st) (\<lambda>currentValsetTimestamp.
           bindR (getR (kv_get (ValidatorCheckpointParamsMap st) currentValsetTimestamp)) (\<lambda>valsetParams.
           if vcpPowerThreshold valsetParams \<le> aggregatePower then Inr (toU64 (unixMilli timestamp))
           else case GetTimestampBefore orc queryId timestamp of
                  Inl e \<Rightarrow> if saysNoData e then Inr 0 else Inl e
                | Inr pastReportTimestamp \<Rightarrow> consensusOfReport env queryId pastReportTimestamp st))
      else bindR (GetCurrentAggregateReport orc queryId) (\<lambda>(_, pastReportTimestamp).
           consensusOfReport env queryId pastReportTimestamp st))"

definition NewOracleAttestations :: "nat \<Rightarrow> bytes list" where
  "NewOracleAttestations valsetSize = replicate valsetSize []"

text \<open>Storing a snapshot with its data and an empty signature per validator of the saved set.\<close>

definition storeSnapshot ::
  "'w bridge_env \<Rightarrow> bytes \<Rightarrow> time \<Rightarrow> bytes \<Rightarrow> attestation_snapshot_data \<Rightarrow> 'w bridge_state \<Rightarrow> 'w bridge_state result" where
  "storeSnapshot env queryId timestamp snapshotBytes snapshotData st =
     (let key = reportKey env queryId timestamp;
          attestationSnapshots = kv_get_or [] (AttestSnapshotsByReportMap st) key;
          st = st\<lparr>AttestSnapshotsByReportMap := kv_set key (attestationSnapshots @ [snapshotBytes]) (AttestSnapshotsByReportMap st),
                  AttestSnapshotDataMap := kv_set snapshotBytes snapshotData (AttestSnapshotDataMap st)\<rparr> in
      bindR (getR (BridgeValset st)) (\<lambda>lastSavedBridgeValidators.
      Inr (st\<lparr>SnapshotToAttestationsMap := kv_set snapshotBytes (NewOracleAttestations (length lastSavedBridgeValidators))
             (SnapshotToAttestationsMap st)\<rparr>)))"

definition HasSnapshot :: "bytes \<Rightarrow> bytes list \<Rightarrow> bool" where
  "HasSnapshot snapshot requests = list_ex (\<lambda>request. request = snapshot) requests"

definition AddRequest :: "bytes \<Rightarrow> bytes list \<Rightarrow> bytes list" where
  "AddRequest request requests = requests @ [request]"

definition addRequest :: "ctx \<Rightarrow> bytes \<Rightarrow> bool \<Rightarrow> 'w bridge_state \<Rightarrow> 'w bridge_state result" where
  "addRequest c snapshotBytes isExternalRequest st =
     (let blockHeight = heightOf c;
          attestRequests = kv_get_or [] (AttestRequestsByHeightMap st) blockHeight;
          st = (if kv_has (AttestRequestsByHeightMap st) blockHeight then st
                else st\<lparr>AttestRequestsByHeightMap := kv_set blockHeight [] (AttestRequestsByHeightMap st)\<rparr>) in
      if isExternalRequest \<and> HasSnapshot snapshotBytes attestRequests then Inr st
      else bindR (getR (SnapshotLimit st)) (\<lambda>snapshotLimit.
           if isExternalRequest \<and> i64 (uint snapshotLimit) \<le> int (length attestRequests)
           then Inl (Err ''too many external requests'')
           else Inr (st\<lparr>AttestRequestsByHeightMap :=
                  kv_set blockHeight (AddRequest snapshotBytes attestRequests) (AttestRequestsByHeightMap st)\<rparr>)))"

definition snapshotOf ::
  "'w bridge_env \<Rightarrow> ctx \<Rightarrow> 'o oracle_state \<Rightarrow> bytes \<Rightarrow> time \<Rightarrow> bool \<Rightarrow> 'w bridge_state
    \<Rightarrow> (bytes \<times> attestation_snapshot_data) result" where
  "snapshotOf env c orc queryId timestamp isExternalRequest st =
     bindR (GetAggregateByTimestamp orc queryId (toU64 (unixMilli timestamp))) (\<lambda>aggReport.
     bindR (guardR (\<not> (isExternalRequest \<and> Flagged aggReport)) (Err ''report is flagged as dispute evidence'')) (\<lambda>_.
     bindR (GetValidatorCheckpointFromStorage st) (\<lambda>validatorCheckpoint.
     let tsBefore = (case GetTimestampBefore orc queryId timestamp of Inl _ \<Rightarrow> 0 | Inr t \<Rightarrow> t);
         tsAfter = (case GetTimestampAfter orc queryId timestamp of Inl _ \<Rightarrow> 0 | Inr t \<Rightarrow> t);
         attestationTimestamp = BlockTime c in
     bindR (GetLastConsensusTimestamp env orc queryId timestamp (AggregatePower aggReport) isExternalRequest st)
       (\<lambda>lastConsensusTimestamp.
     bindR (EncodeOracleAttestationData env
        \<lparr>adQueryId = queryId, adValue = AggregateValueOf aggReport, adTimestamp = toU64 (unixMilli timestamp),
         adAggregatePower = AggregatePower aggReport, adPreviousTimestamp = toU64 (unixMilli tsBefore),
         adNextTimestamp = toU64 (unixMilli tsAfter), adValsetCheckpoint = validatorCheckpoint,
         adAttestationTimestamp = toU64 (unixMilli attestationTimestamp),
         adLastConsensusTimestamp = lastConsensusTimestamp\<rparr>) (\<lambda>snapshotBytes.
     Inr (snapshotBytes,
        \<lparr>asdValidatorCheckpoint = validatorCheckpoint, asdAttestationTimestamp = toU64 (unixMilli attestationTimestamp),
         asdPrevReportTimestamp = toU64 (unixMilli tsBefore), asdNextReportTimestamp = toU64 (unixMilli tsAfter),
         asdQueryId = queryId, asdTimestamp = toU64 (unixMilli timestamp),
         asdLastConsensusTimestamp = lastConsensusTimestamp\<rparr>))))))"

definition CreateSnapshot ::
  "'w bridge_env \<Rightarrow> ctx \<Rightarrow> 'o oracle_state \<Rightarrow> bytes \<Rightarrow> time \<Rightarrow> bool \<Rightarrow> 'w bridge_state \<Rightarrow> 'w bridge_state result" where
  "CreateSnapshot env c orc queryId timestamp isExternalRequest st =
     bindR (snapshotOf env c orc queryId timestamp isExternalRequest st) (\<lambda>(snapshotBytes, snapshotData).
     bindR (storeSnapshot env queryId timestamp snapshotBytes snapshotData st) (\<lambda>st.
     addRequest c snapshotBytes isExternalRequest st))"

text \<open>The reports of the block, until the limit is used up; a report the oracle no longer finds
  ends the loop.\<close>

fun snapshotLoop ::
  "'w bridge_env \<Rightarrow> ctx \<Rightarrow> 'o oracle_state \<Rightarrow> aggregate list \<Rightarrow> u64 \<Rightarrow> 'w bridge_state \<Rightarrow> 'w bridge_state result" where
  "snapshotLoop env c orc [] limit st = Inr st"
| "snapshotLoop env c orc (report # reports) limit st =
     (if limit = 0 then Inr st
      else case GetTimestampBefore orc (agQueryId report) (BlockTime c + 1000000000) of
             Inl _ \<Rightarrow> Inr st
           | Inr reportTime \<Rightarrow>
               bindR (CreateSnapshot env c orc (agQueryId report) reportTime False st)
                 (snapshotLoop env c orc reports (limit - 1)))"

definition CreateNewReportSnapshots ::
  "'w bridge_env \<Rightarrow> ctx \<Rightarrow> 'o oracle_state \<Rightarrow> 'w bridge_state \<Rightarrow> 'w bridge_state result" where
  "CreateNewReportSnapshots env c orc st =
     bindR (getR (SnapshotLimit st)) (\<lambda>snapshotlimit.
     snapshotLoop env c orc (GetAggregatedReportsByHeight orc (heightOf c)) snapshotlimit st)"

definition GetAttestationRequestsByHeight :: "'w bridge_state \<Rightarrow> u64 \<Rightarrow> bytes list result" where
  "GetAttestationRequestsByHeight st height = getR (kv_get (AttestRequestsByHeightMap st) height)"

text \<open>A signature under a snapshot goes to the signer's place in the set saved last.\<close>

definition SetAttestation :: "nat \<Rightarrow> bytes \<Rightarrow> bytes list \<Rightarrow> bytes list" where
  "SetAttestation validatorIndex attestation atts =
     (if validatorIndex < length atts then atts[validatorIndex := attestation] else atts)"

fun attestLoop :: "bytes \<Rightarrow> bytes \<Rightarrow> bytes \<Rightarrow> nat \<Rightarrow> bridge_valset \<Rightarrow> 'w bridge_state \<Rightarrow> 'w bridge_state result" where
  "attestLoop evm snapshot sig i [] st = Inr st"
| "attestLoop evm snapshot sig i (v # vs) st =
     (if EthereumAddress v = evm
      then bindR (getR (kv_get (SnapshotToAttestationsMap st) snapshot)) (\<lambda>atts.
           attestLoop evm snapshot sig (Suc i) vs
             (st\<lparr>SnapshotToAttestationsMap := kv_set snapshot (SetAttestation i sig atts) (SnapshotToAttestationsMap st)\<rparr>))
      else attestLoop evm snapshot sig (Suc i) vs st)"

definition SetOracleAttestation :: "string \<Rightarrow> bytes \<Rightarrow> bytes \<Rightarrow> 'w bridge_state \<Rightarrow> 'w bridge_state result" where
  "SetOracleAttestation operatorAddress snapshot sig st =
     bindR (getR (kv_get (OperatorToEVMAddressMap st) operatorAddress)) (\<lambda>ethAddress.
     bindR (getR (BridgeValset st)) (\<lambda>lastSavedBridgeValidators.
     attestLoop ethAddress snapshot sig 0 lastSavedBridgeValidators st))"

section \<open>The end of the block\<close>

text \<open>\<^verbatim>\<open>EndBlock\<close> of the module; \<open>enableHeight\<close> is the consensus parameter
  \<^verbatim>\<open>VoteExtensionsEnableHeight\<close>.\<close>

definition bridgeEndBlock ::
  "'w bridge_env \<Rightarrow> int \<Rightarrow> ctx \<Rightarrow> 'o oracle_state \<Rightarrow> 'w bridge_state \<Rightarrow> 'w bridge_state result" where
  "bridgeEndBlock env enableHeight c orc st =
     (if BlockHeight c \<le> enableHeight then Inr st
      else bindR (CompareAndSetBridgeValidators env c st) (\<lambda>(_, st).
           CreateNewReportSnapshots env c orc st))"

section \<open>Messages\<close>

record msg_request_attestations =
  raCreator :: string
  raQueryId :: string
  raTimestamp :: string

text \<open>\<^verbatim>\<open>strconv.ParseUint(s, 10, 64)\<close>: one or more decimal digits below \<^verbatim>\<open>2^64\<close>; with base 10
  neither a sign nor an underscore is accepted.\<close>

definition parseUint :: "string \<Rightarrow> u64 result" where
  "parseUint s =
     (if s = [] \<or> \<not> list_all (\<lambda>ch. 48 \<le> (of_char ch :: nat) \<and> (of_char ch :: nat) \<le> 57) s
      then Inl (Err ''invalid syntax'')
      else let n = foldl (\<lambda>n ch. 10 * n + (of_char ch - 48)) (0 :: int) s
           in if n < 2 ^ 64 then Inr (word_of_int n) else Inl (Err ''value out of range''))"

definition RequestAttestations ::
  "'w bridge_env \<Rightarrow> ctx \<Rightarrow> 'o oracle_state \<Rightarrow> msg_request_attestations \<Rightarrow> 'w bridge_state \<Rightarrow> 'w bridge_state result" where
  "RequestAttestations env c orc msg st =
     bindR (wrapR ''invalid creator address'' (beAccAddressFromBech32 env (raCreator msg))) (\<lambda>_.
     bindR (hexDecode (regRemove0xPrefix (raQueryId msg))) (\<lambda>queryId.
     bindR (parseUint (raTimestamp msg)) (\<lambda>timestampInt.
     CreateSnapshot env c orc queryId (timeOfMilli timestampInt) True st)))"

record msg_update_snapshot_limit =
  ulAuthority :: string
  ulLimit :: u64

definition UpdateSnapshotLimit ::
  "'w bridge_env \<Rightarrow> msg_update_snapshot_limit \<Rightarrow> 'w bridge_state \<Rightarrow> 'w bridge_state result" where
  "UpdateSnapshotLimit env msg st =
     bindR (guardR (beAuthority env = ulAuthority msg) (Err ''ErrInvalidSigner'')) (\<lambda>_.
     bindR (getR (SnapshotLimit st)) (\<lambda>_.
     Inr (st\<lparr>SnapshotLimit := Some (ulLimit msg)\<rparr>)))"

record msg_bridge_update_params =
  buAuthority :: string
  buParams :: bridge_params

definition bridgeUpdateParams ::
  "'w bridge_env \<Rightarrow> msg_bridge_update_params \<Rightarrow> 'w bridge_state \<Rightarrow> 'w bridge_state result" where
  "bridgeUpdateParams env req st =
     bindR (guardR (beAuthority env = buAuthority req) (Err ''ErrInvalidSigner'')) (\<lambda>_.
     bindR (wrapR ''invalid authority address'' (beAccAddressFromBech32 env (buAuthority req))) (\<lambda>_.
     bindR (validateBridgeParams (buParams req)) (\<lambda>_.
     Inr (st\<lparr>brParams := Some (buParams req)\<rparr>))))"

end
