(* ===== verification/BridgeTokens.thy ===== *)
theory BridgeTokens
  imports BridgeSnapshots
begin

text \<open>
  Tokens over the bridge (\<^verbatim>\<open>claim_deposit.go\<close>, \<^verbatim>\<open>withdraw_tokens.go\<close>): a deposit reported by
  the oracle with two thirds of the power and twelve hours old is minted to its recipient,
  once; a withdrawal burns tokens and writes an aggregate for the EVM side to read.
\<close>

section \<open>Query data\<close>

definition EncodeDepositQueryData :: "'w bridge_env \<Rightarrow> u64 \<Rightarrow> string \<Rightarrow> bytes result" where
  "EncodeDepositQueryData env depositId queryType =
     bindR (bePack env [abiArg ''bool'', abiArg ''uint256''] [AbiBool True, AbiUint (uint depositId)]) (\<lambda>args.
     bePack env [abiArg ''string'', abiArg ''bytes''] [AbiString queryType, AbiBytes args])"

definition GetDepositQueryIdByType :: "'w bridge_env \<Rightarrow> u64 \<Rightarrow> string \<Rightarrow> bytes result" where
  "GetDepositQueryIdByType env depositId queryType =
     bindR (EncodeDepositQueryData env depositId queryType) (\<lambda>queryData. Inr (beKeccak env queryData))"

definition GetDepositQueryId :: "'w bridge_env \<Rightarrow> u64 \<Rightarrow> bytes result" where
  "GetDepositQueryId env depositId = GetDepositQueryIdByType env depositId TRBBridgeV2QueryType"

definition GetWithdrawalQueryId :: "'w bridge_env \<Rightarrow> string \<Rightarrow> u64 \<Rightarrow> (bytes \<times> bytes) result" where
  "GetWithdrawalQueryId env queryTypeString withdrawalId =
     bindR (bePack env [abiArg ''bool'', abiArg ''uint256''] [AbiBool False, AbiUint (uint withdrawalId)]) (\<lambda>args.
     bindR (bePack env [abiArg ''string'', abiArg ''bytes''] [AbiString queryTypeString, AbiBytes args]) (\<lambda>queryData.
     Inr (beKeccak env queryData, queryData)))"

section \<open>Deposits\<close>

text \<open>The aggregate of the deposit, of the current query type or of the legacy one.\<close>

definition ResolveDepositAggregateByTimestamp ::
  "'w bridge_env \<Rightarrow> (bytes \<Rightarrow> u64 \<Rightarrow> aggregate result) \<Rightarrow> u64 \<Rightarrow> u64 \<Rightarrow> (bytes \<times> aggregate) result" where
  "ResolveDepositAggregateByTimestamp env getAggregate depositId timestamp =
     bindR (GetDepositQueryIdByType env depositId TRBBridgeV2QueryType) (\<lambda>queryId.
     case getAggregate queryId timestamp of
       Inr aggregate \<Rightarrow> Inr (queryId, aggregate)
     | Inl _ \<Rightarrow>
         bindR (GetDepositQueryIdByType env depositId TRBBridgeQueryType) (\<lambda>queryId.
         bindR (getAggregate queryId timestamp) (\<lambda>aggregate. Inr (queryId, aggregate))))"

text \<open>\<^verbatim>\<open>sdk.NewInt64Coin\<close> panics on a negative amount. A recipient that is no address is replaced by
  the team.\<close>

definition coinAmount :: "int \<Rightarrow> int result" where
  "coinAmount wei = (let n = i64 (wei div 10 ^ 12) in if n < 0 then Inl ErrPanic else Inr n)"

definition DecodeDepositReportValue ::
  "'w bridge_env \<Rightarrow> 'w \<Rightarrow> string \<Rightarrow> (addr \<times> int \<times> int) result" where
  "DecodeDepositReportValue env w reportValue =
     bindR (hexDecode (regRemove0xPrefix reportValue)) (\<lambda>reportValueBytes.
     bindR (beUnpack env [abiArg ''address'', abiArg ''string'', abiArg ''uint256'', abiArg ''uint256''] reportValueBytes)
       (\<lambda>decoded.
     case decoded of
       _ # AbiString recipientString # AbiUint amountBigInt # AbiUint tipBigInt # _ \<Rightarrow>
         bindR (case beAccAddressFromBech32 env recipientString of Inl _ \<Rightarrow> beTeamAddress env w | Inr a \<Rightarrow> Inr a) (\<lambda>recipient.
         bindR (coinAmount amountBigInt) (\<lambda>amount.
         bindR (coinAmount tipBigInt) (\<lambda>tip.
         Inr (recipient, amount, tip))))
     | _ \<Rightarrow> Inl ErrPanic))"

text \<open>All that is checked before tokens are minted.\<close>

definition checkDeposit ::
  "'w bridge_env \<Rightarrow> ctx \<Rightarrow> (bytes \<Rightarrow> u64 \<Rightarrow> aggregate result) \<Rightarrow> u64 \<Rightarrow> u64 \<Rightarrow> 'w bridge_state \<Rightarrow> (addr \<times> int) result" where
  "checkDeposit env c getAggregate depositId timestamp st =
     bindR (ResolveDepositAggregateByTimestamp env getAggregate depositId timestamp) (\<lambda>(_, aggregate).
     bindR (guardR (\<not> Flagged aggregate) (Err ''ErrAggregateFlagged'')) (\<lambda>_.
     bindR (guardR (\<not> kv_get_or False (DepositIdClaimedMap st) depositId) (Err ''ErrDepositAlreadyClaimed'')) (\<lambda>_.
     bindR (GetValidatorSetTimestampBefore st timestamp) (\<lambda>valsetTimestampBefore.
     bindR (GetValidatorCheckpointParamsFromStorage st valsetTimestampBefore) (\<lambda>valsetCheckpointParams.
     bindR (guardR (vcpPowerThreshold valsetCheckpointParams \<le> AggregatePower aggregate) (Err ''ErrInsufficientReporterPower'')) (\<lambda>_.
     bindR (guardR (12 * hour \<le> BlockTime c - timeOfMilli timestamp) (Err ''ErrReportTooYoung'')) (\<lambda>_.
     bindR (DecodeDepositReportValue env (brWorld st) (AggregateValueOf aggregate)) (\<lambda>(recipient, amount, _).
     bindR (guardR (0 < amount) (Err ''ErrInvalidDepositReportValue'')) (\<lambda>_.
     Inr (recipient, amount))))))))))"

definition ClaimDeposit ::
  "'w bridge_env \<Rightarrow> ctx \<Rightarrow> (bytes \<Rightarrow> u64 \<Rightarrow> aggregate result) \<Rightarrow> u64 \<Rightarrow> u64 \<Rightarrow> 'w bridge_state \<Rightarrow> 'w bridge_state run" where
  "ClaimDeposit env c getAggregate depositId timestamp st =
     (case checkDeposit env c getAggregate depositId timestamp st of
        Inl e \<Rightarrow> (Some e, st)
      | Inr (recipient, amount) \<Rightarrow>
          case bkMintCoins (beBank env) bridgeModule BondDenom amount (brWorld st) of
            Inl e \<Rightarrow> (Some e, st)
          | Inr w \<Rightarrow>
              let st = st\<lparr>brWorld := w\<rparr> in
              case bkSendCoins (beBank env) (Module bridgeModule) (User recipient) BondDenom amount (brWorld st) of
                Inl e \<Rightarrow> (Some e, st)
              | Inr w \<Rightarrow>
                  (None, st\<lparr>brWorld := w, DepositIdClaimedMap := kv_set depositId True (DepositIdClaimedMap st)\<rparr>))"

definition GetDepositStatus :: "'w bridge_state \<Rightarrow> u64 \<Rightarrow> bool result" where
  "GetDepositStatus st depositId = getR (kv_get (DepositIdClaimedMap st) depositId)"

text \<open>The message claims several deposits; the failure of one fails all.\<close>

record msg_claim_deposits =
  cdDepositIds :: "u64 list"
  cdTimestamps :: "u64 list"

definition ClaimDeposits ::
  "'w bridge_env \<Rightarrow> ctx \<Rightarrow> 'o oracle_state \<Rightarrow> msg_claim_deposits \<Rightarrow> 'w bridge_state \<Rightarrow> 'w bridge_state result" where
  "ClaimDeposits env c orc msg st =
     bindR (guardR (length (cdDepositIds msg) = length (cdTimestamps msg)) (Err ''ErrInvalidDepositIdsAndIndicesLength'')) (\<lambda>_.
     foldR (\<lambda>(depositId, timestamp) st. resultOf (ClaimDeposit env c (GetAggregateByTimestamp orc) depositId timestamp st))
       (zip (cdDepositIds msg) (cdTimestamps msg)) st)"

section \<open>Withdrawals\<close>

definition IncrementWithdrawalId :: "'w bridge_state \<Rightarrow> u64 \<times> 'w bridge_state" where
  "IncrementWithdrawalId st =
     (let i = (case WithdrawalId st of None \<Rightarrow> 1 | Some i \<Rightarrow> i + 1)
      in (i, st\<lparr>WithdrawalId := Some i\<rparr>))"

definition GetWithdrawalReportValue :: "'w bridge_env \<Rightarrow> int \<Rightarrow> addr \<Rightarrow> bytes \<Rightarrow> bytes result" where
  "GetWithdrawalReportValue env amount sender recipient =
     bindR (Uint64 amount) (\<lambda>amountUint64.
     bePack env [abiArg ''address'', abiArg ''string'', abiArg ''uint256'', abiArg ''uint256'']
       [AbiAddress (beBytesToAddress env recipient), AbiString (beAccString env sender), AbiUint (uint amountUint64), AbiUint 0])"

definition CreateWithdrawalAggregate ::
  "'w bridge_env \<Rightarrow> ctx \<Rightarrow> string \<Rightarrow> int \<Rightarrow> addr \<Rightarrow> bytes \<Rightarrow> u64 \<Rightarrow> 'w bridge_state \<Rightarrow> (aggregate \<times> bytes) result" where
  "CreateWithdrawalAggregate env c queryTypeString amount sender recipient withdrawalId st =
     bindR (GetWithdrawalQueryId env queryTypeString withdrawalId) (\<lambda>(queryId, queryData).
     bindR (GetWithdrawalReportValue env amount sender recipient) (\<lambda>reportValue.
     bindR (bskTotalBondedTokens (beStaking env) (brWorld st)) (\<lambda>totalBondedTokens.
     bindR (Uint64 totalBondedTokens) (\<lambda>reporterPower.
     Inr (\<lparr>agQueryId = queryId, AggregateValueOf = hexEncode reportValue, AggregateReporter = beAccString env sender,
           AggregatePower = reporterPower, Flagged = False, agIndex = 0, agHeight = heightOf c,
           MicroHeight = heightOf c, agMetaId = 0\<rparr>, queryData)))))"

text \<open>The keeper's operation, on the bridge's and the oracle's store.\<close>

definition WithdrawTokens ::
  "'w bridge_env \<Rightarrow> ctx \<Rightarrow> int \<Rightarrow> addr \<Rightarrow> bytes \<Rightarrow> 'w bridge_state \<times> 'o oracle_state
    \<Rightarrow> (u64 \<times> 'w bridge_state \<times> 'o oracle_state) result" where
  "WithdrawTokens env c amount sender recipient s =
     (let (st, orc) = s in
      bindR (bkSendCoins (beBank env) (User sender) (Module bridgeModule) BondDenom amount (brWorld st)) (\<lambda>w.
      bindR (bkBurnCoins (beBank env) bridgeModule BondDenom amount w) (\<lambda>w.
      let (withdrawalId, st) = IncrementWithdrawalId (st\<lparr>brWorld := w\<rparr>) in
      bindR (CreateWithdrawalAggregate env c TRBBridgeV2QueryType amount sender recipient withdrawalId st)
        (\<lambda>(aggregate, queryData).
      let (_, orc) = SetAggregate c aggregate queryData ''TRBBridgeV2-withdraw'' orc in
      Inr (withdrawalId, st, orc)))))"

record msg_withdraw_tokens =
  mwCreator :: string
  mwRecipient :: string
  mwDenom :: denom
  mwAmount :: int

definition msgWithdrawTokens ::
  "'w bridge_env \<Rightarrow> ctx \<Rightarrow> msg_withdraw_tokens \<Rightarrow> 'w bridge_state \<times> 'o oracle_state
    \<Rightarrow> ('w bridge_state \<times> 'o oracle_state) result" where
  "msgWithdrawTokens env c msg s =
     bindR (wrapR ''invalid creator address'' (beAccAddressFromBech32 env (mwCreator msg))) (\<lambda>sender.
     bindR (guardR (mwDenom msg = BondDenom \<and> 0 < mwAmount msg) (Err ''invalid request'')) (\<lambda>_.
     bindR (wrapR ''invalid request'' (hexDecode (mwRecipient msg))) (\<lambda>recipient.
     bindR (guardR (length recipient = 20) (Err ''invalid request'')) (\<lambda>_.
     bindR (WithdrawTokens env c (mwAmount msg) sender recipient s) (\<lambda>(_, s). Inr s)))))"

end
