(* ===== verification/BridgeEvidence.thy ===== *)
theory BridgeEvidence
  imports BridgeTokens
begin

text \<open>
  Evidence of malicious signatures (\<^verbatim>\<open>attestation_slashing.go\<close>, \<^verbatim>\<open>valset_sig_slashing.go\<close>): a
  signature under a snapshot or a checkpoint the chain never made slashes and jails its
  validator, at most once per rate limit window.
\<close>

section \<open>Who signed\<close>

text \<open>The operator registered for one of the two addresses the signature recovers to; empty when
  there is none.\<close>

definition GetOperatorAddressFromSignature ::
  "'w bridge_env \<Rightarrow> bytes \<Rightarrow> string \<Rightarrow> 'w bridge_state \<Rightarrow> bytes result" where
  "GetOperatorAddressFromSignature env msg sig st =
     bindR (hexDecode (regRemove0xPrefix sig)) (\<lambda>sigBytes.
     bindR (TryRecoverAddressWithBothIDs env sigBytes (beSha256 env msg)) (\<lambda>(a0, a1).
     case kv_get (EVMToOperatorAddressMap st) (beBytes2Hex env a0) of
       Some operatorAddr \<Rightarrow> Inr operatorAddr
     | None \<Rightarrow>
         case kv_get (EVMToOperatorAddressMap st) (beBytes2Hex env a1) of
           Some operatorAddr \<Rightarrow> Inr operatorAddr
         | None \<Rightarrow> Inr []))"

section \<open>Slashing\<close>

definition historicalPowerOf :: "bytes \<Rightarrow> bridge_valset \<Rightarrow> int" where
  "historicalPowerOf evmAddress valset =
     (case find (\<lambda>v. EthereumAddress v = evmAddress) valset of None \<Rightarrow> 0 | Some v \<Rightarrow> i64 (uint (bvPower v)))"

definition SlashValidator ::
  "'w bridge_env \<Rightarrow> ctx \<Rightarrow> bytes \<Rightarrow> dec \<Rightarrow> bytes \<Rightarrow> 'w bridge_state \<Rightarrow> (int \<times> 'w bridge_state) result" where
  "SlashValidator env c operatorAddr slashFactor checkpoint st =
     bindR (bskGetValidator (beStaking env) (brWorld st) operatorAddr) (\<lambda>validator.
     bindR (svConsAddr validator) (\<lambda>consAddr.
     bindR (GetCheckpointParamsByCheckpoint st checkpoint) (\<lambda>checkpointParams.
     bindR (GetBridgeValsetByTimestamp st (vcpTimestamp checkpointParams)) (\<lambda>validatorSet.
     bindR (beBech32Val env operatorAddr) (\<lambda>bech32Addr.
     bindR (wrapR ''SlashValidator: operator address not found'' (getR (kv_get (OperatorToEVMAddressMap st) bech32Addr))) (\<lambda>evmAddress.
     let historicalPower = historicalPowerOf evmAddress validatorSet in
     bindR (guardR (historicalPower \<noteq> 0) (Err ''historical power not found'')) (\<lambda>_.
     bindR (bskSlash (beStaking env) c consAddr (i64 (uint (vcpBlockHeight checkpointParams))) historicalPower slashFactor (brWorld st))
       (\<lambda>(slashAmount, w).
     bindR (bskJail (beStaking env) c consAddr w) (\<lambda>w.
     Inr (slashAmount, st\<lparr>brWorld := w\<rparr>))))))))))"

section \<open>The rate limit\<close>

text \<open>Evidence of an operator next to a timestamp; \<open>(False, 0)\<close> where the code returns an error,
  which its callers ignore.\<close>

definition evidenceBefore :: "(bytes \<times> u64, bool) kv \<Rightarrow> bytes \<Rightarrow> u64 \<Rightarrow> bool \<times> u64" where
  "evidenceBefore m operatorAddr timestamp =
     (case firstOf (rev (filter (\<lambda>e. fst e < timestamp) (kv_prefix operatorAddr m))) of
        None \<Rightarrow> (False, 0)
      | Some (t, submitted) \<Rightarrow> if submitted then (True, t) else (False, 0))"

definition evidenceAfter :: "(bytes \<times> u64, bool) kv \<Rightarrow> bytes \<Rightarrow> u64 \<Rightarrow> bool \<times> u64" where
  "evidenceAfter m operatorAddr timestamp =
     (case firstOf (filter (\<lambda>e. timestamp < fst e) (kv_prefix operatorAddr m)) of
        None \<Rightarrow> (False, 0)
      | Some (t, submitted) \<Rightarrow> if submitted then (True, t) else (False, 0))"

definition GetAttestationEvidenceSubmittedBefore :: "'w bridge_state \<Rightarrow> bytes \<Rightarrow> u64 \<Rightarrow> bool \<times> u64" where
  "GetAttestationEvidenceSubmittedBefore st = evidenceBefore (AttestationEvidenceSubmitted st)"

definition GetAttestationEvidenceSubmittedAfter :: "'w bridge_state \<Rightarrow> bytes \<Rightarrow> u64 \<Rightarrow> bool \<times> u64" where
  "GetAttestationEvidenceSubmittedAfter st = evidenceAfter (AttestationEvidenceSubmitted st)"

definition GetValsetEvidenceSubmittedBefore :: "'w bridge_state \<Rightarrow> bytes \<Rightarrow> u64 \<Rightarrow> bool \<times> u64" where
  "GetValsetEvidenceSubmittedBefore st = evidenceBefore (ValsetSignatureEvidenceSubmitted st)"

definition GetValsetEvidenceSubmittedAfter :: "'w bridge_state \<Rightarrow> bytes \<Rightarrow> u64 \<Rightarrow> bool \<times> u64" where
  "GetValsetEvidenceSubmittedAfter st = evidenceAfter (ValsetSignatureEvidenceSubmitted st)"

definition rateLimited :: "u64 \<Rightarrow> u64 \<Rightarrow> bool \<Rightarrow> bool \<times> u64 \<Rightarrow> bool \<times> u64 \<Rightarrow> unit result" where
  "rateLimited rateLimit timestamp submitted before after =
     bindR (guardR (\<not> submitted) (Err ''evidence already submitted with this timestamp'')) (\<lambda>_.
     bindR (guardR (\<not> (fst before \<and> snd before \<le> timestamp \<and> timestamp - snd before < rateLimit))
        (Err ''evidence already submitted within rate limit'')) (\<lambda>_.
     guardR (\<not> (fst after \<and> timestamp \<le> snd after \<and> snd after - timestamp < rateLimit))
        (Err ''evidence already submitted within rate limit'')))"

definition CheckRateLimit :: "'w bridge_state \<Rightarrow> bytes \<Rightarrow> u64 \<Rightarrow> unit result" where
  "CheckRateLimit st operatorAddr attestationTimestamp =
     bindR (GetAttestRateLimitWindow st) (\<lambda>rateLimit.
     rateLimited rateLimit attestationTimestamp
       (kv_has (AttestationEvidenceSubmitted st) (operatorAddr, attestationTimestamp))
       (GetAttestationEvidenceSubmittedBefore st operatorAddr attestationTimestamp)
       (GetAttestationEvidenceSubmittedAfter st operatorAddr attestationTimestamp))"

definition CheckValsetSignatureRateLimit :: "'w bridge_state \<Rightarrow> bytes \<Rightarrow> u64 \<Rightarrow> unit result" where
  "CheckValsetSignatureRateLimit st operatorAddr valsetTimestamp =
     bindR (GetValsetRateLimitWindow st) (\<lambda>rateLimit.
     rateLimited rateLimit valsetTimestamp
       (kv_has (ValsetSignatureEvidenceSubmitted st) (operatorAddr, valsetTimestamp))
       (GetValsetEvidenceSubmittedBefore st operatorAddr valsetTimestamp)
       (GetValsetEvidenceSubmittedAfter st operatorAddr valsetTimestamp))"

section \<open>Evidence\<close>

text \<open>Neither before the cutoff nor older than the unbonding period.\<close>

definition punishable :: "'w bridge_env \<Rightarrow> ctx \<Rightarrow> u64 \<Rightarrow> 'w bridge_state \<Rightarrow> unit result" where
  "punishable env c timestamp st =
     bindR (GetAttestPenaltyTimeCutoff st) (\<lambda>cutoff.
     bindR (guardR (\<not> (0 < cutoff \<and> timestamp < cutoff)) (Err ''timestamp is before penalty cutoff'')) (\<lambda>_.
     bindR (bskUnbondingTime (beStaking env) (brWorld st)) (\<lambda>unbondingPeriod.
     guardR (toU64 (unixMilli (BlockTime c - unbondingPeriod)) \<le> timestamp) (Err ''timestamp is older than unbonding period''))))"

record msg_attestation_evidence =
  aeCreator :: string
  aeQueryId :: string
  aeValue :: string
  aeTimestamp :: u64
  aeAggregatePower :: u64
  aePreviousTimestamp :: u64
  aeNextTimestamp :: u64
  aeValsetCheckpoint :: string
  aeAttestationTimestamp :: u64
  aeLastConsensusTimestamp :: u64
  aeSignature :: string

definition CheckAttestationEvidence ::
  "'w bridge_env \<Rightarrow> ctx \<Rightarrow> msg_attestation_evidence \<Rightarrow> 'w bridge_state \<Rightarrow> 'w bridge_state result" where
  "CheckAttestationEvidence env c request st =
     bindR (punishable env c (aeAttestationTimestamp request) st) (\<lambda>_.
     bindR (hexDecode (regRemove0xPrefix (aeQueryId request))) (\<lambda>queryId.
     bindR (hexDecode (regRemove0xPrefix (aeValsetCheckpoint request))) (\<lambda>checkpoint.
     bindR (EncodeOracleAttestationData env
        \<lparr>adQueryId = queryId, adValue = aeValue request, adTimestamp = aeTimestamp request,
         adAggregatePower = aeAggregatePower request, adPreviousTimestamp = aePreviousTimestamp request,
         adNextTimestamp = aeNextTimestamp request, adValsetCheckpoint = checkpoint,
         adAttestationTimestamp = aeAttestationTimestamp request,
         adLastConsensusTimestamp = aeLastConsensusTimestamp request\<rparr>) (\<lambda>snapshotBytes.
     bindR (guardR (\<not> kv_has (SnapshotToAttestationsMap st) snapshotBytes) (Err ''snapshot exists'')) (\<lambda>_.
     bindR (GetOperatorAddressFromSignature env snapshotBytes (aeSignature request) st) (\<lambda>operatorAddr.
     bindR (guardR (operatorAddr \<noteq> []) (Err ''operator address not found'')) (\<lambda>_.
     bindR (CheckRateLimit st operatorAddr (aeAttestationTimestamp request)) (\<lambda>_.
     bindR (GetAttestSlashPercentage st) (\<lambda>slashFactor.
     bindR (SlashValidator env c operatorAddr slashFactor checkpoint st) (\<lambda>(slashAmount, st).
     bindR (beBech32Val env operatorAddr) (\<lambda>_.
     Inr (st\<lparr>AttestationEvidenceSubmitted :=
            kv_set (operatorAddr, aeAttestationTimestamp request) True (AttestationEvidenceSubmitted st)\<rparr>))))))))))))"

record msg_valset_signature_evidence =
  veCreator :: string
  veValsetTimestamp :: u64
  veValsetHash :: string
  vePowerThreshold :: u64
  veValidatorSignature :: string

text \<open>A checkpoint the chain made at that timestamp is not malicious.\<close>

definition genuineCheckpoint :: "'w bridge_state \<Rightarrow> u64 \<Rightarrow> bytes \<Rightarrow> bool result" where
  "genuineCheckpoint st timestamp checkpoint =
     (if kv_has (BridgeValsetByTimestampMap st) timestamp
      then bindR (getR (kv_get (ValidatorCheckpointParamsMap st) timestamp)) (\<lambda>checkpointParams.
           Inr (checkpoint = vcpCheckpoint checkpointParams))
      else Inr False)"

definition CheckValsetSignatureEvidence ::
  "'w bridge_env \<Rightarrow> ctx \<Rightarrow> msg_valset_signature_evidence \<Rightarrow> 'w bridge_state \<Rightarrow> 'w bridge_state result" where
  "CheckValsetSignatureEvidence env c request st =
     bindR (punishable env c (veValsetTimestamp request) st) (\<lambda>_.
     bindR (hexDecode (regRemove0xPrefix (veValsetHash request))) (\<lambda>valsetHashBytes.
     bindR (EncodeValsetCheckpoint env (vePowerThreshold request) (veValsetTimestamp request) valsetHashBytes st) (\<lambda>checkpoint.
     bindR (genuineCheckpoint st (veValsetTimestamp request) checkpoint) (\<lambda>genuine.
     bindR (guardR (\<not> genuine) (Err ''checkpoint matches the actual checkpoint, not malicious'')) (\<lambda>_.
     bindR (GetOperatorAddressFromSignature env checkpoint (veValidatorSignature request) st) (\<lambda>operatorAddr.
     bindR (guardR (operatorAddr \<noteq> []) (Err ''operator address not found'')) (\<lambda>_.
     bindR (CheckValsetSignatureRateLimit st operatorAddr (veValsetTimestamp request)) (\<lambda>_.
     bindR (GetValsetSlashPercentage st) (\<lambda>slashFactor.
     bindR (GetCheckpointParamsBefore st (veValsetTimestamp request)) (\<lambda>checkpointParamsBefore.
     bindR (SlashValidator env c operatorAddr slashFactor (vcpCheckpoint checkpointParamsBefore) st) (\<lambda>(slashAmount, st).
     bindR (beBech32Val env operatorAddr) (\<lambda>_.
     Inr (st\<lparr>ValsetSignatureEvidenceSubmitted :=
            kv_set (operatorAddr, veValsetTimestamp request) True (ValsetSignatureEvidenceSubmitted st)\<rparr>)))))))))))))"

end
