(* ===== verification/BridgeGenesis.thy ===== *)
theory BridgeGenesis
  imports BridgeEvidence
begin

text \<open>
  Genesis of the bridge module (\<^verbatim>\<open>x/bridge/genesis.go\<close>, \<^verbatim>\<open>module.go\<close>). The export lists every
  collection from the last key to the first. A failing write panics.
\<close>

record checkpoint_params_entry =
  ceTimestamp :: u64
  ceValidatorTimestamp :: u64
  cePowerThreshold :: u64
  ceValidatorSetHash :: bytes
  ceCheckpoint :: bytes

record bridge_genesis =
  bgParams :: bridge_params
  bgSnapshotLimit :: u64
  bgBridgeValSet :: "bridge_valset option"
  bgValidatorCheckpoint :: bytes
  bgWithdrawalId :: u64
  bgOperatorToEvmAddressMap :: "(string \<times> bytes) list"
  bgEvmRegisteredMap :: "(string \<times> bool) list"
  bgBridgeValsetSigsMap :: "(u64 \<times> bytes list) list"
  bgValidatorCheckpointParamsMap :: "checkpoint_params_entry list"
  bgValidatorCheckpointIdxMap :: "(u64 \<times> u64) list"
  bgLatestValidatorCheckpointIdx :: u64
  bgBridgeValsetByTimestampMap :: "(u64 \<times> bridge_valset) list"
  bgValsetTimestampToIdxMap :: "(u64 \<times> u64) list"
  bgDepositIdClaimedMap :: "(u64 \<times> bool) list"

definition DefaultSnapshotLimit :: u64 where
  "DefaultSnapshotLimit = 1000"

definition importCheckpoint :: "checkpoint_params_entry \<Rightarrow> 'w bridge_state \<Rightarrow> 'w bridge_state result" where
  "importCheckpoint d st =
     (case setCheckpointParams (ceTimestamp d)
        \<lparr>vcpCheckpoint = ceCheckpoint d, vcpValsetHash = ceValidatorSetHash d, vcpTimestamp = ceTimestamp d,
         vcpPowerThreshold = cePowerThreshold d, vcpBlockHeight = 0\<rparr> st of
        Inl _ \<Rightarrow> Inl ErrPanic
      | Inr st \<Rightarrow> Inr st)"

definition bridgeInitGenesis :: "ctx \<Rightarrow> bridge_genesis \<Rightarrow> 'w bridge_state \<Rightarrow> 'w bridge_state result" where
  "bridgeInitGenesis c gen st =
     (let st = st\<lparr>brParams := Some (bgParams gen), SnapshotLimit := Some (bgSnapshotLimit gen)\<rparr>;
          st = (case bgBridgeValSet gen of None \<Rightarrow> st | Some valset \<Rightarrow> st\<lparr>BridgeValset := Some valset\<rparr>)
      in if BlockHeight c \<le> 1 then Inr st
         else
           let st = st\<lparr>ValidatorCheckpoint := Some (bgValidatorCheckpoint gen), WithdrawalId := Some (bgWithdrawalId gen),
                  LatestCheckpointIdx := Some (bgLatestValidatorCheckpointIdx gen),
                  OperatorToEVMAddressMap := setAll (bgOperatorToEvmAddressMap gen) (OperatorToEVMAddressMap st),
                  EVMAddressRegisteredMap := setAll (bgEvmRegisteredMap gen) (EVMAddressRegisteredMap st),
                  BridgeValsetSignaturesMap := setAll (bgBridgeValsetSigsMap gen) (BridgeValsetSignaturesMap st)\<rparr> in
           bindR (foldR importCheckpoint (bgValidatorCheckpointParamsMap gen) st) (\<lambda>st.
           Inr (st\<lparr>ValidatorCheckpointIdxMap := setAll (bgValidatorCheckpointIdxMap gen) (ValidatorCheckpointIdxMap st),
                   BridgeValsetByTimestampMap := setAll (bgBridgeValsetByTimestampMap gen) (BridgeValsetByTimestampMap st),
                   ValsetTimestampToIdxMap := setAll (bgValsetTimestampToIdxMap gen) (ValsetTimestampToIdxMap st),
                   DepositIdClaimedMap := setAll (bgDepositIdClaimedMap gen) (DepositIdClaimedMap st)\<rparr>)))"

definition bridgeModuleInitGenesis ::
  "'w bridge_env \<Rightarrow> ctx \<Rightarrow> bridge_genesis \<Rightarrow> 'w bridge_state \<Rightarrow> 'w bridge_state result" where
  "bridgeModuleInitGenesis env c gen st =
     bindR (bridgeInitGenesis c gen st) (SetValsetCheckpointDomainSeparator env)"

definition bridgeExportGenesis :: "'w bridge_state \<Rightarrow> bridge_genesis result" where
  "bridgeExportGenesis st =
     (case (brParams st, SnapshotLimit st) of
        (Some params, Some limit) \<Rightarrow>
          Inr \<lparr>bgParams = params, bgSnapshotLimit = limit,
               bgBridgeValSet = Some (case BridgeValset st of None \<Rightarrow> [] | Some valset \<Rightarrow> valset),
               bgValidatorCheckpoint = (case ValidatorCheckpoint st of None \<Rightarrow> [] | Some checkpoint \<Rightarrow> checkpoint),
               bgWithdrawalId = (case WithdrawalId st of None \<Rightarrow> 0 | Some i \<Rightarrow> i),
               bgOperatorToEvmAddressMap = rev (OperatorToEVMAddressMap st),
               bgEvmRegisteredMap = rev (EVMAddressRegisteredMap st),
               bgBridgeValsetSigsMap = rev (BridgeValsetSignaturesMap st),
               bgValidatorCheckpointParamsMap =
                 map (\<lambda>(t, p). \<lparr>ceTimestamp = t, ceValidatorTimestamp = vcpTimestamp p, cePowerThreshold = vcpPowerThreshold p,
                     ceValidatorSetHash = vcpValsetHash p, ceCheckpoint = vcpCheckpoint p\<rparr>)
                   (rev (ValidatorCheckpointParamsMap st)),
               bgValidatorCheckpointIdxMap = rev (ValidatorCheckpointIdxMap st),
               bgLatestValidatorCheckpointIdx = (case LatestCheckpointIdx st of None \<Rightarrow> 0 | Some i \<Rightarrow> i),
               bgBridgeValsetByTimestampMap = rev (BridgeValsetByTimestampMap st),
               bgValsetTimestampToIdxMap = rev (ValsetTimestampToIdxMap st),
               bgDepositIdClaimedMap = rev (DepositIdClaimedMap st)\<rparr>
      | _ \<Rightarrow> Inl ErrPanic)"

end
