(* ===== verification/VoteExtension.thy ===== *)
theory VoteExtension
  imports BridgeEvidence
begin

text \<open>
  Vote extensions (\<^verbatim>\<open>app/extend_vote.go\<close>, \<^verbatim>\<open>app/proposal_handler.go\<close>): how the validators'
  signatures reach the bridge. A validator extends its vote with signatures; the next proposer
  collects the extensions in an injected first transaction, the other validators recompute
  it, and the block before its transactions stores what it holds.

  JSON, \<^verbatim>\<open>baseapp.ValidateVoteExtensions\<close>, the keyring and the address formats of
  \<^verbatim>\<open>go-ethereum\<close> are parameters. A node whose keyring fails terminates itself, so a node that
  extends a vote has an operator address and signs. \<^verbatim>\<open>nil\<close> and empty slices are the same list.
\<close>

section \<open>Types\<close>

record oracle_attestation =
  oaSnapshot :: bytes
  oaAttestation :: bytes

record bridge_vote_extension =
  bxOracleAttestations :: "oracle_attestation list"
  bxSignatureA :: bytes
  bxSignatureB :: bytes
  bxValsetSignature :: bytes
  bxValsetTimestamp :: u64

definition emptyExtension :: bridge_vote_extension where
  "emptyExtension = \<lparr>bxOracleAttestations = [], bxSignatureA = [], bxSignatureB = [], bxValsetSignature = [], bxValsetTimestamp = 0\<rparr>"

text \<open>A vote of the last commit: whether it is for the block, its extension and the consensus address
  of its validator.\<close>

record vote_info =
  viCommit :: bool
  viExtension :: bytes
  viValidatorAddress :: bytes

record extended_commit =
  ecRound :: int
  ecVotes :: "vote_info list"

record vote_ext_tx =
  vtBlockHeight :: int
  vtOperatorAddresses :: "string list"
  vtEVMAddresses :: "string list"
  vtSigOperatorAddresses :: "string list"
  vtSigTimestamps :: "int list"
  vtSignatures :: "string list"
  vtAttOperatorAddresses :: "string list"
  vtAttestations :: "bytes list"
  vtSnapshots :: "bytes list"
  vtCommit :: extended_commit

text \<open>\<open>axDecode\<close> is the decoder that refuses unknown fields and trailing data.\<close>

record app_env =
  axOperatorAddress :: string
  axSign :: "bytes \<Rightarrow> bytes"
  axMarshal :: "bridge_vote_extension \<Rightarrow> bytes"
  axUnmarshal :: "bytes \<Rightarrow> bridge_vote_extension result"
  axDecode :: "bytes \<Rightarrow> bridge_vote_extension result"
  axMarshalTx :: "vote_ext_tx \<Rightarrow> bytes result"
  axUnmarshalTx :: "bytes \<Rightarrow> vote_ext_tx result"
  axValidateVoteExtensions :: "int \<Rightarrow> extended_commit \<Rightarrow> unit result"
  axEnableHeight :: int
  axHex :: "bytes \<Rightarrow> string"
  axHexToAddress :: "string \<Rightarrow> bytes"

section \<open>Extending a vote\<close>

definition SignInitialMessage :: "'w bridge_env \<Rightarrow> app_env \<Rightarrow> string \<Rightarrow> bytes \<times> bytes" where
  "SignInitialMessage env ax operatorAddress =
     (axSign ax (beSha256 env (initialMessage (CHR ''A'') operatorAddress)),
      axSign ax (beSha256 env (initialMessage (CHR ''B'') operatorAddress)))"

definition EncodeAndSignMessage :: "app_env \<Rightarrow> string \<Rightarrow> bytes result" where
  "EncodeAndSignMessage ax checkpointString =
     bindR (hexDecode (regRemove0xPrefix checkpointString)) (\<lambda>checkpoint. Inr (axSign ax checkpoint))"

definition CheckAndSignValidatorCheckpoint :: "app_env \<Rightarrow> 'w bridge_state \<Rightarrow> (bytes \<times> u64) result" where
  "CheckAndSignValidatorCheckpoint ax st =
     bindR (GetLatestCheckpointIndex st) (\<lambda>latestCheckpointIdx.
     bindR (GetValidatorTimestampByIdxFromStorage st latestCheckpointIdx) (\<lambda>latestCheckpointTimestamp.
     bindR (GetValidatorDidSignCheckpoint st (axOperatorAddress ax) latestCheckpointTimestamp) (\<lambda>(didSign, valIndex).
     if didSign \<or> valIndex < 0 then Inr ([], 0)
     else bindR (GetValidatorCheckpointParamsFromStorage st latestCheckpointTimestamp) (\<lambda>checkpointParams.
          bindR (EncodeAndSignMessage ax (hexEncode (vcpCheckpoint checkpointParams))) (\<lambda>signature.
          Inr (signature, latestCheckpointTimestamp))))))"

definition attestRequests :: "app_env \<Rightarrow> ctx \<Rightarrow> 'w bridge_state \<Rightarrow> oracle_attestation list" where
  "attestRequests ax c st =
     (case GetAttestationRequestsByHeight st (toU64 (BlockHeight c - 1)) of
        Inl _ \<Rightarrow> []
      | Inr snapshots \<Rightarrow> map (\<lambda>snapshot. \<lparr>oaSnapshot = snapshot, oaAttestation = axSign ax snapshot\<rparr>) snapshots)"

text \<open>The extension and its encoding. A checkpoint that cannot be signed is left out; a panic ends the
  call.\<close>

definition extensionMade :: "'w bridge_env \<Rightarrow> app_env \<Rightarrow> ctx \<Rightarrow> 'w bridge_state \<Rightarrow> bridge_vote_extension result" where
  "extensionMade env ax c st =
     (let (sigA, sigB) = (case GetEVMAddressByOperator st (axOperatorAddress ax) of
            Inl _ \<Rightarrow> SignInitialMessage env ax (axOperatorAddress ax)
          | Inr _ \<Rightarrow> ([], []));
          voteExt = emptyExtension\<lparr>bxSignatureA := sigA, bxSignatureB := sigB, bxOracleAttestations := attestRequests ax c st\<rparr>
      in case CheckAndSignValidatorCheckpoint ax st of
           Inl ErrPanic \<Rightarrow> Inl ErrPanic
         | Inl _ \<Rightarrow> Inr voteExt
         | Inr (sig, timestamp) \<Rightarrow> Inr (voteExt\<lparr>bxValsetSignature := sig, bxValsetTimestamp := timestamp\<rparr>))"

definition ExtendVoteHandler :: "'w bridge_env \<Rightarrow> app_env \<Rightarrow> ctx \<Rightarrow> 'w bridge_state \<Rightarrow> bytes result" where
  "ExtendVoteHandler env ax c st = bindR (extensionMade env ax c st) (\<lambda>voteExt. Inr (axMarshal ax voteExt))"

definition maxVoteExtensionSize :: int where
  "maxVoteExtensionSize = 512 * 1024"

definition attestationsExpected :: "ctx \<Rightarrow> bridge_vote_extension \<Rightarrow> 'w bridge_state \<Rightarrow> bool" where
  "attestationsExpected c voteExt st =
     (case GetAttestationRequestsByHeight st (toU64 (BlockHeight c - 1)) of
        Inl _ \<Rightarrow> bxOracleAttestations voteExt = []
      | Inr requests \<Rightarrow> length (bxOracleAttestations voteExt) \<le> length requests)"

text \<open>\<open>True\<close> is \<^verbatim>\<open>ACCEPT\<close>.\<close>

definition VerifyVoteExtensionHandler :: "app_env \<Rightarrow> ctx \<Rightarrow> bytes \<Rightarrow> 'w bridge_state \<Rightarrow> bool" where
  "VerifyVoteExtensionHandler ax c extension st =
     (if maxVoteExtensionSize < int (length extension) then False
      else case axDecode ax extension of
             Inl _ \<Rightarrow> False
           | Inr voteExt \<Rightarrow>
               attestationsExpected c voteExt st
               \<and> list_all (\<lambda>att. length (oaSnapshot att) \<le> 32 \<and> length (oaAttestation att) \<le> 65) (bxOracleAttestations voteExt)
               \<and> length (bxSignatureA voteExt) \<le> 65 \<and> length (bxSignatureB voteExt) \<le> 65
               \<and> length (bxValsetSignature voteExt) \<le> 65)"

section \<open>Collecting the extensions of a commit\<close>

definition ValidatorOperatorAddressFromVote :: "'w bridge_env \<Rightarrow> 'w \<Rightarrow> vote_info \<Rightarrow> string result" where
  "ValidatorOperatorAddressFromVote env w vote =
     bindR (bskGetValidatorByConsAddr (beStaking env) w (viValidatorAddress vote)) (\<lambda>validator. Inr (svOperator validator))"

text \<open>The extension of a vote for the block, if it decodes.\<close>

definition extensionOf :: "app_env \<Rightarrow> vote_info \<Rightarrow> bridge_vote_extension option" where
  "extensionOf ax vote =
     (if viCommit vote then (case axUnmarshal ax (viExtension vote) of Inl _ \<Rightarrow> None | Inr voteExt \<Rightarrow> Some voteExt) else None)"

definition initialOf :: "'w bridge_env \<Rightarrow> app_env \<Rightarrow> 'w bridge_state \<Rightarrow> vote_info \<Rightarrow> (string \<times> string) option" where
  "initialOf env ax st vote =
     (case extensionOf ax vote of
        None \<Rightarrow> None
      | Some voteExt \<Rightarrow>
          if bxSignatureA voteExt = [] then None
          else case ValidatorOperatorAddressFromVote env (brWorld st) vote of
                 Inl _ \<Rightarrow> None
               | Inr operatorAddress \<Rightarrow>
                   case EVMAddressFromSignatures env (bxSignatureA voteExt) (bxSignatureB voteExt) operatorAddress of
                     Inl _ \<Rightarrow> None
                   | Inr evmAddress \<Rightarrow>
                       case GetEVMAddressByOperator st operatorAddress of
                         Inl _ \<Rightarrow> Some (operatorAddress, axHex ax evmAddress)
                       | Inr _ \<Rightarrow> None)"

definition CheckInitialSignaturesFromLastCommit ::
  "'w bridge_env \<Rightarrow> app_env \<Rightarrow> 'w bridge_state \<Rightarrow> extended_commit \<Rightarrow> (string \<times> string) list" where
  "CheckInitialSignaturesFromLastCommit env ax st commit = List.map_filter (initialOf env ax st) (ecVotes commit)"

definition valsetSigOf :: "'w bridge_env \<Rightarrow> app_env \<Rightarrow> 'w \<Rightarrow> vote_info \<Rightarrow> (string \<times> int \<times> string) option" where
  "valsetSigOf env ax w vote =
     (case extensionOf ax vote of
        None \<Rightarrow> None
      | Some voteExt \<Rightarrow>
          if bxValsetSignature voteExt = [] then None
          else case ValidatorOperatorAddressFromVote env w vote of
                 Inl _ \<Rightarrow> None
               | Inr operatorAddress \<Rightarrow>
                   Some (operatorAddress, i64 (uint (bxValsetTimestamp voteExt)), hexEncode (bxValsetSignature voteExt)))"

definition CheckValsetSignaturesFromLastCommit ::
  "'w bridge_env \<Rightarrow> app_env \<Rightarrow> 'w bridge_state \<Rightarrow> extended_commit \<Rightarrow> (string \<times> int \<times> string) list" where
  "CheckValsetSignaturesFromLastCommit env ax st commit = List.map_filter (valsetSigOf env ax (brWorld st)) (ecVotes commit)"

definition attestationsOf :: "'w bridge_env \<Rightarrow> app_env \<Rightarrow> 'w \<Rightarrow> vote_info \<Rightarrow> (string \<times> bytes \<times> bytes) list" where
  "attestationsOf env ax w vote =
     (case extensionOf ax vote of
        None \<Rightarrow> []
      | Some voteExt \<Rightarrow>
          case ValidatorOperatorAddressFromVote env w vote of
            Inl _ \<Rightarrow> []
          | Inr operatorAddress \<Rightarrow>
              map (\<lambda>att. (operatorAddress, oaSnapshot att, oaAttestation att)) (bxOracleAttestations voteExt))"

definition CheckOracleAttestationsFromLastCommit ::
  "'w bridge_env \<Rightarrow> app_env \<Rightarrow> 'w bridge_state \<Rightarrow> extended_commit \<Rightarrow> (string \<times> bytes \<times> bytes) list" where
  "CheckOracleAttestationsFromLastCommit env ax st commit = concat (map (attestationsOf env ax (brWorld st)) (ecVotes commit))"

section \<open>Proposals\<close>

definition GetMaxValidators :: "'w bridge_env \<Rightarrow> 'w bridge_state \<Rightarrow> nat result" where
  "GetMaxValidators env st = wrapR ''failed to get max validators from params'' (bskMaxValidators (beStaking env) (brWorld st))"

definition injectedTx :: "'w bridge_env \<Rightarrow> app_env \<Rightarrow> int \<Rightarrow> extended_commit \<Rightarrow> 'w bridge_state \<Rightarrow> vote_ext_tx" where
  "injectedTx env ax height commit st =
     (let initial = CheckInitialSignaturesFromLastCommit env ax st commit;
          sigs = CheckValsetSignaturesFromLastCommit env ax st commit;
          atts = CheckOracleAttestationsFromLastCommit env ax st commit
      in \<lparr>vtBlockHeight = height, vtOperatorAddresses = map fst initial, vtEVMAddresses = map snd initial,
          vtSigOperatorAddresses = map fst sigs, vtSigTimestamps = map (fst \<circ> snd) sigs, vtSignatures = map (snd \<circ> snd) sigs,
          vtAttOperatorAddresses = map fst atts, vtAttestations = map (snd \<circ> snd) atts, vtSnapshots = map (fst \<circ> snd) atts,
          vtCommit = commit\<rparr>)"

definition PrepareProposalHandler ::
  "'w bridge_env \<Rightarrow> app_env \<Rightarrow> int \<Rightarrow> extended_commit \<Rightarrow> bytes list \<Rightarrow> 'w bridge_state \<Rightarrow> bytes list result" where
  "PrepareProposalHandler env ax height localLastCommit txs st =
     bindR (GetMaxValidators env st) (\<lambda>maxValidators.
     bindR (guardR (length (ecVotes localLastCommit) \<le> maxValidators) (Err ''number of votes exceeds max validators'')) (\<lambda>_.
     if axEnableHeight ax < height
     then bindR (axValidateVoteExtensions ax height localLastCommit) (\<lambda>_.
          bindR (wrapR ''failed to encode injected vote extension tx'' (axMarshalTx ax (injectedTx env ax height localLastCommit st))) (\<lambda>bz.
          Inr (bz # txs)))
     else Inr txs))"

text \<open>\<open>True\<close> is \<^verbatim>\<open>ACCEPT\<close>; everything that is recomputed must agree with the injected transaction.\<close>

definition recomputedAgrees :: "'w bridge_env \<Rightarrow> app_env \<Rightarrow> vote_ext_tx \<Rightarrow> 'w bridge_state \<Rightarrow> bool" where
  "recomputedAgrees env ax tx st =
     (let initial = CheckInitialSignaturesFromLastCommit env ax st (vtCommit tx);
          sigs = CheckValsetSignaturesFromLastCommit env ax st (vtCommit tx);
          atts = CheckOracleAttestationsFromLastCommit env ax st (vtCommit tx)
      in map fst initial = vtOperatorAddresses tx \<and> map snd initial = vtEVMAddresses tx
         \<and> map fst sigs = vtSigOperatorAddresses tx \<and> map (fst \<circ> snd) sigs = vtSigTimestamps tx
         \<and> map (snd \<circ> snd) sigs = vtSignatures tx
         \<and> map (snd \<circ> snd) atts = vtAttestations tx \<and> map (fst \<circ> snd) atts = vtSnapshots tx
         \<and> map fst atts = vtAttOperatorAddresses tx)"

definition ProcessProposalHandler ::
  "'w bridge_env \<Rightarrow> app_env \<Rightarrow> int \<Rightarrow> bytes list \<Rightarrow> 'w bridge_state \<Rightarrow> bool result" where
  "ProcessProposalHandler env ax height txs st =
     (if height \<le> axEnableHeight ax then Inr True
      else case txs of
             [] \<Rightarrow> Inr False
           | tx0 # _ \<Rightarrow>
               case axUnmarshalTx ax tx0 of
                 Inl _ \<Rightarrow> Inr False
               | Inr tx \<Rightarrow>
                   case axValidateVoteExtensions ax height (vtCommit tx) of
                     Inl _ \<Rightarrow> Inr False
                   | Inr _ \<Rightarrow>
                       bindR (GetMaxValidators env st) (\<lambda>maxValidators.
                       Inr (length (ecVotes (vtCommit tx)) \<le> maxValidators \<and> recomputedAgrees env ax tx st)))"

section \<open>Before the block\<close>

text \<open>\<^verbatim>\<open>xs[i]\<close> for the index of a loop over another slice.\<close>

fun withIndex :: "'a list \<Rightarrow> 'b list \<Rightarrow> ('a \<times> 'b) list result" where
  "withIndex [] ys = Inr []"
| "withIndex (x # xs) [] = Inl ErrPanic"
| "withIndex (x # xs) (y # ys) = bindR (withIndex xs ys) (\<lambda>zs. Inr ((x, y) # zs))"

text \<open>An error of a step is logged and the loop goes on.\<close>

definition logged :: "'s \<Rightarrow> 's result \<Rightarrow> 's" where
  "logged st r = (case r of Inl _ \<Rightarrow> st | Inr st' \<Rightarrow> st')"

definition SetEVMAddresses ::
  "'w bridge_env \<Rightarrow> app_env \<Rightarrow> string list \<Rightarrow> string list \<Rightarrow> 'w bridge_state \<Rightarrow> 'w bridge_state result" where
  "SetEVMAddresses env ax operatorAddresses evmAddresses st =
     bindR (withIndex operatorAddresses evmAddresses) (\<lambda>pairs.
     Inr (fold (\<lambda>(op, evm) st. logged st (SetEVMAddressByOperator env op (axHexToAddress ax evm) st)) pairs st))"

definition jailValidatorWithError :: "'w bridge_env \<Rightarrow> ctx \<Rightarrow> vote_info \<Rightarrow> 'w bridge_state \<Rightarrow> 'w bridge_state" where
  "jailValidatorWithError env c vote st =
     (case bskGetValidatorByConsAddr (beStaking env) (brWorld st) (viValidatorAddress vote) of
        Inl _ \<Rightarrow> st
      | Inr validator \<Rightarrow>
          if svJailed validator then st
          else case bskJail (beStaking env) c (viValidatorAddress vote) (brWorld st) of
                 Inl _ \<Rightarrow> st
               | Inr w \<Rightarrow> st\<lparr>brWorld := w\<rparr>)"

text \<open>Initial signatures of two different keys jail their validator.\<close>

definition checkInitialVote :: "'w bridge_env \<Rightarrow> app_env \<Rightarrow> ctx \<Rightarrow> vote_info \<Rightarrow> 'w bridge_state \<Rightarrow> 'w bridge_state" where
  "checkInitialVote env ax c vote st =
     (case extensionOf ax vote of
        None \<Rightarrow> st
      | Some voteExt \<Rightarrow>
          if bxSignatureA voteExt = [] then st
          else case ValidatorOperatorAddressFromVote env (brWorld st) vote of
                 Inl _ \<Rightarrow> st
               | Inr operatorAddress \<Rightarrow>
                   case EVMAddressFromSignatures env (bxSignatureA voteExt) (bxSignatureB voteExt) operatorAddress of
                     Inl _ \<Rightarrow> jailValidatorWithError env c vote st
                   | Inr _ \<Rightarrow> st)"

definition storeValsetSigs :: "vote_ext_tx \<Rightarrow> 'w bridge_state \<Rightarrow> 'w bridge_state result" where
  "storeValsetSigs tx st =
     bindR (withIndex (vtSigOperatorAddresses tx) (vtSigTimestamps tx)) (\<lambda>_.
     bindR (withIndex (vtSigOperatorAddresses tx) (vtSignatures tx)) (\<lambda>_.
     Inr (fold (\<lambda>(op, t, sig) st. logged st (SetBridgeValsetSignature op (toU64 t) sig st))
       (zip (vtSigOperatorAddresses tx) (zip (vtSigTimestamps tx) (vtSignatures tx))) st)))"

definition storeAttestations :: "vote_ext_tx \<Rightarrow> 'w bridge_state \<Rightarrow> 'w bridge_state result" where
  "storeAttestations tx st =
     bindR (withIndex (vtAttOperatorAddresses tx) (vtSnapshots tx)) (\<lambda>_.
     bindR (withIndex (vtAttOperatorAddresses tx) (vtAttestations tx)) (\<lambda>_.
     Inr (fold (\<lambda>(op, snapshot, att) st. logged st (SetOracleAttestation op snapshot att st))
       (zip (vtAttOperatorAddresses tx) (zip (vtSnapshots tx) (vtAttestations tx))) st)))"

definition PreBlocker ::
  "'w bridge_env \<Rightarrow> app_env \<Rightarrow> ctx \<Rightarrow> int \<Rightarrow> bytes list \<Rightarrow> 'w bridge_state \<Rightarrow> 'w bridge_state result" where
  "PreBlocker env ax c height txs st =
     (case txs of
        [] \<Rightarrow> Inr st
      | tx0 # _ \<Rightarrow>
          if height \<le> axEnableHeight ax then Inr st
          else bindR (wrapR ''failed to decode injected vote extension tx'' (axUnmarshalTx ax tx0)) (\<lambda>tx.
               bindR (SetEVMAddresses env ax (vtOperatorAddresses tx) (vtEVMAddresses tx) st) (\<lambda>st.
               let st = fold (checkInitialVote env ax c) (ecVotes (vtCommit tx)) st in
               bindR (storeValsetSigs tx st) (storeAttestations tx))))"

end
