(* ===== verification/BridgeFrames.thy ===== *)
theory BridgeFrames
  imports BridgeGenesis VoteExtension
begin

text \<open>
  What each operation of the bridge leaves alone, as the parts of the state it writes; and the
  steps of the bridge, a relation that every invariant below is proved for.
\<close>

section \<open>Frames\<close>

named_theorems bridge_frames "the parts of the bridge state an operation writes"

lemma ClaimDeposit_cases:
  assumes "ClaimDeposit env c f d t st = r"
  obtains (failed) e where "r = (Some e, st)"
    | (stuck) e rcp n w where "r = (Some e, st\<lparr>brWorld := w\<rparr>)" "checkDeposit env c f d t st = Inr (rcp, n)"
        "bkMintCoins (beBank env) bridgeModule BondDenom n (brWorld st) = Inr w"
    | (claimed) rcp n w w' where "checkDeposit env c f d t st = Inr (rcp, n)"
        "bkMintCoins (beBank env) bridgeModule BondDenom n (brWorld st) = Inr w"
        "bkSendCoins (beBank env) (Module bridgeModule) (User rcp) BondDenom n w = Inr w'"
        "r = (None, st\<lparr>brWorld := w', DepositIdClaimedMap := kv_set d True (DepositIdClaimedMap st)\<rparr>)"
proof (cases "checkDeposit env c f d t st")
  case (Inl e)
  then show ?thesis using assms by (intro failed [of e]) (simp add: ClaimDeposit_def)
next
  case (Inr x)
  then obtain rcp n where check: "checkDeposit env c f d t st = Inr (rcp, n)" by (cases x) simp
  show ?thesis
  proof (cases "bkMintCoins (beBank env) bridgeModule BondDenom n (brWorld st)")
    case (Inl e)
    then show ?thesis using assms check by (intro failed [of e]) (simp add: ClaimDeposit_def)
  next
    case (Inr w)
    note mint = Inr
    show ?thesis
    proof (cases "bkSendCoins (beBank env) (Module bridgeModule) (User rcp) BondDenom n w")
      case (Inl e)
      then show ?thesis using assms check mint by (intro stuck [OF _ check mint, of e]) (simp add: ClaimDeposit_def)
    next
      case (Inr w')
      then show ?thesis using assms check mint by (intro claimed [OF check mint Inr]) (simp add: ClaimDeposit_def)
    qed
  qed
qed

lemma ClaimDeposit_frame [bridge_frames]:
  assumes "ClaimDeposit env c f d t st = (r, st')"
  shows "\<exists>w m. st' = st\<lparr>brWorld := w, DepositIdClaimedMap := m\<rparr>"
  using assms
proof (rule ClaimDeposit_cases)
  show ?thesis if "(r, st') = (Some e, st)" for e
    using that by (intro exI [of _ "brWorld st"] exI [of _ "DepositIdClaimedMap st"]) simp
  show ?thesis if "(r, st') = (Some e, st\<lparr>brWorld := w\<rparr>)" for e w
    using that by (intro exI [of _ w] exI [of _ "DepositIdClaimedMap st"]) simp
qed auto

lemma WithdrawTokens_frame [bridge_frames]:
  assumes "WithdrawTokens env c n a rcp (st, orc) = Inr (i, st', orc')"
  shows "\<exists>w. st' = st\<lparr>brWorld := w, WithdrawalId := Some i\<rparr> \<and> i = (case WithdrawalId st of None \<Rightarrow> 1 | Some j \<Rightarrow> j + 1)"
  using assms by (auto simp: WithdrawTokens_def IncrementWithdrawalId_def Let_def case_prod_beta)

lemma storeSnapshot_run:
  assumes "storeSnapshot env q t s data st = Inr st'"
  obtains V where "BridgeValset st = Some V"
    "st' = st\<lparr>AttestSnapshotsByReportMap := kv_set (reportKey env q t)
           (kv_get_or [] (AttestSnapshotsByReportMap st) (reportKey env q t) @ [s]) (AttestSnapshotsByReportMap st),
         AttestSnapshotDataMap := kv_set s data (AttestSnapshotDataMap st),
         SnapshotToAttestationsMap := kv_set s (NewOracleAttestations (length V)) (SnapshotToAttestationsMap st)\<rparr>"
  using assms by (auto simp: storeSnapshot_def Let_def)

lemma addRequest_run:
  assumes "addRequest c s ext st = Inr st'"
  obtains m where "st' = st\<lparr>AttestRequestsByHeightMap := m\<rparr>"
    "\<forall>h reqs x. kv_get m h = Some reqs \<and> x \<in> set reqs \<longrightarrow> x = s \<or> (\<exists>old. kv_get (AttestRequestsByHeightMap st) h = Some old \<and> x \<in> set old)"
proof -
  let ?old = "AttestRequestsByHeightMap st"
  have "st' = st\<lparr>AttestRequestsByHeightMap := ?old\<rparr> \<or> st' = st\<lparr>AttestRequestsByHeightMap := kv_set (heightOf c) [] ?old\<rparr>
      \<or> st' = st\<lparr>AttestRequestsByHeightMap := kv_set (heightOf c) (kv_get_or [] ?old (heightOf c) @ [s]) ?old\<rparr>
      \<or> st' = st\<lparr>AttestRequestsByHeightMap := kv_set (heightOf c) (kv_get_or [] ?old (heightOf c) @ [s]) (kv_set (heightOf c) [] ?old)\<rparr>"
    using assms by (auto simp: addRequest_def AddRequest_def Let_def split: if_splits)
  then show ?thesis by (elim disjE) (rule that, assumption, auto simp: kv_get_or_def split: if_splits option.splits)+
qed

lemma CreateSnapshot_frame [bridge_frames]:
  assumes "CreateSnapshot env c orc q t ext st = Inr st'"
  shows "\<exists>a b d e. st' = st\<lparr>AttestSnapshotsByReportMap := a, AttestSnapshotDataMap := b, SnapshotToAttestationsMap := d,
      AttestRequestsByHeightMap := e\<rparr>"
proof -
  from assms obtain s data st1 where store: "storeSnapshot env q t s data st = Inr st1" and add: "addRequest c s ext st1 = Inr st'"
    by (auto simp: CreateSnapshot_def)
  obtain a b d where "st1 = st\<lparr>AttestSnapshotsByReportMap := a, AttestSnapshotDataMap := b, SnapshotToAttestationsMap := d\<rparr>"
    by (rule storeSnapshot_run [OF store]) blast
  moreover obtain m where "st' = st1\<lparr>AttestRequestsByHeightMap := m\<rparr>" by (rule addRequest_run [OF add]) blast
  ultimately show ?thesis by auto
qed

lemma snapshotLoop_frame:
  assumes "snapshotLoop env c orc reports limit st = Inr st'"
  shows "\<exists>a b d e. st' = st\<lparr>AttestSnapshotsByReportMap := a, AttestSnapshotDataMap := b, SnapshotToAttestationsMap := d,
      AttestRequestsByHeightMap := e\<rparr>"
  using assms
proof (induction env c orc reports limit st arbitrary: st' rule: snapshotLoop.induct)
  case (1 env c orc limit st)
  then show ?case
    by (intro exI [of _ "AttestSnapshotsByReportMap st"] exI [of _ "AttestSnapshotDataMap st"]
        exI [of _ "SnapshotToAttestationsMap st"] exI [of _ "AttestRequestsByHeightMap st"]) simp
next
  case (2 env c orc report reports limit st)
  show ?case
  proof (cases "st' = st")
    case True
    then show ?thesis
      by (intro exI [of _ "AttestSnapshotsByReportMap st"] exI [of _ "AttestSnapshotDataMap st"]
          exI [of _ "SnapshotToAttestationsMap st"] exI [of _ "AttestRequestsByHeightMap st"]) simp
  next
    case False
    with 2(2) obtain t st1 where t: "GetTimestampBefore orc (agQueryId report) (BlockTime c + 1000000000) = Inr t"
      and lim: "limit \<noteq> 0" and st1: "CreateSnapshot env c orc (agQueryId report) t False st = Inr st1"
      and rest: "snapshotLoop env c orc reports (limit - 1) st1 = Inr st'"
      by (auto split: if_splits sum.splits)
    obtain a b d e where "st1 = st\<lparr>AttestSnapshotsByReportMap := a, AttestSnapshotDataMap := b, SnapshotToAttestationsMap := d,
        AttestRequestsByHeightMap := e\<rparr>" using CreateSnapshot_frame [OF st1] by blast
    moreover obtain a b d e where "st' = st1\<lparr>AttestSnapshotsByReportMap := a, AttestSnapshotDataMap := b,
        SnapshotToAttestationsMap := d, AttestRequestsByHeightMap := e\<rparr>" using 2(1) [OF lim t st1 rest] by blast
    ultimately show ?thesis by auto
  qed
qed

lemma SetBridgeValidatorParams_run:
  assumes "SetBridgeValidatorParams env c valset st = Inr st'"
  obtains hash checkpoint idx t signers where
    "t = toU64 (unixMilli (BlockTime c))"
    "EncodeValsetCheckpoint env (fold (\<lambda>v s. s + bvPower v) valset 0 * 2 div 3) t hash st = Inr checkpoint"
    "idx = (case LatestCheckpointIdx st of None \<Rightarrow> 0 | Some i \<Rightarrow> i + 1)"
    "\<forall>e \<in> set (ValidatorCheckpointParamsMap st). fst e \<noteq> t \<longrightarrow> vcpCheckpoint (snd e) \<noteq> checkpoint"
    "idx = 0 \<Longrightarrow> signers = valset"
    "idx \<noteq> 0 \<Longrightarrow> \<exists>t0. kv_get (kv_set idx t (ValidatorCheckpointIdxMap st)) (idx - 1) = Some t0
        \<and> kv_get (kv_set t valset (BridgeValsetByTimestampMap st)) t0 = Some signers"
    "st' = st\<lparr>ValidatorCheckpointParamsMap := kv_set t
           \<lparr>vcpCheckpoint = checkpoint, vcpValsetHash = hash, vcpTimestamp = t,
            vcpPowerThreshold = fold (\<lambda>v s. s + bvPower v) valset 0 * 2 div 3, vcpBlockHeight = heightOf c\<rparr>
           (ValidatorCheckpointParamsMap st),
         ValidatorCheckpointIdxMap := kv_set idx t (ValidatorCheckpointIdxMap st), LatestCheckpointIdx := Some idx,
         ValsetTimestampToIdxMap := kv_set t idx (ValsetTimestampToIdxMap st), ValidatorCheckpoint := Some checkpoint,
         BridgeValsetByTimestampMap := kv_set t valset (BridgeValsetByTimestampMap st),
         BridgeValsetSignaturesMap := kv_set t (NewBridgeValsetSignatures (length signers)) (BridgeValsetSignaturesMap st)\<rparr>"
  using assms
  by (fastforce simp: SetBridgeValidatorParams_def CalculateValidatorSetCheckpoint_def setCheckpointParams_def signersOf_def
      Let_def split: if_splits)

lemma CompareAndSet_run:
  assumes "CompareAndSetBridgeValidators env c st = Inr (b, st')"
  obtains (same) "st' = st" "\<not> b"
    | (new) current where "GetCurrentValidatorsEVMCompatible env st = Inr current" "b \<longleftrightarrow> BridgeValset st \<noteq> None"
        "SetBridgeValidatorParams env c current (st\<lparr>BridgeValset := Some current\<rparr>) = Inr st'"
  using assms by (auto simp: CompareAndSetBridgeValidators_def split: option.splits if_splits)

lemma SlashValidator_frame [bridge_frames]:
  assumes "SlashValidator env c op p checkpoint st = Inr (n, st')"
  shows "\<exists>w. st' = st\<lparr>brWorld := w\<rparr>"
  using assms by (auto simp: SlashValidator_def Let_def)

lemma CheckAttestationEvidence_run:
  assumes "CheckAttestationEvidence env c req st = Inr st'"
  obtains op w where "CheckRateLimit st op (aeAttestationTimestamp req) = Inr ()"
    "st' = st\<lparr>brWorld := w, AttestationEvidenceSubmitted :=
       kv_set (op, aeAttestationTimestamp req) True (AttestationEvidenceSubmitted st)\<rparr>"
proof -
  obtain op p checkpoint n st1 where "CheckRateLimit st op (aeAttestationTimestamp req) = Inr ()"
    "SlashValidator env c op p checkpoint st = Inr (n, st1)"
    "st' = st1\<lparr>AttestationEvidenceSubmitted :=
       kv_set (op, aeAttestationTimestamp req) True (AttestationEvidenceSubmitted st1)\<rparr>"
    using assms by (auto simp: CheckAttestationEvidence_def)
  then show ?thesis using that SlashValidator_frame by fastforce
qed

lemma CheckValsetSignatureEvidence_run:
  assumes "CheckValsetSignatureEvidence env c req st = Inr st'"
  obtains op w where "CheckValsetSignatureRateLimit st op (veValsetTimestamp req) = Inr ()"
    "st' = st\<lparr>brWorld := w, ValsetSignatureEvidenceSubmitted :=
       kv_set (op, veValsetTimestamp req) True (ValsetSignatureEvidenceSubmitted st)\<rparr>"
proof -
  obtain op p checkpoint n st1 where "CheckValsetSignatureRateLimit st op (veValsetTimestamp req) = Inr ()"
    "SlashValidator env c op p checkpoint st = Inr (n, st1)"
    "st' = st1\<lparr>ValsetSignatureEvidenceSubmitted :=
       kv_set (op, veValsetTimestamp req) True (ValsetSignatureEvidenceSubmitted st1)\<rparr>"
    using assms by (auto simp: CheckValsetSignatureEvidence_def)
  then show ?thesis using that SlashValidator_frame by fastforce
qed

lemma attestLoop_frame:
  assumes "attestLoop evm s sig i vs st = Inr st'"
  shows "\<exists>m. st' = st\<lparr>SnapshotToAttestationsMap := m\<rparr>"
  using assms
proof (induction evm s sig i vs st rule: attestLoop.induct)
  case (1 evm s sig i st)
  then show ?case by (auto intro: exI [of _ "SnapshotToAttestationsMap st"])
next
  case (2 evm s sig i v vs st)
  show ?case
  proof (cases "EthereumAddress v = evm")
    case True
    with 2(3) obtain atts where "kv_get (SnapshotToAttestationsMap st) s = Some atts"
      "attestLoop evm s sig (Suc i) vs
         (st\<lparr>SnapshotToAttestationsMap := kv_set s (SetAttestation i sig atts) (SnapshotToAttestationsMap st)\<rparr>) = Inr st'"
      by auto
    then show ?thesis using 2(1) [OF True] by fastforce
  next
    case False
    then show ?thesis using 2(2,3) by simp
  qed
qed

lemma SetOracleAttestation_frame [bridge_frames]:
  assumes "SetOracleAttestation op s sig st = Inr st'"
  shows "\<exists>m. st' = st\<lparr>SnapshotToAttestationsMap := m\<rparr>"
  using assms attestLoop_frame by (fastforce simp: SetOracleAttestation_def)

lemma SetBridgeValsetSignature_frame [bridge_frames]:
  assumes "SetBridgeValsetSignature op t sig st = Inr st'"
  shows "\<exists>m. st' = st\<lparr>BridgeValsetSignaturesMap := m\<rparr>"
  using assms by (auto simp: SetBridgeValsetSignature_def split: if_splits intro: exI [of _ "BridgeValsetSignaturesMap st"])

section \<open>Parts of the state\<close>

definition registrations :: "'w bridge_state \<Rightarrow> (string, bytes) kv \<times> (string, bytes) kv \<times> (string, bool) kv" where
  "registrations st = (OperatorToEVMAddressMap st, EVMToOperatorAddressMap st, EVMAddressRegisteredMap st)"

definition evidences :: "'w bridge_state \<Rightarrow> (bytes \<times> u64, bool) kv \<times> (bytes \<times> u64, bool) kv" where
  "evidences st = (AttestationEvidenceSubmitted st, ValsetSignatureEvidenceSubmitted st)"

definition snapshots :: "'w bridge_state \<Rightarrow> (bytes, bytes list) kv \<times> (u64, bytes list) kv" where
  "snapshots st = (SnapshotToAttestationsMap st, AttestRequestsByHeightMap st)"

text \<open>The checkpoints without the signatures under them.\<close>

definition checkpoints :: "'w bridge_state \<Rightarrow> bridge_valset option \<times> bytes option \<times> (u64, validator_checkpoint_params) kv
    \<times> (u64, u64) kv \<times> u64 option \<times> (u64, bridge_valset) kv \<times> (u64, u64) kv" where
  "checkpoints st = (BridgeValset st, ValidatorCheckpoint st, ValidatorCheckpointParamsMap st, ValidatorCheckpointIdxMap st,
     LatestCheckpointIdx st, BridgeValsetByTimestampMap st, ValsetTimestampToIdxMap st)"

lemmas bridge_parts = registrations_def evidences_def snapshots_def checkpoints_def

lemma CompareAndSet_frame [bridge_frames]:
  assumes "CompareAndSetBridgeValidators env c st = Inr (b, st')"
  shows "\<exists>v p i l u x y z. st' = st\<lparr>BridgeValset := v, ValidatorCheckpointParamsMap := p, ValidatorCheckpointIdxMap := i,
      LatestCheckpointIdx := l, ValsetTimestampToIdxMap := u, ValidatorCheckpoint := x, BridgeValsetByTimestampMap := y,
      BridgeValsetSignaturesMap := z\<rparr>"
  using assms
proof (rule CompareAndSet_run)
  assume "st' = st"
  then have "st' = st\<lparr>BridgeValset := BridgeValset st, ValidatorCheckpointParamsMap := ValidatorCheckpointParamsMap st,
      ValidatorCheckpointIdxMap := ValidatorCheckpointIdxMap st, LatestCheckpointIdx := LatestCheckpointIdx st,
      ValsetTimestampToIdxMap := ValsetTimestampToIdxMap st, ValidatorCheckpoint := ValidatorCheckpoint st,
      BridgeValsetByTimestampMap := BridgeValsetByTimestampMap st, BridgeValsetSignaturesMap := BridgeValsetSignaturesMap st\<rparr>"
    by simp
  then show ?thesis by blast
next
  fix current
  assume "SetBridgeValidatorParams env c current (st\<lparr>BridgeValset := Some current\<rparr>) = Inr st'"
  then show ?thesis by (rule SetBridgeValidatorParams_run) blast
qed

lemma CheckAttestationEvidence_frame [bridge_frames]:
  "CheckAttestationEvidence env c req st = Inr st' \<Longrightarrow> \<exists>w m. st' = st\<lparr>brWorld := w, AttestationEvidenceSubmitted := m\<rparr>"
  by (erule CheckAttestationEvidence_run) blast

lemma CheckValsetSignatureEvidence_frame [bridge_frames]:
  "CheckValsetSignatureEvidence env c req st = Inr st' \<Longrightarrow> \<exists>w m. st' = st\<lparr>brWorld := w, ValsetSignatureEvidenceSubmitted := m\<rparr>"
  by (erule CheckValsetSignatureEvidence_run) blast

lemma SetEVMAddressByOperator_frame [bridge_frames]:
  assumes "SetEVMAddressByOperator env op evm st = Inr st'"
  shows "\<exists>a b d. st' = st\<lparr>OperatorToEVMAddressMap := a, EVMToOperatorAddressMap := b, EVMAddressRegisteredMap := d\<rparr>"
proof -
  have "st' = st \<or> ?thesis" using assms by (auto simp: SetEVMAddressByOperator_def Let_def split: if_splits)
  moreover have "st = st\<lparr>OperatorToEVMAddressMap := OperatorToEVMAddressMap st, EVMToOperatorAddressMap := EVMToOperatorAddressMap st,
      EVMAddressRegisteredMap := EVMAddressRegisteredMap st\<rparr>" by simp
  ultimately show ?thesis by metis
qed

lemma UpdateSnapshotLimit_frame [bridge_frames]:
  "UpdateSnapshotLimit env ul st = Inr st' \<Longrightarrow> \<exists>l. st' = st\<lparr>SnapshotLimit := l\<rparr>"
  by (auto simp: UpdateSnapshotLimit_def)

lemma bridgeUpdateParams_frame [bridge_frames]:
  "bridgeUpdateParams env bu st = Inr st' \<Longrightarrow> st' = st\<lparr>brParams := Some (buParams bu)\<rparr>"
  by (auto simp: bridgeUpdateParams_def)

end
