(* ===== verification/BridgeInvariant.thy ===== *)
theory BridgeInvariant
  imports BridgeFrames
begin

text \<open>
  The bridge as a state machine: every operation is a step, with the token movements it makes as
  events. Invariants of all reachable states: the registered EVM addresses, the evidence that
  was accepted, the snapshots and their requests, the chain of checkpoints.
\<close>

section \<open>Steps\<close>

datatype bridge_event = Claimed u64 addr int | Withdrew u64 addr int

text \<open>Blocks come later than every checkpoint before them, and the index of checkpoints does not
  run out.\<close>

definition block_later :: "ctx \<Rightarrow> 'w bridge_state \<Rightarrow> bool" where
  "block_later c st \<longleftrightarrow> (\<forall>e \<in> set (ValidatorCheckpointParamsMap st). fst e < toU64 (unixMilli (BlockTime c)))
     \<and> LatestCheckpointIdx st \<noteq> Some (- 1)"

text \<open>\<open>W\<close> is the smallest rate limit window governance ever sets; \<open>orcs\<close> are the oracle states the
  bridge meets.\<close>

inductive bridge_step ::
  "'w bridge_env \<Rightarrow> u64 \<Rightarrow> 'o oracle_state set \<Rightarrow> bridge_event list \<Rightarrow> 'w bridge_state \<Rightarrow> 'w bridge_state \<Rightarrow> bool"
  for env W orcs where
  claimed: "ClaimDeposit env c f d t st = (None, st') \<Longrightarrow> checkDeposit env c f d t st = Inr (rcp, n)
    \<Longrightarrow> bridge_step env W orcs [Claimed d rcp n] st st'"
| claimFailed: "ClaimDeposit env c f d t st = (Some e, st') \<Longrightarrow> bridge_step env W orcs [] st st'"
| withdrew: "WithdrawTokens env c n a rcp (st, orc) = Inr (i, st', orc') \<Longrightarrow> orc \<in> orcs
    \<Longrightarrow> bridge_step env W orcs [Withdrew i a n] st st'"
| valset: "CompareAndSetBridgeValidators env c st = Inr (b, st') \<Longrightarrow> block_later c st \<Longrightarrow> bridge_step env W orcs [] st st'"
| snapshot: "CreateSnapshot env c orc q t ext st = Inr st' \<Longrightarrow> orc \<in> orcs \<Longrightarrow> bridge_step env W orcs [] st st'"
| limit: "UpdateSnapshotLimit env ul st = Inr st' \<Longrightarrow> bridge_step env W orcs [] st st'"
| params: "bridgeUpdateParams env bu st = Inr st' \<Longrightarrow> W \<le> AttestRateLimitWindow (buParams bu)
    \<Longrightarrow> W \<le> ValsetRateLimitWindow (buParams bu) \<Longrightarrow> bridge_step env W orcs [] st st'"
| attestationEvidence: "CheckAttestationEvidence env c ae st = Inr st' \<Longrightarrow> bridge_step env W orcs [] st st'"
| valsetEvidence: "CheckValsetSignatureEvidence env c ve st = Inr st' \<Longrightarrow> bridge_step env W orcs [] st st'"
| registers: "SetEVMAddressByOperator env op evm st = Inr st' \<Longrightarrow> bridge_step env W orcs [] st st'"
| signs: "SetBridgeValsetSignature op t sig st = Inr st' \<Longrightarrow> bridge_step env W orcs [] st st'"
| attests: "SetOracleAttestation op s att st = Inr st' \<Longrightarrow> bridge_step env W orcs [] st st'"
| elsewhere: "bridge_step env W orcs [] st (st\<lparr>brWorld := w\<rparr>)"

inductive bridge_run ::
  "'w bridge_env \<Rightarrow> u64 \<Rightarrow> 'o oracle_state set \<Rightarrow> bridge_event list \<Rightarrow> 'w bridge_state \<Rightarrow> 'w bridge_state \<Rightarrow> bool"
  for env W orcs where
  start: "bridge_run env W orcs [] st st"
| more: "bridge_run env W orcs evs st st1 \<Longrightarrow> bridge_step env W orcs ev st1 st2 \<Longrightarrow> bridge_run env W orcs (evs @ ev) st st2"

text \<open>A chain that starts: the module's genesis without a validator set.\<close>

definition bridge_reachable :: "'w bridge_env \<Rightarrow> u64 \<Rightarrow> 'o oracle_state set \<Rightarrow> 'w bridge_state \<Rightarrow> bool" where
  "bridge_reachable env W orcs st \<longleftrightarrow>
     (\<exists>c gen w st0 evs. bridgeModuleInitGenesis env c gen (emptyBridge w) = Inr st0 \<and> BlockHeight c \<le> 1 \<and> bgBridgeValSet gen = None
        \<and> W \<le> AttestRateLimitWindow (bgParams gen) \<and> W \<le> ValsetRateLimitWindow (bgParams gen)
        \<and> bridge_run env W orcs evs st0 st)"

text \<open>An invariant of the first state that every step keeps holds in every reachable state.\<close>

lemma bridge_invariant:
  assumes "bridge_reachable env W orcs st"
    and init: "\<And>c gen w st0. bridgeModuleInitGenesis env c gen (emptyBridge w) = Inr st0 \<Longrightarrow> BlockHeight c \<le> 1 \<Longrightarrow> bgBridgeValSet gen = None
        \<Longrightarrow> W \<le> AttestRateLimitWindow (bgParams gen) \<Longrightarrow> W \<le> ValsetRateLimitWindow (bgParams gen) \<Longrightarrow> P st0"
    and keep: "\<And>ev st st'. P st \<Longrightarrow> bridge_step env W orcs ev st st' \<Longrightarrow> P st'"
  shows "P st"
proof -
  obtain c gen w st0 evs where gen: "bridgeModuleInitGenesis env c gen (emptyBridge w) = Inr st0" "BlockHeight c \<le> 1" "bgBridgeValSet gen = None"
      "W \<le> AttestRateLimitWindow (bgParams gen)" "W \<le> ValsetRateLimitWindow (bgParams gen)" and run: "bridge_run env W orcs evs st0 st"
    using assms(1) unfolding bridge_reachable_def by blast
  from run init [OF gen] show ?thesis by induction (blast intro: keep)+
qed

lemma initial_state:
  assumes "bridgeModuleInitGenesis env c gen (emptyBridge w) = Inr st0" and "BlockHeight c \<le> 1" and "bgBridgeValSet gen = None"
  obtains sep where "st0 = (emptyBridge w)\<lparr>brParams := Some (bgParams gen), SnapshotLimit := Some (bgSnapshotLimit gen),
    ValsetCheckpointDomainSeparator := Some sep\<rparr>"
  using assms
  by (auto simp: bridgeModuleInitGenesis_def bridgeInitGenesis_def SetValsetCheckpointDomainSeparator_def Let_def
      split: sum.splits if_splits)

text \<open>Which steps write which part of the state.\<close>

lemma step_kinds:
  assumes "bridge_step env W orcs ev st st'"
  obtains (tokens) w m i where "st' = st\<lparr>brWorld := w, DepositIdClaimedMap := m, WithdrawalId := i\<rparr>"
    | (limit) l where "st' = st\<lparr>SnapshotLimit := l\<rparr>"
    | (params) p where "st' = st\<lparr>brParams := Some p\<rparr>" "W \<le> AttestRateLimitWindow p" "W \<le> ValsetRateLimitWindow p"
    | (valset) c b where "CompareAndSetBridgeValidators env c st = Inr (b, st')" "block_later c st"
    | (snapshot) c orc q t ext where "CreateSnapshot env c orc q t ext st = Inr st'" "orc \<in> orcs"
    | (attestationEvidence) c ae where "CheckAttestationEvidence env c ae st = Inr st'"
    | (valsetEvidence) c ve where "CheckValsetSignatureEvidence env c ve st = Inr st'"
    | (registers) op evm where "SetEVMAddressByOperator env op evm st = Inr st'"
    | (signs) op t sig where "SetBridgeValsetSignature op t sig st = Inr st'"
    | (attests) op s att where "SetOracleAttestation op s att st = Inr st'"
  using assms
proof cases
  case (claimed c f d t rcp n)
  then obtain w m where "st' = st\<lparr>brWorld := w, DepositIdClaimedMap := m\<rparr>" using ClaimDeposit_frame by blast
  then show ?thesis by (intro tokens [where w = w and m = m and i = "WithdrawalId st"]) simp
next
  case (claimFailed c f d t e)
  then obtain w m where "st' = st\<lparr>brWorld := w, DepositIdClaimedMap := m\<rparr>" using ClaimDeposit_frame by blast
  then show ?thesis by (intro tokens [where w = w and m = m and i = "WithdrawalId st"]) simp
next
  case (withdrew c n a rcp orc i orc')
  then obtain w where "st' = st\<lparr>brWorld := w, WithdrawalId := Some i\<rparr>" using WithdrawTokens_frame by blast
  then show ?thesis by (intro tokens [where w = w and m = "DepositIdClaimedMap st" and i = "Some i"]) simp
next
  case (elsewhere w)
  then show ?thesis by (intro tokens [where w = w and m = "DepositIdClaimedMap st" and i = "WithdrawalId st"]) simp
next
  case (limit ul)
  then show ?thesis using UpdateSnapshotLimit_frame that(2) by blast
next
  case (params bu)
  then show ?thesis using bridgeUpdateParams_frame that(3) by blast
qed (rule that, assumption+)+

definition windows_ok :: "u64 \<Rightarrow> 'w bridge_state \<Rightarrow> bool" where
  "windows_ok W st \<longleftrightarrow> (\<forall>p. brParams st = Some p \<longrightarrow> W \<le> AttestRateLimitWindow p \<and> W \<le> ValsetRateLimitWindow p)"

lemma step_registrations:
  assumes "bridge_step env W orcs ev st st'"
  shows "registrations st' = registrations st \<or> (\<exists>op evm. SetEVMAddressByOperator env op evm st = Inr st')"
  using assms by (rule step_kinds) (auto simp: registrations_def dest: bridge_frames)

lemma step_evidences:
  assumes "bridge_step env W orcs ev st st'"
  shows "evidences st' = evidences st \<or> (\<exists>c ae. CheckAttestationEvidence env c ae st = Inr st')
      \<or> (\<exists>c ve. CheckValsetSignatureEvidence env c ve st = Inr st')"
  using assms by (rule step_kinds) (auto simp: evidences_def dest: bridge_frames)

lemma step_windows:
  assumes "bridge_step env W orcs ev st st'" and "windows_ok W st"
  shows "windows_ok W st'"
  using assms(1) by (rule step_kinds) (use assms(2) in \<open>auto simp: windows_ok_def dest: bridge_frames\<close>)

lemma step_snapshots:
  assumes "bridge_step env W orcs ev st st'"
  shows "snapshots st' = snapshots st \<or> (\<exists>c orc q t ext. orc \<in> orcs \<and> CreateSnapshot env c orc q t ext st = Inr st')
      \<or> (\<exists>op s att. SetOracleAttestation op s att st = Inr st')"
  using assms by (rule step_kinds) (auto simp: snapshots_def dest: bridge_frames)

lemma step_checkpoints:
  assumes "bridge_step env W orcs ev st st'"
  shows "(checkpoints st' = checkpoints st
        \<and> (BridgeValsetSignaturesMap st' = BridgeValsetSignaturesMap st \<or> (\<exists>op t sig. SetBridgeValsetSignature op t sig st = Inr st')))
      \<or> (\<exists>c b. CompareAndSetBridgeValidators env c st = Inr (b, st') \<and> block_later c st)"
  using assms by (rule step_kinds) (auto simp: checkpoints_def dest: bridge_frames)

lemma step_separator:
  assumes "bridge_step env W orcs ev st st'"
  shows "ValsetCheckpointDomainSeparator st' = ValsetCheckpointDomainSeparator st"
  using assms by (rule step_kinds) (auto dest: bridge_frames)

section \<open>EVM addresses\<close>

text \<open>What is registered for an operator leads back to it.\<close>

definition registered_ok :: "'w bridge_env \<Rightarrow> 'w bridge_state \<Rightarrow> bool" where
  "registered_ok env st \<longleftrightarrow>
     (\<forall>op evm. kv_get (OperatorToEVMAddressMap st) op = Some evm \<longrightarrow>
        kv_has (EVMAddressRegisteredMap st) (beBytes2Hex env evm)
        \<and> (\<exists>v. beValAddressFromBech32 env op = Inr v \<and> kv_get (EVMToOperatorAddressMap st) (beBytes2Hex env evm) = Some v))"

lemma registered_step:
  assumes "registered_ok env st" and "bridge_step env W orcs ev st st'"
  shows "registered_ok env st'"
  using step_registrations [OF assms(2)]
proof (elim disjE exE)
  fix op evm
  assume run: "SetEVMAddressByOperator env op evm st = Inr st'"
  have "kv_has (EVMAddressRegisteredMap st) (beBytes2Hex env e)" if "kv_get (OperatorToEVMAddressMap st) o' = Some e" for o' e
    using assms(1) that unfolding registered_ok_def by blast
  then show ?thesis using assms(1) run
    by (auto simp: SetEVMAddressByOperator_def Let_def registered_ok_def split: if_splits) force
qed (use assms(1) in \<open>auto simp: registered_ok_def registrations_def\<close>)

lemma registered_reachable:
  assumes "bridge_reachable env W orcs st"
  shows "registered_ok env st"
  using assms
proof (rule bridge_invariant)
  fix c gen w st0
  assume "bridgeModuleInitGenesis env c gen (emptyBridge w) = Inr st0" "BlockHeight c \<le> 1" "bgBridgeValSet gen = None"
  then show "registered_ok env st0" by (rule initial_state) (simp add: registered_ok_def emptyBridge_def)
qed (rule registered_step)

section \<open>Evidence\<close>

text \<open>Two pieces of evidence against one validator are at least a window apart.\<close>

definition spaced :: "u64 \<Rightarrow> (bytes \<times> u64, bool) kv \<Rightarrow> bool" where
  "spaced W m \<longleftrightarrow> kv_ok m \<and> (\<forall>k v. kv_get m k = Some v \<longrightarrow> v)
     \<and> (\<forall>op t u. kv_has m (op, t) \<and> kv_has m (op, u) \<and> t < u \<longrightarrow> uint W \<le> uint u - uint t)"

lemma word_diff_le: "(b :: u64) \<le> a \<Longrightarrow> \<not> a - b < r \<Longrightarrow> uint r \<le> uint a - uint b"
  by (simp add: word_less_def word_le_def uint_sub_no_underflow)

lemma last_filter_max:
  assumes "sorted (map fst es)" and "e \<in> set es" and "P e"
  obtains x where "firstOf (rev (filter P es)) = Some x" "x \<in> set es" "P x" "fst e \<le> fst x"
proof -
  have mem: "e \<in> set (filter P es)" using assms by simp
  then have ne: "filter P es \<noteq> []" by (metis list.set(1) empty_iff)
  have "last (filter P es) \<in> set (filter P es)" using ne by (rule last_in_set)
  moreover have "fst e \<le> fst (last (filter P es))"
    using sorted_filter [OF assms(1), of P] mem ne by (cases "filter P es" rule: rev_cases) (auto simp: sorted_append)
  ultimately show ?thesis using that ne by (auto simp: firstOf_rev)
qed

lemma first_filter_min:
  assumes "sorted (map fst es)" and "e \<in> set es" and "P e"
  obtains x where "firstOf (filter P es) = Some x" "x \<in> set es" "P x" "fst x \<le> fst e"
proof -
  have mem: "e \<in> set (filter P es)" using assms by simp
  then obtain x xs where split: "filter P es = x # xs" by (cases "filter P es") auto
  have "fst x \<le> fst e" using sorted_filter [OF assms(1), of P] mem split by auto
  moreover have "x \<in> set (filter P es)" unfolding split by simp
  then have "x \<in> set es" "P x" by simp_all
  ultimately show ?thesis using that split by (simp add: firstOf_def)
qed

lemma rate_limit_spaces:
  assumes ok: "spaced W m" and lim: "rateLimited r t (kv_has m (op, t)) (evidenceBefore m op t) (evidenceAfter m op t) = Inr ()"
    and "W \<le> r"
  shows "spaced W (kv_set (op, t) True m)"
proof -
  have m: "kv_ok m" "\<And>k v. kv_get m k = Some v \<Longrightarrow> v"
    and far: "\<And>op t u. kv_has m (op, t) \<Longrightarrow> kv_has m (op, u) \<Longrightarrow> t < u \<Longrightarrow> uint W \<le> uint u - uint t"
    using ok unfolding spaced_def by blast+
  have sorted: "sorted (map fst (kv_prefix op m))"
    using kv_prefix_ok [OF m(1)] by (simp add: kv_ok_def strict_sorted_iff)
  have W: "uint W \<le> uint r" using \<open>W \<le> r\<close> by (simp add: word_le_def)
  have new: "\<not> kv_has m (op, t)"
    and before: "\<not> (fst (evidenceBefore m op t) \<and> snd (evidenceBefore m op t) \<le> t \<and> t - snd (evidenceBefore m op t) < r)"
    and after: "\<not> (fst (evidenceAfter m op t) \<and> t \<le> snd (evidenceAfter m op t) \<and> snd (evidenceAfter m op t) - t < r)"
    using lim by (auto simp: rateLimited_def)
  have entry: "(u, True) \<in> set (kv_prefix op m)" if "kv_has m (op, u)" for u
    using that m by (auto simp: kv_prefix_mem kv_get_mem [symmetric] kv_has_def)
  have stored: "v" if "(u, v) \<in> set (kv_prefix op m)" for u v
    using that m(2) [of "(op, u)" v] by (simp add: kv_prefix_mem kv_get_mem [OF m(1)])
  have below: "uint W \<le> uint t - uint u" if u: "kv_has m (op, u)" "u < t" for u
  proof -
    obtain x where x: "firstOf (rev (filter (\<lambda>e. fst e < t) (kv_prefix op m))) = Some x" "x \<in> set (kv_prefix op m)" "fst x < t" "u \<le> fst x"
      using last_filter_max [OF sorted entry [OF u(1)], of "\<lambda>e. fst e < t"] u(2) by auto
    then have "evidenceBefore m op t = (True, fst x)" using stored [of "fst x" "snd x"] by (auto simp: evidenceBefore_def split: prod.splits)
    then have "uint r \<le> uint t - uint (fst x)" using before x(3) by (intro word_diff_le) auto
    then show ?thesis using W x(4) by (simp add: word_le_def)
  qed
  have above: "uint W \<le> uint u - uint t" if u: "kv_has m (op, u)" "t < u" for u
  proof -
    obtain x where x: "firstOf (filter (\<lambda>e. t < fst e) (kv_prefix op m)) = Some x" "x \<in> set (kv_prefix op m)" "t < fst x" "fst x \<le> u"
      using first_filter_min [OF sorted entry [OF u(1)], of "\<lambda>e. t < fst e"] u(2) by auto
    then have "evidenceAfter m op t = (True, fst x)" using stored [of "fst x" "snd x"] by (auto simp: evidenceAfter_def split: prod.splits)
    then have "uint r \<le> uint (fst x) - uint t" using after x(3) by (intro word_diff_le) auto
    then show ?thesis using W x(4) by (simp add: word_le_def)
  qed
  show ?thesis unfolding spaced_def using m far below above by (auto split: if_splits)
qed

definition evidence_ok :: "u64 \<Rightarrow> 'w bridge_state \<Rightarrow> bool" where
  "evidence_ok W st \<longleftrightarrow> windows_ok W st \<and> spaced W (AttestationEvidenceSubmitted st) \<and> spaced W (ValsetSignatureEvidenceSubmitted st)"

lemma evidence_step:
  assumes "evidence_ok W st" and "bridge_step env W orcs ev st st'"
  shows "evidence_ok W st'"
proof -
  have win: "windows_ok W st'" using step_windows [OF assms(2)] assms(1) by (simp add: evidence_ok_def)
  from step_evidences [OF assms(2)] show ?thesis
  proof (elim disjE exE)
    fix c ae
    assume "CheckAttestationEvidence env c ae st = Inr st'"
    then obtain op w where lim: "CheckRateLimit st op (aeAttestationTimestamp ae) = Inr ()"
      and st': "st' = st\<lparr>brWorld := w, AttestationEvidenceSubmitted :=
         kv_set (op, aeAttestationTimestamp ae) True (AttestationEvidenceSubmitted st)\<rparr>"
      by (rule CheckAttestationEvidence_run)
    from lim obtain p where "brParams st = Some p" "rateLimited (AttestRateLimitWindow p) (aeAttestationTimestamp ae)
       (kv_has (AttestationEvidenceSubmitted st) (op, aeAttestationTimestamp ae))
       (evidenceBefore (AttestationEvidenceSubmitted st) op (aeAttestationTimestamp ae))
       (evidenceAfter (AttestationEvidenceSubmitted st) op (aeAttestationTimestamp ae)) = Inr ()"
      by (auto simp: CheckRateLimit_def GetAttestRateLimitWindow_def GetAttestationEvidenceSubmittedBefore_def
          GetAttestationEvidenceSubmittedAfter_def)
    then show ?thesis using assms(1) win rate_limit_spaces by (auto simp: evidence_ok_def windows_ok_def st')
  next
    fix c ve
    assume "CheckValsetSignatureEvidence env c ve st = Inr st'"
    then obtain op w where lim: "CheckValsetSignatureRateLimit st op (veValsetTimestamp ve) = Inr ()"
      and st': "st' = st\<lparr>brWorld := w, ValsetSignatureEvidenceSubmitted :=
         kv_set (op, veValsetTimestamp ve) True (ValsetSignatureEvidenceSubmitted st)\<rparr>"
      by (rule CheckValsetSignatureEvidence_run)
    from lim obtain p where "brParams st = Some p" "rateLimited (ValsetRateLimitWindow p) (veValsetTimestamp ve)
       (kv_has (ValsetSignatureEvidenceSubmitted st) (op, veValsetTimestamp ve))
       (evidenceBefore (ValsetSignatureEvidenceSubmitted st) op (veValsetTimestamp ve))
       (evidenceAfter (ValsetSignatureEvidenceSubmitted st) op (veValsetTimestamp ve)) = Inr ()"
      by (auto simp: CheckValsetSignatureRateLimit_def GetValsetRateLimitWindow_def GetValsetEvidenceSubmittedBefore_def
          GetValsetEvidenceSubmittedAfter_def)
    then show ?thesis using assms(1) win rate_limit_spaces by (auto simp: evidence_ok_def windows_ok_def st')
  qed (use assms(1) win in \<open>simp add: evidence_ok_def evidences_def\<close>)
qed

lemma evidence_reachable:
  assumes "bridge_reachable env W orcs st"
  shows "evidence_ok W st"
  using assms
proof (rule bridge_invariant)
  fix c gen w st0
  assume *: "bridgeModuleInitGenesis env c gen (emptyBridge w) = Inr st0" "BlockHeight c \<le> 1" "bgBridgeValSet gen = None"
    and win: "W \<le> AttestRateLimitWindow (bgParams gen)" "W \<le> ValsetRateLimitWindow (bgParams gen)"
  from * show "evidence_ok W st0"
    by (rule initial_state) (use win in \<open>simp add: evidence_ok_def windows_ok_def spaced_def emptyBridge_def kv_has_def kv_get_def\<close>)
qed (rule evidence_step)

section \<open>Snapshots\<close>

text \<open>Every requested snapshot is stored.\<close>

definition requests_ok :: "'w bridge_state \<Rightarrow> bool" where
  "requests_ok st \<longleftrightarrow>
     (\<forall>h reqs s. kv_get (AttestRequestsByHeightMap st) h = Some reqs \<and> s \<in> set reqs \<longrightarrow> kv_has (SnapshotToAttestationsMap st) s)"

lemma CreateSnapshot_requests:
  assumes "requests_ok st" and "CreateSnapshot env c orc q t ext st = Inr st'"
  shows "requests_ok st' \<and> (\<forall>s. kv_has (SnapshotToAttestationsMap st) s \<longrightarrow> kv_has (SnapshotToAttestationsMap st') s)"
proof -
  from assms(2) obtain s data st1 where store: "storeSnapshot env q t s data st = Inr st1" and add: "addRequest c s ext st1 = Inr st'"
    by (auto simp: CreateSnapshot_def)
  obtain m where m: "st' = st1\<lparr>AttestRequestsByHeightMap := m\<rparr>"
      "\<forall>h reqs x. kv_get m h = Some reqs \<and> x \<in> set reqs
        \<longrightarrow> x = s \<or> (\<exists>old. kv_get (AttestRequestsByHeightMap st1) h = Some old \<and> x \<in> set old)"
    by (rule addRequest_run [OF add])
  moreover obtain V where "SnapshotToAttestationsMap st1 = kv_set s (NewOracleAttestations V) (SnapshotToAttestationsMap st)"
      "AttestRequestsByHeightMap st1 = AttestRequestsByHeightMap st"
    by (rule storeSnapshot_run [OF store]) auto
  ultimately show ?thesis using assms(1) unfolding requests_ok_def by simp metis
qed

lemma attestLoop_keys:
  "attestLoop evm s sig i vs st = Inr st' \<Longrightarrow> kv_has (SnapshotToAttestationsMap st') x = kv_has (SnapshotToAttestationsMap st) x"
  by (induction evm s sig i vs st rule: attestLoop.induct) (auto split: if_splits simp: kv_has_def)

lemma SetOracleAttestation_keys:
  "SetOracleAttestation op s sig st = Inr st' \<Longrightarrow>
    kv_has (SnapshotToAttestationsMap st') x = kv_has (SnapshotToAttestationsMap st) x"
  by (auto simp: SetOracleAttestation_def attestLoop_keys)

lemma requests_step:
  assumes "requests_ok st" and "bridge_step env W orcs ev st st'"
  shows "requests_ok st' \<and> (\<forall>s. kv_has (SnapshotToAttestationsMap st) s \<longrightarrow> kv_has (SnapshotToAttestationsMap st') s)"
  using step_snapshots [OF assms(2)]
proof (elim disjE exE conjE)
  fix op s att
  assume run: "SetOracleAttestation op s att st = Inr st'"
  then obtain m where "st' = st\<lparr>SnapshotToAttestationsMap := m\<rparr>" using SetOracleAttestation_frame by blast
  then show ?thesis using assms(1) SetOracleAttestation_keys [OF run] by (auto simp: requests_ok_def)
next
  assume "snapshots st' = snapshots st"
  then show ?thesis using assms(1) by (simp add: snapshots_def requests_ok_def)
qed (rule CreateSnapshot_requests [OF assms(1)])

lemma requests_reachable:
  assumes "bridge_reachable env W orcs st"
  shows "requests_ok st"
  using assms
proof (rule bridge_invariant)
  fix c gen w st0
  assume "bridgeModuleInitGenesis env c gen (emptyBridge w) = Inr st0" "BlockHeight c \<le> 1" "bgBridgeValSet gen = None"
  then show "requests_ok st0" by (rule initial_state) (simp add: requests_ok_def emptyBridge_def kv_get_def)
qed (use requests_step in blast)

end
