(* ===== verification/BridgeExample.thy ===== *)
theory BridgeExample
  imports BridgeInvariant OracleTips
begin

text \<open>
  A concrete environment of the bridge for evaluations: the reference ledger, a list of validators
  that slashing and jailing mark, an encoding of values that concatenates them, the
  nonzero bytes in place of the hash, and signatures that carry the signer's address in their first byte.
\<close>

record br_world =
  bwBank :: ledger
  bwVals :: "staking_validator list"
  bwSlashed :: "(bytes \<times> int) list"

definition ex_encode :: "abi_value \<Rightarrow> bytes" where
  "ex_encode v = (case v of AbiString s \<Rightarrow> s | AbiBytes b \<Rightarrow> b | AbiBool b \<Rightarrow> if b then ''T'' else ''F''
     | AbiUint n \<Rightarrow> map (\<lambda>i. char_of (n div 256 ^ i mod 256)) [0, 1, 2, 3, 4, 5, 6, 7]
     | AbiAddress a \<Rightarrow> a | AbiOther s \<Rightarrow> s)"

definition ex_digest :: "bytes \<Rightarrow> bytes" where
  "ex_digest b = filter (\<lambda>c. c \<noteq> CHR 0x00) b"

text \<open>The codec of the deposits: a report value is the recipient's name, the deposit one of 7 TRB.\<close>

definition ex_deposit :: "bytes \<Rightarrow> abi_value list" where
  "ex_deposit b = [AbiAddress ''eve'', AbiString b, AbiUint (7000000 * 10 ^ 12), AbiUint 0]"

definition ex_find :: "(staking_validator \<Rightarrow> bool) \<Rightarrow> br_world \<Rightarrow> staking_validator result" where
  "ex_find P w = (case find P (bwVals w) of None \<Rightarrow> Inl (Err ''validator does not exist'') | Some v \<Rightarrow> Inr v)"

definition ex_b_staking :: "br_world b_staking_iface" where
  "ex_b_staking = \<lparr>
     bskGetAllValidators = (\<lambda>w. Inr (bwVals w)),
     bskGetValidator = (\<lambda>w a. ex_find (\<lambda>v. svOperator v = a) w),
     bskGetValidatorByConsAddr = (\<lambda>w a. ex_find (\<lambda>v. svConsAddr v = Inr a) w),
     bskTotalBondedTokens = (\<lambda>w. Inr 1000000),
     bskUnbondingTime = (\<lambda>w. Inr (21 * 24 * hour)),
     bskMaxValidators = (\<lambda>w. Inr 100),
     bskSlash = (\<lambda>c a h p f w. Inr (p, w\<lparr>bwSlashed := (a, p) # bwSlashed w\<rparr>)),
     bskJail = (\<lambda>c a w. Inr (w\<lparr>bwVals := map (\<lambda>v. if svConsAddr v = Inr a then v\<lparr>svJailed := True\<rparr> else v) (bwVals w)\<rparr>))\<rparr>"

abbreviation ex_b_bank :: "br_world bank_keeper" where
  "ex_b_bank \<equiv> lift_bank bwBank (\<lambda>b w. w\<lparr>bwBank := b\<rparr>) ledger_bank"

definition ex_br_env :: "br_world bridge_env" where
  "ex_br_env = \<lparr>beAuthority = ''gov'', beChainID = ''tellor-1'', beStaking = ex_b_staking, beBank = ex_b_bank,
     beTeamAddress = (\<lambda>w. Inr ''team''),
     bePack = (\<lambda>args vs. Inr (concat (map ex_encode vs))),
     beUnpack = (\<lambda>args b. Inr (ex_deposit b)),
     beKeccak = ex_digest, beSha256 = (\<lambda>b. b),
     beRecover = (\<lambda>h sig. Inr (take 1 sig)),
     beBytesToAddress = (\<lambda>b. b), beBytes2Hex = (\<lambda>b. b),
     beAccAddressFromBech32 = Inr, beValAddressFromBech32 = Inr, beBech32Val = Inr, beAccString = (\<lambda>a. a)\<rparr>"

lemma ex_br_bank_laws: "bank_laws (beBank ex_br_env)"
  using lift_bank_laws [OF ledger_bank_laws, of bwBank "\<lambda>b w. w\<lparr>bwBank := b\<rparr>"] by (simp add: ex_br_env_def)

text \<open>Three validators, two of them with a registered address, on a chain that has started.\<close>

definition ex_vals :: "staking_validator list" where
  "ex_vals = [\<lparr>svOperator = ''o1'', svConsensusPower = 30, svConsAddr = Inr ''c1'', svJailed = False\<rparr>,
     \<lparr>svOperator = ''o2'', svConsensusPower = 60, svConsAddr = Inr ''c2'', svJailed = False\<rparr>,
     \<lparr>svOperator = ''o3'', svConsensusPower = 10, svConsAddr = Inr ''c3'', svJailed = False\<rparr>]"

definition ex_br_world :: br_world where
  "ex_br_world = \<lparr>bwBank = (\<lambda>h d. if h = User ''alice'' \<and> d = BondDenom then 1000000 else 0), bwVals = ex_vals, bwSlashed = []\<rparr>"

definition ex_br_genesis :: bridge_genesis where
  "ex_br_genesis = \<lparr>bgParams = bridgeDefaultParams, bgSnapshotLimit = DefaultSnapshotLimit, bgBridgeValSet = None,
     bgValidatorCheckpoint = [], bgWithdrawalId = 0, bgOperatorToEvmAddressMap = [], bgEvmRegisteredMap = [],
     bgBridgeValsetSigsMap = [], bgValidatorCheckpointParamsMap = [], bgValidatorCheckpointIdxMap = [],
     bgLatestValidatorCheckpointIdx = 0, bgBridgeValsetByTimestampMap = [], bgValsetTimestampToIdxMap = [],
     bgDepositIdClaimedMap = []\<rparr>"

text \<open>The block of the millisecond \<open>n\<close>.\<close>

definition ex_milli :: "int \<Rightarrow> ctx" where
  "ex_milli n = \<lparr>BlockTime = n * 1000000, BlockHeight = n\<rparr>"

definition ex_br_start :: "br_world bridge_state" where
  "ex_br_start = (emptyBridge ex_br_world)\<lparr>brParams := Some bridgeDefaultParams, SnapshotLimit := Some DefaultSnapshotLimit,
     ValsetCheckpointDomainSeparator := Some (bytes32 ''checkpoint'')\<rparr>"

text \<open>The state a computation reaches.\<close>

definition reached :: "'a \<Rightarrow> 'a result \<Rightarrow> 'a" where
  "reached d r = (case r of Inl _ \<Rightarrow> d | Inr x \<Rightarrow> x)"

definition succeeded :: "'a result \<Rightarrow> bool" where
  "succeeded r = (case r of Inl _ \<Rightarrow> False | Inr _ \<Rightarrow> True)"

lemma reached_run: "succeeded r \<Longrightarrow> r = Inr (reached d r)"
  by (cases r) (simp_all add: succeeded_def reached_def)

text \<open>Two validators register, their set is saved, the third one registers and the set changes.\<close>

definition ex_reg2 :: "br_world bridge_state" where
  "ex_reg2 = ex_br_start\<lparr>OperatorToEVMAddressMap := [(''o1'', ''A''), (''o2'', ''B'')],
     EVMToOperatorAddressMap := [(''A'', ''o1''), (''B'', ''o2'')], EVMAddressRegisteredMap := [(''A'', True), (''B'', True)]\<rparr>"

definition ex_V1 :: bridge_valset where
  "ex_V1 = [\<lparr>EthereumAddress = ''B'', bvPower = 60\<rparr>, \<lparr>EthereumAddress = ''A'', bvPower = 30\<rparr>]"

definition ex_V2 :: bridge_valset where
  "ex_V2 = ex_V1 @ [\<lparr>EthereumAddress = ''C'', bvPower = 10\<rparr>]"

definition ex_hash1 :: bytes where
  "ex_hash1 = [CHR 0x20, CHR 0x02, CHR ''B'', CHR 0x3C, CHR ''A'', CHR 0x1E]"

definition ex_hash2 :: bytes where
  "ex_hash2 = [CHR 0x20, CHR 0x03, CHR ''B'', CHR 0x3C, CHR ''A'', CHR 0x1E, CHR ''C'', CHR 0x0A]"

definition ex_cp1 :: validator_checkpoint_params where
  "ex_cp1 = \<lparr>vcpCheckpoint = ''checkpoint'' @ [CHR 0x3C, CHR 0x0A] @ ex_hash1, vcpValsetHash = ex_hash1, vcpTimestamp = 10,
     vcpPowerThreshold = 60, vcpBlockHeight = 10\<rparr>"

definition ex_cp2 :: validator_checkpoint_params where
  "ex_cp2 = \<lparr>vcpCheckpoint = ''checkpoint'' @ [CHR 0x42, CHR 0x14] @ ex_hash2, vcpValsetHash = ex_hash2, vcpTimestamp = 20,
     vcpPowerThreshold = 66, vcpBlockHeight = 20\<rparr>"

definition ex_set1 :: "br_world bridge_state" where
  "ex_set1 = ex_reg2\<lparr>BridgeValset := Some ex_V1, ValidatorCheckpointParamsMap := [(10, ex_cp1)], ValidatorCheckpointIdxMap := [(0, 10)],
     LatestCheckpointIdx := Some 0, ValsetTimestampToIdxMap := [(10, 0)], ValidatorCheckpoint := Some (vcpCheckpoint ex_cp1),
     BridgeValsetByTimestampMap := [(10, ex_V1)], BridgeValsetSignaturesMap := [(10, [[], []])]\<rparr>"

definition ex_reg3 :: "br_world bridge_state" where
  "ex_reg3 = ex_set1\<lparr>OperatorToEVMAddressMap := [(''o1'', ''A''), (''o2'', ''B''), (''o3'', ''C'')],
     EVMToOperatorAddressMap := [(''A'', ''o1''), (''B'', ''o2''), (''C'', ''o3'')],
     EVMAddressRegisteredMap := [(''A'', True), (''B'', True), (''C'', True)]\<rparr>"

definition ex_bridge :: "br_world bridge_state" where
  "ex_bridge = ex_reg3\<lparr>BridgeValset := Some ex_V2, ValidatorCheckpointParamsMap := [(10, ex_cp1), (20, ex_cp2)],
     ValidatorCheckpointIdxMap := [(0, 10), (1, 20)], LatestCheckpointIdx := Some 1, ValsetTimestampToIdxMap := [(10, 0), (20, 1)],
     ValidatorCheckpoint := Some (vcpCheckpoint ex_cp2), BridgeValsetByTimestampMap := [(10, ex_V1), (20, ex_V2)],
     BridgeValsetSignaturesMap := [(10, [[], []]), (20, [[], []])]\<rparr>"

lemmas ex_states = ex_bridge_def ex_reg3_def ex_set1_def ex_reg2_def ex_br_start_def emptyBridge_def

lemma ex_br_genesis_start: "bridgeModuleInitGenesis ex_br_env (ex_milli 1) ex_br_genesis (emptyBridge ex_br_world) = Inr ex_br_start"
  by (simp add: bridgeModuleInitGenesis_def bridgeInitGenesis_def ex_br_genesis_def ex_milli_def ex_br_start_def
      SetValsetCheckpointDomainSeparator_def GetMainnetChainId_def bridgeDefaultParams_def ex_br_env_def emptyBridge_def)

text \<open>The smallest window is that of the default parameters, ten minutes.\<close>

lemma reachable_step: "bridge_reachable env W orcs st \<Longrightarrow> bridge_step env W orcs ev st st' \<Longrightarrow> bridge_reachable env W orcs st'"
  unfolding bridge_reachable_def using bridge_run.more by blast

lemma ex_reachable_start: "bridge_reachable ex_br_env 600000 orcs ex_br_start"
proof -
  have "BlockHeight (ex_milli 1) \<le> 1" "bgBridgeValSet ex_br_genesis = None" "600000 \<le> AttestRateLimitWindow (bgParams ex_br_genesis)"
    "600000 \<le> ValsetRateLimitWindow (bgParams ex_br_genesis)"
    by (simp_all add: ex_milli_def ex_br_genesis_def bridgeDefaultParams_def)
  then show ?thesis unfolding bridge_reachable_def using ex_br_genesis_start bridge_run.start by blast
qed

lemma ex_reachable_register:
  assumes "bridge_reachable ex_br_env 600000 orcs st" and "SetEVMAddressByOperator ex_br_env op evm st = Inr st'"
  shows "bridge_reachable ex_br_env 600000 orcs st'"
  using assms(1) bridge_step.registers [OF assms(2)] by (rule reachable_step)

text \<open>What a new set writes, to compare with the states above.\<close>

definition ex_view :: "(bool \<times> br_world bridge_state) result \<Rightarrow> (bridge_valset option \<times> (u64 \<times> validator_checkpoint_params) list
    \<times> (u64 \<times> u64) list \<times> u64 option \<times> (u64 \<times> u64) list \<times> bytes option \<times> (u64 \<times> bridge_valset) list \<times> (u64 \<times> bytes list) list) option" where
  "ex_view r = (case r of Inl _ \<Rightarrow> None | Inr (b, st) \<Rightarrow> Some (BridgeValset st, ValidatorCheckpointParamsMap st, ValidatorCheckpointIdxMap st,
     LatestCheckpointIdx st, ValsetTimestampToIdxMap st, ValidatorCheckpoint st, BridgeValsetByTimestampMap st, BridgeValsetSignaturesMap st))"

lemma ex_reachable_valset:
  assumes "bridge_reachable ex_br_env 600000 orcs st" and "block_later c st"
    and "ex_view (CompareAndSetBridgeValidators ex_br_env c st) = Some (v, p, i, l, u, x, y, z)"
  shows "bridge_reachable ex_br_env 600000 orcs (st\<lparr>BridgeValset := v, ValidatorCheckpointParamsMap := p, ValidatorCheckpointIdxMap := i,
      LatestCheckpointIdx := l, ValsetTimestampToIdxMap := u, ValidatorCheckpoint := x, BridgeValsetByTimestampMap := y,
      BridgeValsetSignaturesMap := z\<rparr>)"
proof -
  obtain b st' where run: "CompareAndSetBridgeValidators ex_br_env c st = Inr (b, st')"
    and view: "(BridgeValset st', ValidatorCheckpointParamsMap st', ValidatorCheckpointIdxMap st', LatestCheckpointIdx st',
      ValsetTimestampToIdxMap st', ValidatorCheckpoint st', BridgeValsetByTimestampMap st', BridgeValsetSignaturesMap st') = (v, p, i, l, u, x, y, z)"
    using assms(3) by (auto simp: ex_view_def split: sum.splits)
  have "st' = st\<lparr>BridgeValset := v, ValidatorCheckpointParamsMap := p, ValidatorCheckpointIdxMap := i,
      LatestCheckpointIdx := l, ValsetTimestampToIdxMap := u, ValidatorCheckpoint := x, BridgeValsetByTimestampMap := y,
      BridgeValsetSignaturesMap := z\<rparr>" using CompareAndSet_frame [OF run] view by auto
  then show ?thesis using reachable_step [OF assms(1) bridge_step.valset [OF run assms(2)]] by simp
qed

lemma ex_set1_reachable: "bridge_reachable ex_br_env 600000 orcs ex_set1"
proof -
  have "bindR (SetEVMAddressByOperator ex_br_env ''o1'' ''A'' ex_br_start) (SetEVMAddressByOperator ex_br_env ''o2'' ''B'') = Inr ex_reg2"
    by (simp add: SetEVMAddressByOperator_def Let_def ex_states ex_br_env_def kv_has_def kv_get_def less_char_def del: bindR_eq_Inr)
  then have "bridge_reachable ex_br_env 600000 orcs ex_reg2"
    using ex_reachable_register [OF ex_reachable_register [OF ex_reachable_start]] by auto
  then show ?thesis unfolding ex_set1_def by (rule ex_reachable_valset [where c = "ex_milli 10"]) code_simp+
qed

lemma ex_bridge_reachable: "bridge_reachable ex_br_env 600000 orcs ex_bridge"
proof -
  have "SetEVMAddressByOperator ex_br_env ''o3'' ''C'' ex_set1 = Inr ex_reg3"
    by (simp add: SetEVMAddressByOperator_def Let_def ex_states ex_br_env_def kv_has_def kv_get_def less_char_def del: bindR_eq_Inr)
  then have "bridge_reachable ex_br_env 600000 orcs ex_reg3" by (rule ex_reachable_register [OF ex_set1_reachable])
  then show ?thesis unfolding ex_bridge_def by (rule ex_reachable_valset [where c = "ex_milli 20"]) code_simp+
qed

end
