(* ===== verification/BridgeMoney.thy ===== *)
theory BridgeMoney
  imports BridgeExample
begin

text \<open>
  Tokens over the bridge: what a claim and a withdrawal do to the balances, that no deposit is
  claimed twice in any history, and how the claims made by the oracle at the end of a block
  behave.
\<close>

section \<open>Claims\<close>

lemma checkDeposit_run:
  assumes "checkDeposit env c f d t st = Inr (rcp, n)"
  obtains q agg vt p tip where "ResolveDepositAggregateByTimestamp env f d t = Inr (q, agg)" "\<not> Flagged agg"
    "\<not> kv_get_or False (DepositIdClaimedMap st) d"
    "GetValidatorSetTimestampBefore st t = Inr vt" "GetValidatorCheckpointParamsFromStorage st vt = Inr p"
    "vcpPowerThreshold p \<le> AggregatePower agg" "12 * hour \<le> BlockTime c - timeOfMilli t"
    "DecodeDepositReportValue env (brWorld st) (AggregateValueOf agg) = Inr (rcp, n, tip)" "0 < n"
  using assms by (auto simp: checkDeposit_def case_prod_beta)

lemma checkDeposit_claimed:
  assumes "kv_get_or False (DepositIdClaimedMap st) d"
  shows "\<exists>e. checkDeposit env c f d t st = Inl e"
proof (cases "checkDeposit env c f d t st")
  case (Inr x)
  then obtain rcp n where "checkDeposit env c f d t st = Inr (rcp, n)" by (cases x) simp
  then show ?thesis using assms by (auto elim: checkDeposit_run)
qed simp

lemma ClaimDeposit_claimed:
  assumes "kv_get_or False (DepositIdClaimedMap st) d"
  shows "\<exists>e. ClaimDeposit env c f d t st = (Some e, st)"
  using checkDeposit_claimed [OF assms, of env c f t] by (auto simp: ClaimDeposit_def)

lemma ClaimDeposit_success:
  assumes "ClaimDeposit env c f d t st = (None, st')"
  obtains rcp n w w' where "checkDeposit env c f d t st = Inr (rcp, n)"
    "bkMintCoins (beBank env) bridgeModule BondDenom n (brWorld st) = Inr w"
    "bkSendCoins (beBank env) (Module bridgeModule) (User rcp) BondDenom n w = Inr w'"
    "st' = st\<lparr>brWorld := w', DepositIdClaimedMap := kv_set d True (DepositIdClaimedMap st)\<rparr>"
  using assms by (rule ClaimDeposit_cases) auto

text \<open>C7: a deposit is claimed only on an aggregate that is not flagged, has the power the validator
  set before the report demands and is twelve hours old; the claim gives the recipient of the
  report its whole amount, nobody else anything, and writes nothing but the balances and the
  mark of this deposit; and whatever is reported and whenever it is tried, the same deposit
  cannot be claimed again.\<close>

theorem deposit_claimed_exactly:
  assumes "bank_laws (beBank env)" and "ClaimDeposit env c f d t st = (None, st')"
  shows "\<exists>q agg vt p rcp n tip.
    ResolveDepositAggregateByTimestamp env f d t = Inr (q, agg) \<and> \<not> Flagged agg
    \<and> GetValidatorSetTimestampBefore st t = Inr vt \<and> vt < t \<and> kv_get (ValidatorCheckpointParamsMap st) vt = Some p
    \<and> vcpPowerThreshold p \<le> AggregatePower agg \<and> 12 * hour \<le> BlockTime c - timeOfMilli t
    \<and> DecodeDepositReportValue env (brWorld st) (AggregateValueOf agg) = Inr (rcp, n, tip) \<and> 0 < n
    \<and> \<not> kv_get_or False (DepositIdClaimedMap st) d
    \<and> (\<forall>h e. bkGetBalance (beBank env) (brWorld st') h e
          = bkGetBalance (beBank env) (brWorld st) h e + (if h = User rcp \<and> e = BondDenom then n else 0))
    \<and> st' = st\<lparr>brWorld := brWorld st', DepositIdClaimedMap := kv_set d True (DepositIdClaimedMap st)\<rparr>
    \<and> (\<forall>c' f' t'. \<exists>e. ClaimDeposit env c' f' d t' st' = (Some e, st'))"
proof -
  obtain rcp n w w' where check: "checkDeposit env c f d t st = Inr (rcp, n)"
    and mint: "bkMintCoins (beBank env) bridgeModule BondDenom n (brWorld st) = Inr w"
    and send: "bkSendCoins (beBank env) (Module bridgeModule) (User rcp) BondDenom n w = Inr w'"
    and st': "st' = st\<lparr>brWorld := w', DepositIdClaimedMap := kv_set d True (DepositIdClaimedMap st)\<rparr>"
    using ClaimDeposit_success [OF assms(2)] .
  obtain q agg vt p tip where facts: "ResolveDepositAggregateByTimestamp env f d t = Inr (q, agg)" "\<not> Flagged agg"
    "\<not> kv_get_or False (DepositIdClaimedMap st) d"
    "GetValidatorSetTimestampBefore st t = Inr vt" "GetValidatorCheckpointParamsFromStorage st vt = Inr p"
    "vcpPowerThreshold p \<le> AggregatePower agg" "12 * hour \<le> BlockTime c - timeOfMilli t"
    "DecodeDepositReportValue env (brWorld st) (AggregateValueOf agg) = Inr (rcp, n, tip)" "0 < n"
    using checkDeposit_run [OF check] .
  have "vt < t" using facts(4)
    by (auto simp: GetValidatorSetTimestampBefore_def checkpointBefore_def Let_def firstOf_rev split: option.splits if_splits
        dest: last_in_set)
  moreover have "kv_get (ValidatorCheckpointParamsMap st) vt = Some p"
    using facts(5) by (simp add: GetValidatorCheckpointParamsFromStorage_def)
  moreover have "\<forall>h e. bkGetBalance (beBank env) (brWorld st') h e
      = bkGetBalance (beBank env) (brWorld st) h e + (if h = User rcp \<and> e = BondDenom then n else 0)"
    by (simp add: st' bank_send [OF assms(1) send] bank_mint [OF assms(1) mint] moved_def)
  moreover have "\<forall>c' f' t'. \<exists>e. ClaimDeposit env c' f' d t' st' = (Some e, st')"
    by (intro allI ClaimDeposit_claimed) (simp add: st' kv_get_or_def)
  moreover have "st' = st\<lparr>brWorld := brWorld st', DepositIdClaimedMap := kv_set d True (DepositIdClaimedMap st)\<rparr>" by (simp add: st')
  ultimately show ?thesis using facts by blast
qed

section \<open>Withdrawals\<close>

text \<open>C9: a withdrawal takes exactly the amount from its sender and burns it, no other balance
  changes; it gets the next id; and it leaves in the oracle, under the query id of that
  withdrawal and the time of the block, an unflagged aggregate whose value encodes the
  recipient, the sender and the amount, with the whole bonded stake as its power.\<close>

theorem withdrawal_exact:
  assumes "bank_laws (beBank env)" and "WithdrawTokens env c n a rcp (st, orc) = Inr (i, st', orc')"
  shows "(\<forall>h e. bkGetBalance (beBank env) (brWorld st') h e
          = bkGetBalance (beBank env) (brWorld st) h e - (if h = User a \<and> e = BondDenom then n else 0))
    \<and> 0 \<le> n \<and> n \<le> bkGetBalance (beBank env) (brWorld st) (User a) BondDenom
    \<and> i = (case WithdrawalId st of None \<Rightarrow> 1 | Some j \<Rightarrow> j + 1)
    \<and> st' = st\<lparr>brWorld := brWorld st', WithdrawalId := Some i\<rparr>
    \<and> (\<exists>q qd v pow agg. GetWithdrawalQueryId env TRBBridgeV2QueryType i = Inr (q, qd)
        \<and> GetWithdrawalReportValue env n a rcp = Inr v
        \<and> bskTotalBondedTokens (beStaking env) (brWorld st') = Inr pow \<and> 0 \<le> pow \<and> pow < 2 ^ 64
        \<and> GetAggregateByTimestamp orc' q (toU64 (unixMilli (BlockTime c))) = Inr agg
        \<and> AggregateValueOf agg = hexEncode v \<and> uint (AggregatePower agg) = pow \<and> \<not> Flagged agg
        \<and> BridgeDepositQueue orc' = BridgeDepositQueue orc)"
proof -
  obtain w1 w2 agg0 qd where send: "bkSendCoins (beBank env) (User a) (Module bridgeModule) BondDenom n (brWorld st) = Inr w1"
    and burn: "bkBurnCoins (beBank env) bridgeModule BondDenom n w1 = Inr w2"
    and i: "i = (case WithdrawalId st of None \<Rightarrow> 1 | Some j \<Rightarrow> j + 1)"
    and st': "st' = st\<lparr>brWorld := w2, WithdrawalId := Some i\<rparr>"
    and agg: "CreateWithdrawalAggregate env c TRBBridgeV2QueryType n a rcp i st' = Inr (agg0, qd)"
    and orc': "orc' = snd (SetAggregate c agg0 qd ''TRBBridgeV2-withdraw'' orc)"
    using assms(2) by (auto simp: WithdrawTokens_def IncrementWithdrawalId_def Let_def case_prod_beta)
  obtain q v pow u where parts: "GetWithdrawalQueryId env TRBBridgeV2QueryType i = Inr (q, qd)"
    "GetWithdrawalReportValue env n a rcp = Inr v" "bskTotalBondedTokens (beStaking env) (brWorld st') = Inr pow" "Uint64 pow = Inr u"
    "agg0 = \<lparr>agQueryId = q, AggregateValueOf = hexEncode v, AggregateReporter = beAccString env a, AggregatePower = u,
      Flagged = False, agIndex = 0, agHeight = heightOf c, MicroHeight = heightOf c, agMetaId = 0\<rparr>"
    using agg by (auto simp: CreateWithdrawalAggregate_def case_prod_beta)
  have pow: "0 \<le> pow" "pow < 2 ^ 64" "uint u = pow"
    using parts(4) by (auto simp: Uint64_def uint_word_of_int split: if_splits)
  have "\<not> isBridgeType ''TRBBridgeV2-withdraw''" by code_simp
  then have "GetAggregateByTimestamp orc' q (toU64 (unixMilli (BlockTime c)))
      = Inr (agg0\<lparr>agIndex := kv_get_or 0 (Nonces orc) q + 1, agHeight := heightOf c\<rparr>)"
    and "BridgeDepositQueue orc' = BridgeDepositQueue orc"
    by (simp_all add: orc' SetAggregate_def Let_def GetAggregateByTimestamp_def parts(5))
  moreover have "\<forall>h e. bkGetBalance (beBank env) (brWorld st') h e
      = bkGetBalance (beBank env) (brWorld st) h e - (if h = User a \<and> e = BondDenom then n else 0)"
    by (simp add: st' bank_burn [OF assms(1) burn] bank_send [OF assms(1) send] moved_def)
  moreover have "st' = st\<lparr>brWorld := brWorld st', WithdrawalId := Some i\<rparr>" by (simp add: st')
  ultimately show ?thesis using parts(1-3) pow bank_send_amount [OF assms(1) send] i
    by (intro conjI exI [of _ q] exI [of _ qd] exI [of _ v] exI [of _ pow]
        exI [of _ "agg0\<lparr>agIndex := kv_get_or 0 (Nonces orc) q + 1, agHeight := heightOf c\<rparr>"]) (auto simp: parts(5))
qed

section \<open>Histories\<close>

text \<open>
  A system that marks ids and counts: every step emits events, an id that is marked stays marked
  and is not emitted again, and the counter grows by one with every count event. The
  histories of such a system mark no id twice and count without gaps.
\<close>

locale marking_system =
  fixes step :: "'ev list \<Rightarrow> 's \<Rightarrow> 's \<Rightarrow> bool"
    and run :: "'ev list \<Rightarrow> 's \<Rightarrow> 's \<Rightarrow> bool"
    and marks :: "'ev list \<Rightarrow> 'i list"
    and counts :: "'ev list \<Rightarrow> 'n :: ring_1 list"
    and marked :: "'s \<Rightarrow> 'i set"
    and counter :: "'s \<Rightarrow> 'n"
  assumes run_induct: "run evs s s' \<Longrightarrow> (\<And>s. P [] s s) \<Longrightarrow>
      (\<And>evs s s1 ev s2. run evs s s1 \<Longrightarrow> P evs s s1 \<Longrightarrow> step ev s1 s2 \<Longrightarrow> P (evs @ ev) s s2) \<Longrightarrow> P evs s s'"
    and marks_append: "marks (xs @ ys) = marks xs @ marks ys" and marks_Nil: "marks [] = []"
    and counts_append: "counts (xs @ ys) = counts xs @ counts ys" and counts_Nil: "counts [] = []"
    and step_marks: "step ev s s' \<Longrightarrow> distinct (marks ev) \<and> set (marks ev) \<inter> marked s = {} \<and> marked s' = marked s \<union> set (marks ev)"
    and step_counts: "step ev s s' \<Longrightarrow> counts ev = [] \<and> counter s' = counter s \<or> counts ev = [counter s + 1] \<and> counter s' = counter s + 1"
begin

lemma marked_once:
  assumes "run evs s s'"
  shows "distinct (marks evs) \<and> set (marks evs) \<inter> marked s = {} \<and> marked s' = marked s \<union> set (marks evs)"
  using assms
proof (rule run_induct [where P = "\<lambda>evs s s'. distinct (marks evs) \<and> set (marks evs) \<inter> marked s = {} \<and> marked s' = marked s \<union> set (marks evs)"])
  fix evs s s1 ev s2
  assume "distinct (marks evs) \<and> set (marks evs) \<inter> marked s = {} \<and> marked s1 = marked s \<union> set (marks evs)" and "step ev s1 s2"
  then show "distinct (marks (evs @ ev)) \<and> set (marks (evs @ ev)) \<inter> marked s = {} \<and> marked s2 = marked s \<union> set (marks (evs @ ev))"
    using step_marks [of ev s1 s2] by (auto simp: marks_append)
qed (simp add: marks_Nil)

definition gapless :: "'ev list \<Rightarrow> 's \<Rightarrow> 's \<Rightarrow> bool" where
  "gapless evs s s' \<longleftrightarrow> counts evs = map (\<lambda>k. counter s + of_nat (Suc k)) [0..<length (counts evs)]
     \<and> counter s' = counter s + of_nat (length (counts evs))"

lemma counted_without_gaps:
  assumes "run evs s s'"
  shows "gapless evs s s'"
  using assms
proof (rule run_induct [where P = gapless])
  fix evs s s1 ev s2
  assume before: "gapless evs s s1" and "step ev s1 s2"
  from step_counts [OF \<open>step ev s1 s2\<close>] show "gapless (evs @ ev) s s2"
  proof (elim disjE conjE)
    assume "counts ev = [counter s1 + 1]" "counter s2 = counter s1 + 1"
    then show ?thesis using before by (simp add: gapless_def counts_append algebra_simps)
  qed (use before in \<open>simp add: gapless_def counts_append\<close>)
qed (simp add: gapless_def counts_Nil)

end

definition claimedIds :: "bridge_event list \<Rightarrow> u64 list" where
  "claimedIds evs = List.map_filter (\<lambda>ev. case ev of Claimed d _ _ \<Rightarrow> Some d | _ \<Rightarrow> None) evs"

definition withdrawnIds :: "bridge_event list \<Rightarrow> u64 list" where
  "withdrawnIds evs = List.map_filter (\<lambda>ev. case ev of Withdrew i _ _ \<Rightarrow> Some i | _ \<Rightarrow> None) evs"

definition claimedSet :: "'w bridge_state \<Rightarrow> u64 set" where
  "claimedSet st = {d. kv_get_or False (DepositIdClaimedMap st) d}"

definition lastWithdrawal :: "'w bridge_state \<Rightarrow> u64" where
  "lastWithdrawal st = (case WithdrawalId st of None \<Rightarrow> 0 | Some i \<Rightarrow> i)"

lemma map_filter_append: "List.map_filter f (xs @ ys) = List.map_filter f xs @ List.map_filter f ys"
  by (simp add: List.map_filter_def)

lemma ids_simps [simp]:
  "claimedIds [] = []" "claimedIds (xs @ ys) = claimedIds xs @ claimedIds ys"
  "claimedIds [Claimed d a n] = [d]" "claimedIds [Withdrew i a n] = []"
  "withdrawnIds [] = []" "withdrawnIds (xs @ ys) = withdrawnIds xs @ withdrawnIds ys"
  "withdrawnIds [Claimed d a n] = []" "withdrawnIds [Withdrew i a n] = [i]"
  by (simp_all add: claimedIds_def withdrawnIds_def map_filter_append List.map_filter_simps)

lemma tokens_kept:
  assumes "\<exists>w. st' = st\<lparr>brWorld := w\<rparr>"
  shows "claimedSet st' = claimedSet st \<and> lastWithdrawal st' = lastWithdrawal st"
  using assms by (auto simp: claimedSet_def lastWithdrawal_def)

lemma step_tokens:
  assumes "bridge_step env W orcs ev st st'"
  shows "(distinct (claimedIds ev) \<and> set (claimedIds ev) \<inter> claimedSet st = {} \<and> claimedSet st' = claimedSet st \<union> set (claimedIds ev))
    \<and> (withdrawnIds ev = [] \<and> lastWithdrawal st' = lastWithdrawal st
      \<or> withdrawnIds ev = [lastWithdrawal st + 1] \<and> lastWithdrawal st' = lastWithdrawal st + 1)"
  using assms
proof cases
  case (claimed c f d t rcp n)
  then have "\<not> kv_get_or False (DepositIdClaimedMap st) d" using checkDeposit_run [OF claimed(3)] by blast
  moreover from claimed(2) obtain w where "st' = st\<lparr>brWorld := w, DepositIdClaimedMap := kv_set d True (DepositIdClaimedMap st)\<rparr>"
    by (rule ClaimDeposit_success) blast
  ultimately show ?thesis using claimed(1) by (auto simp: claimedSet_def lastWithdrawal_def kv_get_or_def)
next
  case (claimFailed c f d t e)
  from claimFailed(2) have "\<exists>w. st' = st\<lparr>brWorld := w\<rparr>"
  proof (rule ClaimDeposit_cases)
    show ?thesis if "(Some e, st') = (Some e', st)" for e' using that by (intro exI [of _ "brWorld st"]) simp
  qed auto
  then show ?thesis using claimFailed(1) tokens_kept [of st' st] by simp
next
  case (withdrew c n a rcp orc i orc')
  then show ?thesis using WithdrawTokens_frame [OF withdrew(2)]
    by (auto simp: claimedSet_def lastWithdrawal_def split: option.splits)
qed (auto simp: claimedSet_def lastWithdrawal_def dest: bridge_frames)

interpretation tokenHistory: marking_system "bridge_step env W orcs" "bridge_run env W orcs" claimedIds withdrawnIds claimedSet lastWithdrawal
  for env W orcs
proof unfold_locales
  show "P evs s s'" if "bridge_run env W orcs evs s s'" "\<And>s. P [] s s"
    "\<And>evs s s1 ev s2. bridge_run env W orcs evs s s1 \<Longrightarrow> P evs s s1 \<Longrightarrow> bridge_step env W orcs ev s1 s2 \<Longrightarrow> P (evs @ ev) s s2"
    for evs s s' and P :: "bridge_event list \<Rightarrow> 'a bridge_state \<Rightarrow> 'a bridge_state \<Rightarrow> bool"
    using that(1) by induction (fact that(2,3))+
qed (use step_tokens in \<open>blast | simp\<close>)+

text \<open>C8: in every history of the bridge, whatever validators, governance, reporters and users do, no
  deposit is claimed twice and none that was claimed before, and all that were claimed are
  marked at the end; and the withdrawals get consecutive ids, in the order they are made.\<close>

theorem tokens_cross_once:
  assumes "bridge_run env W orcs evs st st'"
  shows "distinct (claimedIds evs)
    \<and> (\<forall>d \<in> set (claimedIds evs). \<not> kv_get_or False (DepositIdClaimedMap st) d)
    \<and> (\<forall>d. kv_get_or False (DepositIdClaimedMap st') d \<longleftrightarrow> kv_get_or False (DepositIdClaimedMap st) d \<or> d \<in> set (claimedIds evs))
    \<and> withdrawnIds evs = map (\<lambda>k. lastWithdrawal st + of_nat (Suc k)) [0..<length (withdrawnIds evs)]
    \<and> lastWithdrawal st' = lastWithdrawal st + of_nat (length (withdrawnIds evs))"
  using tokenHistory.marked_once [OF assms] tokenHistory.counted_without_gaps [OF assms]
  by (auto simp: claimedSet_def tokenHistory.gapless_def)

text \<open>A claim and two withdrawals.\<close>

definition ex_deposit_agg :: aggregate where
  "ex_deposit_agg = \<lparr>agQueryId = ''q'', AggregateValueOf = ''626f62'', AggregateReporter = ''r'', AggregatePower = 70,
     Flagged = False, agIndex = 0, agHeight = 30, MicroHeight = 30, agMetaId = 3\<rparr>"

definition ex_later :: ctx where
  "ex_later = \<lparr>BlockTime = 13 * hour, BlockHeight = 99\<rparr>"

definition ex_claimed :: "br_world bridge_state" where
  "ex_claimed = snd (ClaimDeposit ex_br_env ex_later (\<lambda>q t. Inr ex_deposit_agg) 4 30 ex_bridge)"

definition ex_withdraw :: "br_world bridge_state \<times> unit oracle_state \<Rightarrow> (u64 \<times> br_world bridge_state \<times> unit oracle_state) result" where
  "ex_withdraw s = WithdrawTokens ex_br_env ex_later 1000 ''alice'' ''eve'' s"

definition ex_withdrawn :: "u64 \<times> br_world bridge_state \<times> unit oracle_state" where
  "ex_withdrawn = reached (0, ex_bridge, emptyOracle ()) (ex_withdraw (ex_claimed, emptyOracle ()))"

lemma ex_claim_run: "ClaimDeposit ex_br_env ex_later (\<lambda>q t. Inr ex_deposit_agg) 4 30 ex_bridge = (None, ex_claimed)"
proof -
  have "fst (ClaimDeposit ex_br_env ex_later (\<lambda>q t. Inr ex_deposit_agg) 4 30 ex_bridge) = None" by code_simp
  then show ?thesis unfolding ex_claimed_def by (simp add: prod_eq_iff)
qed

lemma ex_withdraw_run: "ex_withdraw (ex_claimed, emptyOracle ()) = Inr ex_withdrawn"
proof -
  have "succeeded (ex_withdraw (ex_claimed, emptyOracle ()))" by code_simp
  then show ?thesis unfolding ex_withdrawn_def by (rule reached_run)
qed

theorem deposit_claimed_exactly_witness:
  "\<exists>e. ClaimDeposit ex_br_env ex_later (\<lambda>q t. Inr ex_deposit_agg) 4 30 ex_bridge = (None, ex_claimed)
    \<and> ClaimDeposit ex_br_env ex_later (\<lambda>q t. Inr ex_deposit_agg) 4 30 ex_claimed = (Some e, ex_claimed)"
  using deposit_claimed_exactly [OF ex_br_bank_laws ex_claim_run] ex_claim_run by blast

theorem withdrawal_exact_witness:
  "bwBank (brWorld (fst (snd ex_withdrawn))) (User ''alice'') BondDenom
     = bwBank (brWorld ex_claimed) (User ''alice'') BondDenom - 1000 \<and> fst ex_withdrawn = 1"
proof -
  have run: "WithdrawTokens ex_br_env ex_later 1000 ''alice'' ''eve'' (ex_claimed, emptyOracle ())
      = Inr (fst ex_withdrawn, fst (snd ex_withdrawn), snd (snd ex_withdrawn))"
    using ex_withdraw_run by (simp add: ex_withdraw_def)
  have "WithdrawalId ex_claimed = None" by code_simp
  then show ?thesis using withdrawal_exact [OF ex_br_bank_laws run]
    by (simp add: ex_br_env_def lift_bank_def ledger_bank_def)
qed

theorem tokens_cross_once_witness:
  "bridge_run ex_br_env 1 {emptyOracle ()} [Claimed 4 ''bob'' 7000000, Withdrew (fst ex_withdrawn) ''alice'' 1000]
      ex_bridge (fst (snd ex_withdrawn)) \<and> fst ex_withdrawn = 1"
proof -
  let ?evs = "[Claimed 4 ''bob'' 7000000, Withdrew (fst ex_withdrawn) ''alice'' 1000]"
  have "checkDeposit ex_br_env ex_later (\<lambda>q t. Inr ex_deposit_agg) 4 30 ex_bridge = Inr (''bob'', 7000000)" by code_simp
  then have "bridge_step ex_br_env 1 {emptyOracle ()} [Claimed 4 ''bob'' 7000000] ex_bridge ex_claimed"
    by (rule bridge_step.claimed [OF ex_claim_run])
  then have "bridge_run ex_br_env 1 {emptyOracle ()} ([] @ [Claimed 4 ''bob'' 7000000]) ex_bridge ex_claimed"
    by (rule bridge_run.more [OF bridge_run.start])
  moreover have "bridge_step ex_br_env 1 {emptyOracle ()} [Withdrew (fst ex_withdrawn) ''alice'' 1000] ex_claimed (fst (snd ex_withdrawn))"
    using ex_withdraw_run unfolding ex_withdraw_def
    by (intro bridge_step.withdrew [where orc = "emptyOracle ()" and orc' = "snd (snd ex_withdrawn)"]) simp_all
  ultimately have run: "bridge_run ex_br_env 1 {emptyOracle ()} ?evs ex_bridge (fst (snd ex_withdrawn))"
    using bridge_run.more by fastforce
  have "lastWithdrawal ex_bridge = 0" by code_simp
  moreover have "withdrawnIds ?evs = [fst ex_withdrawn]" by (simp add: withdrawnIds_def List.map_filter_simps)
  ultimately show ?thesis using tokens_cross_once [OF run] run by simp
qed

end
