(* ===== verification/BridgeOracle.thy ===== *)
theory BridgeOracle
  imports BridgeMoney
begin

text \<open>
  The oracle on top of the bridge: the oracle's keeper of the bridge is the bridge's own code, and
  the rest of the chain as the oracle sees it is the bridge's state with the bank inside.
\<close>

definition joinBridge :: "'w bridge_env \<Rightarrow> 'w bridge_state oracle_env \<Rightarrow> 'w bridge_state oracle_env" where
  "joinBridge benv oenv = oenv\<lparr>oeBank := lift_bank brWorld (\<lambda>w st. st\<lparr>brWorld := w\<rparr>) (beBank benv),
     oeBridge := \<lparr>obkGetDepositStatus = GetDepositStatus, obkClaimDeposit = ClaimDeposit benv\<rparr>\<rparr>"

lemma joinBridge_simps [simp]:
  "oeBank (joinBridge benv oenv) = lift_bank brWorld (\<lambda>w st. st\<lparr>brWorld := w\<rparr>) (beBank benv)"
  "oeReporter (joinBridge benv oenv) = oeReporter oenv"
  "obkClaimDeposit (oeBridge (joinBridge benv oenv)) = ClaimDeposit benv"
  by (simp_all add: joinBridge_def)

lemma joint_bank:
  "bank_laws (beBank benv) \<Longrightarrow> bank_laws (oeBank (joinBridge benv oenv))"
  by (simp add: lift_bank_laws)

lemma joint_balance [simp]:
  "bkGetBalance (lift_bank brWorld (\<lambda>w st. st\<lparr>brWorld := w\<rparr>) B) st = bkGetBalance B (brWorld st)"
  by (simp add: lift_bank_def)

text \<open>A claim, failed or not, takes nothing from anybody.\<close>

lemma ClaimDeposit_balances:
  assumes laws: "bank_laws (beBank env)" and run: "ClaimDeposit env c f d t st = (r, st')" and "h \<noteq> Module bridgeModule"
  shows "bkGetBalance (beBank env) (brWorld st) h e \<le> bkGetBalance (beBank env) (brWorld st') h e"
  using run
proof (rule ClaimDeposit_cases)
  fix rcp n w w'
  assume mint: "bkMintCoins (beBank env) bridgeModule BondDenom n (brWorld st) = Inr w"
    and send: "bkSendCoins (beBank env) (Module bridgeModule) (User rcp) BondDenom n w = Inr w'"
    and r: "(r, st') = (None, st\<lparr>brWorld := w', DepositIdClaimedMap := kv_set d True (DepositIdClaimedMap st)\<rparr>)"
  have "0 \<le> n" using bank_send_amount [OF laws send] by blast
  then show ?thesis using r assms(3) by (simp add: bank_send [OF laws send] bank_mint [OF laws mint] moved_def)
next
  fix e' rcp n w
  assume "(r, st') = (Some e', st\<lparr>brWorld := w\<rparr>)" and mint: "bkMintCoins (beBank env) bridgeModule BondDenom n (brWorld st) = Inr w"
  then show ?thesis using assms(3) by (simp add: bank_mint [OF laws mint])
qed simp

text \<open>What the reporter module is asked to keep: it never takes from the oracle's account.\<close>

definition reporter_keeps_escrow :: "'w bridge_env \<Rightarrow> 'w bridge_state o_reporter_iface \<Rightarrow> bool" where
  "reporter_keeps_escrow benv rk \<longleftrightarrow> (let held = (\<lambda>st. bkGetBalance (beBank benv) (brWorld st) (Module oracleModule) BondDenom) in
     (\<forall>c a q w x w'. orkReporterStake rk c a q w = Inr (x, w') \<longrightarrow> held w \<le> held w')
     \<and> (\<forall>c a w x d w'. orkGetReporterStake rk c a w = Inr (x, d, w') \<longrightarrow> held w \<le> held w')
     \<and> (\<forall>c a d n q w w'. orkSetReporterStakeByQueryId rk c a d n q w = Inr w' \<longrightarrow> held w \<le> held w')
     \<and> (\<forall>c a r w w'. orkDivvyingTips rk c a r w = Inr w' \<longrightarrow> held w \<le> held w'))"

lemma joint_env_ok:
  assumes "bank_laws (beBank benv)" and "reporter_keeps_escrow benv (oeReporter oenv)"
  shows "oracle_env_ok (joinBridge benv oenv)"
  unfolding oracle_env_ok_def
proof (intro conjI)
  show "\<forall>c f d t w. escrowed (joinBridge benv oenv) w
      \<le> escrowed (joinBridge benv oenv) (snd (obkClaimDeposit (oeBridge (joinBridge benv oenv)) c f d t w))"
    using ClaimDeposit_balances [OF assms(1), of _ _ _ _ _ _ _ "Module oracleModule" BondDenom]
    by (fastforce simp: oracleModule_def intro: prod.collapse [symmetric])
qed (use assms joint_bank [OF assms(1)] in \<open>simp_all add: reporter_keeps_escrow_def Let_def\<close>)


section \<open>A claim that fails after the mint\<close>

text \<open>When the bank refuses to send a deposit to its recipient, a blocked account say, the claim
  at the end of the block fails but the block goes on: the deposit leaves the queue unclaimed,
  and the tokens minted for it stay with the bridge module, which nobody can move.\<close>

theorem failed_claim_keeps_mint:
  assumes "bank_laws (beBank benv)"
    and "firstOf (filter (\<lambda>e. fst (fst e) \<le> toU64 (unixMilli (BlockTime c) - twelveHrsInMillis)) (BridgeDepositQueue st))
      = Some ((t, i), queryData)" and "queryData \<noteq> []"
    and "DecodeBridgeDeposit (joinBridge benv oenv) queryData = Inr d"
    and "checkDeposit benv c (GetAggregateByTimestamp st) d t (orcWorld st) = Inr (rcp, n)"
    and "bkMintCoins (beBank benv) bridgeModule BondDenom n (brWorld (orcWorld st)) = Inr w"
    and "bkSendCoins (beBank benv) (Module bridgeModule) (User rcp) BondDenom n w = Inl (Err e)"
  shows "AutoClaimDeposits (joinBridge benv oenv) c st
      = Inr (st\<lparr>orcWorld := orcWorld st\<lparr>brWorld := w\<rparr>, BridgeDepositQueue := kv_del (t, i) (BridgeDepositQueue st)\<rparr>)
    \<and> 0 < n \<and> (\<forall>h e. bkGetBalance (beBank benv) w h e
        = bkGetBalance (beBank benv) (brWorld (orcWorld st)) h e + (if h = Module bridgeModule \<and> e = BondDenom then n else 0))"
proof -
  have "ClaimDeposit benv c (GetAggregateByTimestamp st) d t (orcWorld st) = (Some (Err e), orcWorld st\<lparr>brWorld := w\<rparr>)"
    using assms(5-7) by (simp add: ClaimDeposit_def)
  moreover have "0 < n" using assms(5) by (auto elim: checkDeposit_run)
  ultimately show ?thesis using assms(2-4) by (simp add: AutoClaimDeposits_def Let_def bank_mint [OF assms(1,6)])
qed

section \<open>Evaluations\<close>

definition blocking_bank :: "ledger bank_keeper" where
  "blocking_bank = ledger_bank\<lparr>bkSendCoins := (\<lambda>a b d n w. if b = User ''bob'' then Inl (Err ''not allowed to receive funds'')
     else bkSendCoins ledger_bank a b d n w)\<rparr>"

lemma blocking_bank_laws: "bank_laws blocking_bank"
proof -
  have balance: "bkGetBalance blocking_bank = bkGetBalance ledger_bank" by (simp add: blocking_bank_def)
  have "send_law blocking_bank" unfolding send_law_def balance
  proof (intro allI impI)
    fix a b d n w w'
    assume "bkSendCoins blocking_bank a b d n w = Inr w'"
    then have "bkSendCoins ledger_bank a b d n w = Inr w'" by (simp add: blocking_bank_def split: if_splits)
    then show "0 \<le> n \<and> n \<le> bkGetBalance ledger_bank w a d
        \<and> (\<forall>h e. bkGetBalance ledger_bank w' h e = bkGetBalance ledger_bank w h e + moved a b d n h e)"
      using bank_send_amount [OF ledger_bank_laws] bank_send [OF ledger_bank_laws] by blast
  qed
  then show ?thesis using ledger_bank_laws
    by (simp add: bank_laws_def mint_law_def burn_law_def input_output_law_def blocking_bank_def)
qed

definition ex_blocking_env :: "br_world bridge_env" where
  "ex_blocking_env = ex_br_env\<lparr>beBank := lift_bank bwBank (\<lambda>b w. w\<lparr>bwBank := b\<rparr>) blocking_bank\<rparr>"

lemma ex_blocking_laws: "bank_laws (beBank ex_blocking_env)"
  using lift_bank_laws [OF blocking_bank_laws, of bwBank "\<lambda>b w. w\<lparr>bwBank := b\<rparr>"] by (simp add: ex_blocking_env_def)

text \<open>An oracle whose queries decode as the bridge deposit 4.\<close>

definition ex_joint_oracle :: "br_world bridge_state oracle_env" where
  "ex_joint_oracle = \<lparr>oeAuthority = ''gov'', oeBank = lift_bank brWorld (\<lambda>w st. st\<lparr>brWorld := w\<rparr>) ex_b_bank,
     oeReporter = \<lparr>orkReporterStake = (\<lambda>_ _ _ w. Inr (5000000, w)), orkGetReporterStake = (\<lambda>_ _ w. Inr (5000000, [], w)),
        orkSetReporterStakeByQueryId = (\<lambda>_ _ _ _ _ w. Inr w), orkDivvyingTips = (\<lambda>_ _ _ w. Inr w),
        orkGetLastReportedAtBlock = (\<lambda>_ _ _. Inr 1)\<rparr>,
     oeBridge = \<lparr>obkGetDepositStatus = GetDepositStatus, obkClaimDeposit = ClaimDeposit ex_br_env\<rparr>,
     oeGetSpec = (\<lambda>_ _. Inr (GenesisDataSpec ! 0)),
     oeUnpack = (\<lambda>args d. if map argType args = [''string'', ''bytes''] then Inr [AbiString ''TRBBridgeV2'', AbiBytes d]
        else Inr [AbiBool True, AbiUint 4]),
     oeKeccak = (\<lambda>d. take 2 d), oeDec = ref_dec,
     oeAccAddressFromBech32 = Inr, oeAccString = (\<lambda>a. a), oeMapOrder = (\<lambda>m. m)\<rparr>"

definition ex_joint :: "br_world bridge_state oracle_state" where
  "ex_joint = (emptyOracle ex_bridge)\<lparr>orcParams := Some oracleDefaultParams,
     Cyclelist := [(''bt'', ''btc''), (''et'', ''eth''), (''tr'', ''trb'')], QueryDataLimit := Some 1000\<rparr>"

definition ex_joint_tipped :: "br_world bridge_state oracle_state" where
  "ex_joint_tipped = reached ex_joint (Tip (joinBridge ex_br_env ex_joint_oracle) (ex_block 5) ex_tip ex_joint)"

lemma ex_keeps: "reporter_keeps_escrow env (oeReporter ex_joint_oracle)"
  by (simp add: reporter_keeps_escrow_def ex_joint_oracle_def)

lemma ex_joint_reachable: "oracle_reachable (joinBridge ex_br_env ex_joint_oracle) ex_joint_tipped"
proof (rule oracle_reachable.step)
  have "oracleInitGenesis (joinBridge ex_br_env ex_joint_oracle) ex_genesis_oracle (emptyOracle ex_bridge) = Inr ex_joint"
    by (simp add: oracleInitGenesis_def oracleSetParams_def validateOracleParams_def ex_genesis_oracle_def joinBridge_def
        oracleDefaultParams_def DefaultMaxTipAmount_def GenesisCycleList_def ex_joint_def ex_joint_oracle_def QueryIDFromData_def emptyOracle_def)
  moreover have "0 \<le> bwBank (brWorld ex_bridge) (Module oracleModule) BondDenom" by code_simp
  then have "0 \<le> escrowed (joinBridge ex_br_env ex_joint_oracle) ex_bridge"
    by (simp add: ex_br_env_def) (simp add: lift_bank_def ledger_bank_def)
  ultimately show "oracle_reachable (joinBridge ex_br_env ex_joint_oracle) ex_joint" by (rule oracle_reachable.genesis)
  have "succeeded (Tip (joinBridge ex_br_env ex_joint_oracle) (ex_block 5) ex_tip ex_joint)" by code_simp
  then have "Tip (joinBridge ex_br_env ex_joint_oracle) (ex_block 5) ex_tip ex_joint = Inr ex_joint_tipped"
    unfolding ex_joint_tipped_def by (rule reached_run)
  then show "oracle_step (joinBridge ex_br_env ex_joint_oracle) ex_joint ex_joint_tipped" by (rule oracle_step.tip)
qed


text \<open>The deposit 4 for the account the bank refuses.\<close>

definition ex_queued :: "br_world bridge_state oracle_state" where
  "ex_queued = ex_joint\<lparr>BridgeDepositQueue := [((30, 3), ''dep'')],
     Aggregates := [((reached [] (GetDepositQueryId ex_br_env 4), 30), ex_deposit_agg)]\<rparr>"

definition ex_minted :: br_world where
  "ex_minted = reached ex_br_world (bkMintCoins (beBank ex_blocking_env) bridgeModule BondDenom 7000000 (brWorld ex_bridge))"

theorem failed_claim_keeps_mint_witness:
  "AutoClaimDeposits (joinBridge ex_blocking_env ex_joint_oracle) ex_later ex_queued
      = Inr (ex_queued\<lparr>orcWorld := ex_bridge\<lparr>brWorld := ex_minted\<rparr>, BridgeDepositQueue := []\<rparr>)
    \<and> bkGetBalance (beBank ex_blocking_env) ex_minted (Module bridgeModule) BondDenom
      = bkGetBalance (beBank ex_blocking_env) (brWorld ex_bridge) (Module bridgeModule) BondDenom + 7000000"
proof -
  have world: "orcWorld ex_queued = ex_bridge" by (simp add: ex_queued_def ex_joint_def emptyOracle_def)
  have first: "firstOf (filter (\<lambda>e. fst (fst e) \<le> toU64 (unixMilli (BlockTime ex_later) - twelveHrsInMillis)) (BridgeDepositQueue ex_queued))
      = Some ((30, 3), ''dep'')" by code_simp
  have decoded: "DecodeBridgeDeposit (joinBridge ex_blocking_env ex_joint_oracle) ''dep'' = Inr 4" by code_simp
  have check: "checkDeposit ex_blocking_env ex_later (GetAggregateByTimestamp ex_queued) 4 30 (orcWorld ex_queued) = Inr (''bob'', 7000000)"
    by code_simp
  have "succeeded (bkMintCoins (beBank ex_blocking_env) bridgeModule BondDenom 7000000 (brWorld ex_bridge))" by code_simp
  then have mint: "bkMintCoins (beBank ex_blocking_env) bridgeModule BondDenom 7000000 (brWorld (orcWorld ex_queued)) = Inr ex_minted"
    unfolding world ex_minted_def by (rule reached_run)
  have send: "bkSendCoins (beBank ex_blocking_env) (Module bridgeModule) (User ''bob'') BondDenom 7000000 ex_minted
      = Inl (Err ''not allowed to receive funds'')"
    by (simp add: ex_blocking_env_def lift_bank_def liftW_def blocking_bank_def)
  have "kv_del (30, 3) (BridgeDepositQueue ex_queued) = []" by code_simp
  then show ?thesis
    using failed_claim_keeps_mint [OF ex_blocking_laws first _ decoded check mint send] by (simp add: world)
qed

end
