(* ===== verification/BridgeChain.thy ===== *)
theory BridgeChain
  imports BridgeInvariant
begin

text \<open>
  The chain of checkpoints. Every index up to the latest has its validator set, its checkpoint
  and a list of signatures with one place per validator of the set before it; the timestamps
  increase with the index; the latest one is the saved set.
\<close>

section \<open>Indices\<close>

lemma u64_le_succ:
  assumes "(n :: u64) + 1 \<noteq> 0"
  shows "i \<le> n + 1 \<longleftrightarrow> i \<le> n \<or> i = n + 1"
proof -
  have "uint (n + 1) = uint n + 1" using assms by (rule u64_less_succ(2))
  then show ?thesis by (auto simp: word_le_def word_uint_eq_iff)
qed

lemma u64_pred:
  assumes "(i :: u64) \<noteq> 0"
  shows "i - 1 < i" and "i - 1 + 1 = i"
  using assms u64_less_succ(1) [of "i - 1"] by simp_all

section \<open>The invariant\<close>

abbreviation idxAt :: "'w bridge_state \<Rightarrow> u64 \<Rightarrow> u64 option" where
  "idxAt st i \<equiv> kv_get (ValidatorCheckpointIdxMap st) i"

definition powerThresholdOf :: "bridge_valset \<Rightarrow> u64" where
  "powerThresholdOf valset = fold (\<lambda>v s. s + bvPower v) valset 0 * 2 div 3"

text \<open>The validators that sign the set with an index: the set before it.\<close>

definition signersAt :: "'w bridge_state \<Rightarrow> u64 \<Rightarrow> bridge_valset option" where
  "signersAt st i = (case idxAt st (if i = 0 then 0 else i - 1) of None \<Rightarrow> None | Some t \<Rightarrow> kv_get (BridgeValsetByTimestampMap st) t)"

definition checkpoint_ok :: "'w bridge_env \<Rightarrow> 'w bridge_state \<Rightarrow> u64 \<Rightarrow> u64 \<Rightarrow> bool" where
  "checkpoint_ok env st i t \<longleftrightarrow> kv_get (ValsetTimestampToIdxMap st) t = Some i
     \<and> (\<exists>V p. kv_get (BridgeValsetByTimestampMap st) t = Some V \<and> kv_get (ValidatorCheckpointParamsMap st) t = Some p
          \<and> vcpTimestamp p = t \<and> vcpPowerThreshold p = powerThresholdOf V
          \<and> EncodeValsetCheckpoint env (vcpPowerThreshold p) t (vcpValsetHash p) st = Inr (vcpCheckpoint p))
     \<and> (\<exists>S U. kv_get (BridgeValsetSignaturesMap st) t = Some S \<and> signersAt st i = Some U \<and> length S = length U)"

definition chain_ok :: "'w bridge_env \<Rightarrow> 'w bridge_state \<Rightarrow> bool" where
  "chain_ok env st \<longleftrightarrow>
     (\<forall>t. kv_has (ValidatorCheckpointParamsMap st) t \<or> kv_has (BridgeValsetByTimestampMap st) t \<or> kv_has (ValsetTimestampToIdxMap st) t
          \<or> kv_has (BridgeValsetSignaturesMap st) t \<longrightarrow> (\<exists>i. idxAt st i = Some t))
     \<and> kv_ok (ValidatorCheckpointParamsMap st)
     \<and> (case LatestCheckpointIdx st of
          None \<Rightarrow> BridgeValset st = None \<and> (\<forall>i. idxAt st i = None)
        | Some n \<Rightarrow>
            (\<forall>i. idxAt st i \<noteq> None \<longleftrightarrow> i \<le> n) \<and> (\<forall>i t. idxAt st i = Some t \<longrightarrow> checkpoint_ok env st i t)
            \<and> (\<forall>i j t u. idxAt st i = Some t \<and> idxAt st j = Some u \<and> i < j \<longrightarrow> t < u)
            \<and> (\<exists>t p. idxAt st n = Some t \<and> BridgeValset st = kv_get (BridgeValsetByTimestampMap st) t
                 \<and> kv_get (ValidatorCheckpointParamsMap st) t = Some p \<and> ValidatorCheckpoint st = Some (vcpCheckpoint p)))"

lemma EncodeValsetCheckpoint_same:
  assumes "ValsetCheckpointDomainSeparator st' = ValsetCheckpointDomainSeparator st"
  shows "EncodeValsetCheckpoint env a b h st' = EncodeValsetCheckpoint env a b h st"
  using assms by (simp add: EncodeValsetCheckpoint_def)

text \<open>All that is stored is older than the block and below the next index.\<close>

lemma index_room:
  assumes "block_later c st" and "LatestCheckpointIdx st = Some k"
  shows "k + 1 \<noteq> 0"
  using assms by (auto simp: block_later_def eq_neg_iff_add_eq_0 add.commute)

lemma chain_before:
  assumes chain: "chain_ok env st" and later: "block_later c st" and iu: "idxAt st i = Some u"
  shows "u < toU64 (unixMilli (BlockTime c)) \<and> i < (case LatestCheckpointIdx st of None \<Rightarrow> 0 | Some k \<Rightarrow> k + 1)"
proof (cases "LatestCheckpointIdx st")
  case None
  then show ?thesis using chain iu by (simp add: chain_ok_def)
next
  case (Some k)
  then have "i \<le> k" "checkpoint_ok env st i u" using chain iu by (auto simp: chain_ok_def)
  moreover have "k < k + 1" using index_room [OF later Some] by (rule u64_less_succ)
  moreover obtain p where "kv_get (ValidatorCheckpointParamsMap st) u = Some p"
    using \<open>checkpoint_ok env st i u\<close> by (auto simp: checkpoint_ok_def)
  then have "(u, p) \<in> set (ValidatorCheckpointParamsMap st)" using chain by (simp add: chain_ok_def kv_get_mem)
  then have "u < toU64 (unixMilli (BlockTime c))" using later by (force simp: block_later_def)
  ultimately show ?thesis using Some by simp
qed

text \<open>The checkpoint that a new set appends.\<close>

lemma SetBridgeValidatorParams_chain:
  assumes chain: "chain_ok env st" and later: "block_later c st"
    and run: "SetBridgeValidatorParams env c current (st\<lparr>BridgeValset := Some current\<rparr>) = Inr st'"
  shows "chain_ok env st'"
proof -
  obtain hash checkpoint n t signers where
    t: "t = toU64 (unixMilli (BlockTime c))"
    and enc: "EncodeValsetCheckpoint env (powerThresholdOf current) t hash (st\<lparr>BridgeValset := Some current\<rparr>) = Inr checkpoint"
    and n: "n = (case LatestCheckpointIdx st of None \<Rightarrow> 0 | Some i \<Rightarrow> i + 1)"
    and first: "n = 0 \<Longrightarrow> signers = current"
    and prev: "n \<noteq> 0 \<Longrightarrow> \<exists>t0. kv_get (kv_set n t (ValidatorCheckpointIdxMap st)) (n - 1) = Some t0
        \<and> kv_get (kv_set t current (BridgeValsetByTimestampMap st)) t0 = Some signers"
    and st': "st' = st\<lparr>BridgeValset := Some current, ValidatorCheckpointParamsMap := kv_set t
           \<lparr>vcpCheckpoint = checkpoint, vcpValsetHash = hash, vcpTimestamp = t,
            vcpPowerThreshold = powerThresholdOf current, vcpBlockHeight = heightOf c\<rparr>
           (ValidatorCheckpointParamsMap st),
         ValidatorCheckpointIdxMap := kv_set n t (ValidatorCheckpointIdxMap st), LatestCheckpointIdx := Some n,
         ValsetTimestampToIdxMap := kv_set t n (ValsetTimestampToIdxMap st), ValidatorCheckpoint := Some checkpoint,
         BridgeValsetByTimestampMap := kv_set t current (BridgeValsetByTimestampMap st),
         BridgeValsetSignaturesMap := kv_set t (NewBridgeValsetSignatures (length signers)) (BridgeValsetSignaturesMap st)\<rparr>"
    by (rule SetBridgeValidatorParams_run [OF run], rule that) (simp_all add: powerThresholdOf_def)
  have enc': "EncodeValsetCheckpoint env (powerThresholdOf current) t hash st' = Inr checkpoint"
    using enc EncodeValsetCheckpoint_same [of st' "st\<lparr>BridgeValset := Some current\<rparr>"] by (simp add: st')
  have old: "u < t \<and> i < n" if "idxAt st i = Some u" for i u
    using chain_before [OF chain later that] by (simp add: n t)
  have idxAt': "idxAt st' i = (if i = n then Some t else idxAt st i)" for i by (simp add: st')
  have new: "idxAt st n = None" using old [of n] by (cases "idxAt st n") auto
  have none: "idxAt st i \<noteq> Some t" for i using old [of i t] by auto
  have fresh: "\<not> kv_has (ValidatorCheckpointParamsMap st) t" "\<not> kv_has (BridgeValsetByTimestampMap st) t"
      "\<not> kv_has (ValsetTimestampToIdxMap st) t" "\<not> kv_has (BridgeValsetSignaturesMap st) t"
    using chain none unfolding chain_ok_def by blast+
  have upto: "idxAt st' i \<noteq> None \<longleftrightarrow> i \<le> n" for i
  proof (cases "LatestCheckpointIdx st")
    case None
    then show ?thesis using chain n by (simp add: idxAt' chain_ok_def)
  next
    case (Some k)
    have "k + 1 \<noteq> 0" using later Some by (rule index_room)
    then show ?thesis using Some chain n u64_le_succ [of k i] by (simp add: idxAt' chain_ok_def)
  qed
  have signers': "signersAt st' i = (if i = n then Some signers else signersAt st i)" if i: "i \<le> n" for i
  proof (cases "i = n")
    case True
    then show ?thesis using first prev by (cases "n = 0") (auto simp: signersAt_def st')
  next
    case False
    let ?j = "if i = 0 then 0 else i - 1"
    have "?j \<le> i" using u64_pred(1) [of i] by auto
    then have "?j \<noteq> n" using False i by auto
    then show ?thesis using False none by (auto simp: signersAt_def idxAt' st' split: option.split)
  qed
  have entry: "checkpoint_ok env st' i u" if iu: "idxAt st' i = Some u" for i u
  proof (cases "i = n")
    case True
    then show ?thesis using iu enc' signers' [of n] by (simp add: checkpoint_ok_def idxAt') (simp add: st' NewBridgeValsetSignatures_def)
  next
    case False
    then have was: "idxAt st i = Some u" "u \<noteq> t" "i \<le> n" using iu none [of i] old [of i u] by (auto simp: idxAt')
    then have "checkpoint_ok env st i u" using chain by (auto simp: chain_ok_def split: option.splits)
    then show ?thesis using was False signers' [of i] EncodeValsetCheckpoint_same [of st' st env]
      by (simp add: checkpoint_ok_def st')
  qed
  have mono: "a < b" if "idxAt st' i = Some a" "idxAt st' j = Some b" "i < j" for i j a b
  proof -
    have "idxAt st j = Some b \<Longrightarrow> idxAt st i = Some a \<Longrightarrow> a < b" using chain that(3) by (auto simp: chain_ok_def split: option.splits)
    then show ?thesis using that old [of i a] old [of j b] by (auto simp: idxAt' split: if_splits)
  qed
  have keys: "\<exists>i. idxAt st' i = Some u" if "kv_has (ValidatorCheckpointParamsMap st') u \<or> kv_has (BridgeValsetByTimestampMap st') u
      \<or> kv_has (ValsetTimestampToIdxMap st') u \<or> kv_has (BridgeValsetSignaturesMap st') u" for u
  proof (cases "u = t")
    case True
    then show ?thesis by (auto simp: idxAt')
  next
    case False
    then have "kv_has (ValidatorCheckpointParamsMap st) u \<or> kv_has (BridgeValsetByTimestampMap st) u
        \<or> kv_has (ValsetTimestampToIdxMap st) u \<or> kv_has (BridgeValsetSignaturesMap st) u" using that by (simp add: st')
    then obtain i where "idxAt st i = Some u" using chain unfolding chain_ok_def by blast
    then show ?thesis using new by (intro exI [of _ i]) (auto simp: idxAt')
  qed
  have ok: "kv_ok (ValidatorCheckpointParamsMap st')" using chain by (simp add: st' chain_ok_def)
  have latest: "\<exists>u p. idxAt st' n = Some u \<and> BridgeValset st' = kv_get (BridgeValsetByTimestampMap st') u
      \<and> kv_get (ValidatorCheckpointParamsMap st') u = Some p \<and> ValidatorCheckpoint st' = Some (vcpCheckpoint p)"
    by (simp add: st')
  have "LatestCheckpointIdx st' = Some n" by (simp add: st')
  then show ?thesis unfolding chain_ok_def using keys ok upto entry mono latest by simp blast
qed

section \<open>Every step keeps it\<close>

lemma placeSignature_length [simp]: "length (placeSignature evm sig i vs sigs) = length sigs"
  by (induction evm sig i vs sigs rule: placeSignature.induct) (simp_all add: SetSignature_def)

lemma SetBridgeValsetSignature_lengths:
  assumes "SetBridgeValsetSignature op t sig st = Inr st'"
  shows "map_option length (kv_get (BridgeValsetSignaturesMap st') u) = map_option length (kv_get (BridgeValsetSignaturesMap st) u)"
  using assms by (auto simp: SetBridgeValsetSignature_def split: if_splits)

lemma chain_same:
  assumes "chain_ok env st" and parts: "checkpoints st' = checkpoints st"
    and sep: "ValsetCheckpointDomainSeparator st' = ValsetCheckpointDomainSeparator st"
    and sigs: "\<And>u. map_option length (kv_get (BridgeValsetSignaturesMap st') u) = map_option length (kv_get (BridgeValsetSignaturesMap st) u)"
  shows "chain_ok env st'"
proof -
  have same: "BridgeValset st' = BridgeValset st" "ValidatorCheckpoint st' = ValidatorCheckpoint st"
    "ValidatorCheckpointParamsMap st' = ValidatorCheckpointParamsMap st" "ValidatorCheckpointIdxMap st' = ValidatorCheckpointIdxMap st"
    "LatestCheckpointIdx st' = LatestCheckpointIdx st" "BridgeValsetByTimestampMap st' = BridgeValsetByTimestampMap st"
    "ValsetTimestampToIdxMap st' = ValsetTimestampToIdxMap st"
    using parts by (simp_all add: checkpoints_def)
  have has: "kv_has (BridgeValsetSignaturesMap st') u \<longleftrightarrow> kv_has (BridgeValsetSignaturesMap st) u" for u
    using sigs [of u] by (cases "kv_get (BridgeValsetSignaturesMap st) u") (auto simp: kv_has_def)
  have len: "(\<exists>S. kv_get (BridgeValsetSignaturesMap st') u = Some S \<and> P (length S))
      \<longleftrightarrow> (\<exists>S. kv_get (BridgeValsetSignaturesMap st) u = Some S \<and> P (length S))" for u P
    using sigs [of u] by (cases "kv_get (BridgeValsetSignaturesMap st) u"; cases "kv_get (BridgeValsetSignaturesMap st') u") auto
  have signers: "signersAt st' i = signersAt st i" for i unfolding signersAt_def same ..
  have "checkpoint_ok env st' i u" if "checkpoint_ok env st i u" for i u
    using that len [of u "\<lambda>k. \<exists>U. signersAt st i = Some U \<and> k = length U"] EncodeValsetCheckpoint_same [OF sep, of env]
    by (simp add: checkpoint_ok_def signers same)
  then show ?thesis using assms(1) unfolding chain_ok_def same has by (auto split: option.splits)
qed

lemma chain_step:
  assumes "chain_ok env st" and "bridge_step env W orcs ev st st'"
  shows "chain_ok env st'"
  using step_checkpoints [OF assms(2)]
proof (elim disjE conjE exE)
  fix c b
  assume later: "block_later c st" and "CompareAndSetBridgeValidators env c st = Inr (b, st')"
  from this(2) show ?thesis
    by (rule CompareAndSet_run) (use assms(1) SetBridgeValidatorParams_chain [OF assms(1) later] in \<open>blast | simp\<close>)+
next
  fix op t sig
  assume "checkpoints st' = checkpoints st" and "SetBridgeValsetSignature op t sig st = Inr st'"
  then show ?thesis by (intro chain_same [OF assms(1) _ step_separator [OF assms(2)]]) (simp_all add: SetBridgeValsetSignature_lengths)
qed (simp add: chain_same [OF assms(1) _ step_separator [OF assms(2)]])

lemma chain_reachable:
  assumes "bridge_reachable env W orcs st"
  shows "chain_ok env st"
  using assms
proof (rule bridge_invariant)
  fix c gen w st0
  assume "bridgeModuleInitGenesis env c gen (emptyBridge w) = Inr st0" "BlockHeight c \<le> 1" "bgBridgeValSet gen = None"
  then show "chain_ok env st0" by (rule initial_state) (simp add: chain_ok_def emptyBridge_def kv_has_def kv_get_def)
qed (rule chain_step)

end
