(* ===== verification/BridgeSafety.thy ===== *)
theory BridgeSafety
  imports BridgeMoney BridgeChain
begin

text \<open>
  Validator sets, signatures and evidence: the chain of checkpoints, the order and distinctness of
  the current set, the rate limit of slashing, and that what an honest validator signs is
  never evidence against it.
\<close>

section \<open>Checkpoints\<close>

text \<open>C10: in every reachable state the checkpoints form a chain without gaps from index zero to the
  latest, with growing timestamps; each has its validator set, parameters that demand two
  thirds of that set's power and hash to the checkpoint, and one place for a signature per
  validator of the set before it; the set saved last and the current checkpoint are those of
  the latest index.\<close>

theorem checkpoint_chain:
  assumes "bridge_reachable env W orcs st" and "LatestCheckpointIdx st = Some n"
  shows "(\<forall>i. kv_get (ValidatorCheckpointIdxMap st) i \<noteq> None \<longleftrightarrow> i \<le> n)
    \<and> (\<forall>i j t u. kv_get (ValidatorCheckpointIdxMap st) i = Some t \<and> kv_get (ValidatorCheckpointIdxMap st) j = Some u \<and> i < j \<longrightarrow> t < u)
    \<and> (\<forall>i t. kv_get (ValidatorCheckpointIdxMap st) i = Some t \<longrightarrow>
        kv_get (ValsetTimestampToIdxMap st) t = Some i
        \<and> (\<exists>V p. kv_get (BridgeValsetByTimestampMap st) t = Some V \<and> kv_get (ValidatorCheckpointParamsMap st) t = Some p
            \<and> vcpPowerThreshold p = fold (\<lambda>v s. s + bvPower v) V 0 * 2 div 3
            \<and> EncodeValsetCheckpoint env (vcpPowerThreshold p) t (vcpValsetHash p) st = Inr (vcpCheckpoint p)
            \<and> (i = n \<longrightarrow> BridgeValset st = Some V \<and> ValidatorCheckpoint st = Some (vcpCheckpoint p)))
        \<and> (\<exists>S. kv_get (BridgeValsetSignaturesMap st) t = Some S
            \<and> (\<forall>t' U. i \<noteq> 0 \<and> kv_get (ValidatorCheckpointIdxMap st) (i - 1) = Some t' \<and> kv_get (BridgeValsetByTimestampMap st) t' = Some U
               \<longrightarrow> length S = length U)))"
proof -
  have chain: "\<forall>i. idxAt st i \<noteq> None \<longleftrightarrow> i \<le> n" "\<And>i t. idxAt st i = Some t \<Longrightarrow> checkpoint_ok env st i t"
      "\<forall>i j t u. idxAt st i = Some t \<and> idxAt st j = Some u \<and> i < j \<longrightarrow> t < u"
    and latest: "\<exists>t p. idxAt st n = Some t \<and> BridgeValset st = kv_get (BridgeValsetByTimestampMap st) t
      \<and> kv_get (ValidatorCheckpointParamsMap st) t = Some p \<and> ValidatorCheckpoint st = Some (vcpCheckpoint p)"
    using chain_reachable [OF assms(1)] assms(2) by (simp_all add: chain_ok_def)
  have entry: "kv_get (ValsetTimestampToIdxMap st) t = Some i
        \<and> (\<exists>V p. kv_get (BridgeValsetByTimestampMap st) t = Some V \<and> kv_get (ValidatorCheckpointParamsMap st) t = Some p
            \<and> vcpPowerThreshold p = fold (\<lambda>v s. s + bvPower v) V 0 * 2 div 3
            \<and> EncodeValsetCheckpoint env (vcpPowerThreshold p) t (vcpValsetHash p) st = Inr (vcpCheckpoint p)
            \<and> (i = n \<longrightarrow> BridgeValset st = Some V \<and> ValidatorCheckpoint st = Some (vcpCheckpoint p)))
        \<and> (\<exists>S. kv_get (BridgeValsetSignaturesMap st) t = Some S
            \<and> (\<forall>t' U. i \<noteq> 0 \<and> idxAt st (i - 1) = Some t' \<and> kv_get (BridgeValsetByTimestampMap st) t' = Some U
               \<longrightarrow> length S = length U))" if it: "idxAt st i = Some t" for i t
  proof (intro conjI)
    note ok = chain(2) [OF it, unfolded checkpoint_ok_def]
    show "kv_get (ValsetTimestampToIdxMap st) t = Some i" using ok by blast
    obtain V p where V: "kv_get (BridgeValsetByTimestampMap st) t = Some V" "kv_get (ValidatorCheckpointParamsMap st) t = Some p"
      "vcpPowerThreshold p = powerThresholdOf V"
      "EncodeValsetCheckpoint env (vcpPowerThreshold p) t (vcpValsetHash p) st = Inr (vcpCheckpoint p)" using ok by blast
    moreover have "BridgeValset st = Some V \<and> ValidatorCheckpoint st = Some (vcpCheckpoint p)" if "i = n"
      using latest that it V(1,2) by auto
    ultimately show "\<exists>V p. kv_get (BridgeValsetByTimestampMap st) t = Some V \<and> kv_get (ValidatorCheckpointParamsMap st) t = Some p
        \<and> vcpPowerThreshold p = fold (\<lambda>v s. s + bvPower v) V 0 * 2 div 3
        \<and> EncodeValsetCheckpoint env (vcpPowerThreshold p) t (vcpValsetHash p) st = Inr (vcpCheckpoint p)
        \<and> (i = n \<longrightarrow> BridgeValset st = Some V \<and> ValidatorCheckpoint st = Some (vcpCheckpoint p))"
      unfolding powerThresholdOf_def by blast
    obtain S U where "kv_get (BridgeValsetSignaturesMap st) t = Some S" "signersAt st i = Some U" "length S = length U"
      using ok by blast
    then show "\<exists>S. kv_get (BridgeValsetSignaturesMap st) t = Some S
        \<and> (\<forall>t' U. i \<noteq> 0 \<and> idxAt st (i - 1) = Some t' \<and> kv_get (BridgeValsetByTimestampMap st) t' = Some U \<longrightarrow> length S = length U)"
      by (auto simp: signersAt_def split: option.splits)
  qed
  show ?thesis using chain(1,3) entry by blast
qed

section \<open>The current set\<close>

lemma evm_operator:
  assumes "registered_ok env st" and "kv_get (OperatorToEVMAddressMap st) a = Some evm"
    and "kv_get (OperatorToEVMAddressMap st) b = Some evm"
  shows "beValAddressFromBech32 env a = beValAddressFromBech32 env b"
  using assms unfolding registered_ok_def by (metis option.inject)

lemma distinct_map_filter:
  assumes "distinct xs" and "\<And>x y z. x \<in> set xs \<Longrightarrow> y \<in> set xs \<Longrightarrow> f x = Some z \<Longrightarrow> f y = Some z \<Longrightarrow> x = y"
  shows "distinct (List.map_filter f xs)"
  using assms by (induction xs) (fastforce simp: List.map_filter_def split: option.splits)+

lemma set_map_filter: "set (List.map_filter f xs) = {y. \<exists>x \<in> set xs. f x = Some y}"
  by (induction xs) (auto simp: List.map_filter_simps split: option.splits)

lemma map_filter_map: "map g (List.map_filter f xs) = List.map_filter (map_option g \<circ> f) xs"
  by (induction xs) (auto simp: List.map_filter_simps split: option.splits)

text \<open>C11: the current validator set holds exactly the validators of the staking module with a
  registered EVM address and some power, each with its power; no address occurs twice, since
  a registered address leads back to one operator; and the set is in the order the EVM
  contracts see, by falling power and then by address.\<close>

theorem valset_well_formed:
  assumes "bridge_reachable env W orcs st" and "bskGetAllValidators (beStaking env) (brWorld st) = Inr vs"
    and "distinct (map (\<lambda>v. beValAddressFromBech32 env (svOperator v)) vs)"
    and "GetCurrentValidatorsEVMCompatible env st = Inr V"
  shows "distinct (map EthereumAddress V)
    \<and> sorted (map (\<lambda>v. (- uint (bvPower v), EthereumAddress v)) V)
    \<and> set V = {\<lparr>EthereumAddress = evm, bvPower = toU64 (svConsensusPower v)\<rparr> | v evm.
        v \<in> set vs \<and> kv_get (OperatorToEVMAddressMap st) (svOperator v) = Some evm \<and> svConsensusPower v \<noteq> 0}
    \<and> V \<noteq> []"
proof -
  let ?V = "List.map_filter (evmValidator st) vs"
  have V: "V = sort_key valsetOrder ?V" "?V \<noteq> []"
    using assms(2,4) by (auto simp: GetCurrentValidatorsEVMCompatible_def Let_def split: if_splits)
  have dist: "distinct vs" using assms(3) by (simp add: distinct_map)
  have "distinct (List.map_filter (map_option EthereumAddress \<circ> evmValidator st) vs)"
  proof (rule distinct_map_filter [OF dist])
    fix x y z
    assume xy: "x \<in> set vs" "y \<in> set vs" and "(map_option EthereumAddress \<circ> evmValidator st) x = Some z"
      "(map_option EthereumAddress \<circ> evmValidator st) y = Some z"
    then have "kv_get (OperatorToEVMAddressMap st) (svOperator x) = Some z" "kv_get (OperatorToEVMAddressMap st) (svOperator y) = Some z"
      by (auto simp: evmValidator_def split: option.splits if_splits)
    then have "beValAddressFromBech32 env (svOperator x) = beValAddressFromBech32 env (svOperator y)"
      by (rule evm_operator [OF registered_reachable [OF assms(1)]])
    then show "x = y" using assms(3) xy by (auto simp: distinct_map inj_on_def)
  qed
  then have "distinct (map EthereumAddress ?V)" by (simp add: map_filter_map)
  then have "distinct (map EthereumAddress V)" by (simp add: V(1) distinct_map)
  moreover have "sorted (map (\<lambda>v. (- uint (bvPower v), EthereumAddress v)) V)"
    using sorted_sort_key [of valsetOrder ?V] by (simp add: V(1) valsetOrder_def [abs_def])
  moreover have "set ?V = {\<lparr>EthereumAddress = evm, bvPower = toU64 (svConsensusPower v)\<rparr> | v evm.
        v \<in> set vs \<and> kv_get (OperatorToEVMAddressMap st) (svOperator v) = Some evm \<and> svConsensusPower v \<noteq> 0}"
    unfolding set_map_filter by (auto simp: evmValidator_def split: option.splits if_splits)
  ultimately show ?thesis using V by (metis set_sort sort_key_simps(1) set_empty)
qed

section \<open>Evidence\<close>

text \<open>C23: however evidence is submitted, with whatever timestamps and in whatever order, two accepted
  pieces of evidence of one kind against one validator are at least the smallest rate limit
  window ever in force apart, so within any window a validator is slashed at most once for
  attestations and once for validator sets.\<close>

theorem evidence_spaced:
  assumes "bridge_reachable env W orcs st" and "t < u"
  shows "(kv_has (AttestationEvidenceSubmitted st) (op, t) \<and> kv_has (AttestationEvidenceSubmitted st) (op, u)
      \<longrightarrow> uint W \<le> uint u - uint t)
    \<and> (kv_has (ValsetSignatureEvidenceSubmitted st) (op, t) \<and> kv_has (ValsetSignatureEvidenceSubmitted st) (op, u)
      \<longrightarrow> uint W \<le> uint u - uint t)"
  using evidence_reachable [OF assms(1)] assms(2) unfolding evidence_ok_def spaced_def by blast

text \<open>What is stored stays: snapshots, and checkpoints with their sets.\<close>

lemma step_snapshot_kept:
  assumes "bridge_step env W orcs ev st st'" and "kv_has (SnapshotToAttestationsMap st) s"
  shows "kv_has (SnapshotToAttestationsMap st') s"
  using step_snapshots [OF assms(1)]
proof (elim disjE exE conjE)
  fix c orc q t ext
  assume "CreateSnapshot env c orc q t ext st = Inr st'"
  then obtain s' data st1 where "storeSnapshot env q t s' data st = Inr st1" and add: "addRequest c s' ext st1 = Inr st'"
    by (auto simp: CreateSnapshot_def)
  from this(1) have "kv_has (SnapshotToAttestationsMap st1) s" by (rule storeSnapshot_run) (use assms(2) in simp)
  then show ?thesis by (rule_tac addRequest_run [OF add]) simp
next
  fix op s' att
  assume "SetOracleAttestation op s' att st = Inr st'"
  then show ?thesis using assms(2) by (simp add: SetOracleAttestation_keys)
qed (use assms(2) in \<open>simp add: snapshots_def\<close>)

lemma step_checkpoint_kept:
  assumes "bridge_step env W orcs ev st st'" and p: "kv_get (ValidatorCheckpointParamsMap st) t = Some p"
  shows "kv_get (ValidatorCheckpointParamsMap st') t = Some p
    \<and> kv_get (BridgeValsetByTimestampMap st') t = kv_get (BridgeValsetByTimestampMap st) t"
  using step_checkpoints [OF assms(1)]
proof (elim disjE exE conjE)
  fix c b
  assume later: "block_later c st" and "CompareAndSetBridgeValidators env c st = Inr (b, st')"
  from this(2) show ?thesis
  proof (rule CompareAndSet_run)
    fix current
    assume run: "SetBridgeValidatorParams env c current (st\<lparr>BridgeValset := Some current\<rparr>) = Inr st'"
    have "(t, p) \<in> set (ValidatorCheckpointParamsMap st)" using p by (auto simp: kv_get_def dest: map_of_SomeD)
    then have "t \<noteq> toU64 (unixMilli (BlockTime c))" using later by (force simp: block_later_def)
    then show ?thesis using p by (rule_tac SetBridgeValidatorParams_run [OF run]) simp
  qed (use p in simp)
qed (use p in \<open>simp_all add: checkpoints_def\<close>)

lemma chain_set:
  assumes "chain_ok env st" and "kv_get (ValidatorCheckpointParamsMap st) t = Some p"
  obtains V where "kv_get (BridgeValsetByTimestampMap st) t = Some V"
proof -
  have "kv_has (ValidatorCheckpointParamsMap st) t" using assms(2) by (simp add: kv_has_def)
  then obtain i where "idxAt st i = Some t" using assms(1) unfolding chain_ok_def by blast
  then have "checkpoint_ok env st i t" using assms(1) by (auto simp: chain_ok_def split: option.splits)
  then show ?thesis using that by (auto simp: checkpoint_ok_def)
qed

lemma run_kept:
  assumes "bridge_run env W orcs evs st st'"
  shows "(kv_has (SnapshotToAttestationsMap st) s \<longrightarrow> kv_has (SnapshotToAttestationsMap st') s)
    \<and> (kv_get (ValidatorCheckpointParamsMap st) t = Some p \<longrightarrow> kv_get (ValidatorCheckpointParamsMap st') t = Some p
      \<and> kv_get (BridgeValsetByTimestampMap st') t = kv_get (BridgeValsetByTimestampMap st) t)"
  using assms
proof induction
  case (more evs st st1 ev st2)
  then show ?case using step_snapshot_kept [OF more(2)] step_checkpoint_kept [OF more(2)] by auto
qed simp

text \<open>What a validator signs.\<close>

lemma regRemove_hexEncode: "hexDecode (regRemove0xPrefix (hexEncode b)) = Inr b"
  by (simp add: regRemove0xPrefix_def hexEncode_no_prefix hexDecode_encode)

lemma signed_checkpoint:
  assumes "CheckAndSignValidatorCheckpoint ax st = Inr (sig, t)" and "sig \<noteq> []"
  obtains p where "kv_get (ValidatorCheckpointParamsMap st) t = Some p" "sig = axSign ax (vcpCheckpoint p)"
  using assms by (auto simp: CheckAndSignValidatorCheckpoint_def EncodeAndSignMessage_def regRemove_hexEncode
      GetValidatorCheckpointParamsFromStorage_def split: if_splits)

lemma attested_snapshot:
  assumes "requests_ok st" and "att \<in> set (attestRequests ax c st)"
  shows "kv_has (SnapshotToAttestationsMap st) (oaSnapshot att) \<and> oaAttestation att = axSign ax (oaSnapshot att)"
  using assms by (auto simp: attestRequests_def GetAttestationRequestsByHeight_def requests_ok_def split: sum.splits option.splits
      simp: getR_def)


section \<open>Evaluations\<close>

theorem checkpoint_chain_witness:
  "bridge_reachable ex_br_env 600000 {emptyOracle ()} ex_bridge \<and> LatestCheckpointIdx ex_bridge = Some 1
    \<and> (\<exists>t V. kv_get (ValidatorCheckpointIdxMap ex_bridge) 1 = Some t \<and> kv_get (BridgeValsetByTimestampMap ex_bridge) t = Some V
        \<and> BridgeValset ex_bridge = Some V)"
proof -
  have latest: "LatestCheckpointIdx ex_bridge = Some 1" by code_simp
  have t: "kv_get (ValidatorCheckpointIdxMap ex_bridge) 1 = Some 20" by code_simp
  have "\<exists>V. kv_get (BridgeValsetByTimestampMap ex_bridge) 20 = Some V \<and> BridgeValset ex_bridge = Some V"
    using checkpoint_chain [OF ex_bridge_reachable latest] t by blast
  then show ?thesis using ex_bridge_reachable latest t by blast
qed

theorem valset_well_formed_witness:
  "GetCurrentValidatorsEVMCompatible ex_br_env ex_bridge
      = Inr [\<lparr>EthereumAddress = ''B'', bvPower = 60\<rparr>, \<lparr>EthereumAddress = ''A'', bvPower = 30\<rparr>, \<lparr>EthereumAddress = ''C'', bvPower = 10\<rparr>]
    \<and> distinct [''B'', ''A'', ''C'']"
proof -
  let ?V = "[\<lparr>EthereumAddress = ''B'', bvPower = 60\<rparr>, \<lparr>EthereumAddress = ''A'', bvPower = 30\<rparr>, \<lparr>EthereumAddress = ''C'', bvPower = 10\<rparr>]"
  have vs: "bskGetAllValidators (beStaking ex_br_env) (brWorld ex_bridge) = Inr ex_vals" by code_simp
  have dist: "distinct (map (\<lambda>v. beValAddressFromBech32 ex_br_env (svOperator v)) ex_vals)" by code_simp
  have V: "GetCurrentValidatorsEVMCompatible ex_br_env ex_bridge = Inr ?V" by code_simp
  show ?thesis using valset_well_formed [OF ex_bridge_reachable vs dist V] V by simp
qed

text \<open>Two false attestations of the first validator, ten minutes apart, under the current checkpoint.\<close>

definition ex_day22 :: ctx where
  "ex_day22 = \<lparr>BlockTime = 22 * 24 * hour, BlockHeight = 1000\<rparr>"

definition ex_ae :: "u64 \<Rightarrow> msg_attestation_evidence" where
  "ex_ae t = \<lparr>aeCreator = ''x'', aeQueryId = ''71'', aeValue = ''aa'', aeTimestamp = t, aeAggregatePower = 1, aePreviousTimestamp = 0,
     aeNextTimestamp = 0, aeValsetCheckpoint = hexEncode (case ValidatorCheckpoint ex_bridge of None \<Rightarrow> [] | Some b \<Rightarrow> b),
     aeAttestationTimestamp = t, aeLastConsensusTimestamp = 0, aeSignature = ''41'' @ replicate 126 (CHR ''0'')\<rparr>"

definition ex_slashed1 :: "br_world bridge_state" where
  "ex_slashed1 = reached ex_bridge (CheckAttestationEvidence ex_br_env ex_day22 (ex_ae 90000000) ex_bridge)"

definition ex_slashed2 :: "br_world bridge_state" where
  "ex_slashed2 = reached ex_bridge (CheckAttestationEvidence ex_br_env ex_day22 (ex_ae 90600000) ex_slashed1)"

lemma ex_slashed_reachable: "bridge_reachable ex_br_env 600000 orcs ex_slashed2"
proof -
  have "succeeded (CheckAttestationEvidence ex_br_env ex_day22 (ex_ae 90000000) ex_bridge)" by code_simp
  then have "CheckAttestationEvidence ex_br_env ex_day22 (ex_ae 90000000) ex_bridge = Inr ex_slashed1"
    unfolding ex_slashed1_def by (rule reached_run)
  then have one: "bridge_reachable ex_br_env 600000 orcs ex_slashed1"
    using reachable_step [OF ex_bridge_reachable bridge_step.attestationEvidence] by blast
  have "succeeded (CheckAttestationEvidence ex_br_env ex_day22 (ex_ae 90600000) ex_slashed1)" by code_simp
  then have "CheckAttestationEvidence ex_br_env ex_day22 (ex_ae 90600000) ex_slashed1 = Inr ex_slashed2"
    unfolding ex_slashed2_def by (rule reached_run)
  then show ?thesis using reachable_step [OF one bridge_step.attestationEvidence] by blast
qed

theorem evidence_spaced_witness:
  "kv_has (AttestationEvidenceSubmitted ex_slashed2) (''o1'', 90000000) \<and> kv_has (AttestationEvidenceSubmitted ex_slashed2) (''o1'', 90600000)
    \<and> uint (600000 :: u64) \<le> uint (90600000 :: u64) - uint (90000000 :: u64)"
proof -
  have "kv_has (AttestationEvidenceSubmitted ex_slashed2) (''o1'', 90000000)" "kv_has (AttestationEvidenceSubmitted ex_slashed2) (''o1'', 90600000)"
    by code_simp+
  then show ?thesis using evidence_spaced [OF ex_slashed_reachable [of "{emptyOracle ()}"], of 90000000 90600000 "''o1''"] by simp
qed

text \<open>The second validator signs the latest checkpoint.\<close>

definition ex_ax :: app_env where
  "ex_ax = \<lparr>axOperatorAddress = ''o2'', axSign = (\<lambda>m. ''B'' @ replicate 63 (CHR 0x00)), axMarshal = (\<lambda>v. ''v''),
     axUnmarshal = (\<lambda>b. Inr emptyExtension), axDecode = (\<lambda>b. Inr emptyExtension),
     axMarshalTx = (\<lambda>tx. Inr ''t''), axUnmarshalTx = (\<lambda>b. Inl (Err ''json'')),
     axValidateVoteExtensions = (\<lambda>h commit. Inr ()), axEnableHeight = 1, axHex = (\<lambda>b. b), axHexToAddress = (\<lambda>b. b)\<rparr>"

definition ex_ve :: msg_valset_signature_evidence where
  "ex_ve = \<lparr>veCreator = ''x'', veValsetTimestamp = 20,
     veValsetHash = hexEncode (case kv_get (ValidatorCheckpointParamsMap ex_bridge) 20 of None \<Rightarrow> [] | Some p \<Rightarrow> vcpValsetHash p),
     vePowerThreshold = 66, veValidatorSignature = ''42'' @ replicate 126 (CHR ''0'')\<rparr>"


end
