(* ===== verification/BridgeDrift.thy ===== *)
theory BridgeDrift
  imports BridgeSafety
begin

text \<open>
  When the validator set of the EVM contracts is renewed: the \<^verbatim>\<open>int64\<close> arithmetic of \<^verbatim>\<open>PowerDiff\<close>
  over a map of addresses against the sum of all changes of power.
\<close>

section \<open>The change of power\<close>

definition powerIn :: "bridge_valset \<Rightarrow> bytes \<Rightarrow> int" where
  "powerIn V a = sum_list (map (\<lambda>v. uint (bvPower v)) (filter (\<lambda>v. EthereumAddress v = a) V))"

definition totalPower :: "bridge_valset \<Rightarrow> int" where
  "totalPower V = sum_list (map (\<lambda>v. uint (bvPower v)) V)"

definition addresses :: "bridge_valset \<Rightarrow> bytes set" where
  "addresses V = EthereumAddress ` set V"

definition powerChange :: "bridge_valset \<Rightarrow> bridge_valset \<Rightarrow> int" where
  "powerChange U V = (\<Sum>a \<in> addresses U \<union> addresses V. \<bar>powerIn U a - powerIn V a\<bar>)"

lemma powerIn_snoc: "powerIn (V @ [v]) a = powerIn V a + (if EthereumAddress v = a then uint (bvPower v) else 0)"
  by (simp add: powerIn_def)

lemma powerIn_other: "a \<notin> addresses V \<Longrightarrow> powerIn V a = 0"
  by (induction V) (auto simp: powerIn_def addresses_def)

lemma powerIn_nonneg: "0 \<le> powerIn V a"
  unfolding powerIn_def by (intro sum_list_nonneg) auto

lemma powerIn_le: "powerIn V a \<le> totalPower V"
proof (induction V)
  case (Cons v V)
  moreover have "powerIn (v # V) a \<le> powerIn V a + uint (bvPower v)" by (simp add: powerIn_def)
  ultimately show ?case by (simp add: totalPower_def)
qed (simp add: powerIn_def totalPower_def)

lemma totalPower_snoc: "totalPower (V @ [v]) = totalPower V + uint (bvPower v)"
  by (simp add: totalPower_def)

lemma totalPower_nonneg: "0 \<le> totalPower V"
  unfolding totalPower_def by (intro sum_list_nonneg) auto

lemma sum_powerIn: "(\<Sum>a \<in> addresses V. powerIn V a) = totalPower V"
proof (induction V rule: rev_induct)
  case (snoc v V)
  let ?e = "EthereumAddress v"
  have ad: "addresses (V @ [v]) = insert ?e (addresses V)" by (simp add: addresses_def)
  have fin: "finite (addresses V)" by (simp add: addresses_def)
  have "(\<Sum>a \<in> insert ?e (addresses V). powerIn V a) = totalPower V"
    using snoc.IH powerIn_other [of ?e V] by (cases "?e \<in> addresses V") (simp_all add: insert_absorb fin)
  moreover have "(\<Sum>a \<in> insert ?e (addresses V). if ?e = a then uint (bvPower v) else 0) = uint (bvPower v)"
    using fin by (subst sum.delta') auto
  ultimately show ?case unfolding ad powerIn_snoc totalPower_snoc by (simp only: sum.distrib)
qed (simp add: addresses_def totalPower_def)

lemma powerChange_le: "powerChange U V \<le> totalPower U + totalPower V"
proof -
  let ?A = "addresses U \<union> addresses V"
  have fin: "finite ?A" by (simp add: addresses_def)
  have "powerChange U V \<le> (\<Sum>a \<in> ?A. powerIn U a + powerIn V a)" unfolding powerChange_def
  proof (rule sum_mono)
    show "\<bar>powerIn U a - powerIn V a\<bar> \<le> powerIn U a + powerIn V a" for a
      using powerIn_nonneg [of U a] powerIn_nonneg [of V a] by arith
  qed
  also have "\<dots> = (\<Sum>a \<in> ?A. powerIn U a) + (\<Sum>a \<in> ?A. powerIn V a)" by (rule sum.distrib)
  also have "(\<Sum>a \<in> ?A. powerIn U a) = (\<Sum>a \<in> addresses U. powerIn U a)"
    by (rule sum.mono_neutral_right) (use fin powerIn_other in auto)
  also have "(\<Sum>a \<in> ?A. powerIn V a) = (\<Sum>a \<in> addresses V. powerIn V a)"
    by (rule sum.mono_neutral_right) (use fin powerIn_other in auto)
  finally show ?thesis by (simp add: sum_powerIn)
qed

section \<open>The loops of PowerDiff\<close>

lemma old_powers:
  assumes "distinct (map EthereumAddress U)" and "totalPower U < 2 ^ 63"
  shows "\<exists>m. fold oldPower U ([], 0) = (m, totalPower U) \<and> kv_ok m
    \<and> (\<forall>a. kv_get m a = (if a \<in> addresses U then Some (powerIn U a) else None))"
  using assms
proof (induction U rule: rev_induct)
  case (snoc u U)
  let ?p = "uint (bvPower u)"
  have bounds: "0 \<le> ?p" "0 \<le> totalPower U" "totalPower U + ?p < 2 ^ 63"
    using snoc.prems(2) totalPower_nonneg [of U] by (simp_all add: totalPower_snoc)
  then have "totalPower U < 2 ^ 63" by linarith
  moreover have "distinct (map EthereumAddress U)" using snoc.prems(1) by simp
  ultimately obtain m where m: "fold oldPower U ([], 0) = (m, totalPower U)" "kv_ok m"
    "\<forall>a. kv_get m a = (if a \<in> addresses U then Some (powerIn U a) else None)" using snoc.IH by blast
  have new: "EthereumAddress u \<notin> addresses U" using snoc.prems(1) by (simp add: addresses_def)
  have "i64 ?p = ?p" "i64 (totalPower U + ?p) = totalPower U + ?p" using bounds by (intro i64_id; linarith)+
  then have "fold oldPower (U @ [u]) ([], 0) = (kv_set (EthereumAddress u) ?p m, totalPower (U @ [u]))"
    by (simp add: m(1) oldPower_def totalPower_snoc Let_def)
  then show ?case using m(2,3) powerIn_other [OF new] by (auto simp: powerIn_snoc addresses_def)
qed (simp add: totalPower_def addresses_def kv_get_def)

lemma new_powers:
  assumes "distinct (map EthereumAddress V)" and "totalPower U + totalPower V < 2 ^ 63" and "kv_ok m0"
    and m0: "\<forall>a. kv_get m0 a = (if a \<in> addresses U then Some (powerIn U a) else None)"
  shows "kv_ok (fold newPower V m0) \<and> (\<forall>a. kv_get (fold newPower V m0) a
    = (if a \<in> addresses U \<union> addresses V then Some (powerIn U a - powerIn V a) else None))"
  using assms(1,2)
proof (induction V rule: rev_induct)
  case (snoc v V)
  let ?p = "uint (bvPower v)" and ?e = "EthereumAddress v" and ?m = "fold newPower V m0"
  have bounds: "0 \<le> ?p" "totalPower U + totalPower V + ?p < 2 ^ 63" using snoc.prems(2) by (simp_all add: totalPower_snoc)
  have "totalPower U + totalPower V < 2 ^ 63" using bounds by linarith
  moreover have "distinct (map EthereumAddress V)" using snoc.prems(1) by simp
  ultimately have IH: "kv_ok ?m" "\<And>a. kv_get ?m a = (if a \<in> addresses U \<union> addresses V then Some (powerIn U a - powerIn V a) else None)"
    using snoc.IH by blast+
  have new: "?e \<notin> addresses V" using snoc.prems(1) by (simp add: addresses_def)
  have le: "0 \<le> powerIn U ?e" "powerIn U ?e \<le> totalPower U" "0 \<le> totalPower V" by (rule powerIn_nonneg powerIn_le totalPower_nonneg)+
  then have ids: "i64 ?p = ?p" "i64 (powerIn U ?e - ?p) = powerIn U ?e - ?p" "i64 (- ?p) = - ?p"
    using bounds totalPower_nonneg [of U] by (intro i64_id; linarith)+
  have "newPower v ?m = kv_set ?e (powerIn U ?e - ?p) ?m"
    using powerIn_other [of ?e U] powerIn_other [OF new] new by (simp add: newPower_def IH(2) ids Let_def)
  then show ?case using IH powerIn_other [OF new] by (auto simp: powerIn_snoc addresses_def)
qed (use assms(3) m0 in \<open>simp add: addresses_def powerIn_def\<close>)

lemma delta_loop:
  fixes m :: "(bytes \<times> int) list"
  assumes "0 \<le> d" and "d + (\<Sum>(k, v) \<leftarrow> m. \<bar>v\<bar>) < 2 ^ 63"
  shows "fold (\<lambda>(_, v) delta. i64 (delta + absInt64 v)) m d = d + (\<Sum>(k, v) \<leftarrow> m. \<bar>v\<bar>)"
  using assms
proof (induction m arbitrary: d)
  case (Cons x m)
  obtain k v where x: "x = (k, v)" by (cases x)
  have "0 \<le> (\<Sum>(k, v) \<leftarrow> m. \<bar>v\<bar>)" by (rule sum_list_nonneg) auto
  then have b: "d + \<bar>v\<bar> < 2 ^ 63" using Cons.prems(2) by (simp add: x)
  then have "absInt64 v = \<bar>v\<bar>" using Cons.prems(1) by (auto simp: absInt64_def intro!: i64_id)
  moreover have "i64 (d + \<bar>v\<bar>) = d + \<bar>v\<bar>" using b Cons.prems(1) by (intro i64_id) auto
  ultimately show ?case using Cons.IH [of "d + \<bar>v\<bar>"] Cons.prems by (simp add: x)
qed simp

lemma kv_sum_keys:
  fixes f :: "'v \<Rightarrow> int"
  assumes "kv_ok m"
  shows "(\<Sum>(k, v) \<leftarrow> m. f v) = (\<Sum>k \<in> fst ` set m. f (the (kv_get m k)))"
proof -
  have d: "distinct (map fst m)" using assms by (simp add: kv_ok_def strict_sorted_iff)
  then have "distinct m" by (simp add: distinct_map)
  then have "(\<Sum>(k, v) \<leftarrow> m. f v) = (\<Sum>e \<in> set m. f (snd e))" by (simp add: sum_list_distinct_conv_sum_set case_prod_unfold)
  also have "\<dots> = (\<Sum>k \<in> fst ` set m. f (the (kv_get m k)))"
    using d by (subst sum.reindex) (auto simp: kv_get_def distinct_map intro!: sum.cong)
  finally show ?thesis .
qed

lemma power_diff_reference_aux:
  assumes "distinct (map EthereumAddress U)" and "distinct (map EthereumAddress V)"
    and "0 < totalPower U" and "1000000 * (totalPower U + totalPower V) < 2 ^ 63"
  shows "PowerDiff U V = (1000000 * powerChange U V) div totalPower U"
proof -
  have small: "totalPower U + totalPower V < 2 ^ 63" "totalPower U < 2 ^ 63" and nn: "0 \<le> totalPower U" "0 \<le> totalPower V"
    using assms(4) totalPower_nonneg [of U] totalPower_nonneg [of V] by auto
  obtain m where m: "fold oldPower U ([], 0) = (m, totalPower U)" "kv_ok m"
    "\<forall>a. kv_get m a = (if a \<in> addresses U then Some (powerIn U a) else None)"
    using old_powers [OF assms(1) small(2)] by blast
  let ?n = "fold newPower V m"
  have n: "kv_ok ?n" "\<forall>a. kv_get ?n a = (if a \<in> addresses U \<union> addresses V then Some (powerIn U a - powerIn V a) else None)"
    using new_powers [OF assms(2) small(1) m(2,3)] by auto
  have "fst ` set ?n = {a. kv_get ?n a \<noteq> None}" by (auto simp: kv_get_def map_of_eq_None_iff)
  also have "\<dots> = addresses U \<union> addresses V" using n(2) by auto
  finally have "(\<Sum>(k, v) \<leftarrow> ?n. \<bar>v\<bar>) = powerChange U V"
    using kv_sum_keys [OF n(1), of abs] n(2) by (simp add: powerChange_def)
  moreover have ch: "0 \<le> powerChange U V" "powerChange U V \<le> totalPower U + totalPower V"
    by (simp add: powerChange_def sum_nonneg) (rule powerChange_le)
  ultimately have "fold (\<lambda>(_, v) delta. i64 (delta + absInt64 v)) ?n 0 = powerChange U V"
    using delta_loop [of 0 ?n] small by simp
  moreover have "i64 (powerChange U V * 1000000) = 1000000 * powerChange U V" using ch assms(4) by (subst i64_id) auto
  moreover have q: "quoT (1000000 * powerChange U V) (totalPower U) = (1000000 * powerChange U V) div totalPower U"
    using ch assms(3) by (intro quoT_nonneg) auto
  moreover have "i64 ((1000000 * powerChange U V) div totalPower U) = (1000000 * powerChange U V) div totalPower U"
  proof -
    have "0 \<le> 1000000 * powerChange U V" using ch(1) by simp
    from quoT_bounds [OF this assms(3)] have "0 \<le> (1000000 * powerChange U V) div totalPower U"
      "(1000000 * powerChange U V) div totalPower U \<le> 1000000 * powerChange U V" unfolding q by simp_all
    then show ?thesis using ch assms(4) by (intro i64_id) simp_all
  qed
  ultimately show ?thesis using assms(3) by (simp add: PowerDiff_def m(1))
qed

text \<open>The difference of two validator sets, computed with wrapping 64-bit integers over a map that
  is updated in place, is the sum over all addresses of both sets of the change of power, in
  millionths of the old total power, as long as the powers are below nine trillion.\<close>

theorem power_diff_reference:
  assumes "distinct (map EthereumAddress U)" and "distinct (map EthereumAddress V)"
    and "0 < totalPower U" and "1000000 * (totalPower U + totalPower V) < 2 ^ 63"
  shows "PowerDiff U V = (1000000 * powerChange U V) div totalPower U"
  using assms by (rule power_diff_reference_aux)

section \<open>The rule of renewal\<close>

lemma int_div_less_iff:
  fixes a b c :: int
  assumes "0 < b"
  shows "a div b < c \<longleftrightarrow> a < c * b"
proof
  assume "a div b < c"
  then have "(a div b + 1) * b \<le> c * b" using assms by (intro mult_right_mono) auto
  then have "a div b * b + b \<le> c * b" by (simp add: distrib_right)
  then show "a < c * b" using pos_mod_bound [OF assms, of a] div_mult_mod_eq [of a b] by linarith
next
  assume "a < c * b"
  then have "a div b * b < c * b" using pos_mod_sign [OF assms, of a] div_mult_mod_eq [of a b] by linarith
  then show "a div b < c" using assms by (simp add: mult_less_cancel_right_pos)
qed


section \<open>Evaluations\<close>

theorem power_diff_reference_witness: "PowerDiff ex_V1 ex_V2 = 111111"
proof -
  have "distinct (map EthereumAddress ex_V1)" "distinct (map EthereumAddress ex_V2)" "0 < totalPower ex_V1"
    "1000000 * (totalPower ex_V1 + totalPower ex_V2) < 2 ^ 63" by code_simp+
  from power_diff_reference [OF this] have "PowerDiff ex_V1 ex_V2 = (1000000 * powerChange ex_V1 ex_V2) div totalPower ex_V1" .
  moreover have "powerChange ex_V1 ex_V2 = 10" "totalPower ex_V1 = 90" by code_simp+
  ultimately show ?thesis by simp
qed


end
