(* ===== verification/BridgeProposal.thy ===== *)
theory BridgeProposal
  imports BridgeSafety
begin

text \<open>
  Proposals: what an honest proposer injects is accepted by everyone, what is accepted can be
  applied, and all it registers is signed for in the votes of the last commit.
\<close>

section \<open>The injected transaction\<close>

lemma withIndex_total: "length xs \<le> length ys \<Longrightarrow> \<exists>zs. withIndex xs ys = Inr zs"
  by (induction xs ys rule: withIndex.induct) auto

lemma withIndex_zip: "withIndex xs ys = Inr zs \<Longrightarrow> zs = zip xs ys"
  by (induction xs ys arbitrary: zs rule: withIndex.induct) auto

lemma accepted_injected:
  "recomputedAgrees env ax tx st \<longleftrightarrow> tx = injectedTx env ax (vtBlockHeight tx) (vtCommit tx) st"
  by (cases tx) (auto simp: recomputedAgrees_def injectedTx_def Let_def)

lemma ProcessProposal_accepts:
  assumes "axEnableHeight ax < height"
  shows "ProcessProposalHandler env ax height txs st = Inr True \<longleftrightarrow>
    (\<exists>tx0 rest tx n. txs = tx0 # rest \<and> axUnmarshalTx ax tx0 = Inr tx \<and> axValidateVoteExtensions ax height (vtCommit tx) = Inr ()
      \<and> GetMaxValidators env st = Inr n \<and> length (ecVotes (vtCommit tx)) \<le> n
      \<and> tx = injectedTx env ax (vtBlockHeight tx) (vtCommit tx) st)"
  using assms by (auto simp: ProcessProposalHandler_def accepted_injected split: list.splits sum.splits)

text \<open>The parallel lists of an injected transaction have equal lengths, so storing them reads no index
  beyond an end.\<close>

lemma PreBlocker_injected:
  assumes "axEnableHeight ax < height" and "axUnmarshalTx ax tx0 = Inr tx" and "tx = injectedTx env ax h commit st0"
  obtains st1 st2 st3 st4 where "PreBlocker env ax c height (tx0 # rest) st = Inr st4"
    "SetEVMAddresses env ax (vtOperatorAddresses tx) (vtEVMAddresses tx) st = Inr st1"
    "st2 = fold (checkInitialVote env ax c) (ecVotes commit) st1"
    "storeValsetSigs tx st2 = Inr st3" "storeAttestations tx st3 = Inr st4"
proof -
  have total: "\<exists>zs. withIndex (map f xs) (map g xs) = Inr zs" for f :: "'x \<Rightarrow> 'y" and g :: "'x \<Rightarrow> 'z" and xs
    by (rule withIndex_total) simp
  have "\<exists>st1. SetEVMAddresses env ax (vtOperatorAddresses tx) (vtEVMAddresses tx) st = Inr st1" for st
    using total [of fst _ snd] by (auto simp: SetEVMAddresses_def assms(3) injectedTx_def Let_def)
  moreover have "\<exists>st3. storeValsetSigs tx st = Inr st3" for st
    using total [of fst _ "fst \<circ> snd"] total [of fst _ "snd \<circ> snd"]
    by (auto simp: storeValsetSigs_def assms(3) injectedTx_def Let_def)
  moreover have "\<exists>st4. storeAttestations tx st = Inr st4" for st
    using total [of fst _ "fst \<circ> snd"] total [of fst _ "snd \<circ> snd"]
    by (auto simp: storeAttestations_def assms(3) injectedTx_def Let_def)
  ultimately obtain st1 st3 st4 where run: "SetEVMAddresses env ax (vtOperatorAddresses tx) (vtEVMAddresses tx) st = Inr st1"
    "storeValsetSigs tx (fold (checkInitialVote env ax c) (ecVotes commit) st1) = Inr st3" "storeAttestations tx st3 = Inr st4"
    by metis
  moreover have "vtCommit tx = commit" by (simp add: assms(3) injectedTx_def Let_def)
  ultimately show ?thesis using assms(1,2) by (intro that [OF _ run(1) refl run(2,3)]) (simp add: PreBlocker_def)
qed

text \<open>C26: what an honest proposer makes of the votes of the last commit every other validator in the
  same state accepts, the recomputed lists being equal to the injected ones, and storing it
  before the block never fails.\<close>

theorem proposal_accepted:
  assumes json: "\<And>bz. axMarshalTx ax (injectedTx env ax height commit st) = Inr bz
      \<Longrightarrow> axUnmarshalTx ax bz = Inr (injectedTx env ax height commit st)"
    and "PrepareProposalHandler env ax height commit txs st = Inr proposal"
  shows "ProcessProposalHandler env ax height proposal st = Inr True
    \<and> (\<forall>c. \<exists>st'. PreBlocker env ax c height proposal st = Inr st')
    \<and> (\<exists>pre. proposal = pre @ txs \<and> length pre = (if axEnableHeight ax < height then 1 else 0))"
proof (cases "axEnableHeight ax < height")
  case False
  then show ?thesis using assms(2)
    by (auto simp: PrepareProposalHandler_def ProcessProposalHandler_def PreBlocker_def split: list.splits)
next
  case True
  let ?tx = "injectedTx env ax height commit st"
  from True assms(2) obtain n bz where run: "GetMaxValidators env st = Inr n" "length (ecVotes commit) \<le> n"
    "axValidateVoteExtensions ax height commit = Inr ()" "axMarshalTx ax ?tx = Inr bz" "proposal = bz # txs"
    by (auto simp: PrepareProposalHandler_def)
  have fields: "vtCommit ?tx = commit" "vtBlockHeight ?tx = height" by (simp_all add: injectedTx_def Let_def)
  have "ProcessProposalHandler env ax height proposal st = Inr True"
    unfolding ProcessProposal_accepts [OF True] using run json [OF run(4)] fields by auto
  moreover have "\<exists>st'. PreBlocker env ax c height proposal st = Inr st'" for c
    unfolding run(5) by (rule PreBlocker_injected [OF True json [OF run(4)] refl]) blast
  ultimately show ?thesis using True run(5) by auto
qed

section \<open>Registrations\<close>

lemma registered_pairs:
  assumes "(op, evm) \<in> set (CheckInitialSignaturesFromLastCommit env ax st commit)"
  obtains vote ext a where "vote \<in> set (ecVotes commit)" "viCommit vote" "axUnmarshal ax (viExtension vote) = Inr ext"
    "ValidatorOperatorAddressFromVote env (brWorld st) vote = Inr op"
    "EVMAddressFromSignatures env (bxSignatureA ext) (bxSignatureB ext) op = Inr a" "evm = axHex ax a"
    "kv_get (OperatorToEVMAddressMap st) op = None"
proof -
  from assms obtain vote where "vote \<in> set (ecVotes commit)" and "initialOf env ax st vote = Some (op, evm)"
    by (auto simp: CheckInitialSignaturesFromLastCommit_def List.map_filter_def)
  then show ?thesis
    by (auto simp: initialOf_def extensionOf_def GetEVMAddressByOperator_def split: option.splits if_splits sum.splits intro: that)
qed

lemma fold_logged_registered:
  assumes "kv_get (OperatorToEVMAddressMap (fold (\<lambda>(op, evm) st. logged st (SetEVMAddressByOperator env op (f evm) st)) pairs st)) op = Some a"
  shows "kv_get (OperatorToEVMAddressMap st) op = Some a \<or> (\<exists>evm. (op, evm) \<in> set pairs \<and> a = f evm)"
  using assms
proof (induction pairs arbitrary: st)
  case (Cons p pairs)
  obtain op' evm where p: "p = (op', evm)" by (cases p)
  let ?st = "logged st (SetEVMAddressByOperator env op' (f evm) st)"
  have "kv_get (OperatorToEVMAddressMap ?st) op = Some a \<Longrightarrow> kv_get (OperatorToEVMAddressMap st) op = Some a \<or> op = op' \<and> a = f evm"
    by (auto simp: logged_def SetEVMAddressByOperator_def Let_def split: sum.splits if_splits)
  then show ?case using Cons.IH [of ?st] Cons.prems p by auto
qed simp

lemma fold_keeps: "(\<And>x st. F (f x st) = F st) \<Longrightarrow> F (fold f xs st) = F st"
  by (induction xs arbitrary: st) auto

text \<open>Neither the check of the votes nor signatures register anything.\<close>

lemma later_steps_keep_registered:
  shows "OperatorToEVMAddressMap (fold (checkInitialVote env ax c) votes st) = OperatorToEVMAddressMap st"
    and "storeValsetSigs tx st = Inr st' \<Longrightarrow> OperatorToEVMAddressMap st' = OperatorToEVMAddressMap st"
    and "storeAttestations tx st = Inr st' \<Longrightarrow> OperatorToEVMAddressMap st' = OperatorToEVMAddressMap st"
proof -
  show "OperatorToEVMAddressMap (fold (checkInitialVote env ax c) votes st) = OperatorToEVMAddressMap st"
    by (rule fold_keeps) (auto simp: checkInitialVote_def jailValidatorWithError_def split: option.splits sum.splits)
  have "OperatorToEVMAddressMap (logged st (SetBridgeValsetSignature op t sig st)) = OperatorToEVMAddressMap st" for op t sig and st :: "'a bridge_state"
    using SetBridgeValsetSignature_frame [of op t sig st] by (cases "SetBridgeValsetSignature op t sig st") (auto simp: logged_def)
  then show "storeValsetSigs tx st = Inr st' \<Longrightarrow> OperatorToEVMAddressMap st' = OperatorToEVMAddressMap st"
    by (auto simp: storeValsetSigs_def case_prod_unfold intro!: fold_keeps)
  have "OperatorToEVMAddressMap (logged st (SetOracleAttestation op s att st)) = OperatorToEVMAddressMap st" for op s att and st :: "'a bridge_state"
    using SetOracleAttestation_frame [of op s att st] by (cases "SetOracleAttestation op s att st") (auto simp: logged_def)
  then show "storeAttestations tx st = Inr st' \<Longrightarrow> OperatorToEVMAddressMap st' = OperatorToEVMAddressMap st"
    by (auto simp: storeAttestations_def case_prod_unfold intro!: fold_keeps)
qed

text \<open>C25: no proposer can register an address of its choice: storing an accepted proposal never fails,
  and every operator it gives an address had none before and voted in the commit that the
  consensus engine validated, with an extension whose two signatures recover that address.\<close>

theorem registrations_signed:
  assumes "axEnableHeight ax < height" and "ProcessProposalHandler env ax height txs st = Inr True"
    and hex: "\<And>m sig a. beRecover env m sig = Inr a \<Longrightarrow> axHexToAddress ax (axHex ax a) = a"
  shows "\<exists>tx st'. axUnmarshalTx ax (hd txs) = Inr tx \<and> axValidateVoteExtensions ax height (vtCommit tx) = Inr ()
    \<and> PreBlocker env ax c height txs st = Inr st'
    \<and> (\<forall>op evm. kv_get (OperatorToEVMAddressMap st') op = Some evm \<and> kv_get (OperatorToEVMAddressMap st) op \<noteq> Some evm \<longrightarrow>
        kv_get (OperatorToEVMAddressMap st) op = None
        \<and> (\<exists>vote ext. vote \<in> set (ecVotes (vtCommit tx)) \<and> viCommit vote \<and> axUnmarshal ax (viExtension vote) = Inr ext
            \<and> ValidatorOperatorAddressFromVote env (brWorld st) vote = Inr op
            \<and> EVMAddressFromSignatures env (bxSignatureA ext) (bxSignatureB ext) op = Inr evm))"
proof -
  obtain tx0 rest tx where txs: "txs = tx0 # rest" and tx: "axUnmarshalTx ax tx0 = Inr tx"
    and valid: "axValidateVoteExtensions ax height (vtCommit tx) = Inr ()"
    and inj: "tx = injectedTx env ax (vtBlockHeight tx) (vtCommit tx) st"
    using assms(2) unfolding ProcessProposal_accepts [OF assms(1)] by blast
  let ?pairs = "CheckInitialSignaturesFromLastCommit env ax st (vtCommit tx)"
  obtain st1 st2 st3 st' where run: "PreBlocker env ax c height txs st = Inr st'"
    and steps: "SetEVMAddresses env ax (vtOperatorAddresses tx) (vtEVMAddresses tx) st = Inr st1"
    "st2 = fold (checkInitialVote env ax c) (ecVotes (vtCommit tx)) st1" "storeValsetSigs tx st2 = Inr st3" "storeAttestations tx st3 = Inr st'"
    unfolding txs by (rule PreBlocker_injected [OF assms(1) tx inj])
  have "vtOperatorAddresses tx = map fst ?pairs" "vtEVMAddresses tx = map snd ?pairs"
    using arg_cong [OF inj, of vtOperatorAddresses] arg_cong [OF inj, of vtEVMAddresses] by (simp_all add: injectedTx_def Let_def)
  then have st1: "st1 = fold (\<lambda>(op, evm) st. logged st (SetEVMAddressByOperator env op (axHexToAddress ax evm) st)) ?pairs st"
    using steps(1) by (auto simp: SetEVMAddresses_def zip_map_fst_snd dest!: withIndex_zip)
  have recovered: "axHexToAddress ax (axHex ax a) = a" if "EVMAddressFromSignatures env sa sb op = Inr a" for sa sb op a
    using that by (auto simp: EVMAddressFromSignatures_def TryRecoverAddressWithBothIDs_def split: if_splits intro: hex)
  have "kv_get (OperatorToEVMAddressMap st) op = None
      \<and> (\<exists>vote ext. vote \<in> set (ecVotes (vtCommit tx)) \<and> viCommit vote \<and> axUnmarshal ax (viExtension vote) = Inr ext
            \<and> ValidatorOperatorAddressFromVote env (brWorld st) vote = Inr op
            \<and> EVMAddressFromSignatures env (bxSignatureA ext) (bxSignatureB ext) op = Inr evm)"
    if new: "kv_get (OperatorToEVMAddressMap st') op = Some evm" "kv_get (OperatorToEVMAddressMap st) op \<noteq> Some evm" for op evm
  proof -
    have "kv_get (OperatorToEVMAddressMap st1) op = Some evm" using new(1) steps(2-4) by (simp add: later_steps_keep_registered)
    then obtain e where "(op, e) \<in> set ?pairs" "evm = axHexToAddress ax e"
      using fold_logged_registered [of env "axHexToAddress ax" ?pairs st op evm] new(2) st1 by auto
    then show ?thesis by (elim registered_pairs) (metis recovered)
  qed
  then show ?thesis using tx valid run by (auto simp: txs)
qed

section \<open>Evaluations\<close>

text \<open>The third validator registers with its vote.\<close>

definition ex_extension :: bridge_vote_extension where
  "ex_extension = emptyExtension\<lparr>bxSignatureA := ''C'' @ replicate 63 (CHR 0x00), bxSignatureB := ''C'' @ replicate 63 (CHR 0x00)\<rparr>"

definition ex_commit :: extended_commit where
  "ex_commit = \<lparr>ecRound = 0, ecVotes = [\<lparr>viCommit = True, viExtension = ''e'', viValidatorAddress = ''c3''\<rparr>]\<rparr>"

definition ex_injected :: vote_ext_tx where
  "ex_injected = \<lparr>vtBlockHeight = 15, vtOperatorAddresses = [''o3''], vtEVMAddresses = [''C''], vtSigOperatorAddresses = [],
     vtSigTimestamps = [], vtSignatures = [], vtAttOperatorAddresses = [], vtAttestations = [], vtSnapshots = [], vtCommit = ex_commit\<rparr>"

definition ex_proposer :: app_env where
  "ex_proposer = ex_ax\<lparr>axUnmarshal := (\<lambda>b. Inr ex_extension), axUnmarshalTx := (\<lambda>b. Inr ex_injected)\<rparr>"

lemma ex_injected_made: "injectedTx ex_br_env ex_proposer 15 ex_commit ex_set1 = ex_injected"
  by code_simp

lemma ex_prepared: "PrepareProposalHandler ex_br_env ex_proposer 15 ex_commit [''x''] ex_set1 = Inr [''t'', ''x'']"
  by code_simp

theorem proposal_accepted_witness:
  "ProcessProposalHandler ex_br_env ex_proposer 15 [''t'', ''x''] ex_set1 = Inr True"
proof -
  have "axUnmarshalTx ex_proposer bz = Inr (injectedTx ex_br_env ex_proposer 15 ex_commit ex_set1)" for bz
    unfolding ex_injected_made by (simp add: ex_proposer_def)
  then show ?thesis using proposal_accepted [of ex_proposer ex_br_env 15 ex_commit ex_set1, OF _ ex_prepared] by blast
qed

theorem registrations_signed_witness:
  "\<exists>st'. PreBlocker ex_br_env ex_proposer (ex_milli 15) 15 [''t'', ''x''] ex_set1 = Inr st'
    \<and> kv_get (OperatorToEVMAddressMap st') ''o3'' = Some ''C'' \<and> kv_get (OperatorToEVMAddressMap ex_set1) ''o3'' = None"
proof -
  have "ProcessProposalHandler ex_br_env ex_proposer 15 [''t'', ''x''] ex_set1 = Inr True" by code_simp
  moreover have "axEnableHeight ex_proposer < 15" "axHexToAddress ex_proposer (axHex ex_proposer a) = a" for a
    by (simp_all add: ex_proposer_def ex_ax_def)
  ultimately obtain st' where run: "PreBlocker ex_br_env ex_proposer (ex_milli 15) 15 [''t'', ''x''] ex_set1 = Inr st'"
    and new: "\<And>op evm. kv_get (OperatorToEVMAddressMap st') op = Some evm \<and> kv_get (OperatorToEVMAddressMap ex_set1) op \<noteq> Some evm
      \<Longrightarrow> kv_get (OperatorToEVMAddressMap ex_set1) op = None"
    using registrations_signed [of ex_proposer 15 ex_br_env "[''t'', ''x'']" ex_set1 "ex_milli 15"] by blast
  have "(case PreBlocker ex_br_env ex_proposer (ex_milli 15) 15 [''t'', ''x''] ex_set1 of
      Inl _ \<Rightarrow> None | Inr st' \<Rightarrow> kv_get (OperatorToEVMAddressMap st') ''o3'') = Some ''C''" by code_simp
  moreover have "kv_get (OperatorToEVMAddressMap ex_set1) ''o3'' \<noteq> Some ''C''" by code_simp
  ultimately show ?thesis using run new by simp
qed

end
