(* ===== verification/BridgeSigs.thy ===== *)
theory BridgeSigs
  imports BridgeSafety
begin

text \<open>
  Where signatures are stored: those under a checkpoint go to the signer's place in the set before
  it and are found there; those under a snapshot go to the place in the set saved last, which
  need not be the set of the snapshot. And when the snapshots of a block fail.
\<close>

section \<open>Signatures under a checkpoint\<close>

definition placeOf :: "bytes \<Rightarrow> bridge_valset \<Rightarrow> nat" where
  "placeOf evm vs = length (takeWhile (\<lambda>v. EthereumAddress v \<noteq> evm) vs)"

lemma placeOf_simps [simp]:
  "placeOf evm [] = 0"
  "placeOf evm (v # vs) = (if EthereumAddress v = evm then 0 else Suc (placeOf evm vs))"
  by (simp_all add: placeOf_def)

lemma placeOf_nth: "evm \<in> EthereumAddress ` set vs \<Longrightarrow> placeOf evm vs < length vs \<and> EthereumAddress (vs ! placeOf evm vs) = evm"
  by (induction vs) auto

lemma placeSignature_nth:
  assumes "i + length vs \<le> length sigs" and "j < length sigs"
  shows "placeSignature evm sig i vs sigs ! j
    = (if i \<le> j \<and> j < i + length vs \<and> EthereumAddress (vs ! (j - i)) = evm then sig else sigs ! j)"
  using assms
proof (induction evm sig i vs sigs rule: placeSignature.induct)
  case (2 evm sig i v vs sigs)
  let ?sigs = "if EthereumAddress v = evm then SetSignature i sig sigs else sigs"
  have "placeSignature evm sig (Suc i) vs ?sigs ! j
      = (if Suc i \<le> j \<and> j < Suc i + length vs \<and> EthereumAddress (vs ! (j - Suc i)) = evm then sig else ?sigs ! j)"
    using 2(2,3) by (intro 2(1)) (auto simp: SetSignature_def)
  moreover have "?sigs ! j = (if j = i \<and> EthereumAddress v = evm then sig else sigs ! j)"
    using 2(2,3) by (auto simp: SetSignature_def)
  ultimately show ?case by (cases "j = i") (auto simp: nth_Cons' Suc_diff_le)
qed auto

lemma signedAt_place:
  assumes "i + length vs \<le> length sigs"
  shows "signedAt evm sigs i vs
    = (if evm \<in> EthereumAddress ` set vs then Inr (sigs ! (i + placeOf evm vs) \<noteq> [], int (i + placeOf evm vs)) else Inr (False, -1))"
  using assms by (induction evm sigs i vs rule: signedAt.induct) auto

lemma signers_of_checkpoint:
  assumes "chain_ok env st" and "kv_get (ValsetTimestampToIdxMap st) t = Some i" and "i \<noteq> 0"
    and "kv_get (ValidatorCheckpointIdxMap st) (i - 1) = Some t0" and "kv_get (BridgeValsetByTimestampMap st) t0 = Some U"
    and "kv_get (BridgeValsetSignaturesMap st) t = Some S"
  shows "length S = length U"
proof -
  have "kv_has (ValsetTimestampToIdxMap st) t" using assms(2) by (simp add: kv_has_def)
  then obtain k where "idxAt st k = Some t" using assms(1) unfolding chain_ok_def by blast
  then have ok: "checkpoint_ok env st k t" using assms(1) by (auto simp: chain_ok_def split: option.splits)
  then have "k = i" using assms(2) by (simp add: checkpoint_ok_def)
  then show ?thesis using ok assms(3-6) by (auto simp: checkpoint_ok_def signersAt_def)
qed

text \<open>A signature under a checkpoint goes to the place of its signer in the validator set before
  that checkpoint and nowhere else, and is found there afterwards: the validator then counts
  as having signed, and its vote extensions stop signing the checkpoint if it is the latest.\<close>

theorem valset_signature_recorded:
  assumes "bridge_reachable env W orcs st" and "SetBridgeValsetSignature op t sig st = Inr st'"
    and "kv_get (ValsetTimestampToIdxMap st) t = Some i" and "i \<noteq> 0"
    and "kv_get (ValidatorCheckpointIdxMap st) (i - 1) = Some t0" and "kv_get (BridgeValsetByTimestampMap st) t0 = Some U"
    and "kv_get (OperatorToEVMAddressMap st) op = Some evm" and "hexDecode (regRemove0xPrefix sig) = Inr b" and "b \<noteq> []"
  shows "(\<exists>S S'. kv_get (BridgeValsetSignaturesMap st) t = Some S \<and> kv_get (BridgeValsetSignaturesMap st') t = Some S'
        \<and> length S = length U \<and> length S' = length U
        \<and> (\<forall>j < length U. S' ! j = (if EthereumAddress (U ! j) = evm then b else S ! j)))
    \<and> GetValidatorDidSignCheckpoint st' op t
      = (if evm \<in> EthereumAddress ` set U then Inr (True, int (placeOf evm U)) else Inr (False, -1))
    \<and> (axOperatorAddress ax = op \<and> LatestCheckpointIdx st = Some i \<and> kv_get (ValidatorCheckpointIdxMap st) i = Some t
      \<longrightarrow> CheckAndSignValidatorCheckpoint ax st' = Inr ([], 0))"
proof -
  obtain S where S: "kv_get (BridgeValsetSignaturesMap st) t = Some S"
    and st': "st' = st\<lparr>BridgeValsetSignaturesMap := kv_set t (placeSignature evm b 0 U S) (BridgeValsetSignaturesMap st)\<rparr>"
    using assms(2-8) by (auto simp: SetBridgeValsetSignature_def)
  have len: "length S = length U"
    by (rule signers_of_checkpoint [OF chain_reachable [OF assms(1)] assms(3-6) S])
  have places: "placeSignature evm b 0 U S ! j = (if EthereumAddress (U ! j) = evm then b else S ! j)" if "j < length U" for j
    using placeSignature_nth [of 0 U S j evm b] that len by simp
  have signed: "GetValidatorDidSignCheckpoint st' op t
      = (if evm \<in> EthereumAddress ` set U then Inr (True, int (placeOf evm U)) else Inr (False, -1))"
    using assms(3-9) places [of "placeOf evm U"] placeOf_nth [of evm U] len
    by (simp add: GetValidatorDidSignCheckpoint_def st' signedAt_place)
  moreover have "CheckAndSignValidatorCheckpoint ax st' = Inr ([], 0)"
    if "axOperatorAddress ax = op" "LatestCheckpointIdx st = Some i" "kv_get (ValidatorCheckpointIdxMap st) i = Some t"
  proof -
    have "LatestCheckpointIdx st' = Some i" "kv_get (ValidatorCheckpointIdxMap st') i = Some t" using that by (simp_all add: st')
    then show ?thesis using signed that(1)
      by (cases "evm \<in> EthereumAddress ` set U") (simp_all add: CheckAndSignValidatorCheckpoint_def GetLatestCheckpointIndex_def
          GetValidatorTimestampByIdxFromStorage_def del: bindR_eq_Inr)
  qed
  moreover have "kv_get (BridgeValsetSignaturesMap st') t = Some (placeSignature evm b 0 U S)" by (simp add: st')
  ultimately show ?thesis using S len places by auto
qed

section \<open>Signatures under a snapshot\<close>

lemma attestLoop_distinct:
  assumes "distinct (map EthereumAddress vs)" and "kv_get (SnapshotToAttestationsMap st) s = Some atts"
  shows "attestLoop evm s sig i vs st =
    (if evm \<in> EthereumAddress ` set vs
     then Inr (st\<lparr>SnapshotToAttestationsMap := kv_set s (SetAttestation (i + placeOf evm vs) sig atts) (SnapshotToAttestationsMap st)\<rparr>)
     else Inr st)"
  using assms
proof (induction evm s sig i vs st rule: attestLoop.induct)
  case (2 evm s sig i v vs st)
  have none: "attestLoop evm s sig k vs s' = Inr s'" if "evm \<notin> EthereumAddress ` set vs" for k and s' :: "'a bridge_state"
    using that by (induction vs arbitrary: k s') auto
  show ?case
  proof (cases "EthereumAddress v = evm")
    case True
    then show ?thesis using 2(3,4) none by auto
  next
    case False
    then show ?thesis using 2(2) [OF False] 2(3,4) by auto
  qed
qed simp

text \<open>The signature under a snapshot goes to the signer's place in the set saved last, not in the
  set the snapshot was made for: a validator that has moved from place i to place j since then
  has its signature stored in the place of another validator of the snapshot's set, and lost
  when the snapshot's set has no place j.\<close>

theorem attestation_misplaced:
  assumes "kv_get (OperatorToEVMAddressMap st) op = Some evm" and "BridgeValset st = Some V" and "distinct (map EthereumAddress V)"
    and "j < length V" and "EthereumAddress (V ! j) = evm"
    and "kv_get (SnapshotToAttestationsMap st) s = Some atts" and "length atts = length U"
    and "distinct (map EthereumAddress U)" and "i < length U" and "EthereumAddress (U ! i) = evm" and "i \<noteq> j"
  shows "\<exists>st'. SetOracleAttestation op s sig st = Inr st'
    \<and> (if j < length U then kv_get (SnapshotToAttestationsMap st') s = Some (atts[j := sig]) \<and> EthereumAddress (U ! j) \<noteq> evm
       else kv_get (SnapshotToAttestationsMap st') s = Some atts)"
proof -
  have mem: "evm \<in> EthereumAddress ` set V" using assms(4,5) by force
  then have "placeOf evm V = j" using placeOf_nth [OF mem] assms(3-5) by (simp add: distinct_conv_nth) metis
  then have run: "SetOracleAttestation op s sig st
      = Inr (st\<lparr>SnapshotToAttestationsMap := kv_set s (SetAttestation j sig atts) (SnapshotToAttestationsMap st)\<rparr>)"
    using assms(1,2) attestLoop_distinct [OF assms(3,6), of evm sig 0] mem by (simp add: SetOracleAttestation_def)
  have "EthereumAddress (U ! j) \<noteq> evm" if "j < length U"
    using that assms(8-11) by (auto simp: distinct_conv_nth)
  then show ?thesis using run assms(7) by (simp add: SetAttestation_def)
qed

section \<open>Snapshots of a block\<close>

text \<open>A report without consensus takes over the consensus time of the report before it, from that
  report's snapshot; when there is none, because a block made fewer snapshots than reports or
  the limit was zero, the end of the block fails, and the chain halts.\<close>

theorem missing_snapshot_halts:
  assumes "enableHeight < BlockHeight c" and "CompareAndSetBridgeValidators env c st = Inr (b, st1)"
    and "SnapshotLimit st1 = Some limit" and "limit \<noteq> 0"
    and "GetAggregatedReportsByHeight orc (heightOf c) = report # reports"
    and "GetTimestampBefore orc (agQueryId report) (BlockTime c + 1000000000) = Inr t"
    and "GetAggregateByTimestamp orc (agQueryId report) (toU64 (unixMilli t)) = Inr agg"
    and "ValidatorCheckpoint st1 = Some checkpoint"
    and "GetCurrentValidatorSetTimestamp st1 = Inr vt" and "kv_get (ValidatorCheckpointParamsMap st1) vt = Some p"
    and "AggregatePower agg < vcpPowerThreshold p"
    and "GetTimestampBefore orc (agQueryId report) t = Inr t0"
    and "kv_get (AttestSnapshotsByReportMap st1) (reportKey env (agQueryId report) t0) = None"
  shows "bridgeEndBlock env enableHeight c orc st = Inl ErrNotFound"
proof -
  have "GetLastConsensusTimestamp env orc (agQueryId report) t (AggregatePower agg) False st1 = Inl ErrNotFound"
    using assms(9-13) by (simp add: GetLastConsensusTimestamp_def consensusOfReport_def getR_def not_le)
  then have "CreateSnapshot env c orc (agQueryId report) t False st1 = Inl ErrNotFound"
    using assms(7,8) by (simp add: CreateSnapshot_def snapshotOf_def GetValidatorCheckpointFromStorage_def Let_def)
  then show ?thesis using assms(1-6) by (simp add: bridgeEndBlock_def CreateNewReportSnapshots_def)
qed

section \<open>Evaluations\<close>

definition ex_sig :: string where
  "ex_sig = ''42'' @ replicate 126 (CHR ''0'')"

definition ex_signed :: "br_world bridge_state" where
  "ex_signed = reached ex_bridge (SetBridgeValsetSignature ''o2'' 20 ex_sig ex_bridge)"

theorem valset_signature_recorded_witness:
  "SetBridgeValsetSignature ''o2'' 20 ex_sig ex_bridge = Inr ex_signed
    \<and> GetValidatorDidSignCheckpoint ex_signed ''o2'' 20 = Inr (True, 0) \<and> CheckAndSignValidatorCheckpoint ex_ax ex_signed = Inr ([], 0)"
proof -
  have "succeeded (SetBridgeValsetSignature ''o2'' 20 ex_sig ex_bridge)" by code_simp
  then have run: "SetBridgeValsetSignature ''o2'' 20 ex_sig ex_bridge = Inr ex_signed" unfolding ex_signed_def by (rule reached_run)
  have facts: "kv_get (ValsetTimestampToIdxMap ex_bridge) 20 = Some 1" "(1 :: u64) \<noteq> 0"
    "kv_get (ValidatorCheckpointIdxMap ex_bridge) (1 - 1) = Some 10" "kv_get (BridgeValsetByTimestampMap ex_bridge) 10 = Some ex_V1"
    "kv_get (OperatorToEVMAddressMap ex_bridge) ''o2'' = Some ''B''" by code_simp+
  have "hexDecode (regRemove0xPrefix ex_sig) = Inr (CHR ''B'' # replicate 63 (CHR 0x00))" by code_simp
  note rec = valset_signature_recorded [OF ex_bridge_reachable [of "{emptyOracle ()}"] run facts this, of ex_ax]
  have "LatestCheckpointIdx ex_bridge = Some 1" "kv_get (ValidatorCheckpointIdxMap ex_bridge) 1 = Some 20" "axOperatorAddress ex_ax = ''o2''"
    by code_simp+
  moreover have "''B'' \<in> EthereumAddress ` set ex_V1" "placeOf ''B'' ex_V1 = 0" by (simp_all add: ex_V1_def)
  ultimately show ?thesis using rec run by simp
qed

text \<open>A snapshot of the first set, signed by its second validator after it has become the first.\<close>

definition ex_overtaken :: "br_world bridge_state" where
  "ex_overtaken = ex_set1\<lparr>SnapshotToAttestationsMap := [(''s'', [[], []])],
     BridgeValset := Some [\<lparr>EthereumAddress = ''A'', bvPower = 90\<rparr>, \<lparr>EthereumAddress = ''B'', bvPower = 60\<rparr>]\<rparr>"

theorem attestation_misplaced_witness:
  "\<exists>st'. SetOracleAttestation ''o1'' ''s'' ''sig'' ex_overtaken = Inr st'
    \<and> kv_get (SnapshotToAttestationsMap st') ''s'' = Some [''sig'', []] \<and> EthereumAddress (ex_V1 ! 0) \<noteq> ''A''"
proof -
  let ?V = "[\<lparr>EthereumAddress = ''A'', bvPower = 90\<rparr>, \<lparr>EthereumAddress = ''B'', bvPower = 60\<rparr>]"
  have op: "kv_get (OperatorToEVMAddressMap ex_overtaken) ''o1'' = Some ''A''" by code_simp
  have set: "BridgeValset ex_overtaken = Some ?V" by (simp add: ex_overtaken_def)
  have atts: "kv_get (SnapshotToAttestationsMap ex_overtaken) ''s'' = Some [[], []]" by (simp add: ex_overtaken_def kv_get_def)
  have U: "length [[] :: bytes, []] = length ex_V1" "distinct (map EthereumAddress ex_V1)" "1 < length ex_V1" "EthereumAddress (ex_V1 ! 1) = ''A''"
    by (simp_all add: ex_V1_def)
  show ?thesis using attestation_misplaced [OF op set _ _ _ atts U, of 0 "''sig''"] by (simp add: U(1) [symmetric])
qed

text \<open>A report of half the power within two weeks of the last set, ten milliseconds after one that got
  no snapshot.\<close>

definition ex_weak :: "u64 \<Rightarrow> aggregate" where
  "ex_weak h = ex_deposit_agg\<lparr>AggregatePower := 50, agHeight := h\<rparr>"

definition ex_week2 :: ctx where
  "ex_week2 = \<lparr>BlockTime = 1209599010000000, BlockHeight = 40\<rparr>"

definition ex_unsnapped :: "unit oracle_state" where
  "ex_unsnapped = (emptyOracle ())\<lparr>Aggregates := [((''q'', 1209599000), ex_weak 39), ((''q'', 1209599010), ex_weak 40)]\<rparr>"

theorem missing_snapshot_halts_witness:
  "bridgeEndBlock ex_br_env 1 ex_week2 ex_unsnapped ex_bridge = Inl ErrNotFound"
proof -
  have "ex_view (CompareAndSetBridgeValidators ex_br_env ex_week2 ex_bridge) = ex_view (Inr (False, ex_bridge))" by code_simp
  then obtain b st1 where run: "CompareAndSetBridgeValidators ex_br_env ex_week2 ex_bridge = Inr (b, st1)"
    and st1: "ex_view (Inr (b, st1)) = ex_view (Inr (False, ex_bridge))"
    by (cases "CompareAndSetBridgeValidators ex_br_env ex_week2 ex_bridge") (auto simp: ex_view_def)
  have same: "st1 = ex_bridge" using CompareAndSet_frame [OF run] st1 by (auto simp: ex_view_def)
  have facts: "1 < BlockHeight ex_week2" "SnapshotLimit ex_bridge = Some 1000" "(1000 :: u64) \<noteq> 0"
    "GetAggregatedReportsByHeight ex_unsnapped (heightOf ex_week2) = [ex_weak 40]" "agQueryId (ex_weak 40) = ''q''"
    "GetTimestampBefore ex_unsnapped ''q'' (BlockTime ex_week2 + 1000000000) = Inr 1209599010000000"
    "GetAggregateByTimestamp ex_unsnapped ''q'' (toU64 (unixMilli 1209599010000000)) = Inr (ex_weak 40)"
    "ValidatorCheckpoint ex_bridge = Some (vcpCheckpoint ex_cp2)" "GetCurrentValidatorSetTimestamp ex_bridge = Inr 20"
    "kv_get (ValidatorCheckpointParamsMap ex_bridge) 20 = Some ex_cp2" "AggregatePower (ex_weak 40) < vcpPowerThreshold ex_cp2"
    "GetTimestampBefore ex_unsnapped ''q'' 1209599010000000 = Inr 1209599000000000"
    "kv_get (AttestSnapshotsByReportMap ex_bridge) k = None" for k
    by (code_simp, code_simp, code_simp, code_simp, code_simp, code_simp, code_simp, code_simp, code_simp, code_simp, code_simp, code_simp)
      (simp add: ex_states kv_get_def)
  show ?thesis
    using missing_snapshot_halts [OF facts(1) run [unfolded same] facts(2,3), of ex_unsnapped "ex_weak 40" "[]"] facts by simp
qed

end
