(* ===== verification/BridgeVotes.thy ===== *)
theory BridgeVotes
  imports BridgeSigs
begin

text \<open>
  An honest validator can always extend its vote, and the others accept the extension.
\<close>

section \<open>Requested snapshots are hashes\<close>

definition requests_hashed :: "'w bridge_env \<Rightarrow> 'w bridge_state \<Rightarrow> bool" where
  "requests_hashed env st \<longleftrightarrow>
     (\<forall>h reqs s. kv_get (AttestRequestsByHeightMap st) h = Some reqs \<and> s \<in> set reqs \<longrightarrow> s \<in> range (beKeccak env))"

lemma snapshotOf_hash: "snapshotOf env c orc q t ext st = Inr (s, data) \<Longrightarrow> s \<in> range (beKeccak env)"
  by (auto simp: snapshotOf_def EncodeOracleAttestationData_def Let_def)

lemma CreateSnapshot_hashed:
  assumes "requests_hashed env st" and "CreateSnapshot env c orc q t ext st = Inr st'"
  shows "requests_hashed env st'"
proof -
  from assms(2) obtain s data st1 where s: "snapshotOf env c orc q t ext st = Inr (s, data)"
    and store: "storeSnapshot env q t s data st = Inr st1" and add: "addRequest c s ext st1 = Inr st'"
    by (auto simp: CreateSnapshot_def)
  obtain m where m: "st' = st1\<lparr>AttestRequestsByHeightMap := m\<rparr>"
      "\<forall>h reqs x. kv_get m h = Some reqs \<and> x \<in> set reqs
        \<longrightarrow> x = s \<or> (\<exists>old. kv_get (AttestRequestsByHeightMap st1) h = Some old \<and> x \<in> set old)"
    by (rule addRequest_run [OF add])
  moreover have "AttestRequestsByHeightMap st1 = AttestRequestsByHeightMap st" by (rule storeSnapshot_run [OF store]) simp
  ultimately show ?thesis using assms(1) snapshotOf_hash [OF s] unfolding requests_hashed_def by simp metis
qed

lemma hashed_reachable:
  assumes "bridge_reachable env W orcs st"
  shows "requests_hashed env st"
  using assms
proof (rule bridge_invariant)
  fix c gen w st0
  assume "bridgeModuleInitGenesis env c gen (emptyBridge w) = Inr st0" "BlockHeight c \<le> 1" "bgBridgeValSet gen = None"
  then show "requests_hashed env st0" by (rule initial_state) (simp add: requests_hashed_def emptyBridge_def kv_get_def)
next
  fix ev st st'
  assume ok: "requests_hashed env st" and "bridge_step env W orcs ev st st'"
  from step_snapshots [OF this(2)] show "requests_hashed env st'"
  proof (elim disjE exE conjE)
    fix op s att
    assume "SetOracleAttestation op s att st = Inr st'"
    then obtain m where "st' = st\<lparr>SnapshotToAttestationsMap := m\<rparr>" using SetOracleAttestation_frame by blast
    then show ?thesis using ok by (simp add: requests_hashed_def)
  next
    assume "snapshots st' = snapshots st"
    then show ?thesis using ok by (simp add: snapshots_def requests_hashed_def)
  qed (rule CreateSnapshot_hashed [OF ok])
qed

section \<open>Extending a vote\<close>

text \<open>The signatures of a checkpoint have a place for every signer, so the search for the own one
  never reads beyond them.\<close>

lemma did_sign_no_panic:
  assumes "chain_ok env st"
  shows "GetValidatorDidSignCheckpoint st op t \<noteq> Inl ErrPanic"
proof
  assume "GetValidatorDidSignCheckpoint st op t = Inl ErrPanic"
  then obtain i t0 U evm S where "kv_get (ValsetTimestampToIdxMap st) t = Some i" "i \<noteq> 0"
    "kv_get (ValidatorCheckpointIdxMap st) (i - 1) = Some t0" "kv_get (BridgeValsetByTimestampMap st) t0 = Some U"
    "kv_get (BridgeValsetSignaturesMap st) t = Some S" "signedAt evm S 0 U = Inl ErrPanic"
    by (auto simp: GetValidatorDidSignCheckpoint_def bindR_eq_Inl split: if_splits)
  moreover from this(1-5) have "length S = length U" by (rule signers_of_checkpoint [OF assms])
  ultimately show False by (simp add: signedAt_place split: if_splits)
qed

lemma check_and_sign_no_panic:
  assumes "chain_ok env st"
  shows "CheckAndSignValidatorCheckpoint ax st \<noteq> Inl ErrPanic"
  using did_sign_no_panic [OF assms]
  by (auto simp: CheckAndSignValidatorCheckpoint_def EncodeAndSignMessage_def regRemove_hexEncode bindR_eq_Inl GetLatestCheckpointIndex_def
      GetValidatorTimestampByIdxFromStorage_def GetValidatorCheckpointParamsFromStorage_def case_prod_beta split: if_splits)

lemma extensionMade_total:
  assumes "chain_ok env st"
  obtains v where "extensionMade env ax c st = Inr v"
proof -
  have "\<exists>v. extensionMade env ax c st = Inr v" using check_and_sign_no_panic [OF assms, of ax]
    by (auto simp: extensionMade_def Let_def case_prod_beta split: sum.splits error.splits)
  then show ?thesis using that by blast
qed

lemma extensionMade_short:
  assumes "extensionMade env ax c st = Inr v" and "\<And>m. length (axSign ax m) \<le> 65"
  shows "bxOracleAttestations v = attestRequests ax c st" "length (bxSignatureA v) \<le> 65" "length (bxSignatureB v) \<le> 65"
    "length (bxValsetSignature v) \<le> 65"
proof -
  have "length sig \<le> 65" if run: "CheckAndSignValidatorCheckpoint ax st = Inr (sig, t)" for sig t
  proof (cases "sig = []")
    case False
    obtain p where "kv_get (ValidatorCheckpointParamsMap st) t = Some p" "sig = axSign ax (vcpCheckpoint p)"
      by (rule signed_checkpoint [OF run False])
    then show ?thesis using assms(2) by simp
  qed simp
  then show "bxOracleAttestations v = attestRequests ax c st" "length (bxSignatureA v) \<le> 65" "length (bxSignatureB v) \<le> 65"
    "length (bxValsetSignature v) \<le> 65"
    using assms by (auto simp: extensionMade_def emptyExtension_def Let_def SignInitialMessage_def split: sum.splits error.splits prod.splits)
qed

text \<open>C27: in every reachable state a validator can extend its vote without a panic, and every node in the
  same state accepts the extension, provided it fits the size limit: it attests no more
  snapshots than are requested, these are hashes, and its signatures are short enough. The
  decoder only has to read back what the encoder wrote.\<close>

theorem extension_accepted:
  assumes "bridge_reachable env W orcs st"
    and json: "\<And>v. extensionMade env ax c st = Inr v \<Longrightarrow> axDecode ax (axMarshal ax v) = Inr v"
    and signatures: "\<And>m. length (axSign ax m) \<le> 65" and hashes: "\<And>b. length (beKeccak env b) \<le> 32"
  shows "\<exists>extension. ExtendVoteHandler env ax c st = Inr extension
    \<and> (int (length extension) \<le> 512 * 1024 \<longrightarrow> VerifyVoteExtensionHandler ax c extension st)"
proof -
  obtain v where made: "extensionMade env ax c st = Inr v" by (rule extensionMade_total [OF chain_reachable [OF assms(1)]])
  note v = extensionMade_short [OF made signatures]
  have "length s \<le> 32" if "kv_get (AttestRequestsByHeightMap st) h = Some reqs" "s \<in> set reqs" for h reqs s
    using that hashed_reachable [OF assms(1)] hashes unfolding requests_hashed_def by blast
  then have "length (oaSnapshot att) \<le> 32 \<and> length (oaAttestation att) \<le> 65" if "att \<in> set (attestRequests ax c st)" for att
    using that signatures by (auto simp: attestRequests_def GetAttestationRequestsByHeight_def getR_def split: sum.splits option.splits)
  moreover have "attestationsExpected c v st"
    by (auto simp: attestationsExpected_def v(1) attestRequests_def split: sum.splits)
  ultimately show ?thesis using made v
    by (auto simp: ExtendVoteHandler_def VerifyVoteExtensionHandler_def json maxVoteExtensionSize_def list_all_iff)
qed

section \<open>Evaluations\<close>

text \<open>A validator without an address signs the initial messages at the start of the chain.\<close>

definition ex_signer :: app_env where
  "ex_signer = ex_ax\<lparr>axDecode := (\<lambda>b. Inr (emptyExtension\<lparr>bxSignatureA := axSign ex_ax [], bxSignatureB := axSign ex_ax []\<rparr>))\<rparr>"

definition ex_hash_env :: "br_world bridge_env" where
  "ex_hash_env = ex_br_env\<lparr>beKeccak := (\<lambda>b. take 32 (ex_digest b))\<rparr>"

lemma ex_hash_start: "bridge_reachable ex_hash_env 600000 orcs ex_br_start"
proof -
  have "bridgeModuleInitGenesis ex_hash_env (ex_milli 1) ex_br_genesis (emptyBridge ex_br_world) = Inr ex_br_start"
    by (simp add: bridgeModuleInitGenesis_def bridgeInitGenesis_def ex_br_genesis_def ex_milli_def ex_br_start_def
        SetValsetCheckpointDomainSeparator_def GetMainnetChainId_def bridgeDefaultParams_def ex_hash_env_def ex_br_env_def emptyBridge_def)
  moreover have "BlockHeight (ex_milli 1) \<le> 1" "bgBridgeValSet ex_br_genesis = None" "600000 \<le> AttestRateLimitWindow (bgParams ex_br_genesis)"
    "600000 \<le> ValsetRateLimitWindow (bgParams ex_br_genesis)"
    by (simp_all add: ex_milli_def ex_br_genesis_def bridgeDefaultParams_def)
  ultimately show ?thesis unfolding bridge_reachable_def using bridge_run.start by blast
qed

theorem extension_accepted_witness:
  "ExtendVoteHandler ex_hash_env ex_signer (ex_milli 2) ex_br_start = Inr ''v'' \<and> VerifyVoteExtensionHandler ex_signer (ex_milli 2) ''v'' ex_br_start"
proof -
  have made: "extensionMade ex_hash_env ex_signer (ex_milli 2) ex_br_start
      = Inr (emptyExtension\<lparr>bxSignatureA := axSign ex_ax [], bxSignatureB := axSign ex_ax []\<rparr>)" by code_simp
  have "axDecode ex_signer (axMarshal ex_signer v) = Inr v" if "extensionMade ex_hash_env ex_signer (ex_milli 2) ex_br_start = Inr v" for v
    using that unfolding made by (simp add: ex_signer_def)
  moreover have "length (axSign ex_signer m) \<le> 65" "length (beKeccak ex_hash_env b) \<le> 32" for m b
    by (simp_all add: ex_signer_def ex_ax_def ex_hash_env_def)
  ultimately have "\<exists>extension. ExtendVoteHandler ex_hash_env ex_signer (ex_milli 2) ex_br_start = Inr extension
      \<and> (int (length extension) \<le> 512 * 1024 \<longrightarrow> VerifyVoteExtensionHandler ex_signer (ex_milli 2) extension ex_br_start)"
    by (rule extension_accepted [OF ex_hash_start [of "{} :: unit oracle_state set"]])
  moreover have "ExtendVoteHandler ex_hash_env ex_signer (ex_milli 2) ex_br_start = Inr ''v''" by code_simp
  ultimately show ?thesis by simp
qed

end
