(* ===== verification/BridgeRestart.thy ===== *)
theory BridgeRestart
  imports BridgeSafety
begin

text \<open>
  A chain started from an exported state: what the import restores, and what it does not.
\<close>

section \<open>What is restored\<close>

lemma setAll_rev: "kv_get (setAll (rev m) []) = kv_get m"
  by (rule ext, subst setAll_get) (simp add: kv_get_def split: option.splits)

lemma importCheckpoint_run: "importCheckpoint d st = Inr st' \<Longrightarrow> st' = st\<lparr>ValidatorCheckpointParamsMap := kv_set (ceTimestamp d)
     \<lparr>vcpCheckpoint = ceCheckpoint d, vcpValsetHash = ceValidatorSetHash d, vcpTimestamp = ceTimestamp d,
      vcpPowerThreshold = cePowerThreshold d, vcpBlockHeight = 0\<rparr> (ValidatorCheckpointParamsMap st)\<rparr>"
  by (auto simp: importCheckpoint_def setCheckpointParams_def split: sum.splits if_splits)

text \<open>A checkpoint as it comes out of an export and the import after it.\<close>

definition reimported :: "u64 \<Rightarrow> validator_checkpoint_params \<Rightarrow> validator_checkpoint_params" where
  "reimported t p = p\<lparr>vcpTimestamp := t, vcpBlockHeight := 0\<rparr>"

definition exportedCheckpoint :: "u64 \<times> validator_checkpoint_params \<Rightarrow> checkpoint_params_entry" where
  "exportedCheckpoint = (\<lambda>(t, p). \<lparr>ceTimestamp = t, ceValidatorTimestamp = vcpTimestamp p, cePowerThreshold = vcpPowerThreshold p,
     ceValidatorSetHash = vcpValsetHash p, ceCheckpoint = vcpCheckpoint p\<rparr>)"

lemma importCheckpoints_run:
  assumes "foldR importCheckpoint (map exportedCheckpoint xs) st = Inr st'"
  shows "st' = st\<lparr>ValidatorCheckpointParamsMap := setAll (map (\<lambda>(t, p). (t, reimported t p)) xs) (ValidatorCheckpointParamsMap st)\<rparr>"
  using assms
proof (induction xs arbitrary: st)
  case (Cons x xs)
  obtain t p where x: "x = (t, p)" by (cases x)
  from Cons.prems obtain st1 where one: "importCheckpoint (exportedCheckpoint x) st = Inr st1"
    and rest: "foldR importCheckpoint (map exportedCheckpoint xs) st1 = Inr st'" by auto
  show ?case using Cons.IH [OF rest] importCheckpoint_run [OF one]
    by (cases p) (simp add: x setAll_def exportedCheckpoint_def reimported_def)
qed (simp add: setAll_def)

lemma reimported_fun: "(\<lambda>p. p\<lparr>vcpTimestamp := t, vcpBlockHeight := 0\<rparr>) = reimported t"
  by (simp add: fun_eq_iff reimported_def)

lemma reimported_get:
  "kv_get (setAll (map (\<lambda>(t, p). (t, reimported t p)) (rev m)) []) t = map_option (reimported t) (kv_get m t)"
proof -
  have "map_of (map (\<lambda>(t, p). (t, reimported t p)) m) t = map_option (reimported t) (map_of m t)" by (induction m) auto
  then show ?thesis by (subst setAll_get) (simp add: kv_get_def rev_map split: option.splits)
qed

lemma import_run:
  assumes "bridgeExportGenesis st = Inr gen" and "1 < BlockHeight c" and "bridgeModuleInitGenesis env c gen (emptyBridge w) = Inr st0"
  obtains sep where "st0 = (emptyBridge w)\<lparr>brParams := brParams st, SnapshotLimit := SnapshotLimit st,
      BridgeValset := Some (case BridgeValset st of None \<Rightarrow> [] | Some V \<Rightarrow> V),
      ValidatorCheckpoint := Some (case ValidatorCheckpoint st of None \<Rightarrow> [] | Some x \<Rightarrow> x),
      WithdrawalId := Some (case WithdrawalId st of None \<Rightarrow> 0 | Some i \<Rightarrow> i),
      LatestCheckpointIdx := Some (case LatestCheckpointIdx st of None \<Rightarrow> 0 | Some i \<Rightarrow> i),
      OperatorToEVMAddressMap := setAll (rev (OperatorToEVMAddressMap st)) [],
      EVMAddressRegisteredMap := setAll (rev (EVMAddressRegisteredMap st)) [],
      BridgeValsetSignaturesMap := setAll (rev (BridgeValsetSignaturesMap st)) [],
      ValidatorCheckpointParamsMap := setAll (map (\<lambda>(t, p). (t, reimported t p)) (rev (ValidatorCheckpointParamsMap st))) [],
      ValidatorCheckpointIdxMap := setAll (rev (ValidatorCheckpointIdxMap st)) [],
      BridgeValsetByTimestampMap := setAll (rev (BridgeValsetByTimestampMap st)) [],
      ValsetTimestampToIdxMap := setAll (rev (ValsetTimestampToIdxMap st)) [],
      DepositIdClaimedMap := setAll (rev (DepositIdClaimedMap st)) [], ValsetCheckpointDomainSeparator := Some sep\<rparr>"
proof -
  obtain params limit where st: "brParams st = Some params" "SnapshotLimit st = Some limit"
    using assms(1) by (auto simp: bridgeExportGenesis_def split: option.splits)
  from assms(3) obtain st1 where init: "bridgeInitGenesis c gen (emptyBridge w) = Inr st1"
    and sep: "SetValsetCheckpointDomainSeparator env st1 = Inr st0" by (auto simp: bridgeModuleInitGenesis_def)
  obtain sep where "st0 = st1\<lparr>ValsetCheckpointDomainSeparator := Some sep\<rparr>"
    using sep by (auto simp: SetValsetCheckpointDomainSeparator_def split: sum.splits if_splits)
  moreover have gen: "gen = \<lparr>bgParams = params, bgSnapshotLimit = limit,
      bgBridgeValSet = Some (case BridgeValset st of None \<Rightarrow> [] | Some V \<Rightarrow> V),
      bgValidatorCheckpoint = (case ValidatorCheckpoint st of None \<Rightarrow> [] | Some x \<Rightarrow> x),
      bgWithdrawalId = (case WithdrawalId st of None \<Rightarrow> 0 | Some i \<Rightarrow> i),
      bgOperatorToEvmAddressMap = rev (OperatorToEVMAddressMap st), bgEvmRegisteredMap = rev (EVMAddressRegisteredMap st),
      bgBridgeValsetSigsMap = rev (BridgeValsetSignaturesMap st),
      bgValidatorCheckpointParamsMap = map exportedCheckpoint (rev (ValidatorCheckpointParamsMap st)),
      bgValidatorCheckpointIdxMap = rev (ValidatorCheckpointIdxMap st),
      bgLatestValidatorCheckpointIdx = (case LatestCheckpointIdx st of None \<Rightarrow> 0 | Some i \<Rightarrow> i),
      bgBridgeValsetByTimestampMap = rev (BridgeValsetByTimestampMap st), bgValsetTimestampToIdxMap = rev (ValsetTimestampToIdxMap st),
      bgDepositIdClaimedMap = rev (DepositIdClaimedMap st)\<rparr>"
    using assms(1) unfolding bridgeExportGenesis_def st by (simp add: exportedCheckpoint_def)
  ultimately show ?thesis using init assms(2)
    by (intro that [of sep]) (auto simp: bridgeInitGenesis_def Let_def emptyBridge_def st dest!: importCheckpoints_run)
qed

text \<open>A state that is exported and imported above height one keeps every claimed deposit claimed,
  the next id of withdrawals, the parameters and limit, the registered addresses, and the
  chain of checkpoints with their sets and signatures; but the checkpoints come back with
  block height zero, and the way from an address to its operator is lost.\<close>

theorem bridge_genesis_roundtrip:
  assumes "bridgeExportGenesis st = Inr gen" and "1 < BlockHeight c" and "bridgeModuleInitGenesis env c gen (emptyBridge w) = Inr st0"
  shows "kv_get (DepositIdClaimedMap st0) = kv_get (DepositIdClaimedMap st)
    \<and> (\<forall>i. WithdrawalId st = Some i \<longrightarrow> WithdrawalId st0 = Some i)
    \<and> brParams st0 = brParams st \<and> SnapshotLimit st0 = SnapshotLimit st
    \<and> kv_get (OperatorToEVMAddressMap st0) = kv_get (OperatorToEVMAddressMap st)
    \<and> kv_get (EVMAddressRegisteredMap st0) = kv_get (EVMAddressRegisteredMap st)
    \<and> (\<forall>n. LatestCheckpointIdx st = Some n \<longrightarrow> LatestCheckpointIdx st0 = Some n)
    \<and> (\<forall>V. BridgeValset st = Some V \<longrightarrow> BridgeValset st0 = Some V)
    \<and> (\<forall>x. ValidatorCheckpoint st = Some x \<longrightarrow> ValidatorCheckpoint st0 = Some x)
    \<and> kv_get (ValidatorCheckpointIdxMap st0) = kv_get (ValidatorCheckpointIdxMap st)
    \<and> kv_get (ValsetTimestampToIdxMap st0) = kv_get (ValsetTimestampToIdxMap st)
    \<and> kv_get (BridgeValsetByTimestampMap st0) = kv_get (BridgeValsetByTimestampMap st)
    \<and> kv_get (BridgeValsetSignaturesMap st0) = kv_get (BridgeValsetSignaturesMap st)
    \<and> (\<forall>t. kv_get (ValidatorCheckpointParamsMap st0) t
          = map_option (\<lambda>p. p\<lparr>vcpTimestamp := t, vcpBlockHeight := 0\<rparr>) (kv_get (ValidatorCheckpointParamsMap st) t))
    \<and> EVMToOperatorAddressMap st0 = []"
  using assms
  by (rule import_run) (simp add: setAll_rev reimported_get reimported_fun emptyBridge_def)

section \<open>What is lost\<close>

text \<open>After the import above height one no evidence finds an operator: none is accepted then, and also
  later only against addresses that were not registered when the state was exported, while
  those that were cannot be registered again.\<close>

theorem import_disables_evidence:
  assumes "bridgeExportGenesis st = Inr gen" and "1 < BlockHeight c" and "bridgeModuleInitGenesis env c gen (emptyBridge w) = Inr st0"
    and "bridge_run env W orcs evs st0 st'"
  shows "(\<forall>c' ae. \<exists>e. CheckAttestationEvidence env c' ae st0 = Inl e) \<and> (\<forall>c' ve. \<exists>e. CheckValsetSignatureEvidence env c' ve st0 = Inl e)
    \<and> (\<forall>msg sig v. GetOperatorAddressFromSignature env msg sig st' = Inr v \<and> v \<noteq> [] \<longrightarrow>
        (\<exists>h. kv_get (EVMToOperatorAddressMap st') h = Some v \<and> \<not> kv_has (EVMAddressRegisteredMap st) h))
    \<and> (\<forall>op evm v. kv_has (EVMAddressRegisteredMap st) (beBytes2Hex env evm) \<and> beValAddressFromBech32 env op = Inr v
        \<longrightarrow> SetEVMAddressByOperator env op evm st' = Inr st')"
proof -
  have st0: "EVMToOperatorAddressMap st0 = []" "kv_get (EVMAddressRegisteredMap st0) = kv_get (EVMAddressRegisteredMap st)"
    by (rule import_run [OF assms(1-3)], simp add: setAll_rev emptyBridge_def)+
  have nobody: "GetOperatorAddressFromSignature env msg sig st0 = Inr v \<Longrightarrow> v = []" for msg sig v
    by (auto simp: GetOperatorAddressFromSignature_def st0(1) kv_get_def)
  let ?lost = "\<lambda>st'. \<forall>h. kv_has (EVMAddressRegisteredMap st) h \<longrightarrow> kv_has (EVMAddressRegisteredMap st') h \<and> kv_get (EVMToOperatorAddressMap st') h = None"
  have "?lost st0" by (simp add: st0 kv_has_def)
  with assms(4) have lost: "?lost st'"
  proof (induction rule: bridge_run.induct)
    case (more evs st0 st1 ev st2)
    from step_registrations [OF more.hyps(2)] show ?case
    proof (elim disjE exE)
      fix op evm
      assume "SetEVMAddressByOperator env op evm st1 = Inr st2"
      then show ?thesis using more.IH [OF more.prems] by (auto simp: SetEVMAddressByOperator_def Let_def kv_has_def split: if_splits) force
    qed (use more.IH [OF more.prems] in \<open>simp add: registrations_def\<close>)
  qed simp
  have "\<exists>h. kv_get (EVMToOperatorAddressMap st') h = Some v \<and> \<not> kv_has (EVMAddressRegisteredMap st) h"
    if "GetOperatorAddressFromSignature env msg sig st' = Inr v" "v \<noteq> []" for msg sig v
    using that lost by (auto simp: GetOperatorAddressFromSignature_def split: option.splits)
  moreover have "SetEVMAddressByOperator env op evm st' = Inr st'"
    if "kv_has (EVMAddressRegisteredMap st) (beBytes2Hex env evm)" "beValAddressFromBech32 env op = Inr v" for op evm v
    using that lost by (simp add: SetEVMAddressByOperator_def Let_def)
  moreover have "\<exists>e. CheckAttestationEvidence env c' ae st0 = Inl e" for c' ae
    by (cases "CheckAttestationEvidence env c' ae st0") (auto simp: CheckAttestationEvidence_def dest: nobody)
  moreover have "\<exists>e. CheckValsetSignatureEvidence env c' ve st0 = Inl e" for c' ve
    by (cases "CheckValsetSignatureEvidence env c' ve st0") (auto simp: CheckValsetSignatureEvidence_def dest: nobody)
  ultimately show ?thesis by blast
qed

text \<open>C40: a chain that starts again from height zero or one with an exported state never gets past the
  first block that looks at validator sets: the saved set comes back without its checkpoints,
  so the search for the time it was saved fails at the end of every block, whatever happened before.\<close>

theorem exported_genesis_halts:
  assumes "bridgeExportGenesis st = Inr gen" and "BlockHeight c \<le> 1" and "bridgeModuleInitGenesis env c gen (emptyBridge w) = Inr st0"
    and "bridge_run env W orcs evs st0 st'" and "enableHeight < BlockHeight c'"
  shows "\<exists>e. bridgeEndBlock env enableHeight c' orc st' = Inl e"
proof -
  let ?stuck = "\<lambda>st. BridgeValset st \<noteq> None \<and> ValidatorCheckpointParamsMap st = []"
  have fails: "CompareAndSetBridgeValidators env c s \<noteq> Inr r" if "?stuck s" for c s r
    using that by (auto simp: CompareAndSetBridgeValidators_def LastSavedValidatorSetStale_def GetValidatorSetTimestampBefore_def
        checkpointBefore_def firstOf_def Let_def)
  have st0: "?stuck st0" using assms(1-3)
    by (auto simp: bridgeModuleInitGenesis_def bridgeInitGenesis_def SetValsetCheckpointDomainSeparator_def Let_def bridgeExportGenesis_def
        emptyBridge_def split: sum.splits if_splits option.splits)
  have "?stuck st'" using assms(4) st0
  proof (induction rule: bridge_run.induct)
    case (more evs st0 st1 ev st2)
    have "checkpoints st2 = checkpoints st1"
      using step_checkpoints [OF more.hyps(2)] fails [OF more.IH [OF more.prems]] by blast
    then show ?case using more.IH [OF more.prems] by (simp add: checkpoints_def)
  qed simp
  then show ?thesis using fails [of st'] assms(5)
    by (cases "CompareAndSetBridgeValidators env c' st'") (auto simp: bridgeEndBlock_def)
qed

section \<open>Evaluations\<close>

definition ex_exported :: bridge_genesis where
  "ex_exported = reached ex_br_genesis (bridgeExportGenesis ex_bridge)"

lemma ex_exported_run: "bridgeExportGenesis ex_bridge = Inr ex_exported"
  unfolding ex_exported_def by (rule reached_run) code_simp

definition ex_imported :: "int \<Rightarrow> br_world bridge_state" where
  "ex_imported h = reached ex_br_start (bridgeModuleInitGenesis ex_br_env (ex_milli h) ex_exported (emptyBridge ex_br_world))"

lemma ex_imported_run:
  "bridgeModuleInitGenesis ex_br_env (ex_milli 30) ex_exported (emptyBridge ex_br_world) = Inr (ex_imported 30)"
  "bridgeModuleInitGenesis ex_br_env (ex_milli 1) ex_exported (emptyBridge ex_br_world) = Inr (ex_imported 1)"
  unfolding ex_imported_def by (rule reached_run; code_simp)+

theorem bridge_genesis_roundtrip_witness:
  "kv_get (BridgeValsetByTimestampMap (ex_imported 30)) 20 = Some ex_V2 \<and> LatestCheckpointIdx (ex_imported 30) = Some 1
    \<and> kv_get (OperatorToEVMAddressMap (ex_imported 30)) ''o2'' = Some ''B''"
proof -
  have "1 < BlockHeight (ex_milli 30)" by code_simp
  moreover have "kv_get (BridgeValsetByTimestampMap ex_bridge) 20 = Some ex_V2" "LatestCheckpointIdx ex_bridge = Some 1"
    "kv_get (OperatorToEVMAddressMap ex_bridge) ''o2'' = Some ''B''" by code_simp+
  ultimately show ?thesis using bridge_genesis_roundtrip [OF ex_exported_run _ ex_imported_run(1)] by auto
qed

theorem import_disables_evidence_witness:
  "succeeded (CheckAttestationEvidence ex_br_env ex_day22 (ex_ae 90000000) ex_bridge)
    \<and> (\<exists>e. CheckAttestationEvidence ex_br_env ex_day22 (ex_ae 90000000) (ex_imported 30) = Inl e)"
proof -
  have "succeeded (CheckAttestationEvidence ex_br_env ex_day22 (ex_ae 90000000) ex_bridge)" by code_simp
  moreover
  have "1 < BlockHeight (ex_milli 30)" by code_simp
  from import_disables_evidence [OF ex_exported_run this ex_imported_run(1) bridge_run.start [where W = 600000 and orcs = "{} :: unit oracle_state set"]]
  have "\<exists>e. CheckAttestationEvidence ex_br_env ex_day22 (ex_ae 90000000) (ex_imported 30) = Inl e" by blast
  ultimately show ?thesis ..
qed

theorem exported_genesis_halts_witness:
  "\<exists>e. bridgeEndBlock ex_br_env 1 (ex_milli 2) (emptyOracle ()) (ex_imported 1) = Inl e"
proof (rule exported_genesis_halts [OF ex_exported_run _ ex_imported_run(2) bridge_run.start [where W = 600000 and orcs = "{} :: unit oracle_state set"]])
  show "BlockHeight (ex_milli 1) \<le> 1" by code_simp
  show "1 < BlockHeight (ex_milli 2)" by code_simp
qed

end
