(* ===== verification/Spec2Isabelle.thy ===== *)
theory Spec2Isabelle
  imports Mint Registry DisputeScenarios DisputeGenesis OracleMode OracleLedger OracleCycle OracleLookup RepProps RepCache RepAnte
    BridgeOracle BridgeDrift BridgeProposal BridgeVotes BridgeRestart
begin

text \<open>
  A verification development of the Tellor layer chain, a Cosmos SDK application in which
  staked reporters submit values for queries, the chain aggregates them, disputes slash false
  reports, and validators attest the aggregates to EVM chains over a bridge. The model follows
  the keepers under \<^verbatim>\<open>src/x\<close>, the ante handler of the reporter module and the handlers of vote
  extensions under \<^verbatim>\<open>src/app\<close>, one definition per function of the code, with its names.

  \<^bold>\<open>How the parts interact.\<close> A tip or the rotation of the cycle list opens a query (oracle).
  Reporters submit values with the power of their stake (reporter), decoded by the data
  specification of the query (registry). The end of a block aggregates expired queries, pays
  reporters from tips and time-based rewards (minted by mint, split among selectors by
  reporter), claims deposits (bridge) and rotates the list. A dispute quotes a report, escrows
  stake of its reporter, collects fees, is voted on by the team, tippers, reporters and
  selectors, tallied and executed. The bridge saves the validator set in EVM form, makes
  snapshots of new aggregates, and stores the signatures that validators send with their votes
  and proposers inject into blocks.

  \<^bold>\<open>Conventions\<close> (\<open>Prelude\<close>, \<open>KVStore\<close>, \<open>Decimal\<close>, \<open>Bank\<close>). A keeper's collections are the fields of
  a record; an operation takes the state and gives \<open>error + state\<close>, a panic being the error
  \<open>ErrPanic\<close>. A message that fails leaves no trace, as the SDK discards its writes; where the
  code goes on after an error, the state it leaves is part of the result. Collections are
  association lists sorted by key; the locale \<open>kv_map\<close> states their laws. \<^verbatim>\<open>uint64\<close> is \<open>64 word\<close>,
  \<^verbatim>\<open>int64\<close> an integer wrapped by \<open>i64\<close>, \<^verbatim>\<open>math.Int\<close> an unbounded integer, \<^verbatim>\<open>math.LegacyDec\<close> an integer
  count of its units with the operations of a \<open>dec_ops\<close> record. Code outside the repository is a
  parameter: the bank (laws \<open>bank_laws\<close>, met by a reference ledger), the staking keeper and the
  hooks it calls, the ABI codec, JSON, keccak256, sha256 and the recovery of keys, bech32, the
  order in which Go walks a map. Every law is a premise of the theorem that needs it, and its
  witness instantiates it.

  \<^bold>\<open>Theories and the code they model.\<close>
  \<^item> \<open>Utils\<close>: \<^verbatim>\<open>utils/queryid.go\<close>, query ids and hexadecimal strings.
  \<^item> \<open>Mint\<close>: \<^verbatim>\<open>x/mint\<close>, the provision of a block and its distribution. A block mints and sends
    exactly its provision.
  \<^item> \<open>Registry\<close>: \<^verbatim>\<open>x/registry\<close>, data specifications. Every stored specification is well formed
    and found under its normalised name; export and import are inverse.
  \<^item> \<open>DisputeTypes\<close>, \<open>DisputeVote\<close>, \<open>DisputeFunding\<close>, \<open>DisputeExecute\<close>: \<^verbatim>\<open>x/dispute\<close>, in the order
    data, votes and tally, opening and fees, settlement. \<open>DisputeTally\<close> and \<open>DisputeSettlement\<close> prove
    the counting and the money side, \<open>DisputeInvariant\<close> the life of a dispute as a step relation
    with an invariant of its reachable states, \<open>DisputeGenesis\<close> what an export and import keep and
    lose, \<open>DisputeScenarios\<close> evaluates runs in which unsigned counts wrap.
  \<^item> \<open>ReportTypes\<close>, \<open>OracleTypes\<close>, \<open>OracleAggregate\<close>, \<open>OracleLiveness\<close>, \<open>OracleQueries\<close>, \<open>OracleBlock\<close>:
    \<^verbatim>\<open>x/oracle\<close>. \<open>OracleMedian\<close> and \<open>OracleMode\<close> prove the running aggregates equal to reference
    definitions on the final reports; \<open>OracleFrames\<close> states, as the locale \<open>oracle_view\<close> and its
    extensions, what the operations leave alone; \<open>OracleEscrow\<close> and \<open>OracleTips\<close> prove that tips are
    covered by tokens in every reachable state; \<open>OracleLedger\<close> refines the log of all tips by the
    running totals; \<open>OracleReports\<close>, \<open>OracleCycle\<close>, \<open>OracleLookup\<close> and \<open>OracleHalts\<close> prove reports, the
    rotation, the lookups and the failures of the end of a block.
  \<^item> \<open>RepTypes\<close>, \<open>RepStake\<close>, \<open>RepRewards\<close>, \<open>RepEscrow\<close>, \<open>RepMsgs\<close>, \<open>RepAnte\<close>: \<^verbatim>\<open>x/reporter\<close> with its hooks
    and its ante handler. \<open>RepFrames\<close> and \<open>RepInvariant\<close> give the invariant of all sequences of
    messages, hooks and blocks, \<open>RepQueue\<close> the distribution queue as a locale \<open>batch_queue\<close>
    interpreted on the stored queue, \<open>RepProps\<close> and \<open>RepCache\<close> the accounting of rewards and the
    cached stake, \<open>RepAnte\<close> the limit on changes of the bonded stake.
  \<^item> \<open>BridgeTypes\<close>, \<open>BridgeValset\<close>, \<open>BridgeSnapshots\<close>, \<open>BridgeTokens\<close>, \<open>BridgeEvidence\<close>, \<open>BridgeGenesis\<close>:
    \<^verbatim>\<open>x/bridge\<close>; \<open>VoteExtension\<close>: \<^verbatim>\<open>app/extend_vote.go\<close> and \<^verbatim>\<open>app/proposal_handler.go\<close>. \<open>BridgeFrames\<close> and
    \<open>BridgeInvariant\<close> give frames, the steps of the bridge and the invariants of registrations,
    evidence and snapshots, \<open>BridgeChain\<close> that of the checkpoints. \<open>BridgeMoney\<close> proves claims and
    withdrawals exact and once only, over the locale \<open>marking_system\<close>; \<open>BridgeSafety\<close> the chain of
    checkpoints, the current set, the spacing of evidence and that honest signatures are never
    evidence; \<open>BridgeDrift\<close> when the saved set is renewed; \<open>BridgeSigs\<close> where signatures are stored;
    \<open>BridgeVotes\<close> and \<open>BridgeProposal\<close> that honest extensions and proposals are accepted and what
    accepted ones can register; \<open>BridgeRestart\<close> what an export and import keep and lose.
  \<^item> \<open>BridgeOracle\<close>: the oracle over the bridge's own model in the place of the interface it calls.
  \<^item> \<open>DisputeExample\<close>, \<open>OracleExample\<close>, \<open>RepExample\<close>, \<open>BridgeExample\<close>: small chains on which the
    witnesses evaluate the definitions.

  \<^bold>\<open>Bounds.\<close> Loops of the code are recursions over the lists they walk and need no fuel; loops with
  a bound of their own, pruning and the queue, recurse on the bound the code has. The premises
  on totals, such as powers below nine trillion in \<open>BridgeDrift\<close>, are where \<^verbatim>\<open>int64\<close> would wrap.

  \<^bold>\<open>Abstractions.\<close> An iterator that is walked while its collection changes reads the keys it had at
  the start. Keys are compared as the types they encode, not as bytes with length prefixes.
  \<^verbatim>\<open>nil\<close> and empty slices are the same list. The panic of \<^verbatim>\<open>math.Int\<close> beyond 256 bits is left out.
  \<^verbatim>\<open>DelegateCoinsFromAccountToModule\<close> moves coins as a send, and a failed \<^verbatim>\<open>Delegate\<close> of the staking
  module writes nothing. Events, logs, telemetry and gas are left out.

  \<^bold>\<open>Not modelled.\<close> The construction of the application (\<^verbatim>\<open>app/app.go\<close>), the chain of ante decorators of
  the SDK and \<^verbatim>\<open>app/export.go\<close>, which only wire modules; the code generated from protobuf
  (\<^verbatim>\<open>api\<close>, \<^verbatim>\<open>*.pb.go\<close>); read-only gRPC queries and commands; migrations and upgrades, which rewrite
  stores of earlier releases once; simulation, tests, scripts and the Solidity contracts. Of
  \<^verbatim>\<open>utils/queryid.go\<close> a display helper on floats, and of \<^verbatim>\<open>x/registry/types\<close> the encoders that only
  queries use.
\<close>

end
